(* ===== verification/Prelude.thy ===== *)
theory Prelude
  imports Complex_Main "HOL-Library.AList" "HOL-Library.Char_ord"
    "HOL-Library.List_Lexorder" "HOL-Library.Sublist" "HOL-Library.Word"
begin

text \<open>
  Shared vocabulary of the development: how Go's built-in types are read in HOL, the
  errors the packages return, and the generic lemmas the component theories use.

  \<^item> A Go \<^verbatim>\<open>string\<close> or \<^verbatim>\<open>[]byte\<close> is a \<^typ>\<open>string\<close>: a list of bytes. The order of
    strings is the lexicographic order of their bytes, as \<^verbatim>\<open><\<close> on Go strings is.
  \<^item> A \<^verbatim>\<open>time.Time\<close> is the number of nanoseconds since Go's zero time, so that
    \<^verbatim>\<open>t.IsZero()\<close> is \<open>t = 0\<close>, \<^verbatim>\<open>Before\<close> and \<^verbatim>\<open>After\<close> are \<open><\<close> and \<open>>\<close>.
  \<^item> \<^verbatim>\<open>uint32\<close> and \<^verbatim>\<open>uint64\<close> are words of that width and wrap around as in Go.
  \<^item> A map that the code iterates over, or whose keys it lists, is an association list with
    distinct keys; Go's unspecified iteration order is the order of that list, which every
    theorem leaves arbitrary. A map that is only looked up and stored to is a HOL map.
  \<^item> A function that returns an error returns a sum, with \<^term>\<open>Inl\<close> for the error. A run-time
    panic (a nil pointer that is dereferenced) is the error \<open>Panic\<close>.
\<close>

section \<open>Go's types\<close>

type_synonym time = int
type_synonym raw_message = string
type_synonym ('k, 'v) gomap = "('k \<times> 'v) list"

abbreviation IsZero :: "time \<Rightarrow> bool" where
  "IsZero t \<equiv> t = 0"

abbreviation Before :: "time \<Rightarrow> time \<Rightarrow> bool" where
  "Before a b \<equiv> a < b"

abbreviation After :: "time \<Rightarrow> time \<Rightarrow> bool" where
  "After a b \<equiv> b < a"

text \<open>
  The errors of \<^verbatim>\<open>internal/runtime/errors.go\<close> and \<^verbatim>\<open>internal/runtime/engine/errors.go\<close>. A
  message built with \<^verbatim>\<open>fmt.Errorf\<close> and no sentinel is \<open>Errorf\<close>; a sentinel that is wrapped with
  a message keeps the message. The sentinels of the other packages are \<open>Sentinel\<close> with their message
  and with the text they are wrapped with, if any, so that \<^verbatim>\<open>errors.Is\<close> compares the first.
\<close>

datatype go_error =
    Errorf string
  | ErrInvalidRun string
  | ErrInvalidTransition
  | ErrTerminationFinal
  | ErrControlAttempt
  | ErrActivatedNodeSkipped
  | TransitionError string string string
  | EngineError string string string
  | Sentinel string string
  | Panic string

type_synonym 'a result = "go_error + 'a"

fun error_text :: "go_error \<Rightarrow> string" where
  "error_text (Errorf m) = m"
| "error_text (ErrInvalidRun m) = ''invalid workflow run: '' @ m"
| "error_text ErrInvalidTransition = ''invalid state transition''"
| "error_text ErrTerminationFinal = ''termination intent is already final''"
| "error_text ErrControlAttempt = ''control nodes cannot create attempts''"
| "error_text ErrActivatedNodeSkipped = ''an activated node cannot be skipped''"
| "error_text (TransitionError entity from to) =
     entity @ '' cannot transition from '' @ from @ '' to '' @ to"
| "error_text (EngineError code node field) =
     (if node = '''' then code else code @ '' at node '' @ node)"
| "error_text (Sentinel message detail) =
     (if detail = '''' then message else message @ '': '' @ detail)"
| "error_text (Panic m) = m"

text \<open>Decimal text of a number, as \<^verbatim>\<open>%d\<close> and \<^verbatim>\<open>strconv.Itoa\<close> print it.\<close>

fun show_nat :: "nat \<Rightarrow> string" where
  "show_nat n = (if n < 10 then [char_of (48 + n)]
                 else show_nat (n div 10) @ [char_of (48 + n mod 10)])"

declare show_nat.simps [simp del]

definition quoted :: "string \<Rightarrow> string" where
  "quoted s = [CHR 0x22] @ s @ [CHR 0x22]"

section \<open>Collections of rewrite rules\<close>

named_theorems run_ops \<open>definitions of the operations of a workflow run\<close>
named_theorems node_ops \<open>definitions of the operations of a node run\<close>
named_theorems attempt_ops \<open>definitions of the operations of a node attempt\<close>

section \<open>Association lists\<close>

abbreviation sorted_keys :: "('k::linorder, 'v) gomap \<Rightarrow> 'k list" where
  "sorted_keys m \<equiv> sort (map fst m)"

lemma map_of_update [simp]:
  "map_of (AList.update k v m) = (map_of m)(k \<mapsto> v)"
  by (rule update_conv')

lemma keys_update_in:
  "k \<in> fst ` set m \<Longrightarrow> map fst (AList.update k v m) = map fst m"
  by (induction m) auto

lemma keys_update_present [simp]:
  "map_of m k = Some w \<Longrightarrow> map fst (AList.update k v m) = map fst m"
  by (rule keys_update_in) (force dest: map_of_SomeD)

lemma set_update_subset: "set (AList.update k v m) \<subseteq> insert (k, v) (set m)"
  by (induction m) auto

lemma distinct_remdups_adj_sorted: "sorted xs \<Longrightarrow> distinct (remdups_adj (xs :: 'a::linorder list))"
  by (induction xs rule: remdups_adj.induct) (auto simp: order_le_less)

lemma map_of_fst_iff: "k \<in> set (map fst m) \<longleftrightarrow> (\<exists>v. map_of m k = Some v)"
  by (metis map_of_eq_None_iff not_Some_eq set_map)

lemma map_of_distinct_in:
  "distinct (map fst m) \<Longrightarrow> (k, v) \<in> set m \<longleftrightarrow> map_of m k = Some v"
  by simp

lemma ball_values_map_of:
  assumes "distinct (map fst m)"
  shows "(\<forall>(k, v) \<in> set m. P k v) \<longleftrightarrow> (\<forall>k v. map_of m k = Some v \<longrightarrow> P k v)"
  using map_of_distinct_in [OF assms] by blast

section \<open>Maps to slices\<close>

text \<open>\<^verbatim>\<open>m[k]\<close> of a map to slices is nil for a missing key; \<^verbatim>\<open>m[k] = append(m[k], v)\<close> creates it.\<close>

definition slice_at :: "('k, 'v list) gomap \<Rightarrow> 'k \<Rightarrow> 'v list" where
  "slice_at m k = (case map_of m k of None \<Rightarrow> [] | Some vs \<Rightarrow> vs)"

definition append_at :: "'k \<Rightarrow> 'v \<Rightarrow> ('k, 'v list) gomap \<Rightarrow> ('k, 'v list) gomap" where
  "append_at k v m = AList.update k (slice_at m k @ [v]) m"

lemma slice_at_Nil [simp]: "slice_at [] k = []"
  by (simp add: slice_at_def)

lemma slice_at_append_at [simp]:
  "slice_at (append_at k v m) j = (if j = k then slice_at m k @ [v] else slice_at m j)"
  by (simp add: slice_at_def append_at_def)

lemma slice_at_fold_append:
  "slice_at (fold (\<lambda>x. append_at (key x) (val x)) xs m) k
     = slice_at m k @ map val (filter (\<lambda>x. key x = k) xs)"
  by (induction xs arbitrary: m) auto

lemma slice_at_map [simp]: "f [] = [] \<Longrightarrow> slice_at (map (\<lambda>(k, vs). (k, f vs)) m) k = f (slice_at m k)"
  by (induction m) (auto simp: slice_at_def)

lemma distinct_update_fold:
  "distinct (map fst m) \<Longrightarrow> distinct (map fst (fold (\<lambda>x. AList.update (key x) (val x)) xs m))"
proof (induction xs arbitrary: m)
  case (Cons x xs)
  then show ?case
    using distinct_update [OF Cons.prems] by simp
qed simp

lemma map_of_fold_update:
  "map_of (fold (\<lambda>x. AList.update (key x) (val x)) xs m) k =
     (case find (\<lambda>x. key x = k) (rev xs) of None \<Rightarrow> map_of m k | Some x \<Rightarrow> Some (val x))"
proof (induction xs rule: rev_induct)
  case (snoc x xs)
  then show ?case
    by (auto split: option.split)
qed simp

end
