(* ===== verification/Json.thy ===== *)
theory Json
  imports Prelude
begin

text \<open>
  What the packages use of \<^verbatim>\<open>encoding/json\<close>, \<^verbatim>\<open>math/big\<close> and \<^verbatim>\<open>strings\<close>: the grammar of JSON
  texts (\<^verbatim>\<open>json.Valid\<close>, \<^verbatim>\<open>Decoder.Decode\<close> with \<^verbatim>\<open>UseNumber\<close>), the values they decode to, the
  exact rational a number literal denotes (\<^verbatim>\<open>big.Rat.SetString\<close>) and substring tests.

  A value of \<open>json\<close> is a parsed text: a number keeps its literal, as \<^verbatim>\<open>json.Number\<close> does, and
  an object keeps its members in order, repeated keys included. \<open>to_any\<close> is what decoding into
  \<^verbatim>\<open>any\<close> makes of it: the last of several members with one key wins.

  The parser recurses on fuel; \<open>parse_value_fuel\<close> shows that twice the length of the text is
  enough, so the fuel never decides a result.
\<close>

section \<open>Values\<close>

datatype json =
    JNull
  | JBool bool
  | JNumber string
  | JString string
  | JArray "json list"
  | JObject "(string \<times> json) list"

section \<open>Lexical elements\<close>

fun is_ws :: "char \<Rightarrow> bool" where
  "is_ws c = (c = CHR '' '' \<or> c = CHR 0x09 \<or> c = CHR 0x0A \<or> c = CHR 0x0D)"

fun skip_ws :: "string \<Rightarrow> string" where
  "skip_ws [] = []"
| "skip_ws (c # s) = (if is_ws c then skip_ws s else c # s)"

fun is_digit :: "char \<Rightarrow> bool" where
  "is_digit c = (CHR ''0'' \<le> c \<and> c \<le> CHR ''9'')"

fun take_digits :: "string \<Rightarrow> string \<times> string" where
  "take_digits [] = ([], [])"
| "take_digits (c # s) =
     (if is_digit c then (let (ds, r) = take_digits s in (c # ds, r)) else ([], c # s))"

fun digits_value :: "int \<Rightarrow> string \<Rightarrow> int" where
  "digits_value acc [] = acc"
| "digits_value acc (c # s) = digits_value (10 * acc + (of_char c - 48)) s"

text \<open>
  A number literal, split into sign, integer digits, fraction digits and exponent. The
  exponent is \<^term>\<open>None\<close> when there is none.
\<close>

record number_parts =
  np_neg :: bool
  np_int :: string
  np_frac :: string
  np_exp :: "(bool \<times> string) option"

definition parse_exponent :: "string \<Rightarrow> ((bool \<times> string) option \<times> string) option" where
  "parse_exponent s =
     (case s of
        c # r \<Rightarrow>
          if c = CHR ''e'' \<or> c = CHR ''E'' then
            (let (neg, r') = (case r of
                 d # r'' \<Rightarrow> if d = CHR ''-'' then (True, r'')
                            else if d = CHR ''+'' then (False, r'') else (False, r)
               | [] \<Rightarrow> (False, r));
                 (ds, rest) = take_digits r'
             in if ds = [] then None else Some (Some (neg, ds), rest))
          else Some (None, s)
      | [] \<Rightarrow> Some (None, s))"

definition parse_fraction :: "string \<Rightarrow> (string \<times> string) option" where
  "parse_fraction s =
     (case s of
        c # r \<Rightarrow>
          if c = CHR ''.'' then
            (let (ds, rest) = take_digits r in if ds = [] then None else Some (ds, rest))
          else Some ([], s)
      | [] \<Rightarrow> Some ([], s))"

definition parse_number_parts :: "string \<Rightarrow> (number_parts \<times> string) option" where
  "parse_number_parts s =
     (let (neg, s1) = (case s of c # r \<Rightarrow> if c = CHR ''-'' then (True, r) else (False, s) | [] \<Rightarrow> (False, s));
          (ds, s2) = (case s1 of
              c # r \<Rightarrow> if c = CHR ''0'' then (''0'', r) else take_digits s1
            | [] \<Rightarrow> ([], []))
      in if ds = [] then None
         else case parse_fraction s2 of
             None \<Rightarrow> None
           | Some (fr, s3) \<Rightarrow> (case parse_exponent s3 of
                 None \<Rightarrow> None
               | Some (ex, s4) \<Rightarrow>
                   Some (\<lparr>np_neg = neg, np_int = ds, np_frac = fr, np_exp = ex\<rparr>, s4)))"

definition parse_number :: "string \<Rightarrow> (string \<times> string) option" where
  "parse_number s =
     (case parse_number_parts s of
        None \<Rightarrow> None
      | Some (_, rest) \<Rightarrow> Some (take (length s - length rest) s, rest))"

text \<open>
  The number a literal denotes, \<^verbatim>\<open>new(big.Rat).SetString\<close>: an exponent that does not fit in an
  \<^verbatim>\<open>int64\<close>, or a decimal exponent beyond a million in a number that is not zero, is refused.
\<close>

definition number_rat :: "number_parts \<Rightarrow> rat option" where
  "number_rat p =
     (let m = digits_value (digits_value 0 (np_int p)) (np_frac p);
          e = (case np_exp p of None \<Rightarrow> 0
               | Some (neg, ds) \<Rightarrow> (if neg then - digits_value 0 ds else digits_value 0 ds));
          x = e - int (length (np_frac p));
          n = (if np_neg p then - m else m)
      in if e < - (2 ^ 63) \<or> 2 ^ 63 \<le> e then None
         else if m = 0 then Some 0
         else if \<bar>x\<bar> > 1000000 then None
         else if 0 \<le> x then Some (of_int (n * 10 ^ nat x))
         else Some (Fract n (10 ^ nat (- x))))"

definition rat_of_literal :: "string \<Rightarrow> rat option" where
  "rat_of_literal s =
     (case parse_number_parts s of
        Some (p, []) \<Rightarrow> number_rat p
      | _ \<Rightarrow> None)"

definition rat_is_int :: "rat \<Rightarrow> bool" where
  "rat_is_int q = (snd (quotient_of q) = 1)"

section \<open>Strings\<close>

text \<open>Comparisons of a byte with a constant are evaluated on its bits, by the code equations below.\<close>

lemma char_below:
  "of_char c < (128::nat) \<longleftrightarrow> c < CHR 0x80" "of_char c < (32::nat) \<longleftrightarrow> c < CHR 0x20"
  by (simp_all add: less_char_def)

text \<open>
  The number of bytes of the UTF-8 sequence at the head of a text, or 0 if there is none
  (\<^verbatim>\<open>utf8.DecodeRune\<close> then reports the replacement character with size 1).
\<close>

fun is_cont :: "nat \<Rightarrow> bool" where
  "is_cont b = (128 \<le> b \<and> b \<le> 191)"

definition utf8_size :: "nat list \<Rightarrow> nat" where
  "utf8_size bs =
     (case bs of
        [] \<Rightarrow> 0
      | a # r \<Rightarrow>
          if a < 128 then 1
          else if 194 \<le> a \<and> a \<le> 223 then
            (case r of b # _ \<Rightarrow> if is_cont b then 2 else 0 | _ \<Rightarrow> 0)
          else if 224 \<le> a \<and> a \<le> 239 then
            (case r of b # c # _ \<Rightarrow>
               if (if a = 224 then 160 else 128) \<le> b \<and> b \<le> (if a = 237 then 159 else 191) \<and> is_cont c
               then 3 else 0 | _ \<Rightarrow> 0)
          else if 240 \<le> a \<and> a \<le> 244 then
            (case r of b # c # d # _ \<Rightarrow>
               if (if a = 240 then 144 else 128) \<le> b \<and> b \<le> (if a = 244 then 143 else 191)
                  \<and> is_cont c \<and> is_cont d
               then 4 else 0 | _ \<Rightarrow> 0)
          else 0)"

definition replacement_char :: string where
  "replacement_char = [CHR 0xEF, CHR 0xBF, CHR 0xBD]"

definition encode_rune :: "nat \<Rightarrow> string" where
  "encode_rune r =
     (if r < 128 then [char_of r]
      else if r < 2048 then [char_of (192 + r div 64), char_of (128 + r mod 64)]
      else if r < 65536 then
        [char_of (224 + r div 4096), char_of (128 + r div 64 mod 64), char_of (128 + r mod 64)]
      else [char_of (240 + r div 262144), char_of (128 + r div 4096 mod 64),
            char_of (128 + r div 64 mod 64), char_of (128 + r mod 64)])"

fun hex_digit :: "char \<Rightarrow> nat option" where
  "hex_digit c =
     (let n = of_char c :: nat in
      if 48 \<le> n \<and> n \<le> 57 then Some (n - 48)
      else if 97 \<le> n \<and> n \<le> 102 then Some (n - 87)
      else if 65 \<le> n \<and> n \<le> 70 then Some (n - 55)
      else None)"

definition hex4 :: "string \<Rightarrow> (nat \<times> string) option" where
  "hex4 s =
     (case s of
        a # b # c # d # r \<Rightarrow>
          (case (hex_digit a, hex_digit b, hex_digit c, hex_digit d) of
             (Some w, Some x, Some y, Some z) \<Rightarrow> Some (4096 * w + 256 * x + 16 * y + z, r)
           | _ \<Rightarrow> None)
      | _ \<Rightarrow> None)"

text \<open>
  After \<^verbatim>\<open>\u\<close>: a surrogate pair is combined with the escape that follows it; a lone surrogate
  becomes the replacement character and the following text is read on its own.
\<close>

definition unicode_escape :: "string \<Rightarrow> (string \<times> string) option" where
  "unicode_escape s =
     (case hex4 s of
        None \<Rightarrow> None
      | Some (u, r) \<Rightarrow>
          if u < 55296 \<or> 57343 < u then Some (encode_rune u, r)
          else case r of
              a # b # r' \<Rightarrow>
                (if a = CHR 0x5C \<and> b = CHR ''u'' \<and> u < 56320 then
                   (case hex4 r' of
                      Some (v, r'') \<Rightarrow>
                        if 56320 \<le> v \<and> v \<le> 57343
                        then Some (encode_rune ((u - 55296) * 1024 + (v - 56320) + 65536), r'')
                        else Some (replacement_char, r)
                    | None \<Rightarrow> Some (replacement_char, r))
                 else Some (replacement_char, r))
            | _ \<Rightarrow> Some (replacement_char, r))"

definition simple_escape :: "char \<Rightarrow> char option" where
  "simple_escape c =
     (if c = CHR 0x22 \<or> c = CHR 0x5C \<or> c = CHR ''/'' then Some c
      else if c = CHR ''b'' then Some (CHR 0x08)
      else if c = CHR ''f'' then Some (CHR 0x0C)
      else if c = CHR ''n'' then Some (CHR 0x0A)
      else if c = CHR ''r'' then Some (CHR 0x0D)
      else if c = CHR ''t'' then Some (CHR 0x09)
      else None)"

text \<open>One element of a string literal: its decoded bytes and the rest of the text.\<close>

definition string_unit :: "char \<Rightarrow> string \<Rightarrow> (string \<times> string) option" where
  "string_unit c r =
     (if c = CHR 0x5C then
        (case r of
           [] \<Rightarrow> None
         | d # r' \<Rightarrow>
             if d = CHR ''u'' then unicode_escape r'
             else map_option (\<lambda>e. ([e], r')) (simple_escape d))
      else if of_char c < (32::nat) then None
      else if of_char c < (128::nat) then Some ([c], r)
      else (let n = utf8_size (map of_char (c # r)) in
            if n = 0 then Some (replacement_char, r)
            else Some (c # take (n - 1) r, drop (n - 1) r)))"

lemma string_unit_code [code]:
  "string_unit c r =
     (if c = CHR 0x5C then
        (case r of
           [] \<Rightarrow> None
         | d # r' \<Rightarrow>
             if d = CHR ''u'' then unicode_escape r'
             else map_option (\<lambda>e. ([e], r')) (simple_escape d))
      else if c < CHR 0x20 then None
      else if c < CHR 0x80 then Some ([c], r)
      else (let n = utf8_size (map of_char (c # r)) in
            if n = 0 then Some (replacement_char, r)
            else Some (c # take (n - 1) r, drop (n - 1) r)))"
  by (simp only: string_unit_def char_below)

fun parse_string_body :: "nat \<Rightarrow> string \<Rightarrow> (string \<times> string) option" where
  "parse_string_body 0 s = None"
| "parse_string_body (Suc n) s =
     (case s of
        [] \<Rightarrow> None
      | c # r \<Rightarrow>
          if c = CHR 0x22 then Some ([], r)
          else case string_unit c r of
              None \<Rightarrow> None
            | Some (u, r') \<Rightarrow> (case parse_string_body n r' of
                  None \<Rightarrow> None
                | Some (t, rest) \<Rightarrow> Some (u @ t, rest)))"

definition parse_string :: "string \<Rightarrow> (string \<times> string) option" where
  "parse_string s = parse_string_body (length s) s"

fun match_prefix :: "string \<Rightarrow> string \<Rightarrow> string option" where
  "match_prefix [] s = Some s"
| "match_prefix (p # ps) [] = None"
| "match_prefix (p # ps) (c # s) = (if p = c then match_prefix ps s else None)"

section \<open>Texts\<close>

text \<open>Arrays and objects nest at most this deep (\<^verbatim>\<open>maxNestingDepth\<close> of the scanner).\<close>

definition max_nesting :: int where
  "max_nesting = 10000"

text \<open>
  \<open>parse_value f d s\<close> reads one value after optional white space, at nesting depth \<open>d\<close>;
  \<open>parse_elements\<close> and \<open>parse_members\<close> read the rest of a non-empty array or object up to its
  closing bracket.
\<close>

fun parse_value :: "nat \<Rightarrow> nat \<Rightarrow> string \<Rightarrow> (json \<times> string) option"
  and parse_elements :: "nat \<Rightarrow> nat \<Rightarrow> string \<Rightarrow> (json list \<times> string) option"
  and parse_members :: "nat \<Rightarrow> nat \<Rightarrow> string \<Rightarrow> ((string \<times> json) list \<times> string) option"
where
  "parse_value 0 d s = None"
| "parse_value (Suc f) d s =
     (case skip_ws s of
        [] \<Rightarrow> None
      | c # r \<Rightarrow>
          if c = CHR 0x22 then map_option (\<lambda>(t, rest). (JString t, rest)) (parse_string r)
          else if c = CHR ''['' then
            (if int d < max_nesting then
               (case skip_ws r of
                  [] \<Rightarrow> None
                | c' # r' \<Rightarrow>
                    if c' = CHR '']'' then Some (JArray [], r')
                    else map_option (\<lambda>(vs, rest). (JArray vs, rest)) (parse_elements f (Suc d) r))
             else None)
          else if c = CHR ''{'' then
            (if int d < max_nesting then
               (case skip_ws r of
                  [] \<Rightarrow> None
                | c' # r' \<Rightarrow>
                    if c' = CHR ''}'' then Some (JObject [], r')
                    else map_option (\<lambda>(ms, rest). (JObject ms, rest)) (parse_members f (Suc d) r))
             else None)
          else if c = CHR ''t'' then map_option (Pair (JBool True)) (match_prefix ''rue'' r)
          else if c = CHR ''f'' then map_option (Pair (JBool False)) (match_prefix ''alse'' r)
          else if c = CHR ''n'' then map_option (Pair JNull) (match_prefix ''ull'' r)
          else map_option (\<lambda>(n, rest). (JNumber n, rest)) (parse_number (c # r)))"
| "parse_elements 0 d s = None"
| "parse_elements (Suc f) d s =
     (case parse_value f d s of
        None \<Rightarrow> None
      | Some (v, r) \<Rightarrow>
          (case skip_ws r of
             [] \<Rightarrow> None
           | c # r' \<Rightarrow>
               if c = CHR '']'' then Some ([v], r')
               else if c = CHR '','' then
                 map_option (\<lambda>(vs, rest). (v # vs, rest)) (parse_elements f d r')
               else None))"
| "parse_members 0 d s = None"
| "parse_members (Suc f) d s =
     (case skip_ws s of
        [] \<Rightarrow> None
      | q # r0 \<Rightarrow>
          if q = CHR 0x22 then
            (case parse_string r0 of
               None \<Rightarrow> None
             | Some (k, r1) \<Rightarrow>
                 (case skip_ws r1 of
                    [] \<Rightarrow> None
                  | c # r2 \<Rightarrow>
                      if c = CHR '':'' then
                        (case parse_value f d r2 of
                           None \<Rightarrow> None
                         | Some (v, r3) \<Rightarrow>
                             (case skip_ws r3 of
                                [] \<Rightarrow> None
                              | c' # r4 \<Rightarrow>
                                  if c' = CHR ''}'' then Some ([(k, v)], r4)
                                  else if c' = CHR '','' then
                                    map_option (\<lambda>(ms, rest). ((k, v) # ms, rest)) (parse_members f d r4)
                                  else None))
                      else None))
          else None)"

text \<open>
  \<open>decode_first\<close> is \<^verbatim>\<open>Decoder.Decode\<close>: one value from the start of the text, whatever follows
  it. \<open>parse_text\<close> is \<^verbatim>\<open>json.Unmarshal\<close>: the text is one value and white space, and \<open>json_valid\<close>
  (\<^verbatim>\<open>json.Valid\<close>) is its domain.
\<close>

definition text_fuel :: "string \<Rightarrow> nat" where
  "text_fuel s = 2 * length s + 2"

definition decode_first :: "raw_message \<Rightarrow> json option" where
  "decode_first s = map_option fst (parse_value (text_fuel s) 0 s)"

definition parse_text :: "raw_message \<Rightarrow> json option" where
  "parse_text s =
     (case parse_value (text_fuel s) 0 s of
        Some (v, rest) \<Rightarrow> (if skip_ws rest = [] then Some v else None)
      | None \<Rightarrow> None)"

definition json_valid :: "raw_message \<Rightarrow> bool" where
  "json_valid s = (parse_text s \<noteq> None)"

section \<open>Decoding into any\<close>

definition dedup_members :: "(string \<times> 'a) list \<Rightarrow> (string \<times> 'a) list" where
  "dedup_members ms = fold (\<lambda>(k, v) m. AList.update k v m) ms []"

fun to_any :: "json \<Rightarrow> json" where
  "to_any (JArray vs) = JArray (map to_any vs)"
| "to_any (JObject ms) = JObject (dedup_members (map (\<lambda>(k, v). (k, to_any v)) ms))"
| "to_any v = v"

text \<open>\<^verbatim>\<open>reflect.DeepEqual\<close> on two decoded values: objects are compared as maps.\<close>

fun deep_equal :: "json \<Rightarrow> json \<Rightarrow> bool" where
  "deep_equal (JArray xs) (JArray ys) = (length xs = length ys \<and> list_all2 deep_equal xs ys)"
| "deep_equal (JObject xs) (JObject ys) =
     (length xs = length ys \<and>
      list_all (\<lambda>(k, v). case map_of ys k of None \<Rightarrow> False | Some w \<Rightarrow> deep_equal v w) xs)"
| "deep_equal x y = (x = y)"

section \<open>Substring tests\<close>

fun contains_str :: "string \<Rightarrow> string \<Rightarrow> bool" where
  "contains_str [] p = (p = [])"
| "contains_str (c # s) p = (match_prefix p (c # s) \<noteq> None \<or> contains_str s p)"

definition has_prefix :: "string \<Rightarrow> string \<Rightarrow> bool" where
  "has_prefix s p = (match_prefix p s \<noteq> None)"

definition has_suffix :: "string \<Rightarrow> string \<Rightarrow> bool" where
  "has_suffix s p = (match_prefix (rev p) (rev s) \<noteq> None)"

text \<open>\<^verbatim>\<open>strings.Split(s, sep)\<close> for a separator of one byte.\<close>

fun split_on :: "char \<Rightarrow> string \<Rightarrow> string list" where
  "split_on sep [] = [[]]"
| "split_on sep (c # s) =
     (if c = sep then [] # split_on sep s
      else (case split_on sep s of [] \<Rightarrow> [[c]] | w # ws \<Rightarrow> (c # w) # ws))"

section \<open>The fuel is enough\<close>

text \<open>Every element of the grammar consumes at least one byte.\<close>

lemma skip_ws_length [termination_simp]: "length (skip_ws s) \<le> length s"
  by (induction s) auto

lemma skip_ws_Cons_length: "skip_ws s = c # r \<Longrightarrow> length r < length s"
  using skip_ws_length [of s] by simp

lemma take_digits_append: "take_digits s = (ds, r) \<Longrightarrow> s = ds @ r"
  by (induction s arbitrary: ds) (auto split: if_splits prod.splits)

lemma parse_fraction_length: "parse_fraction s = Some (fr, r) \<Longrightarrow> length r \<le> length s"
  by (auto simp: parse_fraction_def dest!: take_digits_append
      split: list.splits if_splits prod.splits)

lemma parse_exponent_length: "parse_exponent s = Some (ex, r) \<Longrightarrow> length r \<le> length s"
  by (auto simp: parse_exponent_def Let_def dest!: take_digits_append
      split: list.splits if_splits prod.splits)

lemma parse_number_parts_length:
  assumes "parse_number_parts s = Some (p, r)"
  shows "length r < length s"
proof -
  define s1 where "s1 = (case s of c # t \<Rightarrow> if c = CHR ''-'' then t else s | [] \<Rightarrow> s)"
  obtain ds s2 where ds: "(case s1 of c # t \<Rightarrow> if c = CHR ''0'' then (''0'', t) else take_digits s1
      | [] \<Rightarrow> ([], [])) = (ds, s2)"
    by fastforce
  have split: "s1 = ds @ s2"
    using ds by (auto split: list.splits if_splits dest: take_digits_append
        simp del: take_digits.simps)
  have le: "length s1 \<le> length s"
    by (auto simp: s1_def split: list.splits)
  obtain fr s3 ex where "ds \<noteq> []" and fr: "parse_fraction s2 = Some (fr, s3)"
      and ex: "parse_exponent s3 = Some (ex, r)"
    using assms ds unfolding parse_number_parts_def s1_def
    by (auto simp: Let_def split: list.splits if_splits option.splits prod.splits)
  then show ?thesis
    using split le parse_fraction_length [OF fr] parse_exponent_length [OF ex]
    by (cases ds) auto
qed

lemma parse_number_length: "parse_number s = Some (n, r) \<Longrightarrow> length r < length s"
  by (auto simp: parse_number_def dest: parse_number_parts_length split: option.splits)

lemma hex4_length: "hex4 s = Some (u, r) \<Longrightarrow> length r < length s"
  by (auto simp: hex4_def split: list.splits option.splits)

lemma unicode_escape_length: "unicode_escape s = Some (u, r) \<Longrightarrow> length r < length s"
  by (auto simp: unicode_escape_def dest!: hex4_length split: option.splits if_splits list.splits)

lemma string_unit_length: "string_unit c s = Some (u, r) \<Longrightarrow> length r \<le> length s"
  by (auto simp: string_unit_def Let_def dest!: unicode_escape_length
      split: list.splits if_splits option.splits)

lemma parse_string_body_length:
  "parse_string_body n s = Some (t, r) \<Longrightarrow> length r < length s"
proof (induction n s arbitrary: t rule: parse_string_body.induct)
  case (2 n s)
  then show ?case
    by (fastforce split: list.splits if_splits option.splits dest: string_unit_length)
qed simp

lemma parse_string_body_fuel:
  "length s \<le> n \<Longrightarrow> parse_string_body (Suc n) s = parse_string_body n s"
proof (induction n arbitrary: s)
  case (Suc n)
  show ?case
  proof (cases s)
    case (Cons c r)
    have "parse_string_body (Suc n) r' = parse_string_body n r'"
      if "string_unit c r = Some (u, r')" for u r'
      using Suc.prems Cons string_unit_length [OF that] by (intro Suc.IH) simp
    then show ?thesis
      using Cons by (auto split: option.splits)
  qed simp
qed simp

lemma parse_string_length: "parse_string s = Some (t, r) \<Longrightarrow> length r < length s"
  by (auto simp: parse_string_def dest: parse_string_body_length)

lemma match_prefix_iff: "match_prefix p s = Some r \<longleftrightarrow> s = p @ r"
  by (induction p s rule: match_prefix.induct) auto

lemma parse_length:
  "parse_value f d s = Some (v, r) \<Longrightarrow> length r < length s"
  "parse_elements f d s = Some (vs, r) \<Longrightarrow> length r < length s"
  "parse_members f d s = Some (ms, r) \<Longrightarrow> length r < length s"
proof (induction f d s and f d s and f d s arbitrary: v r and vs r and ms r
    rule: parse_value_parse_elements_parse_members.induct)
  case (2 f d s)
  then show ?case
    by (fastforce split: list.splits if_splits
        dest: skip_ws_Cons_length parse_string_length parse_number_length simp: match_prefix_iff)
next
  case (4 f d s)
  then show ?case
    by (fastforce split: list.splits if_splits option.splits prod.splits dest: skip_ws_Cons_length)
next
  case (6 f d s)
  then show ?case
    by (fastforce split: list.splits if_splits option.splits prod.splits
        dest: skip_ws_Cons_length parse_string_length)
qed simp_all

declare parse_value.simps [simp del] parse_elements.simps [simp del] parse_members.simps [simp del]

lemma parse_fuel_step:
  "2 * length s < f \<Longrightarrow> parse_value (Suc f) d s = parse_value f d s"
  "2 * length s + 1 < f \<Longrightarrow> parse_elements (Suc f) d s = parse_elements f d s"
  "2 * length s + 1 < f \<Longrightarrow> parse_members (Suc f) d s = parse_members f d s"
proof (induction f arbitrary: d s)
  case (Suc f)
  {
    case 1
    show ?case
    proof (cases "skip_ws s")
      case (Cons c r)
      have "parse_elements (Suc f) d' r = parse_elements f d' r"
        and "parse_members (Suc f) d' r = parse_members f d' r" for d'
        using 1 Suc.IH(2,3) [of r] skip_ws_Cons_length [OF Cons] by simp_all
      then show ?thesis
        using Cons by (simp add: parse_value.simps(2) split: list.split)
    qed (simp add: parse_value.simps(2))
  next
    case 2
    have "parse_value (Suc f) d s = parse_value f d s"
      using 2 by (intro Suc.IH(1)) simp
    moreover have "parse_elements (Suc f) d r' = parse_elements f d r'"
      if "parse_value f d s = Some (v, r)" "skip_ws r = c # r'" for v r c r'
      using 2 parse_length(1) [OF that(1)] skip_ws_Cons_length [OF that(2)]
      by (intro Suc.IH(2)) simp
    ultimately show ?case
      by (fastforce simp: parse_elements.simps(2) split: option.split list.split)
  next
    case 3
    have val: "parse_value (Suc f) d r2 = parse_value f d r2"
      if "skip_ws s = q # r0" "parse_string r0 = Some (k, r1)" "skip_ws r1 = c # r2"
      for q r0 k r1 c r2
      using 3 skip_ws_Cons_length [OF that(1)] parse_string_length [OF that(2)]
        skip_ws_Cons_length [OF that(3)]
      by (intro Suc.IH(1)) simp
    have mem: "parse_members (Suc f) d r4 = parse_members f d r4"
      if "skip_ws s = q # r0" "parse_string r0 = Some (k, r1)" "skip_ws r1 = c # r2"
        "parse_value f d r2 = Some (v, r3)" "skip_ws r3 = c' # r4" for q r0 k r1 c r2 v r3 c' r4
      using 3 skip_ws_Cons_length [OF that(1)] parse_string_length [OF that(2)]
        skip_ws_Cons_length [OF that(3)] parse_length(1) [OF that(4)] skip_ws_Cons_length [OF that(5)]
      by (intro Suc.IH(3)) simp
    from val mem show ?case
      by (fastforce simp: parse_members.simps(2) split: option.split list.split)
  }
qed simp_all

lemma parse_value_fuel:
  "text_fuel s \<le> f \<Longrightarrow> parse_value f d s = parse_value (text_fuel s) d s"
proof (induction f rule: dec_induct)
  case (step f)
  then show ?case
    using parse_fuel_step(1) [of s f d] by (simp add: text_fuel_def)
qed simp

lemma has_prefix_iff: "has_prefix s p \<longleftrightarrow> prefix p s"
  by (auto simp: has_prefix_def prefix_def match_prefix_iff)

lemma has_suffix_iff: "has_suffix s p \<longleftrightarrow> suffix p s"
  by (auto simp: has_suffix_def suffix_to_prefix prefix_def match_prefix_iff)

lemma contains_str_iff: "contains_str s p \<longleftrightarrow> sublist p s"
  by (induction s) (auto simp: sublist_Cons_right prefix_def match_prefix_iff)

end
