(* ===== verification/Runtime_Model.thy ===== *)
theory Runtime_Model
  imports Json
begin

text \<open>
  The domain state of a run: \<^verbatim>\<open>internal/runtime/transitions.go\<close> and \<^verbatim>\<open>internal/runtime/model.go\<close>.
  A workflow run, its node runs and their attempts are records; each method of the Go types is a
  function that takes the receiver and returns the new one, or the error. Every method of this
  package checks before it assigns, so an error leaves the receiver as it was.

  An enumeration of the source is a string type with named constants; the constructor
  \<open>Other\<dots>\<close> of each datatype stands for every string that is not one of the constants, which
  the code rejects explicitly when it restores persisted rows.
\<close>

section \<open>Enumerations\<close>

datatype RunPurpose = RunPurposeTest | RunPurposeProduction | OtherRunPurpose string

datatype DefinitionSource =
  DefinitionDraftSnapshot | DefinitionPublishedVersion | OtherDefinitionSource string

datatype RunState =
  RunPending | RunRunning | RunSucceeded | RunFailed | RunCanceled | RunTimedOut
  | OtherRunState string

datatype TerminationKind =
  TerminationFailed | TerminationCanceled | TerminationTimedOut | OtherTerminationKind string

datatype NodeKind = NodeControl | NodeTask | OtherNodeKind string

datatype NodeState =
  NodePending | NodeReady | NodeQueued | NodeRunning | NodeRetryWait | NodeSucceeded
  | NodeFailed | NodeTimedOut | NodeSkipped | NodeCanceled | OtherNodeState string

datatype RetryKind = AttemptInitial | AttemptBusiness | AttemptRecovery | OtherRetryKind string

datatype AttemptState =
  AttemptQueued | AttemptRunning | AttemptSucceeded | AttemptFailed | AttemptTimedOut
  | AttemptCanceled | AttemptLost | OtherAttemptState string

fun RunState_Terminal :: "RunState \<Rightarrow> bool" where
  "RunState_Terminal RunSucceeded = True"
| "RunState_Terminal RunFailed = True"
| "RunState_Terminal RunCanceled = True"
| "RunState_Terminal RunTimedOut = True"
| "RunState_Terminal _ = False"

fun NodeState_Terminal :: "NodeState \<Rightarrow> bool" where
  "NodeState_Terminal NodeSucceeded = True"
| "NodeState_Terminal NodeFailed = True"
| "NodeState_Terminal NodeTimedOut = True"
| "NodeState_Terminal NodeSkipped = True"
| "NodeState_Terminal NodeCanceled = True"
| "NodeState_Terminal _ = False"

fun AttemptState_Terminal :: "AttemptState \<Rightarrow> bool" where
  "AttemptState_Terminal AttemptSucceeded = True"
| "AttemptState_Terminal AttemptFailed = True"
| "AttemptState_Terminal AttemptTimedOut = True"
| "AttemptState_Terminal AttemptCanceled = True"
| "AttemptState_Terminal AttemptLost = True"
| "AttemptState_Terminal _ = False"

text \<open>The text of a state, which \<^verbatim>\<open>TransitionError\<close> reports.\<close>

fun RunState_text :: "RunState \<Rightarrow> string" where
  "RunState_text RunPending = ''pending''"
| "RunState_text RunRunning = ''running''"
| "RunState_text RunSucceeded = ''succeeded''"
| "RunState_text RunFailed = ''failed''"
| "RunState_text RunCanceled = ''canceled''"
| "RunState_text RunTimedOut = ''timed_out''"
| "RunState_text (OtherRunState s) = s"

fun TerminationKind_text :: "TerminationKind \<Rightarrow> string" where
  "TerminationKind_text TerminationFailed = ''failed''"
| "TerminationKind_text TerminationCanceled = ''canceled''"
| "TerminationKind_text TerminationTimedOut = ''timed_out''"
| "TerminationKind_text (OtherTerminationKind s) = s"

fun NodeState_text :: "NodeState \<Rightarrow> string" where
  "NodeState_text NodePending = ''pending''"
| "NodeState_text NodeReady = ''ready''"
| "NodeState_text NodeQueued = ''queued''"
| "NodeState_text NodeRunning = ''running''"
| "NodeState_text NodeRetryWait = ''retry_wait''"
| "NodeState_text NodeSucceeded = ''succeeded''"
| "NodeState_text NodeFailed = ''failed''"
| "NodeState_text NodeTimedOut = ''timed_out''"
| "NodeState_text NodeSkipped = ''skipped''"
| "NodeState_text NodeCanceled = ''canceled''"
| "NodeState_text (OtherNodeState s) = s"

fun AttemptState_text :: "AttemptState \<Rightarrow> string" where
  "AttemptState_text AttemptQueued = ''queued''"
| "AttemptState_text AttemptRunning = ''running''"
| "AttemptState_text AttemptSucceeded = ''succeeded''"
| "AttemptState_text AttemptFailed = ''failed''"
| "AttemptState_text AttemptTimedOut = ''timed_out''"
| "AttemptState_text AttemptCanceled = ''canceled''"
| "AttemptState_text AttemptLost = ''lost''"
| "AttemptState_text (OtherAttemptState s) = s"

section \<open>Transition tables\<close>

fun validRunTransition :: "RunState \<Rightarrow> RunState \<Rightarrow> bool" where
  "validRunTransition RunPending to = (to = RunRunning \<or> to = RunCanceled \<or> to = RunTimedOut)"
| "validRunTransition RunRunning to =
     (to = RunSucceeded \<or> to = RunFailed \<or> to = RunCanceled \<or> to = RunTimedOut)"
| "validRunTransition _ _ = False"

fun validNodeTransition :: "NodeKind \<Rightarrow> NodeState \<Rightarrow> NodeState \<Rightarrow> bool" where
  "validNodeTransition NodeControl from to =
     (from = NodePending \<and>
      (to = NodeSucceeded \<or> to = NodeFailed \<or> to = NodeSkipped \<or> to = NodeCanceled))"
| "validNodeTransition _ NodePending to =
     (to = NodeReady \<or> to = NodeFailed \<or> to = NodeSkipped \<or> to = NodeCanceled)"
| "validNodeTransition _ NodeReady to = (to = NodeQueued \<or> to = NodeCanceled)"
| "validNodeTransition _ NodeQueued to = (to = NodeRunning \<or> to = NodeCanceled)"
| "validNodeTransition _ NodeRunning to =
     (to = NodeRetryWait \<or> to = NodeSucceeded \<or> to = NodeFailed \<or> to = NodeTimedOut \<or> to = NodeCanceled)"
| "validNodeTransition _ NodeRetryWait to = (to = NodeReady \<or> to = NodeCanceled)"
| "validNodeTransition _ _ _ = False"

fun validAttemptTransition :: "AttemptState \<Rightarrow> AttemptState \<Rightarrow> bool" where
  "validAttemptTransition AttemptQueued to = (to = AttemptRunning \<or> to = AttemptCanceled)"
| "validAttemptTransition AttemptRunning to =
     (to = AttemptSucceeded \<or> to = AttemptFailed \<or> to = AttemptTimedOut \<or> to = AttemptCanceled
      \<or> to = AttemptLost)"
| "validAttemptTransition _ _ = False"

section \<open>Workflow runs\<close>

record DefinitionReference =
  dr_SnapshotID :: string
  dr_DefinitionHash :: string
  dr_Source :: DefinitionSource
  dr_PublishedVersionID :: string

record CreateRunCommand =
  cmd_RunID :: string
  cmd_ProjectID :: string
  cmd_WorkflowID :: string
  cmd_Purpose :: RunPurpose
  cmd_Definition :: DefinitionReference
  cmd_WorkflowInput :: raw_message
  cmd_DeadlineAt :: time
  cmd_CreatedAt :: time

text \<open>
  \<^verbatim>\<open>map[string]any\<close> details of a failure: \<^term>\<open>None\<close> is the nil map.
\<close>

type_synonym details = "(string \<times> json) list option"

record Failure =
  fail_Code :: string
  fail_Phase :: string
  fail_Retryable :: bool
  fail_RunID :: string
  fail_SnapshotID :: string
  fail_DefinitionHash :: string
  fail_ExecutionNodeID :: string
  fail_DSLField :: string
  fail_ExecutionEdgeID :: string
  fail_AttemptID :: string
  fail_Expected :: string
  fail_Actual :: string
  fail_Message :: string
  fail_Details :: details

record TerminationIntent =
  ti_Kind :: TerminationKind
  ti_RequestedAt :: time
  ti_Cause :: Failure

record WorkflowRun =
  run_id :: string
  run_projectID :: string
  run_workflowID :: string
  run_purpose :: RunPurpose
  run_definition :: DefinitionReference
  run_workflowInput :: raw_message
  run_workflowOutput :: raw_message
  run_deadlineAt :: time
  run_createdAt :: time
  run_state :: RunState
  run_stateVersion :: "64 word"
  run_nodeRunCount :: "32 word"
  run_executionNodeIDs :: "string set"
  run_termination :: "TerminationIntent option"

definition cloneJSONObject :: "raw_message \<Rightarrow> raw_message result" where
  "cloneJSONObject raw =
     (if \<not> json_valid raw then Inl (Errorf ''value is not valid JSON'')
      else case decode_first raw of
          None \<Rightarrow> Inl (Errorf ''decode'')
        | Some (JObject _) \<Rightarrow> Inr raw
        | Some _ \<Rightarrow> Inl (Errorf ''value must be a JSON object''))"

definition NewWorkflowRun :: "CreateRunCommand \<Rightarrow> WorkflowRun result" where
  "NewWorkflowRun command =
     (let def = cmd_Definition command in
      if cmd_RunID command = '''' \<or> cmd_ProjectID command = '''' \<or> cmd_WorkflowID command = ''''
         \<or> dr_SnapshotID def = '''' \<or> dr_DefinitionHash def = ''''
         \<or> IsZero (cmd_CreatedAt command) \<or> IsZero (cmd_DeadlineAt command)
         \<or> \<not> After (cmd_DeadlineAt command) (cmd_CreatedAt command) then
        Inl (ErrInvalidRun ''identity, immutable definition, created_at and future deadline are required'')
      else if cmd_Purpose command \<noteq> RunPurposeTest \<and> cmd_Purpose command \<noteq> RunPurposeProduction then
        Inl (ErrInvalidRun ''run purpose is invalid'')
      else if dr_Source def \<noteq> DefinitionDraftSnapshot \<and> dr_Source def \<noteq> DefinitionPublishedVersion then
        Inl (ErrInvalidRun ''definition source is invalid'')
      else if cmd_Purpose command = RunPurposeProduction \<and> dr_Source def \<noteq> DefinitionPublishedVersion then
        Inl (ErrInvalidRun ''production runs require a published version'')
      else if dr_Source def = DefinitionPublishedVersion \<and> dr_PublishedVersionID def = '''' then
        Inl (ErrInvalidRun ''published definition source requires version identity'')
      else if dr_Source def = DefinitionDraftSnapshot \<and> dr_PublishedVersionID def \<noteq> '''' then
        Inl (ErrInvalidRun ''draft definition source cannot carry a published version identity'')
      else case cloneJSONObject (cmd_WorkflowInput command) of
          Inl e \<Rightarrow> Inl (ErrInvalidRun (''workflow input: '' @ error_text e))
        | Inr input \<Rightarrow> Inr \<lparr>
            run_id = cmd_RunID command, run_projectID = cmd_ProjectID command,
            run_workflowID = cmd_WorkflowID command, run_purpose = cmd_Purpose command,
            run_definition = def, run_workflowInput = input, run_workflowOutput = [],
            run_deadlineAt = cmd_DeadlineAt command, run_createdAt = cmd_CreatedAt command,
            run_state = RunPending, run_stateVersion = 1, run_nodeRunCount = 0,
            run_executionNodeIDs = {}, run_termination = None\<rparr>)"

definition WorkflowRun_transition :: "WorkflowRun \<Rightarrow> RunState \<Rightarrow> WorkflowRun result" where
  "WorkflowRun_transition run target =
     (if \<not> validRunTransition (run_state run) target then
        Inl (TransitionError ''workflow_run'' (RunState_text (run_state run)) (RunState_text target))
      else Inr (run\<lparr>run_state := target, run_stateVersion := run_stateVersion run + 1\<rparr>))"

text \<open>The loop of \<^verbatim>\<open>Start\<close> that collects the node identities.\<close>

fun collect_identities :: "string list \<Rightarrow> string set \<Rightarrow> string set result" where
  "collect_identities [] acc = Inr acc"
| "collect_identities (nid # ids) acc =
     (if nid = '''' then Inl (Errorf ''execution node identity is required'')
      else if nid \<in> acc then Inl (Errorf (''execution node identity '' @ quoted nid @ '' is duplicated''))
      else collect_identities ids (insert nid acc))"

definition WorkflowRun_Start :: "WorkflowRun \<Rightarrow> string list \<Rightarrow> WorkflowRun result" where
  "WorkflowRun_Start run executionNodeIDs =
     (if length executionNodeIDs < 2 then
        Inl (Errorf ''a workflow run requires at least start and end node runs'')
      else case collect_identities executionNodeIDs {} of
          Inl e \<Rightarrow> Inl e
        | Inr identities \<Rightarrow> (case WorkflowRun_transition run RunRunning of
              Inl e \<Rightarrow> Inl e
            | Inr run' \<Rightarrow> Inr (run'\<lparr>run_nodeRunCount := of_nat (length executionNodeIDs),
                                  run_executionNodeIDs := identities\<rparr>)))"

definition WorkflowRun_FailInitialization ::
    "WorkflowRun \<Rightarrow> Failure \<Rightarrow> time \<Rightarrow> WorkflowRun result" where
  "WorkflowRun_FailInitialization run failure ts =
     (if run_state run \<noteq> RunPending \<or> run_termination run \<noteq> None \<or> fail_Code failure = ''''
         \<or> IsZero ts \<or> Before ts (run_createdAt run) then
        Inl (Errorf ''run initialization failure is invalid'')
      else Inr (run\<lparr>run_termination := Some \<lparr>ti_Kind = TerminationFailed, ti_RequestedAt = ts,
                                            ti_Cause = failure\<rparr>,
                    run_state := RunFailed, run_stateVersion := run_stateVersion run + 1\<rparr>))"

text \<open>The first component of a result tells whether the intent was applied.\<close>

definition WorkflowRun_RequestTermination ::
    "WorkflowRun \<Rightarrow> TerminationIntent \<Rightarrow> (bool \<times> WorkflowRun) result" where
  "WorkflowRun_RequestTermination run intent =
     (if RunState_Terminal (run_state run) then Inl ErrTerminationFinal
      else if IsZero (ti_RequestedAt intent) \<or> fail_Code (ti_Cause intent) = '''' then
        Inl (Errorf ''termination intent requires timestamp and cause'')
      else if Before (ti_RequestedAt intent) (run_createdAt run) then
        Inl (Errorf ''termination intent cannot predate the run'')
      else if ti_Kind intent \<notin> {TerminationFailed, TerminationCanceled, TerminationTimedOut} then
        Inl (Errorf (''termination kind '' @ quoted (TerminationKind_text (ti_Kind intent)) @ '' is invalid''))
      else if run_state run = RunPending \<and> ti_Kind intent = TerminationFailed then
        Inl (Errorf ''pending run only accepts cancellation or deadline timeout'')
      else if run_state run = RunPending \<and> ti_Kind intent = TerminationTimedOut
              \<and> Before (ti_RequestedAt intent) (run_deadlineAt run) then
        Inl (Errorf ''pending run timeout cannot predate its deadline'')
      else if run_termination run \<noteq> None then Inr (False, run)
      else Inr (True, run\<lparr>run_termination := Some intent,
                          run_stateVersion := run_stateVersion run + 1\<rparr>))"

section \<open>Node runs\<close>

record NodeRun =
  node_runID :: string
  node_executionNodeID :: string
  node_kind :: NodeKind
  node_state :: NodeState
  node_stateVersion :: "64 word"
  node_activated :: bool
  node_selectedRoute :: string
  node_resolvedInputs :: "(string, raw_message) gomap"
  node_effectiveOutputs :: "(string, raw_message) gomap"
  node_effectiveAttemptID :: string
  node_currentAttemptID :: string
  node_nextAttemptSeq :: "32 word"
  node_businessAttemptCount :: "32 word"
  node_recoveryCount :: "32 word"
  node_nextAttemptKind :: RetryKind
  node_nextRetryAt :: time
  node_failure :: "Failure option"
  node_cancelReason :: string

definition NewNodeRun :: "string \<Rightarrow> string \<Rightarrow> NodeKind \<Rightarrow> NodeRun result" where
  "NewNodeRun runID executionNodeID kind =
     (if runID = '''' \<or> executionNodeID = '''' \<or> (kind \<noteq> NodeControl \<and> kind \<noteq> NodeTask) then
        Inl (Errorf ''invalid node run identity or kind'')
      else Inr \<lparr>
        node_runID = runID, node_executionNodeID = executionNodeID, node_kind = kind,
        node_state = NodePending, node_stateVersion = 1, node_activated = False,
        node_selectedRoute = '''', node_resolvedInputs = [], node_effectiveOutputs = [],
        node_effectiveAttemptID = '''', node_currentAttemptID = '''', node_nextAttemptSeq = 0,
        node_businessAttemptCount = 0, node_recoveryCount = 0,
        node_nextAttemptKind = AttemptInitial, node_nextRetryAt = 0, node_failure = None,
        node_cancelReason = ''''\<rparr>)"

definition NodeRun_transition :: "NodeRun \<Rightarrow> NodeState \<Rightarrow> NodeRun result" where
  "NodeRun_transition node target =
     (if \<not> validNodeTransition (node_kind node) (node_state node) target then
        Inl (TransitionError ''node_run'' (NodeState_text (node_state node)) (NodeState_text target))
      else Inr (node\<lparr>node_state := target, node_stateVersion := node_stateVersion node + 1\<rparr>))"

definition NodeRun_ExecutionIdempotencyKey :: "NodeRun \<Rightarrow> string" where
  "NodeRun_ExecutionIdempotencyKey node = node_runID node @ '':'' @ node_executionNodeID node"

definition NodeRun_Activate :: "NodeRun \<Rightarrow> NodeRun result" where
  "NodeRun_Activate node =
     (if node_state node \<noteq> NodePending then Inl (Errorf ''only pending nodes can be activated'')
      else if \<not> node_activated node then
        Inr (node\<lparr>node_activated := True, node_stateVersion := node_stateVersion node + 1\<rparr>)
      else Inr node)"

definition NodeRun_Ready :: "NodeRun \<Rightarrow> (string, raw_message) gomap \<Rightarrow> NodeRun result" where
  "NodeRun_Ready node inputs =
     (if node_kind node \<noteq> NodeTask \<or> \<not> node_activated node then
        Inl (Errorf ''only activated task nodes can become ready'')
      else case NodeRun_transition node NodeReady of
          Inl e \<Rightarrow> Inl e
        | Inr node' \<Rightarrow> Inr (node'\<lparr>node_resolvedInputs := inputs\<rparr>))"

definition NodeRun_Skip :: "NodeRun \<Rightarrow> NodeRun result" where
  "NodeRun_Skip node =
     (if node_activated node then Inl ErrActivatedNodeSkipped
      else NodeRun_transition node NodeSkipped)"

definition NodeRun_SucceedControl ::
    "NodeRun \<Rightarrow> string \<Rightarrow> (string, raw_message) gomap \<Rightarrow> NodeRun result" where
  "NodeRun_SucceedControl node route outputs =
     (if node_kind node \<noteq> NodeControl \<or> \<not> node_activated node then
        Inl (Errorf ''only activated control nodes can succeed'')
      else case NodeRun_transition node NodeSucceeded of
          Inl e \<Rightarrow> Inl e
        | Inr node' \<Rightarrow> Inr (node'\<lparr>node_selectedRoute := route, node_effectiveOutputs := outputs\<rparr>))"

definition NodeRun_FailControl :: "NodeRun \<Rightarrow> Failure \<Rightarrow> NodeRun result" where
  "NodeRun_FailControl node failure =
     (if node_kind node \<noteq> NodeControl \<or> fail_Code failure = '''' then
        Inl (Errorf ''control failure is invalid'')
      else case NodeRun_transition node NodeFailed of
          Inl e \<Rightarrow> Inl e
        | Inr node' \<Rightarrow> Inr (node'\<lparr>node_failure := Some failure\<rparr>))"

definition NodeRun_FailBeforeAttempt :: "NodeRun \<Rightarrow> Failure \<Rightarrow> NodeRun result" where
  "NodeRun_FailBeforeAttempt node failure =
     (if node_kind node \<noteq> NodeTask \<or> \<not> node_activated node \<or> node_currentAttemptID node \<noteq> ''''
         \<or> fail_Code failure = '''' then
        Inl (Errorf ''pre-attempt task failure is invalid'')
      else case NodeRun_transition node NodeFailed of
          Inl e \<Rightarrow> Inl e
        | Inr node' \<Rightarrow> Inr (node'\<lparr>node_failure := Some failure\<rparr>))"

definition NodeRun_QueueAttempt :: "NodeRun \<Rightarrow> string \<Rightarrow> (32 word \<times> RetryKind \<times> NodeRun) result" where
  "NodeRun_QueueAttempt node attemptID =
     (if node_kind node \<noteq> NodeTask then Inl ErrControlAttempt
      else if attemptID = '''' then Inl (Errorf ''attempt id is required'')
      else case NodeRun_transition node NodeQueued of
          Inl e \<Rightarrow> Inl e
        | Inr node' \<Rightarrow>
            (let seq = node_nextAttemptSeq node' + 1;
                 kind = node_nextAttemptKind node';
                 counted = (if kind = AttemptRecovery
                   then node'\<lparr>node_recoveryCount := node_recoveryCount node' + 1\<rparr>
                   else node'\<lparr>node_businessAttemptCount := node_businessAttemptCount node' + 1\<rparr>)
             in Inr (seq, kind, counted\<lparr>node_nextAttemptSeq := seq, node_currentAttemptID := attemptID,
                                       node_nextRetryAt := 0\<rparr>)))"

definition NodeRun_AttemptStarted :: "NodeRun \<Rightarrow> string \<Rightarrow> NodeRun result" where
  "NodeRun_AttemptStarted node attemptID =
     (if node_currentAttemptID node \<noteq> attemptID then Inl (Errorf ''attempt is not current'')
      else NodeRun_transition node NodeRunning)"

definition NodeRun_RetryWait :: "NodeRun \<Rightarrow> string \<Rightarrow> RetryKind \<Rightarrow> time \<Rightarrow> NodeRun result" where
  "NodeRun_RetryWait node attemptID next dueAt =
     (if node_currentAttemptID node \<noteq> attemptID \<or> (next \<noteq> AttemptBusiness \<and> next \<noteq> AttemptRecovery)
         \<or> IsZero dueAt then
        Inl (Errorf ''retry decision is invalid'')
      else case NodeRun_transition node NodeRetryWait of
          Inl e \<Rightarrow> Inl e
        | Inr node' \<Rightarrow> Inr (node'\<lparr>node_nextAttemptKind := next, node_nextRetryAt := dueAt\<rparr>))"

definition NodeRun_RetryDue :: "NodeRun \<Rightarrow> time \<Rightarrow> (bool \<times> NodeRun) result" where
  "NodeRun_RetryDue node ts =
     (if node_state node \<noteq> NodeRetryWait \<or> IsZero ts \<or> Before ts (node_nextRetryAt node) then
        Inr (False, node)
      else case NodeRun_transition node NodeReady of
          Inl e \<Rightarrow> Inl e
        | Inr node' \<Rightarrow> Inr (True, node'\<lparr>node_nextRetryAt := 0\<rparr>))"

definition NodeRun_SucceedAttempt ::
    "NodeRun \<Rightarrow> string \<Rightarrow> (string, raw_message) gomap \<Rightarrow> NodeRun result" where
  "NodeRun_SucceedAttempt node attemptID outputs =
     (if node_kind node \<noteq> NodeTask \<or> node_currentAttemptID node \<noteq> attemptID then
        Inl (Errorf ''successful attempt is not current'')
      else case NodeRun_transition node NodeSucceeded of
          Inl e \<Rightarrow> Inl e
        | Inr node' \<Rightarrow> Inr (node'\<lparr>node_effectiveAttemptID := attemptID,
                                 node_effectiveOutputs := outputs\<rparr>))"

definition NodeRun_FailAttempt ::
    "NodeRun \<Rightarrow> string \<Rightarrow> NodeState \<Rightarrow> Failure \<Rightarrow> NodeRun result" where
  "NodeRun_FailAttempt node attemptID target failure =
     (if node_kind node \<noteq> NodeTask \<or> node_currentAttemptID node \<noteq> attemptID
         \<or> fail_Code failure = '''' then
        Inl (Errorf ''attempt failure is invalid'')
      else if target \<noteq> NodeFailed \<and> target \<noteq> NodeTimedOut then
        Inl (Errorf ''attempt failure target is invalid'')
      else case NodeRun_transition node target of
          Inl e \<Rightarrow> Inl e
        | Inr node' \<Rightarrow> Inr (node'\<lparr>node_failure := Some failure\<rparr>))"

definition NodeRun_Cancel :: "NodeRun \<Rightarrow> string \<Rightarrow> NodeRun result" where
  "NodeRun_Cancel node reason =
     (if reason = '''' then Inl (Errorf ''cancel reason is required'')
      else case NodeRun_transition node NodeCanceled of
          Inl e \<Rightarrow> Inl e
        | Inr node' \<Rightarrow> Inr (node'\<lparr>node_cancelReason := reason\<rparr>))"

section \<open>Node attempts\<close>

record AttemptResult =
  res_State :: AttemptState
  res_Outputs :: "(string, raw_message) gomap"
  res_ErrorCode :: string
  res_Message :: string
  res_DSLField :: string
  res_ErrorDetails :: details

definition details_equal :: "details \<Rightarrow> details \<Rightarrow> bool" where
  "details_equal a b =
     (case (a, b) of
        (None, None) \<Rightarrow> True
      | (Some x, Some y) \<Rightarrow> deep_equal (JObject x) (JObject y)
      | _ \<Rightarrow> False)"

definition AttemptResult_Equal :: "AttemptResult \<Rightarrow> AttemptResult \<Rightarrow> bool" where
  "AttemptResult_Equal result other =
     (res_State result = res_State other \<and> res_ErrorCode result = res_ErrorCode other
      \<and> res_Message result = res_Message other \<and> res_DSLField result = res_DSLField other
      \<and> length (res_Outputs result) = length (res_Outputs other)
      \<and> details_equal (res_ErrorDetails result) (res_ErrorDetails other)
      \<and> list_all (\<lambda>(key, value). map_of (res_Outputs other) key = Some value) (res_Outputs result))"

record NodeAttempt =
  att_id :: string
  att_nodeRunID :: string
  att_sequence :: "32 word"
  att_kind :: RetryKind
  att_state :: AttemptState
  att_stateVersion :: "64 word"
  att_result :: "AttemptResult option"

definition NewNodeAttempt :: "string \<Rightarrow> string \<Rightarrow> 32 word \<Rightarrow> RetryKind \<Rightarrow> NodeAttempt result" where
  "NewNodeAttempt attemptID nodeRunID sequence kind =
     (if attemptID = '''' \<or> nodeRunID = '''' \<or> sequence = 0
         \<or> (kind \<noteq> AttemptInitial \<and> kind \<noteq> AttemptBusiness \<and> kind \<noteq> AttemptRecovery) then
        Inl (Errorf ''invalid attempt identity'')
      else Inr \<lparr>att_id = attemptID, att_nodeRunID = nodeRunID, att_sequence = sequence, att_kind = kind,
                 att_state = AttemptQueued, att_stateVersion = 1, att_result = None\<rparr>)"

definition NodeAttempt_transition :: "NodeAttempt \<Rightarrow> AttemptState \<Rightarrow> NodeAttempt result" where
  "NodeAttempt_transition attempt target =
     (if \<not> validAttemptTransition (att_state attempt) target then
        Inl (TransitionError ''node_attempt'' (AttemptState_text (att_state attempt))
               (AttemptState_text target))
      else Inr (attempt\<lparr>att_state := target, att_stateVersion := att_stateVersion attempt + 1\<rparr>))"

definition NodeAttempt_Start :: "NodeAttempt \<Rightarrow> NodeAttempt result" where
  "NodeAttempt_Start attempt = NodeAttempt_transition attempt AttemptRunning"

definition NodeAttempt_Complete :: "NodeAttempt \<Rightarrow> AttemptResult \<Rightarrow> NodeAttempt result" where
  "NodeAttempt_Complete attempt result =
     (if AttemptState_Terminal (att_state attempt) then
        (case att_result attempt of
           Some recorded \<Rightarrow>
             if AttemptResult_Equal recorded result then Inr attempt
             else Inl (TransitionError ''node_attempt'' (AttemptState_text (att_state attempt))
                         (AttemptState_text (res_State result)))
         | None \<Rightarrow> Inl (TransitionError ''node_attempt'' (AttemptState_text (att_state attempt))
                         (AttemptState_text (res_State result))))
      else if \<not> AttemptState_Terminal (res_State result) then
        Inl (Errorf ''attempt result must be terminal'')
      else if res_State result = AttemptSucceeded \<and> res_ErrorCode result \<noteq> '''' then
        Inl (Errorf ''successful attempt cannot contain an error code'')
      else if res_State result \<noteq> AttemptSucceeded \<and> res_ErrorCode result = '''' then
        Inl (Errorf ''unsuccessful attempt requires an error code'')
      else case NodeAttempt_transition attempt (res_State result) of
          Inl e \<Rightarrow> Inl e
        | Inr attempt' \<Rightarrow> Inr (attempt'\<lparr>att_result := Some result\<rparr>))"

section \<open>The node set of a run\<close>

text \<open>
  The slice of node pointers the run is given has no nil element: the engine builds it from its
  own node runs. The loop of \<^verbatim>\<open>validateNodeSet\<close> carries the identities it has seen.
\<close>

fun validate_node_identities ::
    "WorkflowRun \<Rightarrow> 32 word \<Rightarrow> string set \<Rightarrow> NodeRun list \<Rightarrow> go_error option" where
  "validate_node_identities run expected seen [] = None"
| "validate_node_identities run expected seen (node # nodes) =
     (if node_runID node \<noteq> run_id run \<or> node_executionNodeID node = '''' then
        Some (Errorf ''node run set contains an invalid identity'')
      else if node_executionNodeID node \<in> seen then
        Some (Errorf ''node run set contains a duplicate execution node'')
      else if expected > 0 \<and> node_executionNodeID node \<notin> run_executionNodeIDs run then
        Some (Errorf (''node run set contains unexpected execution node '' @ quoted (node_executionNodeID node)))
      else validate_node_identities run expected (insert (node_executionNodeID node) seen) nodes)"

definition WorkflowRun_validateNodeSet :: "WorkflowRun \<Rightarrow> NodeRun list \<Rightarrow> go_error option" where
  "WorkflowRun_validateNodeSet run nodes =
     (let expected =
        (case run_termination run of
           Some t \<Rightarrow> if run_state run = RunPending
                        \<and> (ti_Kind t = TerminationCanceled \<or> ti_Kind t = TerminationTimedOut)
                     then 0 else run_nodeRunCount run
         | None \<Rightarrow> run_nodeRunCount run)
      in if of_nat (length nodes) \<noteq> expected then
           Some (Errorf (''node run set size '' @ show_nat (length nodes) @
             '' does not match initialized size '' @ show_nat (unat expected)))
         else validate_node_identities run expected {} nodes)"

definition WorkflowRun_CompleteTermination :: "WorkflowRun \<Rightarrow> NodeRun list \<Rightarrow> WorkflowRun result" where
  "WorkflowRun_CompleteTermination run nodes =
     (case run_termination run of
        None \<Rightarrow> Inl (Errorf ''termination intent is required'')
      | Some t \<Rightarrow>
          (case WorkflowRun_validateNodeSet run nodes of
             Some e \<Rightarrow> Inl e
           | None \<Rightarrow>
               if \<not> list_all (\<lambda>node. NodeState_Terminal (node_state node)) nodes then
                 Inl (Errorf ''all node runs must be terminal before run termination'')
               else case ti_Kind t of
                   TerminationFailed \<Rightarrow> WorkflowRun_transition run RunFailed
                 | TerminationCanceled \<Rightarrow> WorkflowRun_transition run RunCanceled
                 | TerminationTimedOut \<Rightarrow> WorkflowRun_transition run RunTimedOut
                 | OtherTerminationKind k \<Rightarrow> Inl (Errorf (''termination kind '' @ quoted k @ '' is invalid''))))"

text \<open>
  \<^verbatim>\<open>CompleteWorkflowSuccess\<close> writes the run and the end node in one step; the end node is also an
  element of the slice, which is only read.
\<close>

definition CompleteWorkflowSuccess ::
    "WorkflowRun \<Rightarrow> NodeRun \<Rightarrow> NodeRun list \<Rightarrow> raw_message \<Rightarrow> (WorkflowRun \<times> NodeRun) result" where
  "CompleteWorkflowSuccess run end_node nodes output =
     (if run_state run \<noteq> RunRunning \<or> run_termination run \<noteq> None \<or> node_kind end_node \<noteq> NodeControl
         \<or> \<not> node_activated end_node \<or> node_state end_node \<noteq> NodePending then
        Inl (Errorf ''workflow success preconditions are not met'')
      else case WorkflowRun_validateNodeSet run nodes of
          Some e \<Rightarrow> Inl e
        | None \<Rightarrow>
            if \<not> list_all (\<lambda>node. node_executionNodeID node = node_executionNodeID end_node
                  \<or> node_state node = NodeSucceeded \<or> node_state node = NodeSkipped) nodes then
              Inl (Errorf ''all non-end nodes must be succeeded or skipped'')
            else if \<not> list_ex (\<lambda>node. node_executionNodeID node = node_executionNodeID end_node) nodes then
              Inl (Errorf ''workflow success node set does not contain end'')
            else case cloneJSONObject output of
                Inl e \<Rightarrow> Inl e
              | Inr object \<Rightarrow>
                  if \<not> validNodeTransition (node_kind end_node) (node_state end_node) NodeSucceeded
                     \<or> \<not> validRunTransition (run_state run) RunSucceeded then Inl ErrInvalidTransition
                  else Inr (run\<lparr>run_workflowOutput := object, run_state := RunSucceeded,
                                run_stateVersion := run_stateVersion run + 1\<rparr>,
                            end_node\<lparr>node_state := NodeSucceeded,
                                     node_stateVersion := node_stateVersion end_node + 1\<rparr>))"

end
