(* ===== verification/Runtime_Laws.thy ===== *)
theory Runtime_Laws
  imports Runtime_Model
begin

text \<open>
  The laws of the domain state of \<^verbatim>\<open>internal/runtime/model.go\<close>. The operations of a run, a node run
  and an attempt that change the receiver are the rules of three step relations; the operations that
  answer without a change (a replayed termination, a retry that is not due, a repeated completion)
  return the receiver itself. All three aggregates meet one contract, the locale
  \<open>versioned_machine\<close>: every change counts the state version up by one, moves along the
  transition table, and none starts in a terminal state. The second half states the
  well-formedness invariants of the three aggregates and that every step keeps them.
\<close>

section \<open>The contract of a versioned aggregate\<close>

locale versioned_machine =
  fixes step :: "'s \<Rightarrow> 's \<Rightarrow> bool"
    and state :: "'s \<Rightarrow> 'st"
    and version :: "'s \<Rightarrow> 64 word"
    and terminal :: "'st \<Rightarrow> bool"
    and allowed :: "'s \<Rightarrow> 'st \<Rightarrow> bool"
  assumes step_version: "step s t \<Longrightarrow> version t = version s + 1"
    and step_allowed: "step s t \<Longrightarrow> state t = state s \<or> allowed s (state t)"
    and terminal_stuck: "terminal (state s) \<Longrightarrow> \<not> step s t"
begin

lemma terminal_final: "step\<^sup>*\<^sup>* s t \<Longrightarrow> terminal (state s) \<Longrightarrow> t = s"
  by (induction rule: converse_rtranclp_induct) (auto simp: terminal_stuck)

lemma version_counts_steps: "(step ^^ n) s t \<Longrightarrow> version t = version s + of_nat n"
  by (induction n arbitrary: t) (auto simp: step_version)

text \<open>Two different histories of the same length cannot be told apart by the version, but a longer
  one can, as long as fewer than \<open>2 ^ 64\<close> steps separate them.\<close>

lemma version_detects_change:
  assumes "(step ^^ n) s t" and "0 < n" and "n < 2 ^ 64"
  shows "version t \<noteq> version s"
proof
  assume "version t = version s"
  with version_counts_steps [OF assms(1)] have "of_nat n = (0 :: 64 word)"
    by simp
  then have "2 ^ 64 dvd n"
    by (simp add: word_of_nat_eq_0_iff)
  with assms(2,3) show False
    by (auto dest: dvd_imp_le)
qed

lemma invariant_steps:
  assumes "\<And>s t. step s t \<Longrightarrow> I s \<Longrightarrow> I t" and "step\<^sup>*\<^sup>* s t" and "I s"
  shows "I t"
  using assms(2,3) by (induction rule: rtranclp_induct) (auto intro: assms(1))

end

section \<open>Steps of the aggregates\<close>

inductive run_step :: "WorkflowRun \<Rightarrow> WorkflowRun \<Rightarrow> bool" where
  rs_start: "WorkflowRun_Start r ids = Inr r' \<Longrightarrow> run_step r r'"
| rs_fail_init: "WorkflowRun_FailInitialization r f t = Inr r' \<Longrightarrow> run_step r r'"
| rs_request: "WorkflowRun_RequestTermination r i = Inr (True, r') \<Longrightarrow> run_step r r'"
| rs_terminate: "WorkflowRun_CompleteTermination r ns = Inr r' \<Longrightarrow> run_step r r'"
| rs_succeed: "CompleteWorkflowSuccess r e ns out = Inr (r', e') \<Longrightarrow> run_step r r'"

inductive node_step :: "NodeRun \<Rightarrow> NodeRun \<Rightarrow> bool" where
  ns_activate: "NodeRun_Activate n = Inr n' \<Longrightarrow> \<not> node_activated n \<Longrightarrow> node_step n n'"
| ns_ready: "NodeRun_Ready n ins = Inr n' \<Longrightarrow> node_step n n'"
| ns_skip: "NodeRun_Skip n = Inr n' \<Longrightarrow> node_step n n'"
| ns_succeed_control: "NodeRun_SucceedControl n route outs = Inr n' \<Longrightarrow> node_step n n'"
| ns_fail_control: "NodeRun_FailControl n f = Inr n' \<Longrightarrow> node_step n n'"
| ns_fail_before: "NodeRun_FailBeforeAttempt n f = Inr n' \<Longrightarrow> node_step n n'"
| ns_queue: "NodeRun_QueueAttempt n a = Inr (sq, k, n') \<Longrightarrow> node_step n n'"
| ns_started: "NodeRun_AttemptStarted n a = Inr n' \<Longrightarrow> node_step n n'"
| ns_retry_wait: "NodeRun_RetryWait n a k due = Inr n' \<Longrightarrow> node_step n n'"
| ns_retry_due: "NodeRun_RetryDue n t = Inr (True, n') \<Longrightarrow> node_step n n'"
| ns_succeed_attempt: "NodeRun_SucceedAttempt n a outs = Inr n' \<Longrightarrow> node_step n n'"
| ns_fail_attempt: "NodeRun_FailAttempt n a st f = Inr n' \<Longrightarrow> node_step n n'"
| ns_cancel: "NodeRun_Cancel n reason = Inr n' \<Longrightarrow> node_step n n'"
| ns_end: "CompleteWorkflowSuccess r n ns out = Inr (r', n') \<Longrightarrow> node_step n n'"

inductive attempt_step :: "NodeAttempt \<Rightarrow> NodeAttempt \<Rightarrow> bool" where
  as_start: "NodeAttempt_Start a = Inr a' \<Longrightarrow> attempt_step a a'"
| as_complete: "NodeAttempt_Complete a r = Inr a' \<Longrightarrow> \<not> AttemptState_Terminal (att_state a) \<Longrightarrow>
    attempt_step a a'"

text \<open>
  A pending run that fails its initialization is the one move outside the transition table.
\<close>

definition run_moves :: "WorkflowRun \<Rightarrow> RunState \<Rightarrow> bool" where
  "run_moves r to = (validRunTransition (run_state r) to \<or> (run_state r = RunPending \<and> to = RunFailed))"

declare WorkflowRun_transition_def [run_ops] WorkflowRun_Start_def [run_ops]
  WorkflowRun_FailInitialization_def [run_ops] WorkflowRun_RequestTermination_def [run_ops]
  WorkflowRun_CompleteTermination_def [run_ops] CompleteWorkflowSuccess_def [run_ops]

declare NodeRun_transition_def [node_ops] NodeRun_Activate_def [node_ops] NodeRun_Ready_def [node_ops]
  NodeRun_Skip_def [node_ops] NodeRun_SucceedControl_def [node_ops] NodeRun_FailControl_def [node_ops]
  NodeRun_FailBeforeAttempt_def [node_ops] NodeRun_QueueAttempt_def [node_ops]
  NodeRun_AttemptStarted_def [node_ops] NodeRun_RetryWait_def [node_ops] NodeRun_RetryDue_def [node_ops]
  NodeRun_SucceedAttempt_def [node_ops] NodeRun_FailAttempt_def [node_ops] NodeRun_Cancel_def [node_ops]
  CompleteWorkflowSuccess_def [node_ops]

declare NodeAttempt_transition_def [attempt_ops] NodeAttempt_Start_def [attempt_ops]
  NodeAttempt_Complete_def [attempt_ops]

lemmas run_splits = if_splits sum.splits option.splits TerminationKind.splits
lemmas node_splits = if_splits sum.splits option.splits

text \<open>No state of the tables has a way out of a terminal state.\<close>

lemma validRunTransition_nonterminal: "validRunTransition s t \<Longrightarrow> \<not> RunState_Terminal s"
  by (cases s) auto

lemma validNodeTransition_nonterminal: "validNodeTransition k s t \<Longrightarrow> \<not> NodeState_Terminal s"
  by (cases k; cases s) auto

lemma validAttemptTransition_nonterminal: "validAttemptTransition s t \<Longrightarrow> \<not> AttemptState_Terminal s"
  by (cases s) auto

lemma run_step_change:
  "run_step r r' \<Longrightarrow> run_stateVersion r' = run_stateVersion r + 1 \<and> \<not> RunState_Terminal (run_state r)
     \<and> (run_state r' = run_state r \<or> run_moves r (run_state r'))"
  by (induction rule: run_step.induct)
    (auto simp: run_ops run_moves_def validRunTransition_nonterminal split: run_splits)

lemma node_step_change:
  "node_step n n' \<Longrightarrow> node_stateVersion n' = node_stateVersion n + 1
     \<and> \<not> NodeState_Terminal (node_state n)
     \<and> (node_state n' = node_state n \<or> validNodeTransition (node_kind n) (node_state n) (node_state n'))"
  by (induction rule: node_step.induct)
    (auto simp: node_ops Let_def validNodeTransition_nonterminal split: node_splits)

lemma attempt_step_change:
  "attempt_step a a' \<Longrightarrow> att_stateVersion a' = att_stateVersion a + 1
     \<and> \<not> AttemptState_Terminal (att_state a) \<and> validAttemptTransition (att_state a) (att_state a')"
  by (induction rule: attempt_step.induct)
    (auto simp: attempt_ops validAttemptTransition_nonterminal split: node_splits)

interpretation run_machine: versioned_machine run_step run_state run_stateVersion RunState_Terminal run_moves
  by unfold_locales (auto dest: run_step_change)

interpretation node_machine: versioned_machine node_step node_state node_stateVersion NodeState_Terminal
    "\<lambda>n. validNodeTransition (node_kind n) (node_state n)"
  by unfold_locales (auto dest: node_step_change)

interpretation attempt_machine: versioned_machine attempt_step att_state att_stateVersion
    AttemptState_Terminal "\<lambda>a. validAttemptTransition (att_state a)"
  by unfold_locales (auto dest: attempt_step_change)

section \<open>What a run keeps\<close>

text \<open>The command a run was created from, read back from its immutable fields.\<close>

definition run_command :: "WorkflowRun \<Rightarrow> CreateRunCommand" where
  "run_command r = \<lparr>cmd_RunID = run_id r, cmd_ProjectID = run_projectID r,
     cmd_WorkflowID = run_workflowID r, cmd_Purpose = run_purpose r,
     cmd_Definition = run_definition r, cmd_WorkflowInput = run_workflowInput r,
     cmd_DeadlineAt = run_deadlineAt r, cmd_CreatedAt = run_createdAt r\<rparr>"

lemma run_step_command: "run_step r r' \<Longrightarrow> run_command r' = run_command r"
  by (induction rule: run_step.induct) (auto simp: run_ops run_command_def split: run_splits)

text \<open>The first termination intent stays.\<close>

lemma run_step_termination: "run_step r r' \<Longrightarrow> run_termination r = Some t \<Longrightarrow> run_termination r' = Some t"
  by (induction rule: run_step.induct) (auto simp: run_ops split: run_splits)

definition kind_state :: "TerminationKind \<Rightarrow> RunState" where
  "kind_state k = (case k of TerminationFailed \<Rightarrow> RunFailed | TerminationCanceled \<Rightarrow> RunCanceled
     | TerminationTimedOut \<Rightarrow> RunTimedOut | OtherTerminationKind s \<Rightarrow> OtherRunState s)"

definition known_kind :: "TerminationKind \<Rightarrow> bool" where
  "known_kind k = (k \<in> {TerminationFailed, TerminationCanceled, TerminationTimedOut})"

text \<open>
  The life cycle of a run: a pending run has no nodes, every other state but an aborted
  initialization has at least the start and the end node; a terminal state is the one its
  termination intent names, and success has no intent and a JSON object as its output.
\<close>

definition run_wf :: "WorkflowRun \<Rightarrow> bool" where
  "run_wf r \<longleftrightarrow>
     (\<exists>r0. NewWorkflowRun (run_command r) = Inr r0)
     \<and> finite (run_executionNodeIDs r) \<and> '''' \<notin> run_executionNodeIDs r
     \<and> run_nodeRunCount r = of_nat (card (run_executionNodeIDs r))
     \<and> run_state r \<in> {RunPending, RunRunning, RunSucceeded, RunFailed, RunCanceled, RunTimedOut}
     \<and> (run_state r = RunPending \<longrightarrow> run_executionNodeIDs r = {})
     \<and> (run_state r \<in> {RunRunning, RunSucceeded} \<longrightarrow> 2 \<le> card (run_executionNodeIDs r))
     \<and> (run_executionNodeIDs r = {} \<or> 2 \<le> card (run_executionNodeIDs r))
     \<and> (\<forall>t. run_termination r = Some t \<longrightarrow> known_kind (ti_Kind t)
          \<and> (RunState_Terminal (run_state r) \<longrightarrow> run_state r = kind_state (ti_Kind t)))
     \<and> (run_termination r = None \<longrightarrow> run_state r \<in> {RunPending, RunRunning, RunSucceeded})
     \<and> (if run_state r = RunSucceeded
        then run_termination r = None \<and> cloneJSONObject (run_workflowOutput r) = Inr (run_workflowOutput r)
        else run_workflowOutput r = [])"

lemma cloneJSONObject_id: "cloneJSONObject raw = Inr x \<Longrightarrow> x = raw"
  by (auto simp: cloneJSONObject_def split: if_splits option.splits json.splits)

lemma cloneJSONObject_nonempty: "cloneJSONObject [] \<noteq> Inr x"
  by code_simp

lemma NewWorkflowRun_run_wf:
  assumes "NewWorkflowRun c = Inr r"
  shows "run_wf r \<and> run_command r = c \<and> run_state r = RunPending \<and> run_stateVersion r = 1
    \<and> run_termination r = None"
proof -
  have r: "run_command r = c"
    using assms by (auto simp: NewWorkflowRun_def run_command_def Let_def split: if_splits sum.splits
        dest: cloneJSONObject_id)
  moreover have "run_state r = RunPending" "run_executionNodeIDs r = {}" "run_nodeRunCount r = 0"
    "run_termination r = None" "run_workflowOutput r = []" "run_stateVersion r = 1"
    using assms by (auto simp: NewWorkflowRun_def Let_def split: if_splits sum.splits)
  ultimately show ?thesis
    using assms by (auto simp: run_wf_def)
qed

lemma collect_identities_Inr:
  "collect_identities ids acc = Inr S \<Longrightarrow>
     S = acc \<union> set ids \<and> distinct ids \<and> set ids \<inter> acc = {} \<and> '''' \<notin> set ids"
  by (induction ids acc rule: collect_identities.induct) (auto split: if_splits)

lemma collect_identities_ok:
  "distinct ids \<Longrightarrow> '''' \<notin> set ids \<Longrightarrow> set ids \<inter> acc = {} \<Longrightarrow>
     collect_identities ids acc = Inr (acc \<union> set ids)"
  by (induction ids acc rule: collect_identities.induct) auto

lemma Start_run_wf:
  assumes "WorkflowRun_Start r ids = Inr r'" and "run_wf r"
  shows "run_wf r'"
proof -
  obtain S where S: "collect_identities ids {} = Inr S" and len: "2 \<le> length ids"
      and st: "validRunTransition (run_state r) RunRunning"
      and r': "r' = r\<lparr>run_state := RunRunning, run_stateVersion := run_stateVersion r + 1,
                     run_nodeRunCount := of_nat (length ids), run_executionNodeIDs := S\<rparr>"
    using assms(1) by (auto simp: run_ops split: run_splits)
  from S have "S = set ids" "distinct ids" "'''' \<notin> set ids"
    using collect_identities_Inr [OF S] by auto
  moreover have "run_state r = RunPending"
    using st by (cases "run_state r") auto
  moreover have "run_command r' = run_command r"
    by (simp add: r' run_command_def)
  ultimately show ?thesis
    using assms(2) len by (auto simp: run_wf_def r' distinct_card)
qed

text \<open>The receiver an operation accepts, and what it makes of it.\<close>

abbreviation node_moved :: "NodeRun \<Rightarrow> NodeState \<Rightarrow> NodeRun" where
  "node_moved n st \<equiv> n\<lparr>node_state := st, node_stateVersion := node_stateVersion n + 1\<rparr>"

lemma CompleteWorkflowSuccess_Inr:
  "CompleteWorkflowSuccess r n ns out = Inr (r', n') \<Longrightarrow>
     run_state r = RunRunning \<and> run_termination r = None \<and> node_kind n = NodeControl \<and> node_activated n
     \<and> node_state n = NodePending \<and> WorkflowRun_validateNodeSet r ns = None
     \<and> (\<forall>m \<in> set ns. node_executionNodeID m = node_executionNodeID n
          \<or> node_state m = NodeSucceeded \<or> node_state m = NodeSkipped)
     \<and> cloneJSONObject out = Inr out
     \<and> r' = r\<lparr>run_workflowOutput := out, run_state := RunSucceeded,
             run_stateVersion := run_stateVersion r + 1\<rparr>
     \<and> n' = node_moved n NodeSucceeded"
  by (auto simp: CompleteWorkflowSuccess_def list_all_iff dest: cloneJSONObject_id
      split: if_splits option.splits sum.splits)

lemma RequestTermination_Inr:
  "WorkflowRun_RequestTermination r i = Inr (b, r') \<Longrightarrow>
     \<not> RunState_Terminal (run_state r) \<and> known_kind (ti_Kind i)
     \<and> (if b then run_termination r = None
          \<and> r' = r\<lparr>run_termination := Some i, run_stateVersion := run_stateVersion r + 1\<rparr>
        else run_termination r \<noteq> None \<and> r' = r)"
  by (auto simp: WorkflowRun_RequestTermination_def known_kind_def split: if_splits)

lemma CompleteTermination_Inr:
  assumes "WorkflowRun_CompleteTermination r ns = Inr r'"
  obtains t where "run_termination r = Some t" "known_kind (ti_Kind t)"
    "WorkflowRun_validateNodeSet r ns = None" "\<forall>n \<in> set ns. NodeState_Terminal (node_state n)"
    "validRunTransition (run_state r) (kind_state (ti_Kind t))"
    "r' = r\<lparr>run_state := kind_state (ti_Kind t), run_stateVersion := run_stateVersion r + 1\<rparr>"
  using assms by (auto simp: WorkflowRun_CompleteTermination_def WorkflowRun_transition_def list_all_iff
      known_kind_def kind_state_def split: if_splits option.splits TerminationKind.splits)

lemma CompleteTermination_run_wf:
  assumes "WorkflowRun_CompleteTermination r ns = Inr r'" and "run_wf r"
    and "run_command r' = run_command r"
  shows "run_wf r'"
proof -
  obtain t where t: "run_termination r = Some t" "known_kind (ti_Kind t)"
    and tr: "validRunTransition (run_state r) (kind_state (ti_Kind t))"
    and r': "r' = r\<lparr>run_state := kind_state (ti_Kind t), run_stateVersion := run_stateVersion r + 1\<rparr>"
    by (rule CompleteTermination_Inr [OF assms(1)])
  have st: "run_state r = RunPending \<or> run_state r = RunRunning"
    using tr by (cases "run_state r") auto
  have k: "kind_state (ti_Kind t) \<in> {RunFailed, RunCanceled, RunTimedOut}"
    using t(2) by (auto simp: known_kind_def kind_state_def)
  from st k show ?thesis
    using assms(2,3) t r' unfolding run_wf_def by (elim disjE insertE) simp_all
qed

lemma run_step_wf: "run_step r r' \<Longrightarrow> run_wf r \<Longrightarrow> run_wf r'"
proof (induction rule: run_step.induct)
  case (rs_start r ids r')
  then show ?case by (rule Start_run_wf)
next
  case (rs_fail_init r f t r')
  then have "run_step r r'" by (blast intro: run_step.rs_fail_init)
  then have "run_command r' = run_command r" by (rule run_step_command)
  with rs_fail_init show ?case
    by (auto simp: run_ops run_wf_def known_kind_def kind_state_def split: run_splits)
next
  case (rs_request r i r')
  then have "run_step r r'" by (blast intro: run_step.rs_request)
  then have "run_command r' = run_command r" by (rule run_step_command)
  with rs_request.prems show ?case
    using RequestTermination_Inr [OF rs_request.hyps] by (auto simp: run_wf_def)
next
  case (rs_terminate r ns r')
  then have "run_step r r'" by (blast intro: run_step.rs_terminate)
  then have "run_command r' = run_command r" by (rule run_step_command)
  then show ?case
    by (rule CompleteTermination_run_wf [OF rs_terminate.hyps rs_terminate.prems])
next
  case (rs_succeed r e ns out r' e')
  then have "run_step r r'" by (blast intro: run_step.rs_succeed)
  then have "run_command r' = run_command r" by (rule run_step_command)
  with rs_succeed.prems show ?case
    using CompleteWorkflowSuccess_Inr [OF rs_succeed.hyps] by (simp add: run_wf_def)
qed

section \<open>What a node run keeps\<close>

text \<open>
  A control node never has an attempt. A node that left the pending state other than by being
  skipped or canceled was activated. Only a succeeded task exposes an effective attempt, the
  current one. Failure and cancel reason belong to exactly one kind of terminal state. The
  sequence number counts the business and the recovery attempts together (\<open>node_counted\<close>).
\<close>

definition node_wf :: "NodeRun \<Rightarrow> bool" where
  "node_wf n \<longleftrightarrow>
     node_runID n \<noteq> '''' \<and> node_executionNodeID n \<noteq> ''''
     \<and> node_kind n \<in> {NodeControl, NodeTask}
     \<and> (\<forall>s. node_state n \<noteq> OtherNodeState s) \<and> (\<forall>s. node_nextAttemptKind n \<noteq> OtherRetryKind s)
     \<and> (node_kind n = NodeControl \<longrightarrow>
          node_state n \<in> {NodePending, NodeSucceeded, NodeFailed, NodeSkipped, NodeCanceled}
          \<and> node_currentAttemptID n = '''' \<and> node_nextAttemptSeq n = 0)
     \<and> (node_state n = NodeSkipped \<longrightarrow> \<not> node_activated n)
     \<and> (node_state n \<in> {NodeReady, NodeQueued, NodeRunning, NodeRetryWait, NodeSucceeded, NodeTimedOut}
          \<longrightarrow> node_activated n)
     \<and> (node_state n = NodePending \<longrightarrow> node_currentAttemptID n = '''')
     \<and> (node_state n \<in> {NodeQueued, NodeRunning, NodeRetryWait, NodeTimedOut} \<longrightarrow> node_currentAttemptID n \<noteq> '''')
     \<and> (node_kind n = NodeTask \<and> node_state n = NodeSucceeded \<longrightarrow>
          node_effectiveAttemptID n = node_currentAttemptID n \<and> node_currentAttemptID n \<noteq> '''')
     \<and> (node_effectiveAttemptID n \<noteq> '''' \<longrightarrow> node_kind n = NodeTask \<and> node_state n = NodeSucceeded)
     \<and> (node_failure n \<noteq> None \<longleftrightarrow> node_state n \<in> {NodeFailed, NodeTimedOut})
     \<and> (node_cancelReason n \<noteq> '''' \<longleftrightarrow> node_state n = NodeCanceled)"

definition node_counted :: "NodeRun \<Rightarrow> bool" where
  "node_counted n \<longleftrightarrow> node_nextAttemptSeq n = node_businessAttemptCount n + node_recoveryCount n"

lemma NewNodeRun_wf:
  "NewNodeRun r i k = Inr n \<Longrightarrow> node_wf n \<and> node_counted n \<and> node_state n = NodePending"
  by (auto simp: NewNodeRun_def node_wf_def node_counted_def split: if_splits)

lemma Activate_Inr:
  "NodeRun_Activate n = Inr n' \<Longrightarrow> node_state n = NodePending \<and>
     n' = (if node_activated n then n
           else n\<lparr>node_activated := True, node_stateVersion := node_stateVersion n + 1\<rparr>)"
  by (auto simp: NodeRun_Activate_def split: if_splits)

lemma Ready_Inr:
  "NodeRun_Ready n ins = Inr n' \<Longrightarrow> node_kind n = NodeTask \<and> node_activated n
     \<and> (node_state n = NodePending \<or> node_state n = NodeRetryWait)
     \<and> n' = (node_moved n NodeReady)\<lparr>node_resolvedInputs := ins\<rparr>"
  by (cases "node_state n") (auto simp: NodeRun_Ready_def NodeRun_transition_def split: if_splits)

lemma Skip_Inr:
  "NodeRun_Skip n = Inr n' \<Longrightarrow> \<not> node_activated n \<and> node_state n = NodePending
     \<and> n' = node_moved n NodeSkipped"
  by (cases "node_kind n"; cases "node_state n")
    (auto simp: NodeRun_Skip_def NodeRun_transition_def split: if_splits)

lemma SucceedControl_Inr:
  "NodeRun_SucceedControl n route outs = Inr n' \<Longrightarrow> node_kind n = NodeControl \<and> node_activated n
     \<and> node_state n = NodePending
     \<and> n' = (node_moved n NodeSucceeded)\<lparr>node_selectedRoute := route, node_effectiveOutputs := outs\<rparr>"
  by (auto simp: NodeRun_SucceedControl_def NodeRun_transition_def split: if_splits)

lemma FailControl_Inr:
  "NodeRun_FailControl n f = Inr n' \<Longrightarrow> node_kind n = NodeControl \<and> node_state n = NodePending
     \<and> n' = (node_moved n NodeFailed)\<lparr>node_failure := Some f\<rparr>"
  by (auto simp: NodeRun_FailControl_def NodeRun_transition_def split: if_splits)

lemma FailBeforeAttempt_Inr:
  "NodeRun_FailBeforeAttempt n f = Inr n' \<Longrightarrow> node_kind n = NodeTask \<and> node_activated n
     \<and> node_currentAttemptID n = '''' \<and> (node_state n = NodePending \<or> node_state n = NodeRunning)
     \<and> n' = (node_moved n NodeFailed)\<lparr>node_failure := Some f\<rparr>"
  by (cases "node_state n")
    (auto simp: NodeRun_FailBeforeAttempt_def NodeRun_transition_def split: if_splits)

lemma QueueAttempt_Inr:
  "NodeRun_QueueAttempt n a = Inr (sq, k, n') \<Longrightarrow> node_kind n = NodeTask \<and> a \<noteq> ''''
     \<and> node_state n = NodeReady \<and> sq = node_nextAttemptSeq n + 1 \<and> k = node_nextAttemptKind n
     \<and> n' = (node_moved n NodeQueued)\<lparr>
          node_recoveryCount := (if k = AttemptRecovery then node_recoveryCount n + 1 else node_recoveryCount n),
          node_businessAttemptCount := (if k = AttemptRecovery then node_businessAttemptCount n
                                        else node_businessAttemptCount n + 1),
          node_nextAttemptSeq := sq, node_currentAttemptID := a, node_nextRetryAt := 0\<rparr>"
  by (cases "node_state n")
    (auto simp: NodeRun_QueueAttempt_def NodeRun_transition_def Let_def split: if_splits)

lemma AttemptStarted_Inr:
  "NodeRun_AttemptStarted n a = Inr n' \<Longrightarrow> node_currentAttemptID n = a \<and> node_state n = NodeQueued
     \<and> node_kind n \<noteq> NodeControl \<and> n' = node_moved n NodeRunning"
  by (cases "node_kind n"; cases "node_state n")
    (auto simp: NodeRun_AttemptStarted_def NodeRun_transition_def split: if_splits)

lemma RetryWait_Inr:
  "NodeRun_RetryWait n a k due = Inr n' \<Longrightarrow> node_currentAttemptID n = a \<and> node_state n = NodeRunning
     \<and> node_kind n \<noteq> NodeControl \<and> (k = AttemptBusiness \<or> k = AttemptRecovery) \<and> due \<noteq> 0
     \<and> n' = (node_moved n NodeRetryWait)\<lparr>node_nextAttemptKind := k, node_nextRetryAt := due\<rparr>"
  by (cases "node_kind n"; cases "node_state n")
    (auto simp: NodeRun_RetryWait_def NodeRun_transition_def split: if_splits)

lemma RetryDue_Inr:
  "NodeRun_RetryDue n t = Inr (b, n') \<Longrightarrow>
     (if b then node_state n = NodeRetryWait \<and> node_kind n \<noteq> NodeControl \<and> t \<noteq> 0 \<and> node_nextRetryAt n \<le> t
        \<and> n' = (node_moved n NodeReady)\<lparr>node_nextRetryAt := 0\<rparr>
      else n' = n)"
  by (cases "node_kind n"; cases "node_state n")
    (auto simp: NodeRun_RetryDue_def NodeRun_transition_def split: if_splits)

lemma SucceedAttempt_Inr:
  "NodeRun_SucceedAttempt n a outs = Inr n' \<Longrightarrow> node_kind n = NodeTask \<and> node_currentAttemptID n = a
     \<and> node_state n = NodeRunning
     \<and> n' = (node_moved n NodeSucceeded)\<lparr>node_effectiveAttemptID := a, node_effectiveOutputs := outs\<rparr>"
  by (cases "node_state n")
    (auto simp: NodeRun_SucceedAttempt_def NodeRun_transition_def split: if_splits)

lemma FailAttempt_Inr:
  "NodeRun_FailAttempt n a st f = Inr n' \<Longrightarrow> node_kind n = NodeTask \<and> node_currentAttemptID n = a
     \<and> (node_state n = NodeRunning \<or> (node_state n = NodePending \<and> st = NodeFailed))
     \<and> (st = NodeFailed \<or> st = NodeTimedOut)
     \<and> n' = (node_moved n st)\<lparr>node_failure := Some f\<rparr>"
  by (cases "node_state n")
    (auto simp: NodeRun_FailAttempt_def NodeRun_transition_def split: if_splits)

lemma Cancel_Inr:
  "NodeRun_Cancel n reason = Inr n' \<Longrightarrow> reason \<noteq> ''''
     \<and> (node_state n = NodePending \<or> (node_kind n \<noteq> NodeControl
          \<and> node_state n \<in> {NodeReady, NodeQueued, NodeRunning, NodeRetryWait}))
     \<and> n' = (node_moved n NodeCanceled)\<lparr>node_cancelReason := reason\<rparr>"
  by (cases "node_kind n"; cases "node_state n")
    (auto simp: NodeRun_Cancel_def NodeRun_transition_def split: if_splits)

lemmas node_op_Inr = Activate_Inr Ready_Inr Skip_Inr SucceedControl_Inr FailControl_Inr
  FailBeforeAttempt_Inr QueueAttempt_Inr AttemptStarted_Inr RetryWait_Inr RetryDue_Inr
  SucceedAttempt_Inr FailAttempt_Inr Cancel_Inr CompleteWorkflowSuccess_Inr

lemma node_step_wf: "node_step n n' \<Longrightarrow> node_wf n \<Longrightarrow> node_wf n'"
proof (induction rule: node_step.induct)
  case (ns_activate n n')
  then show ?case
    using Activate_Inr [OF ns_activate(1)] by (simp add: node_wf_def)
next
  case (ns_ready n ins n')
  then show ?case
    using Ready_Inr [OF ns_ready(1)] by (cases "node_state n") (simp_all add: node_wf_def)
next
  case (ns_skip n n')
  then show ?case
    using Skip_Inr [OF ns_skip(1)] by (cases "node_state n") (simp_all add: node_wf_def)
next
  case (ns_succeed_control n route outs n')
  then show ?case
    using SucceedControl_Inr [OF ns_succeed_control(1)] by (cases "node_state n") (simp_all add: node_wf_def)
next
  case (ns_fail_control n f n')
  then show ?case
    using FailControl_Inr [OF ns_fail_control(1)] by (cases "node_state n") (simp_all add: node_wf_def)
next
  case (ns_fail_before n f n')
  then show ?case
    using FailBeforeAttempt_Inr [OF ns_fail_before(1)] by (cases "node_state n") (simp_all add: node_wf_def)
next
  case (ns_queue n a sq k n')
  then show ?case
    using QueueAttempt_Inr [OF ns_queue(1)] by (cases "node_state n") (simp_all add: node_wf_def)
next
  case (ns_started n a n')
  then show ?case
    using AttemptStarted_Inr [OF ns_started(1)] by (cases "node_state n") (simp_all add: node_wf_def)
next
  case (ns_retry_wait n a k due n')
  then show ?case
    using RetryWait_Inr [OF ns_retry_wait(1)] by (cases "node_state n"; cases k) (simp_all add: node_wf_def)
next
  case (ns_retry_due n t n')
  then show ?case
    using RetryDue_Inr [OF ns_retry_due(1)] by (cases "node_state n") (simp_all add: node_wf_def)
next
  case (ns_succeed_attempt n a outs n')
  then show ?case
    using SucceedAttempt_Inr [OF ns_succeed_attempt(1)] by (cases "node_state n") (simp_all add: node_wf_def)
next
  case (ns_fail_attempt n a st f n')
  then show ?case
    using FailAttempt_Inr [OF ns_fail_attempt(1)] by (cases "node_state n"; cases st) (simp_all add: node_wf_def)
next
  case (ns_cancel n reason n')
  then show ?case
    using Cancel_Inr [OF ns_cancel(1)] by (cases "node_kind n"; cases "node_state n") (simp_all add: node_wf_def)
next
  case (ns_end r n ns out r' n')
  then show ?case
    using CompleteWorkflowSuccess_Inr [OF ns_end(1)] by (cases "node_state n") (simp_all add: node_wf_def)
qed

lemma node_step_counted: "node_step n n' \<Longrightarrow> node_counted n \<Longrightarrow> node_counted n'"
proof (induction rule: node_step.induct)
  case (ns_queue n a sq k n')
  then show ?case
    using QueueAttempt_Inr [OF ns_queue(1)] by (simp add: node_counted_def)
next
  case (ns_activate n n')
  then show ?case
    using Activate_Inr [OF ns_activate(1)] by (simp add: node_counted_def)
next
  case (ns_retry_due n t n')
  then show ?case
    using RetryDue_Inr [OF ns_retry_due(1)] by (simp add: node_counted_def)
qed (auto simp: node_counted_def dest!: node_op_Inr)

section \<open>What an attempt keeps\<close>

definition attempt_wf :: "NodeAttempt \<Rightarrow> bool" where
  "attempt_wf a \<longleftrightarrow>
     att_id a \<noteq> '''' \<and> att_nodeRunID a \<noteq> '''' \<and> att_sequence a \<noteq> 0
     \<and> att_kind a \<in> {AttemptInitial, AttemptBusiness, AttemptRecovery}
     \<and> (\<forall>s. att_state a \<noteq> OtherAttemptState s)
     \<and> (AttemptState_Terminal (att_state a) \<longleftrightarrow> att_result a \<noteq> None)
     \<and> (\<forall>r. att_result a = Some r \<longrightarrow> res_State r = att_state a
          \<and> (res_ErrorCode r = '''' \<longleftrightarrow> res_State r = AttemptSucceeded))"

lemma NewNodeAttempt_wf: "NewNodeAttempt i n sq k = Inr a \<Longrightarrow> attempt_wf a"
  by (auto simp: NewNodeAttempt_def attempt_wf_def split: if_splits)

lemma Complete_Inr:
  "NodeAttempt_Complete a r = Inr a' \<Longrightarrow>
     (if AttemptState_Terminal (att_state a)
      then a' = a \<and> (\<exists>q. att_result a = Some q \<and> AttemptResult_Equal q r)
      else AttemptState_Terminal (res_State r) \<and> (res_ErrorCode r = '''' \<longleftrightarrow> res_State r = AttemptSucceeded)
        \<and> validAttemptTransition (att_state a) (res_State r)
        \<and> a' = a\<lparr>att_state := res_State r, att_stateVersion := att_stateVersion a + 1,
                  att_result := Some r\<rparr>)"
  by (auto simp: attempt_ops split: if_splits sum.splits option.splits)

lemma Start_attempt_Inr:
  "NodeAttempt_Start a = Inr a' \<Longrightarrow> att_state a = AttemptQueued
     \<and> a' = a\<lparr>att_state := AttemptRunning, att_stateVersion := att_stateVersion a + 1\<rparr>"
  by (cases "att_state a") (auto simp: attempt_ops split: if_splits)

lemma attempt_step_wf: "attempt_step a a' \<Longrightarrow> attempt_wf a \<Longrightarrow> attempt_wf a'"
proof (induction rule: attempt_step.induct)
  case (as_start a a')
  then show ?case
    by (auto simp: attempt_wf_def dest!: Start_attempt_Inr)
next
  case (as_complete a r a')
  then have "AttemptState_Terminal (res_State r)"
    by (auto dest: Complete_Inr)
  then have "res_State r \<noteq> OtherAttemptState s" for s
    by auto
  then show ?case
    using Complete_Inr [OF as_complete(1)] as_complete(2,3) by (simp add: attempt_wf_def)
qed

end
