(* ===== verification/Runtime_Records.thy ===== *)
theory Runtime_Records
  imports Runtime_Laws
begin

text \<open>
  The persistence boundary of the domain state, \<^verbatim>\<open>internal/runtime/records.go\<close>: a snapshot of an
  aggregate is a plain record, and restoring one validates the row before it becomes an aggregate
  again. Snapshot and restore are inverse to each other on the states the operations can reach.
\<close>

section \<open>Records\<close>

record WorkflowRunRecord =
  wrr_ID :: string
  wrr_ProjectID :: string
  wrr_WorkflowID :: string
  wrr_TraceID :: string
  wrr_Purpose :: RunPurpose
  wrr_Definition :: DefinitionReference
  wrr_WorkflowInput :: raw_message
  wrr_WorkflowOutput :: raw_message
  wrr_DeadlineAt :: time
  wrr_CreatedAt :: time
  wrr_State :: RunState
  wrr_StateVersion :: "64 word"
  wrr_ExecutionNodeIDs :: "string list"
  wrr_Termination :: "TerminationIntent option"
  wrr_CancelRequestedAt :: time

record NodeRunRecord =
  nrr_RunID :: string
  nrr_ExecutionNodeID :: string
  nrr_Kind :: NodeKind
  nrr_State :: NodeState
  nrr_StateVersion :: "64 word"
  nrr_Activated :: bool
  nrr_SelectedRoute :: string
  nrr_ResolvedInputs :: "(string, raw_message) gomap"
  nrr_EffectiveOutputs :: "(string, raw_message) gomap"
  nrr_EffectiveAttemptID :: string
  nrr_CurrentAttemptID :: string
  nrr_NextAttemptSeq :: "32 word"
  nrr_BusinessAttemptCount :: "32 word"
  nrr_RecoveryCount :: "32 word"
  nrr_NextAttemptKind :: RetryKind
  nrr_NextRetryAt :: time
  nrr_Failure :: "Failure option"
  nrr_CancelReason :: string

record NodeAttemptRecord =
  nar_ID :: string
  nar_NodeRunID :: string
  nar_Sequence :: "32 word"
  nar_Kind :: RetryKind
  nar_State :: AttemptState
  nar_StateVersion :: "64 word"
  nar_Result :: "AttemptResult option"

section \<open>Workflow runs\<close>

definition WorkflowRun_Snapshot :: "WorkflowRun \<Rightarrow> WorkflowRunRecord" where
  "WorkflowRun_Snapshot run = \<lparr>
     wrr_ID = run_id run, wrr_ProjectID = run_projectID run, wrr_WorkflowID = run_workflowID run,
     wrr_TraceID = '''', wrr_Purpose = run_purpose run, wrr_Definition = run_definition run,
     wrr_WorkflowInput = run_workflowInput run, wrr_WorkflowOutput = run_workflowOutput run,
     wrr_DeadlineAt = run_deadlineAt run, wrr_CreatedAt = run_createdAt run,
     wrr_State = run_state run, wrr_StateVersion = run_stateVersion run,
     wrr_ExecutionNodeIDs = sorted_list_of_set (run_executionNodeIDs run),
     wrr_Termination = run_termination run, wrr_CancelRequestedAt = 0\<rparr>"

text \<open>The loop that checks the persisted node identities.\<close>

fun restore_identities :: "string list \<Rightarrow> string set \<Rightarrow> string set result" where
  "restore_identities [] acc = Inr acc"
| "restore_identities (nid # ids) acc =
     (if nid = '''' then Inl (ErrInvalidRun ''persisted execution node identity is empty'')
      else if nid \<in> acc then Inl (ErrInvalidRun ''persisted execution node identity is duplicated'')
      else restore_identities ids (insert nid acc))"

definition record_command :: "WorkflowRunRecord \<Rightarrow> CreateRunCommand" where
  "record_command r = \<lparr>cmd_RunID = wrr_ID r, cmd_ProjectID = wrr_ProjectID r,
     cmd_WorkflowID = wrr_WorkflowID r, cmd_Purpose = wrr_Purpose r,
     cmd_Definition = wrr_Definition r, cmd_WorkflowInput = wrr_WorkflowInput r,
     cmd_DeadlineAt = wrr_DeadlineAt r, cmd_CreatedAt = wrr_CreatedAt r\<rparr>"

definition RestoreWorkflowRun :: "WorkflowRunRecord \<Rightarrow> WorkflowRun result" where
  "RestoreWorkflowRun rec =
     (if wrr_ID rec = '''' \<or> wrr_ProjectID rec = '''' \<or> wrr_WorkflowID rec = '''' \<or> wrr_StateVersion rec = 0 then
        Inl (ErrInvalidRun ''persisted run identity and version are required'')
      else case NewWorkflowRun (record_command rec) of
          Inl e \<Rightarrow> Inl e
        | Inr base \<Rightarrow>
     (let noNodes = (length (wrr_ExecutionNodeIDs rec) = 0);
          terminating = (wrr_Termination rec \<noteq> None);
          initializationFailed = (wrr_State rec = RunFailed \<and> noNodes \<and> terminating);
          uninitializedTermination =
            ((wrr_State rec = RunCanceled \<or> wrr_State rec = RunTimedOut) \<and> noNodes \<and> terminating)
      in if wrr_State rec \<noteq> RunPending \<and> wrr_State rec \<noteq> RunRunning \<and> \<not> RunState_Terminal (wrr_State rec) then
           Inl (ErrInvalidRun ''persisted run state is invalid'')
         else if wrr_State rec = RunPending \<and> \<not> noNodes then
           Inl (ErrInvalidRun ''pending run cannot contain initialized nodes'')
         else if wrr_State rec \<noteq> RunPending \<and> \<not> initializationFailed \<and> \<not> uninitializedTermination
                 \<and> length (wrr_ExecutionNodeIDs rec) < 2 then
           Inl (ErrInvalidRun ''initialized run requires its complete node identity set'')
         else case restore_identities (wrr_ExecutionNodeIDs rec) {} of
             Inl e \<Rightarrow> Inl e
           | Inr identities \<Rightarrow>
        (case (if length (wrr_WorkflowOutput rec) \<noteq> 0 then cloneJSONObject (wrr_WorkflowOutput rec)
               else Inr []) of
           Inl e \<Rightarrow> Inl (ErrInvalidRun (''workflow output: '' @ error_text e))
         | Inr output \<Rightarrow>
             if RunState_Terminal (wrr_State rec) \<and> wrr_State rec \<noteq> RunSucceeded \<and> \<not> terminating then
               Inl (ErrInvalidRun ''unsuccessful terminal run requires termination intent'')
             else if wrr_State rec = RunSucceeded \<and> (terminating \<or> length output = 0) then
               Inl (ErrInvalidRun ''succeeded run has invalid terminal facts'')
             else Inr (base\<lparr>run_workflowOutput := output, run_state := wrr_State rec,
                            run_stateVersion := wrr_StateVersion rec,
                            run_nodeRunCount := of_nat (card identities),
                            run_executionNodeIDs := identities,
                            run_termination := wrr_Termination rec\<rparr>))))"

section \<open>Node runs\<close>

definition NodeRun_Snapshot :: "NodeRun \<Rightarrow> NodeRunRecord" where
  "NodeRun_Snapshot node = \<lparr>
     nrr_RunID = node_runID node, nrr_ExecutionNodeID = node_executionNodeID node,
     nrr_Kind = node_kind node, nrr_State = node_state node,
     nrr_StateVersion = node_stateVersion node, nrr_Activated = node_activated node,
     nrr_SelectedRoute = node_selectedRoute node, nrr_ResolvedInputs = node_resolvedInputs node,
     nrr_EffectiveOutputs = node_effectiveOutputs node,
     nrr_EffectiveAttemptID = node_effectiveAttemptID node,
     nrr_CurrentAttemptID = node_currentAttemptID node, nrr_NextAttemptSeq = node_nextAttemptSeq node,
     nrr_BusinessAttemptCount = node_businessAttemptCount node,
     nrr_RecoveryCount = node_recoveryCount node, nrr_NextAttemptKind = node_nextAttemptKind node,
     nrr_NextRetryAt = node_nextRetryAt node, nrr_Failure = node_failure node,
     nrr_CancelReason = node_cancelReason node\<rparr>"

fun validPersistedNodeState :: "NodeState \<Rightarrow> bool" where
  "validPersistedNodeState (OtherNodeState s) = False"
| "validPersistedNodeState _ = True"

definition RestoreNodeRun :: "NodeRunRecord \<Rightarrow> NodeRun result" where
  "RestoreNodeRun rec =
     (case NewNodeRun (nrr_RunID rec) (nrr_ExecutionNodeID rec) (nrr_Kind rec) of
        Inl e \<Rightarrow> Inl e
      | Inr node \<Rightarrow>
          if nrr_StateVersion rec = 0 \<or> \<not> validPersistedNodeState (nrr_State rec) then
            Inl (Errorf ''invalid persisted node run state'')
          else if nrr_State rec = NodeSkipped \<and> nrr_Activated rec then Inl ErrActivatedNodeSkipped
          else if nrr_EffectiveAttemptID rec \<noteq> '''' \<and> nrr_State rec \<noteq> NodeSucceeded then
            Inl (Errorf ''only succeeded node can expose an effective attempt'')
          else if nrr_Kind rec = NodeControl
                  \<and> (nrr_CurrentAttemptID rec \<noteq> '''' \<or> nrr_EffectiveAttemptID rec \<noteq> ''''
                     \<or> nrr_NextAttemptSeq rec \<noteq> 0) then Inl ErrControlAttempt
          else if nrr_NextAttemptKind rec \<noteq> AttemptInitial \<and> nrr_NextAttemptKind rec \<noteq> AttemptBusiness
                  \<and> nrr_NextAttemptKind rec \<noteq> AttemptRecovery then
            Inl (Errorf ''invalid persisted next attempt kind'')
          else Inr (node\<lparr>
            node_state := nrr_State rec, node_stateVersion := nrr_StateVersion rec,
            node_activated := nrr_Activated rec, node_selectedRoute := nrr_SelectedRoute rec,
            node_resolvedInputs := nrr_ResolvedInputs rec,
            node_effectiveOutputs := nrr_EffectiveOutputs rec,
            node_effectiveAttemptID := nrr_EffectiveAttemptID rec,
            node_currentAttemptID := nrr_CurrentAttemptID rec,
            node_nextAttemptSeq := nrr_NextAttemptSeq rec,
            node_businessAttemptCount := nrr_BusinessAttemptCount rec,
            node_recoveryCount := nrr_RecoveryCount rec,
            node_nextAttemptKind := nrr_NextAttemptKind rec, node_nextRetryAt := nrr_NextRetryAt rec,
            node_failure := nrr_Failure rec, node_cancelReason := nrr_CancelReason rec\<rparr>))"

section \<open>Node attempts\<close>

definition NodeAttempt_Snapshot :: "NodeAttempt \<Rightarrow> NodeAttemptRecord" where
  "NodeAttempt_Snapshot attempt = \<lparr>
     nar_ID = att_id attempt, nar_NodeRunID = att_nodeRunID attempt,
     nar_Sequence = att_sequence attempt, nar_Kind = att_kind attempt,
     nar_State = att_state attempt, nar_StateVersion = att_stateVersion attempt,
     nar_Result = att_result attempt\<rparr>"

fun validPersistedAttemptState :: "AttemptState \<Rightarrow> bool" where
  "validPersistedAttemptState (OtherAttemptState s) = False"
| "validPersistedAttemptState _ = True"

definition RestoreNodeAttempt :: "NodeAttemptRecord \<Rightarrow> NodeAttempt result" where
  "RestoreNodeAttempt rec =
     (case NewNodeAttempt (nar_ID rec) (nar_NodeRunID rec) (nar_Sequence rec) (nar_Kind rec) of
        Inl e \<Rightarrow> Inl e
      | Inr attempt \<Rightarrow>
          if nar_StateVersion rec = 0 \<or> \<not> validPersistedAttemptState (nar_State rec) then
            Inl (Errorf ''invalid persisted attempt state'')
          else if AttemptState_Terminal (nar_State rec) \<noteq> (nar_Result rec \<noteq> None) then
            Inl (Errorf ''persisted attempt terminal state and result disagree'')
          else (case nar_Result rec of
              None \<Rightarrow> Inr (attempt\<lparr>att_state := nar_State rec, att_stateVersion := nar_StateVersion rec\<rparr>)
            | Some result \<Rightarrow>
                if res_State result \<noteq> nar_State rec then
                  Inl (Errorf ''persisted attempt result state disagrees with attempt'')
                else Inr (attempt\<lparr>att_state := nar_State rec, att_stateVersion := nar_StateVersion rec,
                                  att_result := Some result\<rparr>)))"

section \<open>Round trips\<close>

lemma restore_identities_Inr:
  "restore_identities ids acc = Inr S \<Longrightarrow>
     S = acc \<union> set ids \<and> distinct ids \<and> set ids \<inter> acc = {} \<and> '''' \<notin> set ids"
  by (induction ids acc rule: restore_identities.induct) (auto split: if_splits)

lemma restore_identities_ok:
  "distinct ids \<Longrightarrow> '''' \<notin> set ids \<Longrightarrow> set ids \<inter> acc = {} \<Longrightarrow>
     restore_identities ids acc = Inr (acc \<union> set ids)"
  by (induction ids acc rule: restore_identities.induct) auto

lemma NewWorkflowRun_Inr:
  assumes "NewWorkflowRun c = Inr r"
  shows "cmd_RunID c \<noteq> ''''" "cmd_ProjectID c \<noteq> ''''" "cmd_WorkflowID c \<noteq> ''''"
    "r = \<lparr>run_id = cmd_RunID c, run_projectID = cmd_ProjectID c,
            run_workflowID = cmd_WorkflowID c, run_purpose = cmd_Purpose c,
            run_definition = cmd_Definition c, run_workflowInput = cmd_WorkflowInput c,
            run_workflowOutput = [],
            run_deadlineAt = cmd_DeadlineAt c, run_createdAt = cmd_CreatedAt c,
            run_state = RunPending, run_stateVersion = 1, run_nodeRunCount = 0,
            run_executionNodeIDs = {}, run_termination = None\<rparr>"
  using assms by (auto simp: NewWorkflowRun_def Let_def split: if_splits sum.splits
      dest: cloneJSONObject_id)

lemma record_command_Snapshot: "record_command (WorkflowRun_Snapshot r) = run_command r"
  by (simp add: record_command_def run_command_def WorkflowRun_Snapshot_def)

lemma run_roundtrip:
  assumes wf: "run_wf r" and version: "run_stateVersion r \<noteq> 0"
  shows "RestoreWorkflowRun (WorkflowRun_Snapshot r) = Inr r"
proof -
  let ?ids = "run_executionNodeIDs r" and ?s = "WorkflowRun_Snapshot r"
  obtain r0 where r0: "NewWorkflowRun (run_command r) = Inr r0"
    using wf by (auto simp: run_wf_def)
  note base = NewWorkflowRun_Inr [OF r0]
  have fin: "finite ?ids" "'''' \<notin> ?ids"
    using wf by (auto simp: run_wf_def)
  then have ids: "restore_identities (sorted_list_of_set ?ids) {} = Inr ?ids"
    by (simp add: restore_identities_ok)
  have len: "length (sorted_list_of_set ?ids) = card ?ids"
    by simp
  have out: "(if length (run_workflowOutput r) \<noteq> 0 then cloneJSONObject (run_workflowOutput r) else Inr [])
      = Inr (run_workflowOutput r)"
    using wf cloneJSONObject_nonempty by (cases "run_state r = RunSucceeded") (auto simp: run_wf_def)
  have succ: "run_state r = RunSucceeded \<Longrightarrow> run_workflowOutput r \<noteq> []"
    using wf cloneJSONObject_nonempty by (auto simp: run_wf_def)
  have count: "run_nodeRunCount r = of_nat (card ?ids)"
    using wf by (simp add: run_wf_def)
  have two: "?ids = {} \<or> \<not> card ?ids < 2"
    using wf by (auto simp: run_wf_def)
  show ?thesis
    unfolding RestoreWorkflowRun_def record_command_Snapshot r0 sum.case Let_def
    using base(1-3) version wf out succ fin count two
    by (cases "run_state r")
      (simp_all add: WorkflowRun_Snapshot_def run_command_def ids base(4) run_wf_def card_eq_0_iff)
qed

text \<open>
  What restoring accepts, it restores faithfully: a snapshot of the restored run is the row it came
  from, with its node identities sorted (the trace and the cancellation stamp of a row are not
  part of the aggregate).
\<close>

lemma run_restore_snapshot:
  assumes "RestoreWorkflowRun rec = Inr r"
  shows "WorkflowRun_Snapshot r = rec\<lparr>wrr_TraceID := '''', wrr_CancelRequestedAt := 0,
    wrr_ExecutionNodeIDs := sort (wrr_ExecutionNodeIDs rec)\<rparr>"
proof -
  obtain base identities outp where
      base: "NewWorkflowRun (record_command rec) = Inr base"
    and ids: "restore_identities (wrr_ExecutionNodeIDs rec) {} = Inr identities"
    and out: "(if length (wrr_WorkflowOutput rec) \<noteq> 0 then cloneJSONObject (wrr_WorkflowOutput rec)
               else Inr []) = Inr outp"
    and r: "r = base\<lparr>run_workflowOutput := outp, run_state := wrr_State rec,
                            run_stateVersion := wrr_StateVersion rec,
                            run_nodeRunCount := of_nat (card identities),
                            run_executionNodeIDs := identities,
                            run_termination := wrr_Termination rec\<rparr>"
    using assms unfolding RestoreWorkflowRun_def Let_def
    by (auto split: if_split_asm sum.split_asm)
  have "identities = set (wrr_ExecutionNodeIDs rec)" "distinct (wrr_ExecutionNodeIDs rec)"
    using restore_identities_Inr [OF ids] by auto
  moreover have "outp = wrr_WorkflowOutput rec"
    using out by (auto split: if_splits dest: cloneJSONObject_id)
  ultimately show ?thesis
    using NewWorkflowRun_Inr(4) [OF base]
    by (simp add: r WorkflowRun_Snapshot_def record_command_def sorted_list_of_set_sort_remdups
        distinct_remdups_id)
qed

lemma node_roundtrip:
  assumes wf: "node_wf n" and version: "node_stateVersion n \<noteq> 0"
  shows "RestoreNodeRun (NodeRun_Snapshot n) = Inr n"
proof -
  have "validPersistedNodeState (node_state n)"
    using wf by (cases "node_state n") (auto simp: node_wf_def)
  moreover have "node_nextAttemptKind n = AttemptInitial \<or> node_nextAttemptKind n = AttemptBusiness
      \<or> node_nextAttemptKind n = AttemptRecovery"
    using wf by (cases "node_nextAttemptKind n") (auto simp: node_wf_def)
  moreover have "node_kind n = NodeControl \<longrightarrow> node_currentAttemptID n = '''' \<and> node_effectiveAttemptID n = ''''
      \<and> node_nextAttemptSeq n = 0"
    using wf unfolding node_wf_def by blast
  moreover have "node_effectiveAttemptID n \<noteq> '''' \<longrightarrow> node_state n = NodeSucceeded"
      "node_state n = NodeSkipped \<longrightarrow> \<not> node_activated n"
      "node_runID n \<noteq> ''''" "node_executionNodeID n \<noteq> ''''"
      "node_kind n = NodeControl \<or> node_kind n = NodeTask"
    using wf unfolding node_wf_def by blast+
  ultimately show ?thesis
    using version unfolding RestoreNodeRun_def NodeRun_Snapshot_def NewNodeRun_def by auto
qed

lemma node_restore_snapshot: "RestoreNodeRun rec = Inr n \<Longrightarrow> NodeRun_Snapshot n = rec"
  by (auto simp: RestoreNodeRun_def NodeRun_Snapshot_def NewNodeRun_def split: if_splits)

lemma attempt_roundtrip:
  assumes wf: "attempt_wf a" and version: "att_stateVersion a \<noteq> 0"
  shows "RestoreNodeAttempt (NodeAttempt_Snapshot a) = Inr a"
proof -
  have "validPersistedAttemptState (att_state a)"
    using wf by (cases "att_state a") (auto simp: attempt_wf_def)
  then show ?thesis
    using wf version
    by (cases "att_result a")
      (auto simp: attempt_wf_def RestoreNodeAttempt_def NodeAttempt_Snapshot_def NewNodeAttempt_def)
qed

lemma attempt_restore_snapshot: "RestoreNodeAttempt rec = Inr a \<Longrightarrow> NodeAttempt_Snapshot a = rec"
  by (auto simp: RestoreNodeAttempt_def NodeAttempt_Snapshot_def NewNodeAttempt_def
      split: if_splits option.splits)

end
