(* ===== verification/Runtime_Properties.thy ===== *)
theory Runtime_Properties
  imports Runtime_Records
begin

text \<open>
  The properties of the domain state: what holds of a run, a node run and an attempt in every state
  their operations reach, and that their persisted rows lose nothing. Each is followed by an
  instance on a concrete history.
\<close>

section \<open>Concrete histories\<close>

definition sample_command :: CreateRunCommand where
  "sample_command = \<lparr>cmd_RunID = ''r1'', cmd_ProjectID = ''p1'', cmd_WorkflowID = ''w1'',
     cmd_Purpose = RunPurposeTest,
     cmd_Definition = \<lparr>dr_SnapshotID = ''s1'', dr_DefinitionHash = ''h1'', dr_Source = DefinitionDraftSnapshot,
                        dr_PublishedVersionID = ''''\<rparr>,
     cmd_WorkflowInput = ''{}'', cmd_DeadlineAt = 90, cmd_CreatedAt = 10\<rparr>"

definition sample_run :: WorkflowRun where
  "sample_run = projr (NewWorkflowRun sample_command)"

definition sample_started :: WorkflowRun where
  "sample_started = projr (WorkflowRun_Start sample_run [''n1'', ''n2''])"

definition sample_failure :: Failure where
  "sample_failure = \<lparr>fail_Code = ''E'', fail_Phase = '''', fail_Retryable = False, fail_RunID = '''',
     fail_SnapshotID = '''', fail_DefinitionHash = '''', fail_ExecutionNodeID = '''', fail_DSLField = '''',
     fail_ExecutionEdgeID = '''', fail_AttemptID = '''', fail_Expected = '''', fail_Actual = '''',
     fail_Message = '''', fail_Details = None\<rparr>"

definition sample_intent :: TerminationIntent where
  "sample_intent = \<lparr>ti_Kind = TerminationCanceled, ti_RequestedAt = 20, ti_Cause = sample_failure\<rparr>"

definition sample_canceling :: WorkflowRun where
  "sample_canceling = snd (projr (WorkflowRun_RequestTermination sample_started sample_intent))"

definition sample_node :: NodeRun where
  "sample_node = projr (NewNodeRun ''r1'' ''n1'' NodeTask)"

definition sample_ready :: NodeRun where
  "sample_ready = projr (NodeRun_Ready (projr (NodeRun_Activate sample_node)) [(''in'', ''1'')])"

definition sample_queued :: NodeRun where
  "sample_queued = snd (snd (projr (NodeRun_QueueAttempt sample_ready ''a1'')))"

definition sample_canceled_nodes :: "NodeRun list" where
  "sample_canceled_nodes = map (\<lambda>nid. projr (NodeRun_Cancel (projr (NewNodeRun ''r1'' nid NodeControl)) ''E''))
     [''n1'', ''n2'']"

definition sample_canceled :: WorkflowRun where
  "sample_canceled = projr (WorkflowRun_CompleteTermination sample_canceling sample_canceled_nodes)"

definition sample_success :: AttemptResult where
  "sample_success = \<lparr>res_State = AttemptSucceeded, res_Outputs = [(''x'', ''1'')], res_ErrorCode = '''',
     res_Message = '''', res_DSLField = '''', res_ErrorDetails = None\<rparr>"

definition sample_attempt :: NodeAttempt where
  "sample_attempt = projr (NodeAttempt_Start (projr (NewNodeAttempt ''a1'' ''n1'' 1 AttemptInitial)))"

definition sample_completed :: NodeAttempt where
  "sample_completed = projr (NodeAttempt_Complete sample_attempt sample_success)"

lemma sample_run_new: "NewWorkflowRun sample_command = Inr sample_run"
  by code_simp

lemma sample_run_start: "WorkflowRun_Start sample_run [''n1'', ''n2''] = Inr sample_started"
  by code_simp

lemma sample_run_cancel: "WorkflowRun_RequestTermination sample_started sample_intent = Inr (True, sample_canceling)"
  by code_simp

lemma sample_run_canceled:
  "WorkflowRun_CompleteTermination sample_canceling sample_canceled_nodes = Inr sample_canceled"
  by code_simp

lemma sample_run_steps: "run_step\<^sup>*\<^sup>* sample_run sample_canceling"
  using sample_run_start sample_run_cancel
  by (meson rs_start rs_request rtranclp.rtrancl_into_rtrancl rtranclp.rtrancl_refl)

lemma sample_node_steps: "(node_step ^^ 3) sample_node sample_queued"
proof -
  have a: "NodeRun_Activate sample_node = Inr (projr (NodeRun_Activate sample_node))"
      "\<not> node_activated sample_node"
    by code_simp+
  have b: "NodeRun_Ready (projr (NodeRun_Activate sample_node)) [(''in'', ''1'')] = Inr sample_ready"
    by code_simp
  have c: "NodeRun_QueueAttempt sample_ready ''a1'' = Inr (1, AttemptInitial, sample_queued)"
    by code_simp
  show ?thesis
    unfolding numeral_3_eq_3 relpowp.simps
    using ns_activate [OF a] ns_ready [OF b] ns_queue [OF c] by blast
qed

section \<open>Runs\<close>

text \<open>
  C35: every run the operations of \<^verbatim>\<open>model.go\<close> can reach from an accepted create command keeps the
  life-cycle invariant (a terminal state is the one its termination intent names, success has an
  object as output and no intent, a started run has its node set), and keeps the command it was
  created from: identity, purpose, definition reference, input, deadline and creation time never
  change.
\<close>

theorem run_reachable_wf:
  assumes "NewWorkflowRun c = Inr r0" and "run_step\<^sup>*\<^sup>* r0 r"
  shows "run_wf r \<and> run_command r = c"
proof -
  have "run_wf r0" "run_command r0 = c"
    using NewWorkflowRun_run_wf [OF assms(1)] by auto
  then show ?thesis
    using assms(2) run_machine.invariant_steps [of "\<lambda>s. run_wf s \<and> run_command s = c"]
    by (metis run_step_command run_step_wf)
qed

theorem run_reachable_wf_witness: "run_wf sample_canceling \<and> run_command sample_canceling = sample_command"
  using run_reachable_wf [OF sample_run_new sample_run_steps] .

text \<open>
  C36: the first termination intent of a run wins. Whatever operations follow, the intent stays the
  recorded one, and when the run becomes terminal it is in the state that intent names.
\<close>

theorem first_termination_wins:
  assumes "run_wf r" and "run_termination r = Some t" and "run_step\<^sup>*\<^sup>* r r'"
  shows "run_termination r' = Some t
    \<and> (RunState_Terminal (run_state r') \<longrightarrow> run_state r' = kind_state (ti_Kind t))"
proof -
  have "run_wf r' \<and> run_termination r' = Some t"
    using assms run_machine.invariant_steps [of "\<lambda>s. run_wf s \<and> run_termination s = Some t" r r']
    by (metis run_step_termination run_step_wf)
  then show ?thesis
    by (simp add: run_wf_def)
qed

lemma sample_canceling_wf: "run_wf sample_canceling \<and> run_termination sample_canceling = Some sample_intent"
proof
  show "run_wf sample_canceling"
    using sample_run_steps NewWorkflowRun_run_wf [OF sample_run_new]
    by (metis run_machine.invariant_steps run_step_wf)
  show "run_termination sample_canceling = Some sample_intent"
    by code_simp
qed

theorem first_termination_wins_witness:
  "run_termination sample_canceled = Some sample_intent \<and> run_state sample_canceled = RunCanceled"
proof -
  have "run_step sample_canceling sample_canceled"
    using sample_run_canceled by (rule rs_terminate)
  then have "run_step\<^sup>*\<^sup>* sample_canceling sample_canceled" ..
  moreover have "RunState_Terminal (run_state sample_canceled)"
    by code_simp
  ultimately show ?thesis
    using first_termination_wins [of sample_canceling sample_intent sample_canceled] sample_canceling_wf
    by (simp add: sample_intent_def kind_state_def)
qed

text \<open>
  C37: a row written for a run the operations reach restores to exactly that run, for every version
  that has not wrapped around to the value zero the row format reserves.
\<close>

theorem run_persisted_roundtrip:
  assumes "NewWorkflowRun c = Inr r0" and "run_step\<^sup>*\<^sup>* r0 r" and "run_stateVersion r \<noteq> 0"
  shows "RestoreWorkflowRun (WorkflowRun_Snapshot r) = Inr r"
proof (rule run_roundtrip)
  show "run_wf r"
    using assms(1,2) NewWorkflowRun_run_wf run_machine.invariant_steps run_step_wf by metis
qed (rule assms(3))

theorem run_persisted_roundtrip_witness:
  "RestoreWorkflowRun (WorkflowRun_Snapshot sample_canceling) = Inr sample_canceling"
proof (rule run_persisted_roundtrip [OF sample_run_new sample_run_steps])
  show "run_stateVersion sample_canceling \<noteq> 0"
    by code_simp
qed

section \<open>Node runs and attempts\<close>

text \<open>
  C38: every reachable node run is well formed (a control node never has an attempt, only a succeeded
  task exposes an effective attempt and it is the current one, a skipped node was never activated,
  failure and cancel reason belong to their terminal states), its sequence number is the number
  of business and recovery attempts, and its row restores to exactly that node run.
\<close>

theorem node_reachable:
  assumes "NewNodeRun rid nid k = Inr n0" and "node_step\<^sup>*\<^sup>* n0 n"
  shows "node_wf n \<and> node_counted n
    \<and> (node_stateVersion n = 0 \<or> RestoreNodeRun (NodeRun_Snapshot n) = Inr n)"
proof -
  have "node_wf n \<and> node_counted n"
    using assms NewNodeRun_wf [OF assms(1)] node_machine.invariant_steps [of "\<lambda>s. node_wf s \<and> node_counted s" n0 n]
    by (metis node_step_counted node_step_wf)
  then show ?thesis
    using node_roundtrip by blast
qed

theorem node_reachable_witness:
  "node_wf sample_queued \<and> node_counted sample_queued
    \<and> (node_stateVersion sample_queued = 0 \<or> RestoreNodeRun (NodeRun_Snapshot sample_queued) = Inr sample_queued)"
proof (rule node_reachable)
  show "NewNodeRun ''r1'' ''n1'' NodeTask = Inr sample_node"
    by code_simp
  show "node_step\<^sup>*\<^sup>* sample_node sample_queued"
    using sample_node_steps by (rule relpowp_imp_rtranclp)
qed

text \<open>
  C39: the state version of a node run detects every change: a history of fewer than \<open>2 ^ 64\<close> changes,
  and at least one, ends with another version, and it has counted each of them. This is what the
  compare-and-swap writes of the stores rely on.
\<close>

theorem node_version_detects_change:
  assumes "(node_step ^^ k) n n'" and "0 < k" and "k < 2 ^ 64"
  shows "node_stateVersion n' = node_stateVersion n + of_nat k \<and> node_stateVersion n' \<noteq> node_stateVersion n"
  using node_machine.version_counts_steps [OF assms(1)] node_machine.version_detects_change [OF assms] by simp

theorem node_version_detects_change_witness:
  "node_stateVersion sample_queued = node_stateVersion sample_node + of_nat 3
    \<and> node_stateVersion sample_queued \<noteq> node_stateVersion sample_node"
  using node_version_detects_change [OF sample_node_steps] by simp

text \<open>
  C40: completing an attempt is idempotent and first-writer-wins. After the first accepted result, the
  same result is accepted again without any change, a different one is a conflict, and no later
  operation changes the attempt.
\<close>

theorem attempt_completion_once:
  assumes "NodeAttempt_Complete a r = Inr a'" and "\<not> AttemptState_Terminal (att_state a)"
  shows "NodeAttempt_Complete a' q =
      (if AttemptResult_Equal r q then Inr a'
       else Inl (TransitionError ''node_attempt'' (AttemptState_text (res_State r)) (AttemptState_text (res_State q))))
    \<and> (\<forall>b. attempt_step\<^sup>*\<^sup>* a' b \<longrightarrow> b = a')"
proof -
  have a': "AttemptState_Terminal (res_State r)" "att_state a' = res_State r" "att_result a' = Some r"
    using Complete_Inr [OF assms(1)] assms(2) by auto
  then show ?thesis
    using attempt_machine.terminal_final [of a'] by (auto simp: NodeAttempt_Complete_def)
qed

theorem attempt_completion_once_witness:
  "NodeAttempt_Complete sample_completed (sample_success\<lparr>res_Message := ''late''\<rparr>) =
     Inl (TransitionError ''node_attempt'' ''succeeded'' ''succeeded'')
   \<and> NodeAttempt_Complete sample_completed sample_success = Inr sample_completed"
proof -
  have c: "NodeAttempt_Complete sample_attempt sample_success = Inr sample_completed"
      "\<not> AttemptState_Terminal (att_state sample_attempt)"
    by code_simp+
  have e: "\<not> AttemptResult_Equal sample_success (sample_success\<lparr>res_Message := ''late''\<rparr>)"
      "AttemptResult_Equal sample_success sample_success"
    by code_simp+
  show ?thesis
    using attempt_completion_once [OF c, of "sample_success\<lparr>res_Message := ''late''\<rparr>"]
      attempt_completion_once [OF c, of sample_success] e
    by (simp add: sample_success_def)
qed

end
