(* ===== verification/Dsl_Model.thy ===== *)
theory Dsl_Model
  imports Json "HOL-Library.Product_Lexorder"
begin

text \<open>
  The immutable workflow document of \<^verbatim>\<open>internal/dsl\<close>: \<^verbatim>\<open>model.go\<close>, \<^verbatim>\<open>issue.go\<close> and
  \<^verbatim>\<open>compatibility.go\<close>, and the classification of a JSON value by data type. A map of the source that
  may be nil is an option of an association list; \<open>entries\<close> reads it, nil being empty.
\<close>

section \<open>Documents\<close>

type_synonym NodeID = string
type_synonym EdgeID = string
type_synonym PortName = string
type_synonym RouteName = string

definition VersionV1 :: string where
  "VersionV1 = ''1''"

datatype DataType =
  TypeString | TypeInteger | TypeNumber | TypeBoolean | TypeObject | TypeArray | OtherType string

fun DataType_Valid :: "DataType \<Rightarrow> bool" where
  "DataType_Valid (OtherType t) = False"
| "DataType_Valid _ = True"

fun DataType_text :: "DataType \<Rightarrow> string" where
  "DataType_text TypeString = ''string''"
| "DataType_text TypeInteger = ''integer''"
| "DataType_text TypeNumber = ''number''"
| "DataType_text TypeBoolean = ''boolean''"
| "DataType_text TypeObject = ''object''"
| "DataType_text TypeArray = ''array''"
| "DataType_text (OtherType t) = t"

definition compatible :: "DataType \<Rightarrow> DataType \<Rightarrow> bool" where
  "compatible source target = (source = target \<or> source = TypeInteger \<and> target = TypeNumber)"

datatype DslNodeKind = KindControl | KindTask | OtherKind string

fun DslNodeKind_Valid :: "DslNodeKind \<Rightarrow> bool" where
  "DslNodeKind_Valid (OtherKind k) = False"
| "DslNodeKind_Valid _ = True"

datatype InputBindingKind = BindingLiteral | BindingNodeOutput | OtherBinding string

record OutputReference =
  or_NodeID :: NodeID
  or_Name :: PortName

record InputBinding =
  ib_Kind :: InputBindingKind
  ib_DataType :: DataType
  ib_Value :: raw_message
  ib_Output :: "OutputReference option"

datatype ActivationKind = ActivationAlways | ActivationRoute | OtherActivation string

record Activation =
  act_Kind :: ActivationKind
  act_Route :: RouteName

record Edge =
  edge_ID :: EdgeID
  edge_SourceNodeID :: NodeID
  edge_TargetNodeID :: NodeID
  edge_Activation :: Activation

record RetryBackoff =
  rb_Kind :: string
  rb_DelayMS :: "64 word"

record ExecutionPolicy =
  ep_MaxAttempts :: "32 word"
  ep_MaxRecoveries :: "32 word"
  ep_AttemptTimeoutMS :: "64 word"
  ep_RetryBackoff :: "RetryBackoff option"
  ep_RetryableErrorCodes :: "string list"

record Operation =
  op_Type :: string
  op_Version :: "32 word"
  op_Config :: "(string, raw_message) gomap option"

record Node =
  dn_ID :: NodeID
  dn_Kind :: DslNodeKind
  dn_Operation :: Operation
  dn_Inputs :: "(PortName, InputBinding) gomap option"
  dn_Outputs :: "(PortName, DataType) gomap option"
  dn_ExecutionPolicy :: ExecutionPolicy

record Document =
  doc_DSLVersion :: string
  doc_EntryNodeID :: NodeID
  doc_ExitNodeID :: NodeID
  doc_Nodes :: "Node list"
  doc_Edges :: "Edge list"

type_synonym Coordinate = "string \<times> 32 word"

definition Operation_Coordinate :: "Operation \<Rightarrow> Coordinate" where
  "Operation_Coordinate operation = (op_Type operation, op_Version operation)"

definition entries :: "('k, 'v) gomap option \<Rightarrow> ('k, 'v) gomap" where
  "entries m = (case m of None \<Rightarrow> [] | Some es \<Rightarrow> es)"

text \<open>The zero value of a node, which a lookup of a missing key yields.\<close>

definition zero_policy :: ExecutionPolicy where
  "zero_policy = \<lparr>ep_MaxAttempts = 0, ep_MaxRecoveries = 0, ep_AttemptTimeoutMS = 0,
     ep_RetryBackoff = None, ep_RetryableErrorCodes = []\<rparr>"

definition zero_Node :: Node where
  "zero_Node = \<lparr>dn_ID = '''', dn_Kind = OtherKind '''',
     dn_Operation = \<lparr>op_Type = '''', op_Version = 0, op_Config = None\<rparr>,
     dn_Inputs = None, dn_Outputs = None, dn_ExecutionPolicy = zero_policy\<rparr>"

definition zero_InputBinding :: InputBinding where
  "zero_InputBinding = \<lparr>ib_Kind = OtherBinding '''', ib_DataType = OtherType '''', ib_Value = [],
     ib_Output = None\<rparr>"

section \<open>Issues\<close>

record Issue =
  issue_Code :: string
  issue_Message :: string
  issue_NodeID :: NodeID
  issue_EdgeID :: EdgeID
  issue_Field :: string

definition issue_key :: "Issue \<Rightarrow> string \<times> string \<times> string \<times> string" where
  "issue_key i = (issue_NodeID i, issue_EdgeID i, issue_Field i, issue_Code i)"

definition sortIssues :: "Issue list \<Rightarrow> Issue list" where
  "sortIssues issues = sort_key issue_key issues"

definition HasIssues :: "Issue list \<Rightarrow> bool" where
  "HasIssues issues = (length issues \<noteq> 0)"

section \<open>Operation compatibility\<close>

record CompatibilityChecker =
  cc_supported :: "Coordinate list"

definition NewCompatibilityChecker :: "Coordinate list \<Rightarrow> CompatibilityChecker" where
  "NewCompatibilityChecker coordinates = \<lparr>cc_supported = remdups coordinates\<rparr>"

definition BuiltinV1Compatibility :: CompatibilityChecker where
  "BuiltinV1Compatibility = NewCompatibilityChecker
     [(''control.start'', 1), (''control.end'', 1), (''control.branch'', 1),
      (''task.python'', 1), (''task.http'', 1), (''task.rpc'', 1)]"

definition CheckAll :: "CompatibilityChecker \<Rightarrow> Document \<Rightarrow> Issue list" where
  "CheckAll checker document = sortIssues
     (map (\<lambda>node. \<lparr>issue_Code = ''RUNTIME_OPERATION_UNSUPPORTED'',
                     issue_Message = ''runtime does not support the operation coordinate'',
                     issue_NodeID = dn_ID node, issue_EdgeID = '''',
                     issue_Field = ''operation.version''\<rparr>)
        (filter (\<lambda>node. Operation_Coordinate (dn_Operation node) \<notin> set (cc_supported checker))
           (doc_Nodes document)))"

definition Coordinates :: "CompatibilityChecker \<Rightarrow> Coordinate list" where
  "Coordinates checker = sort (cc_supported checker)"

section \<open>Data types of JSON values\<close>

text \<open>
  \<^verbatim>\<open>rawDataType\<close> of the validator reads a number whose literal \<^verbatim>\<open>big.Rat\<close> refuses as a number; the
  engine's function of the same name refuses it. Null has no data type. The raw text is valid
  JSON when its value is classified, so trimming white space before the comparison with
  \<^verbatim>\<open>null\<close> asks whether the value is null.
\<close>

fun dsl_json_type :: "json \<Rightarrow> DataType option" where
  "dsl_json_type JNull = None"
| "dsl_json_type (JString s) = Some TypeString"
| "dsl_json_type (JBool b) = Some TypeBoolean"
| "dsl_json_type (JNumber n) =
     (case rat_of_literal n of
        Some q \<Rightarrow> if rat_is_int q then Some TypeInteger else Some TypeNumber
      | None \<Rightarrow> Some TypeNumber)"
| "dsl_json_type (JArray vs) = Some TypeArray"
| "dsl_json_type (JObject ms) = Some TypeObject"

definition dsl_rawDataType :: "raw_message \<Rightarrow> DataType option" where
  "dsl_rawDataType raw = (case parse_text raw of None \<Rightarrow> None | Some v \<Rightarrow> dsl_json_type v)"

section \<open>Lemmas\<close>

lemma sortIssues_nil [simp]: "sortIssues is = [] \<longleftrightarrow> is = []"
  unfolding sortIssues_def by (metis length_0_conv length_sort)

lemma CheckAll_empty:
  "CheckAll checker document = [] \<longleftrightarrow>
     (\<forall>node \<in> set (doc_Nodes document). Operation_Coordinate (dn_Operation node) \<in> set (cc_supported checker))"
  by (auto simp: CheckAll_def filter_empty_conv)

end
