(* ===== verification/Branch.thy ===== *)
theory Branch
  imports Dsl_Model
begin

text \<open>
  Evaluation of a branch node, \<^verbatim>\<open>internal/runtime/engine/branch.go\<close>: the cases are decoded from the
  node's configuration and tried in order, each comparing the input (or a path into it) with a
  constant; the first match selects its route, and no match selects the default route.
\<close>

section \<open>Decoding the configuration\<close>

text \<open>
  \<^verbatim>\<open>json.Unmarshal\<close> into typed targets. Null leaves a string or a slice as it is; a value of another
  JSON type is an error. A struct field is found by its name up to the case of ASCII letters, and the
  last member with a field's name wins. The raw text of \<^verbatim>\<open>value\<close> is only ever decoded again,
  so the field keeps the decoded value; \<^term>\<open>None\<close> is the empty raw text of an absent member, which
  does not decode.
\<close>

definition lower_char :: "char \<Rightarrow> char" where
  "lower_char c = (if CHR ''A'' \<le> c \<and> c \<le> CHR ''Z'' then char_of (of_char c + 32 :: nat) else c)"

definition fold_name :: "string \<Rightarrow> string" where
  "fold_name s = map lower_char s"

fun unmarshal_string :: "json \<Rightarrow> string \<Rightarrow> string option" where
  "unmarshal_string (JString t) old = Some t"
| "unmarshal_string JNull old = Some old"
| "unmarshal_string _ old = None"

record branchCase =
  bc_Route :: string
  bc_Path :: string
  bc_Operator :: string
  bc_Value :: "json option"

definition zero_branchCase :: branchCase where
  "zero_branchCase = \<lparr>bc_Route = '''', bc_Path = '''', bc_Operator = '''', bc_Value = None\<rparr>"

definition branch_member :: "string \<times> json \<Rightarrow> branchCase \<Rightarrow> branchCase option" where
  "branch_member member c =
     (let (key, v) = member; name = fold_name key in
      if name = ''route'' then map_option (\<lambda>s. c\<lparr>bc_Route := s\<rparr>) (unmarshal_string v (bc_Route c))
      else if name = ''path'' then map_option (\<lambda>s. c\<lparr>bc_Path := s\<rparr>) (unmarshal_string v (bc_Path c))
      else if name = ''operator'' then map_option (\<lambda>s. c\<lparr>bc_Operator := s\<rparr>) (unmarshal_string v (bc_Operator c))
      else if name = ''value'' then Some (c\<lparr>bc_Value := Some v\<rparr>)
      else Some c)"

fun branch_members :: "(string \<times> json) list \<Rightarrow> branchCase \<Rightarrow> branchCase option" where
  "branch_members [] c = Some c"
| "branch_members (m # ms) c =
     (case branch_member m c of None \<Rightarrow> None | Some c' \<Rightarrow> branch_members ms c')"

fun unmarshal_case :: "json \<Rightarrow> branchCase option" where
  "unmarshal_case (JObject ms) = branch_members ms zero_branchCase"
| "unmarshal_case JNull = Some zero_branchCase"
| "unmarshal_case _ = None"

fun unmarshal_case_list :: "json list \<Rightarrow> branchCase list option" where
  "unmarshal_case_list [] = Some []"
| "unmarshal_case_list (v # vs) =
     (case (unmarshal_case v, unmarshal_case_list vs) of
        (Some c, Some cs) \<Rightarrow> Some (c # cs)
      | _ \<Rightarrow> None)"

definition unmarshal_cases :: "raw_message \<Rightarrow> branchCase list option" where
  "unmarshal_cases raw =
     (case parse_text raw of
        Some (JArray vs) \<Rightarrow> unmarshal_case_list vs
      | Some JNull \<Rightarrow> Some []
      | _ \<Rightarrow> None)"

definition config_raw :: "Node \<Rightarrow> string \<Rightarrow> raw_message" where
  "config_raw node field = (case map_of (entries (op_Config (dn_Operation node))) field of
     None \<Rightarrow> [] | Some raw \<Rightarrow> raw)"

section \<open>Comparisons\<close>

definition decodeJSON :: "raw_message \<Rightarrow> json option" where
  "decodeJSON raw = map_option to_any (decode_first raw)"

fun lookup_segments :: "json \<Rightarrow> string list \<Rightarrow> json option" where
  "lookup_segments current [] = Some current"
| "lookup_segments current (segment # segments) =
     (case current of
        JObject ms \<Rightarrow> (case map_of ms segment of None \<Rightarrow> None | Some v \<Rightarrow> lookup_segments v segments)
      | _ \<Rightarrow> None)"

definition lookupPath :: "json \<Rightarrow> string \<Rightarrow> json option" where
  "lookupPath v path = lookup_segments v (split_on (CHR ''.'') path)"

fun rational :: "json \<Rightarrow> rat option" where
  "rational (JNumber n) = rat_of_literal n"
| "rational _ = None"

definition comparableKinds :: "json \<Rightarrow> json \<Rightarrow> bool" where
  "comparableKinds left right =
     (if rational left \<noteq> None \<or> rational right \<noteq> None then rational left \<noteq> None \<and> rational right \<noteq> None
      else case left of
          JNull \<Rightarrow> right = JNull
        | JString _ \<Rightarrow> (case right of JString _ \<Rightarrow> True | _ \<Rightarrow> False)
        | JBool _ \<Rightarrow> (case right of JBool _ \<Rightarrow> True | _ \<Rightarrow> False)
        | JArray _ \<Rightarrow> (case right of JArray _ \<Rightarrow> True | _ \<Rightarrow> False)
        | JObject _ \<Rightarrow> (case right of JObject _ \<Rightarrow> True | _ \<Rightarrow> False)
        | JNumber _ \<Rightarrow> False)"

text \<open>\<open>equal_list\<close> and \<open>equal_members\<close> are the loops over the elements of two arrays of one length and
  over the members of the left of two objects of one size.\<close>

fun equalJSON :: "json \<Rightarrow> json \<Rightarrow> bool result"
  and equal_list :: "json list \<Rightarrow> json list \<Rightarrow> bool result"
  and equal_members :: "(string \<times> json) list \<Rightarrow> (string \<times> json) list \<Rightarrow> bool result"
where
  "equalJSON (JNumber n) right =
     (case (rat_of_literal n, rational right) of
        (Some a, Some b) \<Rightarrow> Inr (a = b)
      | (None, None) \<Rightarrow> Inl (Errorf ''unsupported JSON value type'')
      | _ \<Rightarrow> Inr False)"
| "equalJSON JNull right = Inr (right = JNull)"
| "equalJSON (JString s) right = (case right of JString t \<Rightarrow> Inr (s = t) | _ \<Rightarrow> Inr False)"
| "equalJSON (JBool a) right = (case right of JBool b \<Rightarrow> Inr (a = b) | _ \<Rightarrow> Inr False)"
| "equalJSON (JArray xs) right =
     (case right of
        JArray ys \<Rightarrow> if length xs \<noteq> length ys then Inr False else equal_list xs ys
      | _ \<Rightarrow> Inr False)"
| "equalJSON (JObject ms) right =
     (case right of
        JObject cs \<Rightarrow> if length ms \<noteq> length cs then Inr False else equal_members ms cs
      | _ \<Rightarrow> Inr False)"
| "equal_list [] ys = Inr True"
| "equal_list (x # xs) [] = Inr True"
| "equal_list (x # xs) (y # ys) =
     (case equalJSON x y of
        Inl e \<Rightarrow> Inl e
      | Inr equal \<Rightarrow> if equal then equal_list xs ys else Inr False)"
| "equal_members [] cs = Inr True"
| "equal_members ((k, v) # ms) cs =
     (case map_of cs k of
        None \<Rightarrow> Inr False
      | Some other \<Rightarrow>
          (case equalJSON v other of
             Inl e \<Rightarrow> Inl e
           | Inr equal \<Rightarrow> if equal then equal_members ms cs else Inr False))"

fun array_contains :: "json list \<Rightarrow> json \<Rightarrow> bool result" where
  "array_contains [] expected = Inr False"
| "array_contains (item # items) expected =
     (case equalJSON item expected of
        Inl e \<Rightarrow> Inl e
      | Inr equal \<Rightarrow> if equal then Inr True else array_contains items expected)"

definition branch_contains :: "json \<Rightarrow> json \<Rightarrow> bool result" where
  "branch_contains actual expected =
     (case actual of
        JString typed \<Rightarrow>
          (case expected of
             JString candidate \<Rightarrow> Inr (contains_str typed candidate)
           | _ \<Rightarrow> Inl (Errorf ''string contains requires a string''))
      | JArray typed \<Rightarrow> array_contains typed expected
      | _ \<Rightarrow> Inl (Errorf ''contains requires string or array''))"

definition compareBranch :: "json \<Rightarrow> string \<Rightarrow> json \<Rightarrow> bool result" where
  "compareBranch actual operator expected =
     (if operator = ''eq'' \<or> operator = ''neq'' then
        (if \<not> comparableKinds actual expected then
           Inl (Errorf ''equality operands have incompatible JSON types'')
         else case equalJSON actual expected of
             Inl e \<Rightarrow> Inl e
           | Inr equal \<Rightarrow> Inr (if operator = ''neq'' then \<not> equal else equal))
      else if operator = ''gt'' \<or> operator = ''gte'' \<or> operator = ''lt'' \<or> operator = ''lte'' then
        (case (rational actual, rational expected) of
           (Some left, Some right) \<Rightarrow>
             Inr (if operator = ''gt'' then left > right
                  else if operator = ''gte'' then left \<ge> right
                  else if operator = ''lt'' then left < right
                  else left \<le> right)
         | _ \<Rightarrow> Inl (Errorf ''numeric operator requires numbers''))
      else if operator = ''contains'' \<or> operator = ''not_contains'' then
        (case branch_contains actual expected of
           Inl e \<Rightarrow> Inl e
         | Inr contains \<Rightarrow> Inr (if operator = ''not_contains'' then \<not> contains else contains))
      else if operator = ''starts_with'' \<or> operator = ''ends_with'' then
        (case (actual, expected) of
           (JString left, JString right) \<Rightarrow>
             Inr (if operator = ''starts_with'' then has_prefix left right else has_suffix left right)
         | _ \<Rightarrow> Inl (Errorf ''string operator requires strings''))
      else if operator = ''has_key'' \<or> operator = ''not_has_key'' then
        (case (actual, expected) of
           (JObject object, JString key) \<Rightarrow>
             Inr (if operator = ''not_has_key'' then map_of object key = None else map_of object key \<noteq> None)
         | _ \<Rightarrow> Inl (Errorf ''has_key requires object and string''))
      else Inl (Errorf (''operator '' @ quoted operator @ '' is unsupported'')))"

section \<open>Evaluation\<close>

definition FailureBranchPathNotFound :: string where
  "FailureBranchPathNotFound = ''BRANCH_PATH_NOT_FOUND''"

definition FailureBranchOperatorMismatch :: string where
  "FailureBranchOperatorMismatch = ''BRANCH_OPERATOR_TYPE_MISMATCH''"

text \<open>The loop over the cases; \<open>index\<close> is the position the error field reports.\<close>

definition case_field :: "nat \<Rightarrow> string \<Rightarrow> string" where
  "case_field index part = ''operation.config.cases.'' @ show_nat index @ part"

fun evaluate_cases :: "Node \<Rightarrow> json \<Rightarrow> string \<Rightarrow> nat \<Rightarrow> branchCase list \<Rightarrow> string result" where
  "evaluate_cases node v fallback index [] = Inr fallback"
| "evaluate_cases node v fallback index (candidate # cases) =
     (case (if bc_Path candidate \<noteq> '''' then lookupPath v (bc_Path candidate) else Some v) of
        None \<Rightarrow> Inl (EngineError FailureBranchPathNotFound (dn_ID node) (case_field index ''.path''))
      | Some actual \<Rightarrow>
          (case map_option to_any (bc_Value candidate) of
             None \<Rightarrow> Inl (EngineError FailureBranchOperatorMismatch (dn_ID node) (case_field index ''.value''))
           | Some expected \<Rightarrow>
               (case compareBranch actual (bc_Operator candidate) expected of
                  Inl e \<Rightarrow> Inl (EngineError FailureBranchOperatorMismatch (dn_ID node) (case_field index ''''))
                | Inr matched \<Rightarrow>
                    if matched then Inr (bc_Route candidate)
                    else evaluate_cases node v fallback (index + 1) cases)))"

definition evaluateBranch :: "Node \<Rightarrow> raw_message \<Rightarrow> string result" where
  "evaluateBranch node raw =
     (case (unmarshal_cases (config_raw node ''cases''),
            Option.bind (parse_text (config_raw node ''default_route'')) (\<lambda>v. unmarshal_string v '''')) of
        (Some cases, Some fallback) \<Rightarrow>
          (case decodeJSON raw of
             None \<Rightarrow> Inl (EngineError FailureBranchOperatorMismatch (dn_ID node) ''inputs.value'')
           | Some v \<Rightarrow> evaluate_cases node v fallback 0 cases)
      | _ \<Rightarrow> Inl (EngineError FailureBranchOperatorMismatch (dn_ID node) ''operation.config''))"

section \<open>Equality of values\<close>

text \<open>
  What a decoded value means: a number is its exact rational, an object is a map. \<open>decoded\<close> are the
  values decoding into \<^verbatim>\<open>any\<close> yields, with number literals that \<^verbatim>\<open>big.Rat\<close> reads.
\<close>

datatype meaning =
    MNull
  | MBool bool
  | MNumber "rat option"
  | MString string
  | MArray "meaning list"
  | MObject "string \<Rightarrow> meaning option"

fun meaning_of :: "json \<Rightarrow> meaning" where
  "meaning_of JNull = MNull"
| "meaning_of (JBool b) = MBool b"
| "meaning_of (JNumber n) = MNumber (rat_of_literal n)"
| "meaning_of (JString s) = MString s"
| "meaning_of (JArray vs) = MArray (map meaning_of vs)"
| "meaning_of (JObject ms) = MObject (map_of (map (\<lambda>(k, v). (k, meaning_of v)) ms))"

fun decoded :: "json \<Rightarrow> bool" where
  "decoded (JNumber n) = (rat_of_literal n \<noteq> None)"
| "decoded (JArray vs) = list_all decoded vs"
| "decoded (JObject ms) = (distinct (map fst ms) \<and> list_all (\<lambda>(k, v). decoded v) ms)"
| "decoded _ = True"

lemma map_of_meaning:
  "map_of (map (\<lambda>(k, v). (k, meaning_of v)) ms) k = map_option meaning_of (map_of ms k)"
  by (induction ms) auto

lemma all_option_meaning:
  "(\<forall>k v. m k = Some v \<longrightarrow> (\<exists>w. c k = Some w \<and> meaning_of v = meaning_of w)) \<longleftrightarrow>
     (\<forall>k. (\<exists>v. m k = Some v) \<longrightarrow> map_option meaning_of (m k) = map_option meaning_of (c k))"
proof (intro iff_allI)
  fix k
  show "(\<forall>v. m k = Some v \<longrightarrow> (\<exists>w. c k = Some w \<and> meaning_of v = meaning_of w)) \<longleftrightarrow>
      ((\<exists>v. m k = Some v) \<longrightarrow> map_option meaning_of (m k) = map_option meaning_of (c k))"
    by (cases "m k"; cases "c k") auto
qed

lemma members_le_iff:
  assumes "distinct (map fst ms)" and "distinct (map fst cs)" and "length ms = length cs"
  shows "(\<forall>(k, v) \<in> set ms. \<exists>w. map_of cs k = Some w \<and> meaning_of v = meaning_of w)
     \<longleftrightarrow> meaning_of (JObject ms) = meaning_of (JObject cs)"
proof -
  let ?m = "\<lambda>xs. map_of (map (\<lambda>(k, v). (k, meaning_of v)) xs)"
  have "(\<forall>(k, v) \<in> set ms. \<exists>w. map_of cs k = Some w \<and> meaning_of v = meaning_of w) \<longleftrightarrow> ?m ms \<subseteq>\<^sub>m ?m cs"
    unfolding ball_values_map_of [OF assms(1)] map_le_def map_of_meaning dom_def
    by (simp add: all_option_meaning)
  moreover have "?m ms \<subseteq>\<^sub>m ?m cs \<Longrightarrow> ?m ms = ?m cs"
  proof -
    assume le: "?m ms \<subseteq>\<^sub>m ?m cs"
    have dom: "dom (?m xs) = set (map fst xs)" for xs :: "(string \<times> json) list"
      by (force simp: dom_map_of_conv_image_fst)
    have "card (dom (?m xs)) = length xs" if "distinct (map fst xs)" for xs :: "(string \<times> json) list"
      unfolding dom using distinct_card [OF that] by simp
    then have "dom (?m ms) = dom (?m cs)"
      using assms map_le_implies_dom_le [OF le] by (intro card_subset_eq) (auto simp: dom)
    then show ?thesis
      using le by (simp add: map_le_def map_le_antisym)
  qed
  ultimately show ?thesis
    by (auto simp: map_le_refl)
qed

lemma equalJSON_meaning_aux:
  "decoded l \<Longrightarrow> decoded r \<Longrightarrow> equalJSON l r = Inr (meaning_of l = meaning_of r)"
  "list_all decoded xs \<Longrightarrow> list_all decoded ys \<Longrightarrow> length xs = length ys \<Longrightarrow>
     equal_list xs ys = Inr (map meaning_of xs = map meaning_of ys)"
  "list_all (\<lambda>(k, v). decoded v) ms \<Longrightarrow> list_all (\<lambda>(k, v). decoded v) cs \<Longrightarrow>
     equal_members ms cs = Inr (\<forall>(k, v) \<in> set ms. \<exists>w. map_of cs k = Some w \<and> meaning_of v = meaning_of w)"
proof (induction l r and xs ys and ms cs rule: equalJSON_equal_list_equal_members.induct)
  case (1 n right)
  then show ?case by (cases right) auto
next
  case (2 right)
  then show ?case by (cases right) auto
next
  case (5 xs right)
  then show ?case by (cases right) (auto dest: map_eq_imp_length_eq)
next
  case (6 ms right)
  show ?case
  proof (cases right)
    case (JObject cs)
    have len: "length ms = length cs" if "meaning_of (JObject ms) = meaning_of (JObject cs)"
    proof -
      have "set (map fst ms) = set (map fst cs)"
        using that by (auto simp: fun_eq_iff map_of_meaning map_of_fst_iff)
           (metis map_option_eq_Some option.map_disc_iff not_Some_eq map_of_eq_None_iff image_eqI fst_conv)+
      then show ?thesis
        using 6(2,3) JObject distinct_card by (metis decoded.simps(3) length_map)
    qed
    show ?thesis
    proof (cases "length ms = length cs")
      case True
      then show ?thesis
        using 6 JObject members_le_iff [of ms cs] by simp
    next
      case False
      then show ?thesis
        using len JObject by auto
    qed
  qed (use 6 in auto)
next
  case (11 k v ms cs)
  show ?case
  proof (cases "map_of cs k")
    case (Some other)
    then have "decoded other"
      using 11(4) by (auto simp: list_all_iff dest: map_of_SomeD)
    then show ?thesis
      using 11 Some by auto
  qed simp
qed (auto split: json.splits)

lemmas equalJSON_meaning = equalJSON_meaning_aux(1)

text \<open>Decoding into \<^verbatim>\<open>any\<close> leaves no repeated keys.\<close>

lemma dedup_members_distinct: "distinct (map fst (dedup_members ms))"
proof -
  have "distinct (map fst m) \<Longrightarrow> distinct (map fst (fold (\<lambda>(k, v) m. AList.update k v m) ms m))"
    for ms m :: "(string \<times> 'a) list"
  proof (induction ms arbitrary: m)
    case (Cons a ms)
    then show ?case
      using distinct_update [OF Cons.prems] by (cases a) simp
  qed simp
  then show ?thesis
    by (simp add: dedup_members_def)
qed

lemma update_values: "snd ` set (AList.update k v m) \<subseteq> insert v (snd ` set m)"
  by (induction m) auto

lemma dedup_members_values: "snd ` set (dedup_members ms) \<subseteq> snd ` set ms"
proof -
  have "snd ` set (fold (\<lambda>(k, v) m. AList.update k v m) ms m) \<subseteq> snd ` set ms \<union> snd ` set m"
    for ms m :: "(string \<times> 'a) list"
  proof (induction ms arbitrary: m)
    case (Cons a ms)
    obtain k v where a: "a = (k, v)"
      by (cases a)
    have "snd ` set (fold (\<lambda>(k, v) m. AList.update k v m) ms (AList.update k v m))
        \<subseteq> snd ` set ms \<union> snd ` set (AList.update k v m)"
      by (rule Cons.IH)
    also have "\<dots> \<subseteq> snd ` set ms \<union> insert v (snd ` set m)"
      using update_values [of k v m] by blast
    finally show ?case
      by (simp add: a)
  qed simp
  from this [of ms "[]"] show ?thesis
    by (simp add: dedup_members_def)
qed

fun rational_literals :: "json \<Rightarrow> bool" where
  "rational_literals (JNumber n) = (rat_of_literal n \<noteq> None)"
| "rational_literals (JArray vs) = list_all rational_literals vs"
| "rational_literals (JObject ms) = list_all (\<lambda>(k, v). rational_literals v) ms"
| "rational_literals _ = True"

lemma decoded_to_any: "rational_literals v \<Longrightarrow> decoded (to_any v)"
proof (induction v rule: to_any.induct)
  case (2 ms)
  have *: "decoded w" if "w \<in> snd ` set (map (\<lambda>(k, v). (k, to_any v)) ms)" for w
    using that 2 by (auto simp: list_all_iff)
  have "decoded w" if "(k, w) \<in> set (dedup_members (map (\<lambda>(k, v). (k, to_any v)) ms))" for k w
  proof -
    have "w \<in> snd ` set (dedup_members (map (\<lambda>(k, v). (k, to_any v)) ms))"
      using that by (metis image_eqI snd_conv)
    with dedup_members_values have "w \<in> snd ` set (map (\<lambda>(k, v). (k, to_any v)) ms)" ..
    then show ?thesis by (rule *)
  qed
  then show ?case
    by (auto simp: list_all_iff dedup_members_distinct simp del: map_map)
qed (auto simp: list_all_iff)

section \<open>The first matching case\<close>

text \<open>Whether a case matches a value: \<^term>\<open>None\<close> when evaluating it is an error.\<close>

definition case_matches :: "json \<Rightarrow> branchCase \<Rightarrow> bool option" where
  "case_matches v c =
     (case (if bc_Path c \<noteq> '''' then lookupPath v (bc_Path c) else Some v) of
        None \<Rightarrow> None
      | Some actual \<Rightarrow> (case bc_Value c of
            None \<Rightarrow> None
          | Some w \<Rightarrow> (case compareBranch actual (bc_Operator c) (to_any w) of
                Inl e \<Rightarrow> None | Inr b \<Rightarrow> Some b)))"

definition first_match :: "json \<Rightarrow> branchCase list \<Rightarrow> branchCase \<Rightarrow> bool" where
  "first_match v cs c \<longleftrightarrow> (\<exists>pre post. cs = pre @ c # post
     \<and> (\<forall>d \<in> set pre. case_matches v d = Some False) \<and> case_matches v c = Some True)"

lemma first_match_Cons:
  "first_match v (d # cs) c \<longleftrightarrow>
     (case_matches v d = Some True \<and> c = d) \<or> (case_matches v d = Some False \<and> first_match v cs c)"
proof
  assume "first_match v (d # cs) c"
  then obtain pre post where "d # cs = pre @ c # post" "\<forall>d \<in> set pre. case_matches v d = Some False"
      "case_matches v c = Some True"
    unfolding first_match_def by blast
  then show "(case_matches v d = Some True \<and> c = d) \<or> (case_matches v d = Some False \<and> first_match v cs c)"
    unfolding first_match_def by (cases pre) auto
next
  assume "(case_matches v d = Some True \<and> c = d) \<or> (case_matches v d = Some False \<and> first_match v cs c)"
  then show "first_match v (d # cs) c"
  proof (elim disjE conjE)
    assume d: "case_matches v d = Some False" and "first_match v cs c"
    then obtain pre post where "cs = pre @ c # post" "\<forall>d \<in> set pre. case_matches v d = Some False"
        "case_matches v c = Some True"
      unfolding first_match_def by blast
    with d have "d # cs = (d # pre) @ c # post" "\<forall>x \<in> set (d # pre). case_matches v x = Some False"
        "case_matches v c = Some True"
      by simp_all
    then show ?thesis
      unfolding first_match_def by blast
  qed (unfold first_match_def, force)
qed

lemma evaluate_cases_Inr:
  "evaluate_cases node v fallback i cs = Inr route \<longleftrightarrow>
     (\<exists>c. first_match v cs c \<and> route = bc_Route c)
     \<or> ((\<forall>d \<in> set cs. case_matches v d = Some False) \<and> route = fallback)"
proof (induction cs arbitrary: i)
  case Nil
  then show ?case by (auto simp: first_match_def)
next
  case (Cons c cs)
  have "evaluate_cases node v fallback i (c # cs) = Inr route \<longleftrightarrow>
      (case_matches v c = Some True \<and> route = bc_Route c)
      \<or> (case_matches v c = Some False \<and> evaluate_cases node v fallback (i + 1) cs = Inr route)"
    by (auto simp: case_matches_def split: option.splits sum.splits if_splits)
  then show ?case
    unfolding Cons.IH first_match_Cons by auto
qed

lemma evaluateBranch_Inr:
  assumes "evaluateBranch node raw = Inr route"
  obtains cases fallback v where "unmarshal_cases (config_raw node ''cases'') = Some cases"
    and "Option.bind (parse_text (config_raw node ''default_route'')) (\<lambda>v. unmarshal_string v '''') = Some fallback"
    and "decodeJSON raw = Some v" and "evaluate_cases node v fallback 0 cases = Inr route"
  using assms by (auto simp: evaluateBranch_def split: option.splits)

end
