(* ===== verification/Sandbox_Source.thy ===== *)
theory Sandbox_Source
  imports Json
begin

text \<open>
  Authoring-time validation of Python source, \<^verbatim>\<open>internal/sandbox/source.go\<close>. The Python parser
  (\<^verbatim>\<open>github.com/tamnd/gopapy/parser\<close>) is a third-party module: its \<^verbatim>\<open>ParseFile\<close> is the parameter
  \<open>ParseFile\<close> of the definitions, of which only the top-level statements are read. The import
  pattern is matched by the functions below, byte by byte as the regular expression does.
\<close>

section \<open>What is read of the parser's result\<close>

record py_Arguments =
  pa_PosOnly :: "string list"
  pa_Args :: "string list"
  pa_Vararg :: "string option"
  pa_KwOnly :: "string list"
  pa_Kwarg :: "string option"
  pa_Defaults :: "string list"

record py_FunctionDef =
  pf_Name :: string
  pf_Args :: "py_Arguments option"

datatype py_Stmt = PyFunctionDef py_FunctionDef | PyOtherStmt

record SourceError =
  se_Code :: string
  se_Message :: string
  se_Line :: nat
  se_Column :: nat

section \<open>Text scanning\<close>

text \<open>The Unicode white space that \<^verbatim>\<open>strings.TrimSpace\<close> trims, by its UTF-8 bytes.\<close>

fun trim_space_left :: "string \<Rightarrow> string" where
  "trim_space_left [] = []"
| "trim_space_left (c # s) =
     (if c \<in> {CHR 0x09, CHR 0x0A, CHR 0x0B, CHR 0x0C, CHR 0x0D, CHR '' ''} then trim_space_left s
      else case s of
          [] \<Rightarrow> c # s
        | d # r \<Rightarrow>
            if c = CHR 0xC2 \<and> d \<in> {CHR 0x85, CHR 0xA0} then trim_space_left r
            else (case r of
                [] \<Rightarrow> c # s
              | b # t \<Rightarrow>
                  if (c, d, b) = (CHR 0xE1, CHR 0x9A, CHR 0x80)
                     \<or> (c = CHR 0xE2 \<and> d = CHR 0x80
                        \<and> ((CHR 0x80 \<le> b \<and> b \<le> CHR 0x8A) \<or> b \<in> {CHR 0xA8, CHR 0xA9, CHR 0xAF}))
                     \<or> (c, d, b) = (CHR 0xE2, CHR 0x81, CHR 0x9F)
                     \<or> (c, d, b) = (CHR 0xE3, CHR 0x80, CHR 0x80)
                  then trim_space_left t else c # s))"

definition regex_space :: "char \<Rightarrow> bool" where
  "regex_space c = (c \<in> {CHR 0x09, CHR 0x0A, CHR 0x0C, CHR 0x0D, CHR '' ''})"

definition is_letter :: "char \<Rightarrow> bool" where
  "is_letter c = ((CHR ''A'' \<le> c \<and> c \<le> CHR ''Z'') \<or> (CHR ''a'' \<le> c \<and> c \<le> CHR ''z''))"

definition word_char :: "char \<Rightarrow> bool" where
  "word_char c = (is_letter c \<or> is_digit c \<or> c = CHR ''_'')"

text \<open>\<open>dotted_name s\<close> matches \<^verbatim>\<open>[A-Za-z_][A-Za-z0-9_\.]*\<close> at the head, greedily.\<close>

definition dotted_name :: "string \<Rightarrow> (string \<times> string) option" where
  "dotted_name s =
     (case s of
        [] \<Rightarrow> None
      | c # r \<Rightarrow>
          if is_letter c \<or> c = CHR ''_'' then
            Some (c # takeWhile (\<lambda>d. word_char d \<or> d = CHR ''.'') r,
                  dropWhile (\<lambda>d. word_char d \<or> d = CHR ''.'') r)
          else None)"

text \<open>One or more spaces; the rest of the text follows.\<close>

definition spaces1 :: "string \<Rightarrow> string option" where
  "spaces1 s = (case s of [] \<Rightarrow> None | c # r \<Rightarrow> if regex_space c then Some (dropWhile regex_space r) else None)"

definition from_import :: "string \<Rightarrow> (string \<times> string) option" where
  "from_import s =
     (case Option.bind (match_prefix ''from'' s) spaces1 of
        None \<Rightarrow> None
      | Some r \<Rightarrow> (case dotted_name r of
            None \<Rightarrow> None
          | Some (name, r1) \<Rightarrow> (case Option.bind (spaces1 r1) (match_prefix ''import'') of
                None \<Rightarrow> None
              | Some r2 \<Rightarrow> (case r2 of
                    c # _ \<Rightarrow> if word_char c then None else Some (name, r2)
                  | [] \<Rightarrow> Some (name, r2)))))"

definition plain_import :: "string \<Rightarrow> (string \<times> string) option" where
  "plain_import s =
     (case Option.bind (match_prefix ''import'' s) spaces1 of
        None \<Rightarrow> None
      | Some r \<Rightarrow> dotted_name r)"

definition import_at :: "string \<Rightarrow> (string \<times> string) option" where
  "import_at s =
     (let r = dropWhile regex_space s in
      case from_import r of Some m \<Rightarrow> Some m | None \<Rightarrow> plain_import r)"

text \<open>
  \<^verbatim>\<open>FindAllStringSubmatchIndex\<close>: the matches from left to right, each with its offset; \<open>bol\<close> tells
  whether the position is at the beginning of a line. The fuel is the length of the text left.
\<close>

fun find_imports :: "nat \<Rightarrow> nat \<Rightarrow> bool \<Rightarrow> string \<Rightarrow> (nat \<times> string) list" where
  "find_imports 0 offset bol s = []"
| "find_imports (Suc f) offset bol s =
     (case s of
        [] \<Rightarrow> []
      | c # r \<Rightarrow>
          (case (if bol then import_at s else None) of
             None \<Rightarrow> find_imports f (offset + 1) (c = CHR 0x0A) r
           | Some (name, rest) \<Rightarrow>
               (offset, name) # find_imports f (offset + (length s - length rest)) False rest))"

definition importStatement :: "string \<Rightarrow> (nat \<times> string) list" where
  "importStatement source = find_imports (length source) 0 True source"

text \<open>The loop of \<^verbatim>\<open>lineColumn\<close> over the runes before an offset; an invalid byte is one rune.\<close>

fun line_column :: "nat \<Rightarrow> nat \<Rightarrow> nat \<Rightarrow> nat \<Rightarrow> nat \<Rightarrow> string \<Rightarrow> nat \<times> nat" where
  "line_column 0 index offset line column s = (line, column)"
| "line_column (Suc f) index offset line column s =
     (case s of
        [] \<Rightarrow> (line, column)
      | c # r \<Rightarrow>
          if index \<ge> offset then (line, column)
          else (let n = max 1 (utf8_size (map of_char s)) in
                if c = CHR 0x0A then line_column f (index + n) offset (line + 1) 1 (drop n s)
                else line_column f (index + n) offset line (column + 1) (drop n s)))"

definition lineColumn :: "string \<Rightarrow> nat \<Rightarrow> nat \<times> nat" where
  "lineColumn source offset = line_column (length source) 0 offset 1 1 source"

section \<open>Validation\<close>

definition allowedImports :: "string list" where
  "allowedImports = [''collections'', ''datetime'', ''decimal'', ''functools'', ''itertools'', ''json'',
     ''math'', ''operator'', ''re'', ''statistics'', ''string'', ''typing'']"

definition validMainSignature :: "py_FunctionDef \<Rightarrow> bool" where
  "validMainSignature function =
     (case pf_Args function of
        None \<Rightarrow> False
      | Some args \<Rightarrow> pa_PosOnly args = [] \<and> pa_Args args = [''inputs''] \<and> pa_Vararg args = None
          \<and> pa_KwOnly args = [] \<and> pa_Kwarg args = None \<and> pa_Defaults args = [])"

fun main_entries :: "py_Stmt list \<Rightarrow> py_FunctionDef list" where
  "main_entries [] = []"
| "main_entries (PyFunctionDef f # body) =
     (if pf_Name f = ''main'' then f # main_entries body else main_entries body)"
| "main_entries (PyOtherStmt # body) = main_entries body"

fun forbidden_import :: "string \<Rightarrow> (nat \<times> string) list \<Rightarrow> SourceError option" where
  "forbidden_import source [] = None"
| "forbidden_import source ((offset, name) # matches) =
     (let root = hd (split_on (CHR ''.'') name) in
      if root \<notin> set allowedImports then
        (let (line, column) = lineColumn source offset in
         Some \<lparr>se_Code = ''CODE_IMPORT_FORBIDDEN'',
               se_Message = ''Python import '' @ quoted root @ '' is not in the sandbox allowlist'',
               se_Line = line, se_Column = column\<rparr>)
      else forbidden_import source matches)"

definition ValidateSource :: "(string \<Rightarrow> py_Stmt list option) \<Rightarrow> string \<Rightarrow> SourceError option" where
  "ValidateSource ParseFile source =
     (if trim_space_left source = '''' then
        Some \<lparr>se_Code = ''CODE_SYNTAX_ERROR'', se_Message = ''Python source_code is required'',
              se_Line = 0, se_Column = 0\<rparr>
      else case ParseFile source of
          None \<Rightarrow> Some \<lparr>se_Code = ''CODE_SYNTAX_ERROR'', se_Message = ''Python source has invalid syntax'',
                          se_Line = 0, se_Column = 0\<rparr>
        | Some body \<Rightarrow>
            (case main_entries body of
               [f] \<Rightarrow>
                 if \<not> validMainSignature f then
                   Some \<lparr>se_Code = ''CODE_ENTRYPOINT_INVALID'',
                         se_Message = ''Python source must define main(inputs)'', se_Line = 0, se_Column = 0\<rparr>
                 else forbidden_import source (importStatement source)
             | _ \<Rightarrow> Some \<lparr>se_Code = ''CODE_ENTRYPOINT_INVALID'',
                         se_Message = ''Python source must define main(inputs)'', se_Line = 0, se_Column = 0\<rparr>))"

section \<open>Lemmas\<close>

lemma forbidden_import_None:
  "forbidden_import source ms = None \<longleftrightarrow> (\<forall>(offset, name) \<in> set ms. hd (split_on (CHR ''.'') name) \<in> set allowedImports)"
  by (induction source ms rule: forbidden_import.induct) (auto simp: Let_def split: prod.splits)

lemma ValidateSource_None:
  "ValidateSource ParseFile source = None \<Longrightarrow>
     \<exists>body f. ParseFile source = Some body \<and> main_entries body = [f] \<and> validMainSignature f
       \<and> (\<forall>(offset, name) \<in> set (importStatement source). hd (split_on (CHR ''.'') name) \<in> set allowedImports)"
  by (auto simp: ValidateSource_def forbidden_import_None split: if_splits option.splits list.splits)

end
