(* ===== verification/Dsl_Validator.thy ===== *)
theory Dsl_Validator
  imports Branch Sandbox_Source
begin

text \<open>
  Validation of a workflow document, \<^verbatim>\<open>internal/dsl/validator.go\<close>: the contract of the operations
  and \<open>Validate\<close>, which reports every issue of a document. The Python parser is the parameter
  \<open>ParseFile\<close>, as in \<^verbatim>\<open>Sandbox_Source\<close>.
\<close>

section \<open>Identifier patterns\<close>

definition lower_hex :: "char \<Rightarrow> bool" where
  "lower_hex c = ((CHR ''0'' \<le> c \<and> c \<le> CHR ''9'') \<or> (CHR ''a'' \<le> c \<and> c \<le> CHR ''f''))"

definition execution_id :: "string \<Rightarrow> string \<Rightarrow> bool" where
  "execution_id pre s = (take 3 s = pre \<and> length s = 27 \<and> list_all lower_hex (drop 3 s))"

definition nodeIDPattern :: "string \<Rightarrow> bool" where
  "nodeIDPattern s = execution_id ''xn_'' s"

definition edgeIDPattern :: "string \<Rightarrow> bool" where
  "edgeIDPattern s = execution_id ''xe_'' s"

definition portPattern :: "string \<Rightarrow> bool" where
  "portPattern s = (case s of [] \<Rightarrow> False
     | c # r \<Rightarrow> is_letter c \<and> length r \<le> 63 \<and> list_all word_char r)"

abbreviation routePattern :: "string \<Rightarrow> bool" where
  "routePattern \<equiv> portPattern"

section \<open>Contracts\<close>

record PortRule =
  pr_Required :: bool
  pr_DataTypes :: "DataType list"

record OperationSpec =
  os_Coordinate :: Coordinate
  os_Kind :: DslNodeKind
  os_ConfigFields :: "(string, bool) gomap"
  os_Inputs :: "(PortName, PortRule) gomap"
  os_AllowExtraInputs :: bool
  os_Outputs :: "(PortName, PortRule) gomap"
  os_AllowExtraOutputs :: bool
  os_ValidateConfig :: "(Node \<Rightarrow> Issue list) option"

record Contract =
  con_version :: string
  con_specs :: "(Coordinate, OperationSpec) gomap"

fun register_specs ::
    "(Coordinate, OperationSpec) gomap \<Rightarrow> OperationSpec list \<Rightarrow> (Coordinate, OperationSpec) gomap result" where
  "register_specs registered [] = Inr registered"
| "register_specs registered (spec # specs) =
     (if fst (os_Coordinate spec) = '''' \<or> snd (os_Coordinate spec) = 0 \<or> \<not> DslNodeKind_Valid (os_Kind spec) then
        Inl (Errorf (''invalid operation specification {Type:'' @ fst (os_Coordinate spec) @ '' Version:''
               @ show_nat (unat (snd (os_Coordinate spec))) @ ''}''))
      else if map_of registered (os_Coordinate spec) \<noteq> None then
        Inl (Errorf (''operation '' @ fst (os_Coordinate spec) @ ''@''
               @ show_nat (unat (snd (os_Coordinate spec))) @ '' is registered twice''))
      else register_specs (AList.update (os_Coordinate spec) spec registered) specs)"

definition NewContract :: "string \<Rightarrow> OperationSpec list \<Rightarrow> Contract result" where
  "NewContract version specs =
     (if version = '''' then Inl (Errorf ''DSL contract version is required'')
      else case register_specs [] specs of
          Inl e \<Rightarrow> Inl e
        | Inr registered \<Rightarrow> Inr \<lparr>con_version = version, con_specs = registered\<rparr>)"

definition issue :: "string \<Rightarrow> string \<Rightarrow> NodeID \<Rightarrow> EdgeID \<Rightarrow> string \<Rightarrow> Issue" where
  "issue code message node edge field = \<lparr>issue_Code = code, issue_Message = message,
     issue_NodeID = node, issue_EdgeID = edge, issue_Field = field\<rparr>"

definition issue_when :: "bool \<Rightarrow> Issue \<Rightarrow> Issue list" where
  "issue_when b i = (if b then [i] else [])"

lemma issue_when_Nil [simp]: "issue_when b i = [] \<longleftrightarrow> \<not> b"
  by (simp add: issue_when_def)

section \<open>Configuration of the operations\<close>

text \<open>\<open>decode_config\<close> is \<^verbatim>\<open>decodeConfig\<close> with the target's decoder as an argument.\<close>

definition decode_config :: "Node \<Rightarrow> string \<Rightarrow> (json \<Rightarrow> 'a option) \<Rightarrow> 'a option" where
  "decode_config node field target =
     (case map_of (entries (op_Config (dn_Operation node))) field of
        None \<Rightarrow> None
      | Some raw \<Rightarrow> Option.bind (parse_text raw) target)"

definition to_string :: "json \<Rightarrow> string option" where
  "to_string v = unmarshal_string v ''''"

fun to_bool :: "json \<Rightarrow> bool option" where
  "to_bool (JBool b) = Some b"
| "to_bool JNull = Some False"
| "to_bool _ = None"

text \<open>A Go \<^verbatim>\<open>int\<close> accepts an integer literal without fraction and exponent in the range of 64 bits.\<close>

fun to_int :: "json \<Rightarrow> int option" where
  "to_int (JNumber n) =
     (case parse_number_parts n of
        Some (p, []) \<Rightarrow>
          (let m = digits_value 0 (np_int p); i = (if np_neg p then - m else m) in
           if np_frac p = [] \<and> np_exp p = None \<and> - (2 ^ 63) \<le> i \<and> i < 2 ^ 63 then Some i else None)
      | _ \<Rightarrow> None)"
| "to_int JNull = Some 0"
| "to_int _ = None"

fun to_slice :: "(json \<Rightarrow> 'a option) \<Rightarrow> json \<Rightarrow> 'a list option" where
  "to_slice elem (JArray vs) = those (map elem vs)"
| "to_slice elem JNull = Some []"
| "to_slice elem _ = None"

fun to_raw_map :: "json \<Rightarrow> (string \<times> json) list option" where
  "to_raw_map (JObject ms) = Some (dedup_members ms)"
| "to_raw_map JNull = Some []"
| "to_raw_map _ = None"

definition validBranchPath :: "string \<Rightarrow> bool" where
  "validBranchPath path = (path \<noteq> '''' \<and> list_all portPattern (split_on (CHR ''.'') path))"

fun dslBranchOperators :: "DataType \<Rightarrow> string list" where
  "dslBranchOperators TypeString = [''eq'', ''neq'', ''contains'', ''not_contains'', ''starts_with'', ''ends_with'']"
| "dslBranchOperators TypeInteger = [''eq'', ''neq'', ''gt'', ''gte'', ''lt'', ''lte'']"
| "dslBranchOperators TypeNumber = [''eq'', ''neq'', ''gt'', ''gte'', ''lt'', ''lte'']"
| "dslBranchOperators TypeBoolean = [''eq'', ''neq'']"
| "dslBranchOperators TypeArray = [''eq'', ''neq'', ''contains'', ''not_contains'']"
| "dslBranchOperators TypeObject = [''eq'', ''neq'', ''has_key'', ''not_has_key'']"
| "dslBranchOperators (OtherType t) = []"

text \<open>The comparison constant of a case is \<^term>\<open>None\<close> when the case has no \<^verbatim>\<open>value\<close>.\<close>

definition comparison_type :: "json option \<Rightarrow> DataType option" where
  "comparison_type raw = Option.bind raw dsl_json_type"

definition validDSLBranchComparison :: "DataType \<Rightarrow> string \<Rightarrow> json option \<Rightarrow> bool" where
  "validDSLBranchComparison valueType operator raw =
     (operator \<in> set (dslBranchOperators valueType) \<and>
      (let comparisonType = comparison_type raw in
       case valueType of
         TypeString \<Rightarrow> comparisonType = Some TypeString
       | TypeInteger \<Rightarrow> comparisonType = Some TypeInteger \<or> comparisonType = Some TypeNumber
       | TypeNumber \<Rightarrow> comparisonType = Some TypeInteger \<or> comparisonType = Some TypeNumber
       | TypeBoolean \<Rightarrow> comparisonType = Some TypeBoolean
       | TypeArray \<Rightarrow> operator = ''contains'' \<or> operator = ''not_contains'' \<or> comparisonType = Some TypeArray
       | TypeObject \<Rightarrow> (if operator = ''has_key'' \<or> operator = ''not_has_key''
                        then comparisonType = Some TypeString else comparisonType = Some TypeObject)
       | OtherType t \<Rightarrow> False))"

definition validDSLPathComparison :: "string \<Rightarrow> json option \<Rightarrow> bool" where
  "validDSLPathComparison operator raw =
     (let comparisonType = comparison_type raw in
      if operator \<in> {''starts_with'', ''ends_with'', ''has_key'', ''not_has_key''} then
        comparisonType = Some TypeString
      else if operator \<in> {''gt'', ''gte'', ''lt'', ''lte''} then
        comparisonType = Some TypeInteger \<or> comparisonType = Some TypeNumber
      else if operator \<in> {''contains'', ''not_contains''} then True
      else if operator \<in> {''eq'', ''neq''} then comparisonType \<noteq> None
      else False)"

definition member_string :: "(string \<times> json) list \<Rightarrow> string \<Rightarrow> string option" where
  "member_string branch_case name = Option.bind (map_of branch_case name) to_string"

definition validate_case :: "Node \<Rightarrow> nat \<Rightarrow> (string \<times> json) list \<Rightarrow> Issue list" where
  "validate_case node index branch_case =
     (let route = member_string branch_case ''route'';
          operator = member_string branch_case ''operator'';
          comparison = map_of branch_case ''value'';
          hasPath = (map_of branch_case ''path'' \<noteq> None);
          path = member_string branch_case ''path'';
          operatorText = (case operator of None \<Rightarrow> '''' | Some t \<Rightarrow> t);
          valueBinding = (case map_of (entries (dn_Inputs node)) ''value'' of
             None \<Rightarrow> zero_InputBinding | Some b \<Rightarrow> b);
          invalid = (\<lambda>message part. issue ''DSL_BRANCH_CASE_INVALID'' message (dn_ID node) '''' (case_field index part))
      in issue_when (case route of None \<Rightarrow> True | Some t \<Rightarrow> \<not> routePattern t)
           (invalid ''branch case route is invalid'' ''.route'')
       @ issue_when (case operator of None \<Rightarrow> True | Some t \<Rightarrow> t = '''')
           (invalid ''branch case operator is invalid'' ''.operator'')
       @ issue_when (comparison = None) (invalid ''branch case value is required'' ''.value'')
       @ issue_when (hasPath \<and> (case path of None \<Rightarrow> True | Some t \<Rightarrow> \<not> validBranchPath t))
           (invalid ''branch case path is invalid'' ''.path'')
       @ (if hasPath then
            issue_when (ib_DataType valueBinding \<noteq> TypeObject \<or> \<not> validDSLPathComparison operatorText comparison)
              (issue ''DSL_BRANCH_OPERATOR_TYPE_MISMATCH'' ''path operator or comparison value is incompatible''
                 (dn_ID node) '''' (case_field index ''''))
          else
            issue_when (\<not> validDSLBranchComparison (ib_DataType valueBinding) operatorText comparison)
              (issue ''DSL_BRANCH_OPERATOR_TYPE_MISMATCH''
                 ''operator or comparison value is incompatible with branch value''
                 (dn_ID node) '''' (case_field index '''')))
       @ concat (map (\<lambda>(field, _). issue_when (field \<notin> {''route'', ''path'', ''operator'', ''value''})
             (invalid ''branch case field is unsupported'' (''.'' @ field))) branch_case))"

lemma case_refused: "(case x of None \<Rightarrow> True | Some t \<Rightarrow> \<not> P t) = (\<not> (case x of None \<Rightarrow> False | Some t \<Rightarrow> P t))"
  by (cases x) simp_all

text \<open>A case without issues.\<close>

lemma validate_case_Nil:
  "validate_case node index branch_case = [] \<longleftrightarrow>
     (case member_string branch_case ''route'' of None \<Rightarrow> False | Some t \<Rightarrow> routePattern t)
     \<and> (case member_string branch_case ''operator'' of None \<Rightarrow> False | Some t \<Rightarrow> t \<noteq> '''')
     \<and> map_of branch_case ''value'' \<noteq> None
     \<and> (map_of branch_case ''path'' \<noteq> None \<longrightarrow>
          (case member_string branch_case ''path'' of None \<Rightarrow> False | Some t \<Rightarrow> validBranchPath t))
     \<and> (let operator = (case member_string branch_case ''operator'' of None \<Rightarrow> '''' | Some t \<Rightarrow> t);
            t = ib_DataType (case map_of (entries (dn_Inputs node)) ''value'' of None \<Rightarrow> zero_InputBinding | Some b \<Rightarrow> b)
        in if map_of branch_case ''path'' \<noteq> None then t = TypeObject \<and> validDSLPathComparison operator (map_of branch_case ''value'')
           else validDSLBranchComparison t operator (map_of branch_case ''value''))
     \<and> (\<forall>(k, v) \<in> set branch_case. k \<in> {''route'', ''path'', ''operator'', ''value''})"
proof -
  have empty: "(case x of None \<Rightarrow> True | Some t \<Rightarrow> t = '''') = (\<not> (case x of None \<Rightarrow> False | Some t \<Rightarrow> t \<noteq> ''''))" for x :: "string option"
    by (cases x) simp_all
  have named: "concat (map (\<lambda>(field, v). issue_when (field \<notin> F) (g field)) ms) = [] \<longleftrightarrow> (\<forall>(k, v) \<in> set ms. k \<in> F)"
    for F and g :: "string \<Rightarrow> Issue" and ms :: "(string \<times> json) list"
    by (induction ms) auto
  have branches: "(if b then issue_when p x else issue_when q y) = [] \<longleftrightarrow> (if b then \<not> p else \<not> q)" for b p q x y
    by simp
  show ?thesis
    unfolding validate_case_def Let_def append_is_Nil_conv branches issue_when_Nil case_refused empty named
    by (simp del: not_None_eq)
qed

fun validate_cases :: "Node \<Rightarrow> nat \<Rightarrow> (string \<times> json) list list \<Rightarrow> Issue list" where
  "validate_cases node index [] = []"
| "validate_cases node index (c # cs) = validate_case node index c @ validate_cases node (index + 1) cs"

definition validateBranchConfig :: "Node \<Rightarrow> Issue list" where
  "validateBranchConfig node =
     issue_when (case decode_config node ''default_route'' to_string of
         None \<Rightarrow> True | Some t \<Rightarrow> \<not> routePattern t)
       (issue ''DSL_BRANCH_DEFAULT_INVALID'' ''branch default_route is invalid'' (dn_ID node) ''''
          ''operation.config.default_route'')
     @ (case decode_config node ''cases'' (to_slice to_raw_map) of
          Some (c # cs) \<Rightarrow> validate_cases node 0 (c # cs)
        | _ \<Rightarrow> [issue ''DSL_BRANCH_CASES_INVALID'' ''branch cases must be a non-empty array'' (dn_ID node) ''''
                 ''operation.config.cases''])"

definition nonempty_string :: "Node \<Rightarrow> string \<Rightarrow> bool" where
  "nonempty_string node field = (case decode_config node field to_string of None \<Rightarrow> False | Some t \<Rightarrow> t \<noteq> '''')"

definition validatePythonConfig :: "(string \<Rightarrow> py_Stmt list option) \<Rightarrow> Node \<Rightarrow> Issue list" where
  "validatePythonConfig ParseFile node =
     (case decode_config node ''source_code'' to_string of
        None \<Rightarrow> [issue ''DSL_PYTHON_SOURCE_INVALID'' ''python source_code is required'' (dn_ID node) ''''
                  ''operation.config.source_code'']
      | Some source \<Rightarrow>
          if source = '''' then
            [issue ''DSL_PYTHON_SOURCE_INVALID'' ''python source_code is required'' (dn_ID node) ''''
               ''operation.config.source_code'']
          else case ValidateSource ParseFile source of
              None \<Rightarrow> []
            | Some sourceError \<Rightarrow> [issue (se_Code sourceError) (se_Message sourceError) (dn_ID node) ''''
                                   ''operation.config.source_code''])
     @ issue_when (\<not> nonempty_string node ''sandbox_profile'')
         (issue ''DSL_SANDBOX_PROFILE_INVALID'' ''sandbox profile is required'' (dn_ID node) ''''
            ''operation.config.sandbox_profile'')"

definition allowedHTTPMethod :: "string \<Rightarrow> bool" where
  "allowedHTTPMethod m = (m \<in> {''GET'', ''POST'', ''PUT'', ''PATCH'', ''DELETE''})"

fun bad_status :: "int list \<Rightarrow> int set \<Rightarrow> bool" where
  "bad_status [] seen = False"
| "bad_status (status # statuses) seen =
     (status < 100 \<or> status > 599 \<or> status \<in> seen \<or> bad_status statuses (insert status seen))"

definition validateHTTPConfig :: "Node \<Rightarrow> Issue list" where
  "validateHTTPConfig node =
     issue_when (\<not> nonempty_string node ''connection_id'')
       (issue ''DSL_HTTP_CONNECTION_INVALID'' ''connection_id is required'' (dn_ID node) ''''
          ''operation.config.connection_id'')
     @ issue_when (case decode_config node ''method'' to_string of None \<Rightarrow> True | Some m \<Rightarrow> \<not> allowedHTTPMethod m)
         (issue ''DSL_HTTP_METHOD_INVALID'' ''method is required'' (dn_ID node) '''' ''operation.config.method'')
     @ (case decode_config node ''accepted_statuses'' (to_slice to_int) of
          Some (s # ss) \<Rightarrow>
            issue_when (bad_status (s # ss) {})
              (issue ''DSL_HTTP_STATUSES_INVALID'' ''accepted_statuses must contain unique HTTP status codes''
                 (dn_ID node) '''' ''operation.config.accepted_statuses'')
        | _ \<Rightarrow> [issue ''DSL_HTTP_STATUSES_INVALID'' ''accepted_statuses must be a non-empty integer array''
                 (dn_ID node) '''' ''operation.config.accepted_statuses''])"

definition validateRPCConfig :: "Node \<Rightarrow> Issue list" where
  "validateRPCConfig node =
     concat (map (\<lambda>field. issue_when (\<not> nonempty_string node field)
         (issue ''DSL_RPC_CONFIG_INVALID'' ''RPC config string is required'' (dn_ID node) ''''
            (''operation.config.'' @ field)))
       [''service_id'', ''operation'', ''contract_revision''])
     @ issue_when (decode_config node ''idempotent'' to_bool = None)
         (issue ''DSL_RPC_CONFIG_INVALID'' ''RPC idempotent flag is required'' (dn_ID node) ''''
            ''operation.config.idempotent'')"

section \<open>Nodes\<close>

definition containsType :: "DataType list \<Rightarrow> DataType \<Rightarrow> bool" where
  "containsType values target = (target \<in> set values)"

definition validate_binding :: "Node \<Rightarrow> (PortName, PortRule) gomap \<Rightarrow> bool \<Rightarrow> PortName \<times> InputBinding \<Rightarrow> Issue list" where
  "validate_binding node rules allowExtra entry =
     (let (name, binding) = entry; field = ''inputs.'' @ name;
          report = (\<lambda>code message. issue code message (dn_ID node) '''' field)
      in issue_when (\<not> portPattern name) (report ''DSL_INPUT_NAME_INVALID'' ''runtime input name is invalid'')
       @ (case map_of rules name of
            None \<Rightarrow> issue_when (\<not> allowExtra) (report ''DSL_INPUT_UNKNOWN'' ''runtime input is unsupported'')
          | Some rule \<Rightarrow> issue_when (\<not> containsType (pr_DataTypes rule) (ib_DataType binding))
              (report ''DSL_INPUT_TYPE_INVALID'' ''runtime input data_type is unsupported''))
       @ issue_when (\<not> DataType_Valid (ib_DataType binding))
           (report ''DSL_INPUT_TYPE_INVALID'' ''runtime input data_type is invalid'')
       @ (case ib_Kind binding of
            BindingLiteral \<Rightarrow>
              if ib_Value binding = [] \<or> ib_Output binding \<noteq> None \<or> \<not> json_valid (ib_Value binding) then
                [report ''DSL_LITERAL_BINDING_INVALID'' ''literal binding requires one valid value'']
              else issue_when (case dsl_rawDataType (ib_Value binding) of
                     None \<Rightarrow> True | Some actualType \<Rightarrow> \<not> compatible actualType (ib_DataType binding))
                   (report ''DSL_LITERAL_TYPE_MISMATCH'' ''literal value does not match binding data_type'')
          | BindingNodeOutput \<Rightarrow>
              issue_when (ib_Value binding \<noteq> [] \<or> (case ib_Output binding of
                    None \<Rightarrow> True | Some out \<Rightarrow> or_NodeID out = '''' \<or> \<not> portPattern (or_Name out)))
                (report ''DSL_OUTPUT_BINDING_INVALID'' ''node_output binding requires one output reference'')
          | OtherBinding _ \<Rightarrow>
              [report ''DSL_INPUT_BINDING_KIND_INVALID'' ''input binding kind is invalid'']))"

definition validateInputs ::
    "Node \<Rightarrow> (PortName, InputBinding) gomap \<Rightarrow> (PortName, PortRule) gomap \<Rightarrow> bool \<Rightarrow> Issue list" where
  "validateInputs node actual rules allowExtra =
     concat (map (\<lambda>(name, rule). issue_when (pr_Required rule \<and> map_of actual name = None)
         (issue ''DSL_INPUT_REQUIRED'' ''required runtime input is missing'' (dn_ID node) '''' (''inputs.'' @ name)))
       rules)
     @ concat (map (validate_binding node rules allowExtra) actual)"

definition dsl_validateOutputs :: "Node \<Rightarrow> OperationSpec \<Rightarrow> Issue list" where
  "dsl_validateOutputs node spec =
     concat (map (\<lambda>(name, rule). issue_when (pr_Required rule \<and> map_of (entries (dn_Outputs node)) name = None)
         (issue ''DSL_OUTPUT_REQUIRED'' ''required output is missing'' (dn_ID node) '''' (''outputs.'' @ name)))
       (os_Outputs spec))
     @ concat (map (\<lambda>(name, dataType).
         issue_when (\<not> portPattern name \<or> \<not> DataType_Valid dataType)
           (issue ''DSL_OUTPUT_INVALID'' ''output name or type is invalid'' (dn_ID node) '''' (''outputs.'' @ name))
         @ (case map_of (os_Outputs spec) name of
              None \<Rightarrow> issue_when (\<not> os_AllowExtraOutputs spec)
                (issue ''DSL_OUTPUT_UNKNOWN'' ''output is unsupported'' (dn_ID node) '''' (''outputs.'' @ name))
            | Some rule \<Rightarrow> issue_when (\<not> containsType (pr_DataTypes rule) dataType)
                (issue ''DSL_OUTPUT_TYPE_INVALID'' ''output data_type is unsupported'' (dn_ID node) ''''
                   (''outputs.'' @ name))))
       (entries (dn_Outputs node)))"

fun adjacent_duplicate :: "string list \<Rightarrow> bool" where
  "adjacent_duplicate (a # b # rest) = (a = b \<or> adjacent_duplicate (b # rest))"
| "adjacent_duplicate _ = False"

definition validateTaskPolicy :: "Node \<Rightarrow> Issue list" where
  "validateTaskPolicy node =
     (let policy = dn_ExecutionPolicy node in
      case ep_RetryBackoff policy of
        None \<Rightarrow> [issue ''DSL_EXECUTION_POLICY_INVALID'' ''task policy requires attempts, timeout, and backoff''
                  (dn_ID node) '''' ''execution_policy'']
      | Some backoff \<Rightarrow>
          if ep_MaxAttempts policy = 0 \<or> ep_AttemptTimeoutMS policy = 0 then
            [issue ''DSL_EXECUTION_POLICY_INVALID'' ''task policy requires attempts, timeout, and backoff''
               (dn_ID node) '''' ''execution_policy'']
          else issue_when (rb_Kind backoff \<noteq> ''fixed'' \<or> rb_DelayMS backoff = 0)
                 (issue ''DSL_RETRY_BACKOFF_INVALID'' ''retry backoff must be a positive fixed delay'' (dn_ID node) ''''
                    ''execution_policy.retry_backoff'')
             @ issue_when (\<not> sorted (ep_RetryableErrorCodes policy))
                 (issue ''DSL_RETRY_CODES_UNSORTED'' ''retryable error codes must be sorted'' (dn_ID node) ''''
                    ''execution_policy.retryable_error_codes'')
             @ issue_when (adjacent_duplicate (ep_RetryableErrorCodes policy))
                 (issue ''DSL_RETRY_CODE_DUPLICATE'' ''retryable error codes must be unique'' (dn_ID node) ''''
                    ''execution_policy.retryable_error_codes''))"

definition emptyPolicy :: "ExecutionPolicy \<Rightarrow> bool" where
  "emptyPolicy policy = (ep_MaxAttempts policy = 0 \<and> ep_MaxRecoveries policy = 0
     \<and> ep_AttemptTimeoutMS policy = 0 \<and> ep_RetryBackoff policy = None \<and> ep_RetryableErrorCodes policy = [])"

definition validateNode :: "Contract \<Rightarrow> Node \<Rightarrow> Issue list" where
  "validateNode contract node =
     issue_when (\<not> DslNodeKind_Valid (dn_Kind node))
       (issue ''DSL_NODE_KIND_INVALID'' ''node kind is invalid'' (dn_ID node) '''' ''kind'')
     @ (case map_of (con_specs contract) (Operation_Coordinate (dn_Operation node)) of
          None \<Rightarrow> [issue ''DSL_OPERATION_UNKNOWN'' ''operation is not part of the DSL contract'' (dn_ID node) ''''
                    ''operation'']
        | Some spec \<Rightarrow>
            issue_when (dn_Kind node \<noteq> os_Kind spec)
              (issue ''DSL_OPERATION_KIND_MISMATCH'' ''operation kind does not match node kind'' (dn_ID node) ''''
                 ''kind'')
            @ (case (op_Config (dn_Operation node), dn_Inputs node, dn_Outputs node) of
                 (Some config, Some inputs, Some outputs) \<Rightarrow>
                   concat (map (\<lambda>(name, required). issue_when (required \<and> map_of config name = None)
                       (issue ''DSL_CONFIG_REQUIRED'' ''required operation config is missing'' (dn_ID node) ''''
                          (''operation.config.'' @ name)))
                     (os_ConfigFields spec))
                   @ concat (map (\<lambda>(name, raw).
                       issue_when (map_of (os_ConfigFields spec) name = None)
                         (issue ''DSL_CONFIG_UNKNOWN'' ''operation config field is unsupported'' (dn_ID node) ''''
                            (''operation.config.'' @ name))
                       @ issue_when (\<not> json_valid raw)
                           (issue ''DSL_CONFIG_JSON_INVALID'' ''operation config is invalid JSON'' (dn_ID node) ''''
                              (''operation.config.'' @ name)))
                     config)
                   @ validateInputs node inputs (os_Inputs spec) (os_AllowExtraInputs spec)
                   @ dsl_validateOutputs node spec
                   @ (if dn_Kind node = KindControl then
                        issue_when (\<not> emptyPolicy (dn_ExecutionPolicy node))
                          (issue ''DSL_CONTROL_POLICY_FORBIDDEN'' ''control nodes do not create attempts''
                             (dn_ID node) '''' ''execution_policy'')
                      else validateTaskPolicy node)
                   @ (case os_ValidateConfig spec of None \<Rightarrow> [] | Some validate \<Rightarrow> validate node)
               | _ \<Rightarrow> [issue ''DSL_NODE_CONTAINER_REQUIRED'' ''config, inputs, and outputs must be objects''
                        (dn_ID node) '''' '''']))"

section \<open>The control graph\<close>

type_synonym adjacency = "(NodeID, NodeID list) gomap"

text \<open>
  \<^verbatim>\<open>reachableNodes\<close>: the loop over the successors of one node, and the loop over the stack, whose
  top is the end of the slice (here the head of the list).
\<close>

fun push_successors :: "NodeID list \<Rightarrow> NodeID set \<Rightarrow> NodeID list \<Rightarrow> NodeID set \<times> NodeID list" where
  "push_successors [] seen stack = (seen, stack)"
| "push_successors (v # vs) seen stack =
     (if v \<in> seen then push_successors vs seen stack
      else push_successors vs (insert v seen) (v # stack))"

definition adjacency_targets :: "adjacency \<Rightarrow> NodeID set" where
  "adjacency_targets outgoing = \<Union> (set (map (set \<circ> snd) outgoing))"

lemma finite_adjacency_targets [simp]: "finite (adjacency_targets outgoing)"
  by (auto simp: adjacency_targets_def)

lemma slice_at_targets: "set (slice_at outgoing v) \<subseteq> adjacency_targets outgoing"
proof (cases "map_of outgoing v")
  case (Some vs)
  then have "(v, vs) \<in> set outgoing"
    by (rule map_of_SomeD)
  then show ?thesis
    using Some by (force simp: slice_at_def adjacency_targets_def)
qed (simp add: slice_at_def)

lemma push_successors_measure:
  "push_successors vs seen stack = (seen', stack') \<Longrightarrow> set vs \<subseteq> T \<Longrightarrow> finite T \<Longrightarrow>
     length stack' + card (T - seen') = length stack + card (T - seen)"
proof (induction vs seen stack rule: push_successors.induct)
  case (2 v vs seen stack)
  show ?case
  proof (cases "v \<in> seen")
    case False
    have "T - seen = insert v (T - insert v seen)"
      using 2(4) False by auto
    then have "card (T - seen) = Suc (card (T - insert v seen))"
      using 2(5) by (metis Diff_iff card_insert_disjoint finite_Diff insertI1)
    then show ?thesis
      using 2 False by simp
  qed (use 2 in simp)
qed simp

function reach_loop :: "adjacency \<Rightarrow> NodeID set \<Rightarrow> NodeID list \<Rightarrow> NodeID set" where
  "reach_loop outgoing seen [] = seen"
| "reach_loop outgoing seen (v # stack) =
     (let (seen', stack') = push_successors (slice_at outgoing v) seen stack
      in reach_loop outgoing seen' stack')"
  by pat_completeness auto
termination
proof (relation "measure (\<lambda>(outgoing, seen, stack). length stack + card (adjacency_targets outgoing - seen))")
  fix outgoing :: adjacency and seen v stack p seen' and stack' :: "NodeID list"
  assume "p = push_successors (slice_at outgoing v) seen stack" "(seen', stack') = p"
  then have "push_successors (slice_at outgoing v) seen stack = (seen', stack')"
    by simp
  then show "((outgoing, seen', stack'), outgoing, seen, v # stack)
      \<in> measure (\<lambda>(outgoing, seen, stack). length stack + card (adjacency_targets outgoing - seen))"
    using push_successors_measure [of "slice_at outgoing v" seen stack seen' stack' "adjacency_targets outgoing"]
    by (simp add: slice_at_targets)
qed simp

definition reachableNodes :: "NodeID \<Rightarrow> adjacency \<Rightarrow> NodeID set" where
  "reachableNodes start outgoing = reach_loop outgoing {start} [start]"

text \<open>
  The topological loop. \<open>relax\<close> is the loop over the targets of one node: it counts the target's
  in-degree down and appends it to the queue at zero, sorting the queue.
\<close>

definition degree_of :: "(NodeID, int) gomap \<Rightarrow> NodeID \<Rightarrow> int" where
  "degree_of indegree v = (case map_of indegree v of None \<Rightarrow> 0 | Some d \<Rightarrow> d)"

fun relax :: "NodeID list \<Rightarrow> (NodeID, int) gomap \<Rightarrow> NodeID list \<Rightarrow> (NodeID, int) gomap \<times> NodeID list" where
  "relax [] indegree queue = (indegree, queue)"
| "relax (target # targets) indegree queue =
     (let d = degree_of indegree target - 1; indegree' = AList.update target d indegree in
      if d = 0 then relax targets indegree' (sort (queue @ [target]))
      else relax targets indegree' queue)"

definition positive_degrees :: "(NodeID, int) gomap \<Rightarrow> nat" where
  "positive_degrees indegree = length (filter (\<lambda>(v, d). 0 < d) indegree)"

lemma positive_degrees_update:
  "degree_of indegree v = d + 1 \<Longrightarrow>
     positive_degrees (AList.update v d indegree) \<le> positive_degrees indegree
     \<and> (d = 0 \<longrightarrow> positive_degrees (AList.update v d indegree) + 1 \<le> positive_degrees indegree)"
  by (induction indegree) (auto simp: positive_degrees_def degree_of_def)

lemma relax_measure:
  "relax targets indegree queue = (indegree', queue') \<Longrightarrow>
     length queue' + positive_degrees indegree' \<le> length queue + positive_degrees indegree"
proof (induction targets indegree queue rule: relax.induct)
  case (2 target targets indegree queue)
  define d where "d = degree_of indegree target - 1"
  have pos: "positive_degrees (AList.update target d indegree) \<le> positive_degrees indegree"
      "d = 0 \<Longrightarrow> positive_degrees (AList.update target d indegree) + 1 \<le> positive_degrees indegree"
    using positive_degrees_update [of indegree target d] by (auto simp: d_def)
  show ?case
  proof (cases "d = 0")
    case True
    then have "length queue' + positive_degrees indegree'
        \<le> length (sort (queue @ [target])) + positive_degrees (AList.update target d indegree)"
      using 2(1) [of d "AList.update target d indegree"] 2(3) by (simp add: d_def Let_def)
    then show ?thesis
      using pos(2) True by simp
  next
    case False
    then have "length queue' + positive_degrees indegree'
        \<le> length queue + positive_degrees (AList.update target d indegree)"
      using 2(2) [of d "AList.update target d indegree"] 2(3) by (simp add: d_def Let_def)
    then show ?thesis
      using pos(1) by simp
  qed
qed simp

function topological_loop :: "adjacency \<Rightarrow> (NodeID, int) gomap \<Rightarrow> NodeID list \<Rightarrow> nat \<Rightarrow> nat" where
  "topological_loop outgoing indegree [] visited = visited"
| "topological_loop outgoing indegree (v # queue) visited =
     (let (indegree', queue') = relax (slice_at outgoing v) indegree queue
      in topological_loop outgoing indegree' queue' (visited + 1))"
  by pat_completeness auto
termination
proof (relation "measure (\<lambda>(outgoing, indegree, queue, visited). length queue + positive_degrees indegree)")
  fix outgoing :: adjacency and indegree v queue p indegree' and queue' :: "NodeID list" and visited :: nat
  assume "p = relax (slice_at outgoing v) indegree queue" "(indegree', queue') = p"
  then have "relax (slice_at outgoing v) indegree queue = (indegree', queue')"
    by simp
  then show "((outgoing, indegree', queue', visited + 1), outgoing, indegree, v # queue, visited)
      \<in> measure (\<lambda>(outgoing, indegree, queue, visited). length queue + positive_degrees indegree)"
    using relax_measure [of "slice_at outgoing v" indegree queue indegree' queue'] by simp
qed simp

text \<open>
  \<^verbatim>\<open>validateDSLBranchRoutes\<close> ignores decoding errors: a syntax error decodes nothing, a member of another
  JSON type leaves its field as it was and the other elements are decoded all the same.
\<close>

fun route_member :: "string \<times> json \<Rightarrow> string \<Rightarrow> string" where
  "route_member (key, v) route =
     (if fold_name key = ''route'' then (case unmarshal_string v route of None \<Rightarrow> route | Some t \<Rightarrow> t) else route)"

fun case_route :: "json \<Rightarrow> string" where
  "case_route (JObject ms) = fold route_member ms ''''"
| "case_route _ = ''''"

definition declared_routes :: "Node \<Rightarrow> RouteName list" where
  "declared_routes node =
     (case Option.bind (parse_text (config_raw node ''default_route'')) to_string of None \<Rightarrow> '''' | Some t \<Rightarrow> t)
     # (case parse_text (config_raw node ''cases'') of Some (JArray vs) \<Rightarrow> map case_route vs | _ \<Rightarrow> [])"

definition validateDSLBranchRoutes :: "Node \<Rightarrow> Edge list \<Rightarrow> Issue list" where
  "validateDSLBranchRoutes node edges =
     (let declared = declared_routes node in
      concat (map (\<lambda>edge. issue_when (act_Route (edge_Activation edge) \<notin> set declared)
          (issue ''DSL_BRANCH_ROUTE_UNDECLARED'' ''branch edge route is not declared'' '''' (edge_ID edge)
             ''activation.route'')) edges)
      @ concat (map (\<lambda>route. issue_when (route \<noteq> '''' \<and> route \<notin> set (map (act_Route \<circ> edge_Activation) edges))
          (issue ''DSL_BRANCH_ROUTE_UNUSED'' ''declared branch route has no outgoing edge'' (dn_ID node) ''''
             ''operation.config.cases'')) (remdups declared)))"

text \<open>The state of the loop over the edges.\<close>

record edge_loop =
  el_issues :: "Issue list"
  el_incoming :: adjacency
  el_outgoing :: adjacency
  el_outgoingEdges :: "(NodeID, Edge list) gomap"
  el_edgeIDs :: "EdgeID set"

definition edge_id_issues :: "Edge \<Rightarrow> EdgeID set \<Rightarrow> Issue list" where
  "edge_id_issues edge edgeIDs =
     issue_when (\<not> edgeIDPattern (edge_ID edge))
       (issue ''DSL_EDGE_ID_INVALID'' ''execution edge id is invalid'' '''' (edge_ID edge) ''id'')
     @ issue_when (edge_ID edge \<in> edgeIDs)
         (issue ''DSL_EDGE_ID_DUPLICATE'' ''execution edge id must be unique'' '''' (edge_ID edge) ''id'')"

definition activation_issues :: "Node \<Rightarrow> Edge \<Rightarrow> Issue list" where
  "activation_issues source edge =
     (let activation = edge_Activation edge in
      if op_Type (dn_Operation source) = ''control.branch'' then
        issue_when (act_Kind activation \<noteq> ActivationRoute \<or> \<not> routePattern (act_Route activation))
          (issue ''DSL_BRANCH_ACTIVATION_INVALID'' ''branch edge requires a route activation'' '''' (edge_ID edge)
             ''activation'')
      else issue_when (act_Kind activation \<noteq> ActivationAlways \<or> act_Route activation \<noteq> '''')
          (issue ''DSL_EDGE_ACTIVATION_INVALID'' ''non-branch edge requires always activation'' '''' (edge_ID edge)
             ''activation''))"

definition edge_step :: "(NodeID, Node) gomap \<Rightarrow> Edge \<Rightarrow> edge_loop \<Rightarrow> edge_loop" where
  "edge_step nodes edge st =
     (let st1 = st\<lparr>el_issues := el_issues st @ edge_id_issues edge (el_edgeIDs st),
                   el_edgeIDs := insert (edge_ID edge) (el_edgeIDs st)\<rparr>;
          source = edge_SourceNodeID edge; target = edge_TargetNodeID edge
      in case (map_of nodes source, map_of nodes target) of
           (Some sourceNode, Some targetNode) \<Rightarrow>
             st1\<lparr>el_issues := el_issues st1 @ activation_issues sourceNode edge,
                 el_incoming := append_at target source (el_incoming st1),
                 el_outgoing := append_at source target (el_outgoing st1),
                 el_outgoingEdges := append_at source edge (el_outgoingEdges st1)\<rparr>
         | _ \<Rightarrow> st1\<lparr>el_issues := el_issues st1 @
                 [issue ''DSL_EDGE_NODE_NOT_FOUND'' ''execution edge references a missing node'' '''' (edge_ID edge) '''']\<rparr>)"

definition degree_issues :: "Document \<Rightarrow> edge_loop \<Rightarrow> NodeID \<Rightarrow> Issue list" where
  "degree_issues document st v =
     (if v = doc_EntryNodeID document then
        issue_when (slice_at (el_incoming st) v \<noteq> [])
          (issue ''DSL_ENTRY_INCOMING_FORBIDDEN'' ''entry node cannot have incoming edges'' v '''' '''')
      else issue_when (slice_at (el_incoming st) v = [])
          (issue ''DSL_NODE_INCOMING_REQUIRED'' ''non-entry node requires an incoming edge'' v '''' ''''))
     @ (if v = doc_ExitNodeID document then
        issue_when (slice_at (el_outgoing st) v \<noteq> [])
          (issue ''DSL_EXIT_OUTGOING_FORBIDDEN'' ''exit node cannot have outgoing edges'' v '''' '''')
      else issue_when (slice_at (el_outgoing st) v = [])
          (issue ''DSL_NODE_OUTGOING_REQUIRED'' ''non-exit node requires an outgoing edge'' v '''' ''''))"

definition topological_visited :: "NodeID list \<Rightarrow> adjacency \<Rightarrow> adjacency \<Rightarrow> nat" where
  "topological_visited ids incoming outgoing =
     (let indegree = map (\<lambda>v. (v, int (length (slice_at incoming v)))) ids;
          queue = sort (map fst (filter (\<lambda>(v, d). d = 0) indegree))
      in topological_loop outgoing indegree queue 0)"

definition validateEdgesAndGraph :: "Document \<Rightarrow> (NodeID, Node) gomap \<Rightarrow> Issue list" where
  "validateEdgesAndGraph document nodes =
     (let st = fold (edge_step nodes) (doc_Edges document)
            \<lparr>el_issues = [], el_incoming = [], el_outgoing = [], el_outgoingEdges = [], el_edgeIDs = {}\<rparr>
      in if nodes = [] then el_issues st @ [issue ''DSL_NODES_REQUIRED'' ''DSL requires nodes'' '''' '''' '''']
         else let ids = map fst nodes;
                  reachableFromEntry = reachableNodes (doc_EntryNodeID document) (el_outgoing st);
                  reachesExit = reachableNodes (doc_ExitNodeID document) (el_incoming st)
              in el_issues st
                 @ concat (map (degree_issues document st) ids)
                 @ issue_when (topological_visited ids (el_incoming st) (el_outgoing st) \<noteq> length nodes)
                     (issue ''DSL_GRAPH_CYCLE'' ''DSL control graph must be acyclic'' '''' '''' '''')
                 @ concat (map (\<lambda>(v, node).
                     issue_when (v \<notin> reachableFromEntry)
                       (issue ''DSL_NODE_NOT_REACHABLE'' ''node is not reachable from entry'' v '''' '''')
                     @ issue_when (v \<notin> reachesExit)
                         (issue ''DSL_NODE_CANNOT_REACH_EXIT'' ''node cannot reach exit'' v '''' '''')
                     @ (if op_Type (dn_Operation node) = ''control.branch''
                        then validateDSLBranchRoutes node (slice_at (el_outgoingEdges st) v) else [])) nodes))"

section \<open>Documents\<close>

text \<open>
  The state of the loop over the nodes. The map \<^verbatim>\<open>outputs\<close> of the source holds the outputs of
  the node that \<^verbatim>\<open>nodes\<close> holds under the same key.
\<close>

record node_loop =
  nl_issues :: "Issue list"
  nl_nodes :: "(NodeID, Node) gomap"
  nl_startCount :: nat
  nl_endCount :: nat

abbreviation start_coordinate :: Coordinate where
  "start_coordinate \<equiv> (''control.start'', 1)"

abbreviation end_coordinate :: Coordinate where
  "end_coordinate \<equiv> (''control.end'', 1)"

definition node_step_issues :: "Contract \<Rightarrow> Node \<Rightarrow> (NodeID, Node) gomap \<Rightarrow> Issue list" where
  "node_step_issues contract node nodes =
     issue_when (\<not> nodeIDPattern (dn_ID node))
       (issue ''DSL_NODE_ID_INVALID'' ''execution node id is invalid'' (dn_ID node) '''' ''id'')
     @ issue_when (map_of nodes (dn_ID node) \<noteq> None)
         (issue ''DSL_NODE_ID_DUPLICATE'' ''execution node id must be unique'' (dn_ID node) '''' ''id'')
     @ validateNode contract node"

definition document_node_step :: "Contract \<Rightarrow> Node \<Rightarrow> node_loop \<Rightarrow> node_loop" where
  "document_node_step contract node st = \<lparr>
     nl_issues = nl_issues st @ node_step_issues contract node (nl_nodes st),
     nl_nodes = AList.update (dn_ID node) node (nl_nodes st),
     nl_startCount = nl_startCount st + (if Operation_Coordinate (dn_Operation node) = start_coordinate then 1 else 0),
     nl_endCount = nl_endCount st + (if Operation_Coordinate (dn_Operation node) = end_coordinate then 1 else 0)\<rparr>"

definition binding_issues :: "(NodeID, Node) gomap \<Rightarrow> Node \<Rightarrow> PortName \<Rightarrow> InputBinding \<Rightarrow> Issue list" where
  "binding_issues nodes node name input =
     (let report = (\<lambda>code message. [issue code message (dn_ID node) '''' (''inputs.'' @ name)]) in
      case (ib_Kind input, ib_Output input) of
        (BindingNodeOutput, Some out) \<Rightarrow>
          (case map_of nodes (or_NodeID out) of
             None \<Rightarrow> report ''DSL_INPUT_NODE_NOT_FOUND'' ''input references a missing execution node''
           | Some source \<Rightarrow>
               (case map_of (entries (dn_Outputs source)) (or_Name out) of
                  None \<Rightarrow> report ''DSL_INPUT_OUTPUT_NOT_FOUND'' ''input references a missing output''
                | Some sourceType \<Rightarrow>
                    if compatible sourceType (ib_DataType input) then []
                    else report ''DSL_INPUT_TYPE_MISMATCH'' ''referenced output type is incompatible''))
      | _ \<Rightarrow> [])"

definition reference_issues :: "(NodeID, Node) gomap \<Rightarrow> Node \<Rightarrow> Issue list" where
  "reference_issues nodes node =
     concat (map (\<lambda>(name, input). binding_issues nodes node name input) (entries (dn_Inputs node)))"

definition boundary_issues :: "Document \<Rightarrow> (NodeID, Node) gomap \<Rightarrow> Issue list" where
  "boundary_issues document nodes =
     (let entry = map_of nodes (doc_EntryNodeID document); exit = map_of nodes (doc_ExitNodeID document) in
      issue_when (entry = None) (issue ''DSL_ENTRY_NODE_NOT_FOUND'' ''entry_node_id does not exist''
        (doc_EntryNodeID document) '''' ''entry_node_id'')
      @ issue_when (exit = None) (issue ''DSL_EXIT_NODE_NOT_FOUND'' ''exit_node_id does not exist''
        (doc_ExitNodeID document) '''' ''exit_node_id'')
      @ (case entry of None \<Rightarrow> [] | Some node \<Rightarrow>
           issue_when (Operation_Coordinate (dn_Operation node) \<noteq> start_coordinate)
             (issue ''DSL_ENTRY_NODE_INVALID'' ''entry node must be control.start@1'' (dn_ID node) '''' ''operation''))
      @ (case exit of None \<Rightarrow> [] | Some node \<Rightarrow>
           issue_when (Operation_Coordinate (dn_Operation node) \<noteq> end_coordinate)
             (issue ''DSL_EXIT_NODE_INVALID'' ''exit node must be control.end@1'' (dn_ID node) '''' ''operation'')))"

definition Validate :: "Contract \<Rightarrow> Document \<Rightarrow> Issue list" where
  "Validate contract document =
     (let st = fold (document_node_step contract) (doc_Nodes document)
            \<lparr>nl_issues = issue_when (doc_DSLVersion document \<noteq> con_version contract)
                (issue ''DSL_VERSION_UNSUPPORTED'' ''dsl_version is unsupported'' '''' '''' ''dsl_version''),
             nl_nodes = [], nl_startCount = 0, nl_endCount = 0\<rparr>;
          nodes = nl_nodes st
      in sortIssues (nl_issues st
         @ issue_when (nl_startCount st \<noteq> 1)
             (issue ''DSL_START_COUNT_INVALID'' ''DSL requires exactly one control.start@1'' '''' '''' '''')
         @ issue_when (nl_endCount st \<noteq> 1)
             (issue ''DSL_END_COUNT_INVALID'' ''DSL requires exactly one control.end@1'' '''' '''' '''')
         @ boundary_issues document nodes
         @ validateEdgesAndGraph document nodes
         @ concat (map (reference_issues nodes) (doc_Nodes document))))"

section \<open>The built-in contract\<close>

definition all_types :: "DataType list" where
  "all_types = [TypeString, TypeInteger, TypeNumber, TypeBoolean, TypeObject, TypeArray]"

definition builtin_specs :: "(string \<Rightarrow> py_Stmt list option) \<Rightarrow> OperationSpec list" where
  "builtin_specs ParseFile = [
     \<lparr>os_Coordinate = start_coordinate, os_Kind = KindControl, os_ConfigFields = [], os_Inputs = [],
       os_AllowExtraInputs = False,
       os_Outputs = [(''workflow_input'', \<lparr>pr_Required = True, pr_DataTypes = [TypeObject]\<rparr>)],
       os_AllowExtraOutputs = False, os_ValidateConfig = None\<rparr>,
     \<lparr>os_Coordinate = end_coordinate, os_Kind = KindControl, os_ConfigFields = [],
       os_Inputs = [(''workflow_output'', \<lparr>pr_Required = True, pr_DataTypes = [TypeObject]\<rparr>)],
       os_AllowExtraInputs = False, os_Outputs = [], os_AllowExtraOutputs = False, os_ValidateConfig = None\<rparr>,
     \<lparr>os_Coordinate = (''control.branch'', 1), os_Kind = KindControl,
       os_ConfigFields = [(''cases'', True), (''default_route'', True)],
       os_Inputs = [(''value'', \<lparr>pr_Required = True, pr_DataTypes = all_types\<rparr>)],
       os_AllowExtraInputs = False, os_Outputs = [], os_AllowExtraOutputs = False,
       os_ValidateConfig = Some validateBranchConfig\<rparr>,
     \<lparr>os_Coordinate = (''task.python'', 1), os_Kind = KindTask,
       os_ConfigFields = [(''source_code'', True), (''sandbox_profile'', True), (''model_artifact'', False)],
       os_Inputs = [], os_AllowExtraInputs = True, os_Outputs = [], os_AllowExtraOutputs = True,
       os_ValidateConfig = Some (validatePythonConfig ParseFile)\<rparr>,
     \<lparr>os_Coordinate = (''task.http'', 1), os_Kind = KindTask,
       os_ConfigFields = [(''connection_id'', True), (''method'', True), (''accepted_statuses'', True)],
       os_Inputs = [(''relative_path'', \<lparr>pr_Required = True, pr_DataTypes = [TypeString]\<rparr>),
                    (''query'', \<lparr>pr_Required = False, pr_DataTypes = [TypeObject]\<rparr>),
                    (''headers'', \<lparr>pr_Required = False, pr_DataTypes = [TypeObject]\<rparr>),
                    (''body'', \<lparr>pr_Required = False, pr_DataTypes = all_types\<rparr>)],
       os_AllowExtraInputs = False,
       os_Outputs = [(''response'', \<lparr>pr_Required = True, pr_DataTypes = [TypeObject]\<rparr>)],
       os_AllowExtraOutputs = False, os_ValidateConfig = Some validateHTTPConfig\<rparr>,
     \<lparr>os_Coordinate = (''task.rpc'', 1), os_Kind = KindTask,
       os_ConfigFields = [(''service_id'', True), (''operation'', True), (''contract_revision'', True),
                          (''idempotent'', True)],
       os_Inputs = [(''request'', \<lparr>pr_Required = True, pr_DataTypes = [TypeObject]\<rparr>)],
       os_AllowExtraInputs = False,
       os_Outputs = [(''response'', \<lparr>pr_Required = True, pr_DataTypes = [TypeObject]\<rparr>)],
       os_AllowExtraOutputs = False, os_ValidateConfig = Some validateRPCConfig\<rparr>]"

definition BuiltinV1Contract :: "(string \<Rightarrow> py_Stmt list option) \<Rightarrow> Contract" where
  "BuiltinV1Contract ParseFile =
     \<lparr>con_version = VersionV1, con_specs = map (\<lambda>spec. (os_Coordinate spec, spec)) (builtin_specs ParseFile)\<rparr>"

text \<open>The source builds the contract with \<^verbatim>\<open>NewContract\<close> and panics on an error: there is none.\<close>

lemma BuiltinV1Contract_new: "NewContract VersionV1 (builtin_specs ParseFile) = Inr (BuiltinV1Contract ParseFile)"
  by (simp add: NewContract_def BuiltinV1Contract_def VersionV1_def builtin_specs_def)

end
