(* ===== verification/Graph_Search.thy ===== *)
theory Graph_Search
  imports Dsl_Validator
begin

text \<open>
  The two graph loops that the DSL validator and the compiler both have: a search with a stack, and a sweep
  in topological order with a sorted queue. Each is a locale over the loop's equations, so that what it
  decides is proved once and holds of both implementations.
\<close>

section \<open>Search with a stack\<close>

lemma push_successors_sets:
  "push_successors vs seen stack = (seen', stack') \<Longrightarrow>
     seen' = seen \<union> set vs \<and> set stack' = set stack \<union> (set vs - seen)"
  by (induction vs seen stack rule: push_successors.induct) (auto split: if_splits)

text \<open>
  A loop that pops a node, marks the successors not yet marked and pushes them. Its successors lie in
  a finite set.
\<close>

locale stack_search =
  fixes loop :: "NodeID set \<Rightarrow> NodeID list \<Rightarrow> NodeID set" and succs :: "NodeID \<Rightarrow> NodeID list" and T :: "NodeID set"
  assumes loop_Nil: "loop seen [] = seen"
    and loop_Cons: "loop seen (v # stack) = (case push_successors (succs v) seen stack of (seen', stack') \<Rightarrow> loop seen' stack')"
    and targets: "finite T" "set (succs v) \<subseteq> T"
begin

definition edge_rel :: "(NodeID \<times> NodeID) set" where
  "edge_rel = {(u, v). v \<in> set (succs u)}"

lemma search_step:
  assumes "v \<in> seen"
  shows "edge_rel\<^sup>* `` (seen \<union> set (succs v)) = edge_rel\<^sup>* `` seen"
proof -
  have "(v, w) \<in> edge_rel" if "w \<in> set (succs v)" for w
    using that by (simp add: edge_rel_def)
  then show ?thesis
    using assms by (auto intro: converse_rtrancl_into_rtrancl)
qed

lemma search_correct:
  assumes "set stack \<subseteq> seen" and "\<And>u v. u \<in> seen - set stack \<Longrightarrow> (u, v) \<in> edge_rel \<Longrightarrow> v \<in> seen"
  shows "loop seen stack = edge_rel\<^sup>* `` seen"
  using assms
proof (induction "length stack + card (T - seen)" arbitrary: seen stack rule: less_induct)
  case less
  show ?case
  proof (cases stack)
    case Nil
    have "v \<in> seen" if "(u, v) \<in> edge_rel\<^sup>*" "u \<in> seen" for u v
      using that(1) that(2) less.prems(2) Nil by (induction rule: rtrancl_induct) auto
    then show ?thesis
      using Nil by (auto simp: loop_Nil)
  next
    case (Cons v rest)
    obtain seen' stack' where p: "push_successors (succs v) seen rest = (seen', stack')"
      by fastforce
    have s: "seen' = seen \<union> set (succs v)" "set stack' = set rest \<union> (set (succs v) - seen)"
      using push_successors_sets [OF p] by auto
    have cut: "length stack' + card (T - seen') < length stack + card (T - seen)"
      using push_successors_measure [OF p targets(2,1)] Cons by simp
    have "loop seen' stack' = edge_rel\<^sup>* `` seen'"
    proof (rule less.hyps [OF cut])
      show "set stack' \<subseteq> seen'"
        using s less.prems(1) Cons by auto
      fix u w
      assume u: "u \<in> seen' - set stack'" and w: "(u, w) \<in> edge_rel"
      show "w \<in> seen'"
      proof (cases "u = v")
        case True
        then show ?thesis
          using w s by (auto simp: edge_rel_def)
      next
        case False
        then have "u \<in> seen - set stack"
          using u Cons unfolding s by auto
        then show ?thesis
          using less.prems(2) w unfolding s by blast
      qed
    qed
    then show ?thesis
      using p Cons s(1) search_step [of v seen] less.prems(1) by (simp add: loop_Cons)
  qed
qed

lemma search_from: "loop {v} [v] = {w. (v, w) \<in> edge_rel\<^sup>*}"
  using search_correct [of "[v]" "{v}"] by auto

end

section \<open>The topological sweep\<close>

text \<open>
  \<open>relax\<close> counts a target down once for every edge: with the degrees a fixed part plus the
  occurrences still to come, what remains is the fixed part, and exactly the targets whose fixed part
  is zero enter the queue.
\<close>

lemma degree_of_update [simp]:
  "degree_of (AList.update v d m) w = (if w = v then d else degree_of m w)"
  by (simp add: degree_of_def)

lemma relax_correct:
  assumes "\<And>x. degree_of m x = base x + int (count_list ts x)" and "\<And>x. 0 \<le> base x"
    and "\<And>x. x \<in> set q \<Longrightarrow> degree_of m x = 0" and "distinct q"
    and "relax ts m q = (m', q')"
  shows "(\<forall>x. degree_of m' x = base x) \<and> distinct q' \<and> set q' = set q \<union> {x \<in> set ts. base x = 0}"
  using assms
proof (induction ts m q rule: relax.induct)
  case (1 m q)
  then show ?case by simp
next
  case (2 t ts m q)
  let ?d = "degree_of m t - 1"
  let ?m = "AList.update t ?d m"
  have deg: "degree_of ?m x = base x + int (count_list ts x)" for x
    using 2(3) [of x] by auto
  have pos: "1 \<le> degree_of m t"
    using 2(3) [of t] 2(4) [of t] by simp
  have tq: "t \<notin> set q"
    using 2(5) [of t] pos by auto
  show ?case
  proof (cases "?d = 0")
    case True
    have "base t = 0" "count_list ts t = 0"
      using deg [of t] True 2(4) [of t] by auto
    moreover have "(\<forall>x. degree_of m' x = base x) \<and> distinct q'
        \<and> set q' = set (sort (q @ [t])) \<union> {x \<in> set ts. base x = 0}"
    proof (rule 2(1) [OF refl refl True deg 2(4)])
      show "degree_of ?m x = 0" if "x \<in> set (sort (q @ [t]))" for x
        using that True 2(5) by auto
      show "distinct (sort (q @ [t]))"
        using tq 2(6) by simp
      show "relax ts ?m (sort (q @ [t])) = (m', q')"
        using 2(7) True by simp
    qed
    ultimately show ?thesis
      by auto
  next
    case False
    have "(\<forall>x. degree_of m' x = base x) \<and> distinct q' \<and> set q' = set q \<union> {x \<in> set ts. base x = 0}"
    proof (rule 2(2) [OF refl refl False deg 2(4) _ 2(6)])
      show "degree_of ?m x = 0" if "x \<in> set q" for x
        using that tq 2(5) by auto
      show "relax ts ?m q = (m', q')"
        using 2(7) False by (simp add: Let_def)
    qed
    moreover have "base t \<noteq> 0 \<or> t \<in> set ts"
      using deg [of t] False by (auto simp: count_list_0_iff)
    ultimately show ?thesis
      by auto
  qed
qed

text \<open>
  \<open>topo E ds\<close>: every predecessor of an element stands before it. The number of edges into \<open>x\<close> from
  nodes outside \<open>D\<close> is \<open>open_edges\<close>.
\<close>

definition topo :: "('a \<times> 'a) set \<Rightarrow> 'a list \<Rightarrow> bool" where
  "topo E ds \<longleftrightarrow> (\<forall>i < length ds. \<forall>u. (u, ds ! i) \<in> E \<longrightarrow> u \<in> set (take i ds))"

lemma topo_snoc: "topo E ds \<Longrightarrow> (\<And>u. (u, v) \<in> E \<Longrightarrow> u \<in> set ds) \<Longrightarrow> topo E (ds @ [v])"
  by (auto simp: topo_def nth_append less_Suc_eq)

lemma topo_acyclic:
  assumes "topo E ds" and "E \<subseteq> UNIV \<times> set ds"
  shows "acyclic E"
proof -
  define rank where "rank v = (LEAST i. i < length ds \<and> ds ! i = v)" for v
  have rank: "rank v < length ds \<and> ds ! rank v = v" if "v \<in> set ds" for v
    unfolding rank_def by (rule LeastI_ex) (use that in \<open>auto simp: in_set_conv_nth\<close>)
  have "rank u < rank v" if e: "(u, v) \<in> E" for u v
  proof -
    have v: "rank v < length ds" "ds ! rank v = v"
      using rank assms(2) e by blast+
    then obtain j where "j < rank v" "j < length ds" "ds ! j = u"
      using assms(1) e unfolding topo_def by (metis in_set_conv_nth length_take min_less_iff_conj nth_take)
    then have "rank u \<le> j"
      unfolding rank_def by (intro Least_le) simp
    with \<open>j < rank v\<close> show ?thesis by simp
  qed
  then have "E \<subseteq> measure rank"
    by auto
  then show ?thesis
    using wf_acyclic wf_subset wf_measure by blast
qed

definition open_edges :: "('a \<times> 'a) list \<Rightarrow> 'a set \<Rightarrow> 'a \<Rightarrow> nat" where
  "open_edges es D x = length (filter (\<lambda>(u, v). v = x \<and> u \<notin> D) es)"

lemma open_edges_0: "open_edges es D x = 0 \<longleftrightarrow> (\<forall>u. (u, x) \<in> set es \<longrightarrow> u \<in> D)"
  by (auto simp: open_edges_def filter_empty_conv)

lemma open_edges_insert:
  "v \<notin> D \<Longrightarrow> open_edges es D x =
     open_edges es (insert v D) x + count_list (map snd (filter (\<lambda>(u, w). u = v) es)) x"
  by (induction es) (auto simp: open_edges_def)


lemma degree_of_map: "degree_of (map (\<lambda>v. (v, f v)) ids) x = (if x \<in> set ids then f x else 0)"
  by (induction ids) (auto simp: degree_of_def)

text \<open>
  A loop that takes the first node of the queue, counts its successors down and goes on with the
  node appended to the ones visited; it ends in a value of the list of visited nodes.
\<close>

locale topological_sweep =
  fixes loop :: "(NodeID, int) gomap \<Rightarrow> NodeID list \<Rightarrow> NodeID list \<Rightarrow> 'r"
    and succs :: "NodeID \<Rightarrow> NodeID list" and finish :: "NodeID list \<Rightarrow> 'r"
  assumes loop_Nil: "loop indegree [] ds = finish ds"
    and loop_Cons: "loop indegree (v # queue) ds =
      (case relax (succs v) indegree queue of (indegree', queue') \<Rightarrow> loop indegree' queue' (ds @ [v]))"
begin

lemma sweep_correct:
  assumes out: "\<And>u. succs u = map snd (filter (\<lambda>(s, t). s = u) es)"
    and edges: "set es \<subseteq> V \<times> V"
    and deg: "\<And>x. degree_of indegree x = int (open_edges es (set ds) x)"
    and dist: "distinct (ds @ queue)" and sub: "set (ds @ queue) \<subseteq> V"
    and zero: "\<And>x. x \<in> V \<Longrightarrow> open_edges es (set ds) x = 0 \<longleftrightarrow> x \<in> set (ds @ queue)"
    and topo: "topo (set es) ds"
  shows "\<exists>ds'. loop indegree queue ds = finish ds' \<and> distinct ds'
    \<and> set ds' \<subseteq> V \<and> topo (set es) ds' \<and> (\<forall>x \<in> V. open_edges es (set ds') x = 0 \<longleftrightarrow> x \<in> set ds')"
  using deg dist sub zero topo
proof (induction "length queue + positive_degrees indegree" arbitrary: indegree ds queue rule: less_induct)
  case less
  show ?case
  proof (cases queue)
    case Nil
    then show ?thesis
      using less.prems by (intro exI [of _ ds]) (auto simp: loop_Nil)
  next
    case (Cons v q)
    obtain m' q' where r: "relax (succs v) indegree q = (m', q')"
      by fastforce
    have v: "v \<notin> set ds" "v \<in> V" "open_edges es (set ds) v = 0"
      using less.prems(2,3,4) Cons by auto
    have base: "degree_of indegree x
        = int (open_edges es (insert v (set ds)) x) + int (count_list (succs v) x)" for x
      using less.prems(1) open_edges_insert [OF v(1)] by (simp add: out)
    have q0: "degree_of indegree x = 0" if "x \<in> set q" for x
    proof -
      have "x \<in> V" using less.prems(3) Cons that by auto
      then show ?thesis
        using less.prems(1,4) Cons that by auto
    qed
    have step: "(\<forall>x. degree_of m' x = int (open_edges es (insert v (set ds)) x)) \<and> distinct q'
        \<and> set q' = set q \<union> {x \<in> set (succs v). int (open_edges es (insert v (set ds)) x) = 0}"
      by (rule relax_correct [OF base _ q0 _ r]) (use less.prems(2) Cons in auto)
    have vs: "set (succs v) \<subseteq> V"
      using edges by (auto simp: out)
    have new: "x \<notin> set ds" if "x \<in> set (succs v)" for x
    proof
      assume "x \<in> set ds"
      moreover have "x \<in> V" "(v, x) \<in> set es" using vs that by (auto simp: out)
      ultimately show False
        using less.prems(4) v(1) open_edges_0 by fastforce
    qed
    have cut: "length q' + positive_degrees m' < length queue + positive_degrees indegree"
      using relax_measure [OF r] Cons by simp
    have IH: "\<exists>ds'. loop m' q' (ds @ [v]) = finish ds' \<and> distinct ds'
        \<and> set ds' \<subseteq> V \<and> topo (set es) ds' \<and> (\<forall>x \<in> V. open_edges es (set ds') x = 0 \<longleftrightarrow> x \<in> set ds')"
    proof (rule less.hyps [OF cut])
      show "degree_of m' x = int (open_edges es (set (ds @ [v])) x)" for x
        using step by simp
      have vq: "v \<notin> set q'"
      proof
        assume "v \<in> set q'"
        then have "(v, v) \<in> set es"
          using step less.prems(2) Cons by (auto simp: out)
        then show False
          using v open_edges_0 by fastforce
      qed
      show "distinct ((ds @ [v]) @ q')"
        using less.prems(2) Cons step new vq by auto
      show "set ((ds @ [v]) @ q') \<subseteq> V"
        using less.prems(3) Cons step vs by auto
      show "topo (set es) (ds @ [v])"
        using less.prems(5) v(3) by (intro topo_snoc) (auto simp: open_edges_0)
      fix x assume x: "x \<in> V"
      show "open_edges es (set (ds @ [v])) x = 0 \<longleftrightarrow> x \<in> set ((ds @ [v]) @ q')"
      proof (cases "x \<in> set (succs v)")
        case True
        have "x \<noteq> v"
          using True v by (auto simp: out open_edges_0)
        then show ?thesis
          using True step new [OF True] less.prems(4) [OF x] q0 base [of x] vq v
          by (auto simp: count_list_0_iff)
      next
        case False
        then have "count_list (succs v) x = 0"
          by (simp add: count_list_0_iff)
        then have "open_edges es (set (ds @ [v])) x = open_edges es (set ds) x"
          using base [of x] less.prems(1) [of x] by simp
        then show ?thesis
          using less.prems(4) [OF x] False step Cons by auto
      qed
    qed
    then show ?thesis
      using Cons r by (simp add: loop_Cons)
  qed
qed

text \<open>Started with the in-degrees, the sweep visits all nodes exactly when the graph has no cycle.\<close>

lemma sweep_all:
  assumes ids: "distinct ids" and edges: "set es \<subseteq> set ids \<times> set ids"
    and out: "\<And>u. succs u = map snd (filter (\<lambda>(s, t). s = u) es)"
    and inc: "\<And>x. x \<in> set ids \<Longrightarrow> inc x = length (filter (\<lambda>(s, t). t = x) es)"
    and m: "m = map (\<lambda>v. (v, int (inc v))) ids"
  shows "\<exists>ds. loop m (sort (map fst (filter (\<lambda>(v, d). d = 0) m))) [] = finish ds \<and> distinct ds \<and> set ds \<subseteq> set ids
    \<and> topo (set es) ds \<and> (length ds = length ids \<longleftrightarrow> acyclic (set es))"
proof -
  define q where "q = sort (map fst (filter (\<lambda>(v, d). d = 0) m))"
  have open0: "open_edges es {} x = (if x \<in> set ids then inc x else 0)" for x
    using inc [of x] edges by (auto simp: open_edges_def filter_empty_conv)
  then have deg: "degree_of m x = int (open_edges es (set []) x)" for x
    by (simp add: m degree_of_map)
  have q: "q = sort (filter (\<lambda>v. inc v = 0) ids)"
    by (simp add: q_def m filter_map o_def)
  obtain ds where ds: "loop m q [] = finish ds" "distinct ds"
      "set ds \<subseteq> set ids" "topo (set es) ds" "\<forall>x \<in> set ids. open_edges es (set ds) x = 0 \<longleftrightarrow> x \<in> set ds"
    using sweep_correct [OF out edges deg, of q] ids by (auto simp: q open0 topo_def)
  have "length ds = length ids \<longleftrightarrow> set ds = set ids"
    using ds(2,3) ids by (metis card_subset_eq distinct_card List.finite_set)
  moreover have "set ds = set ids \<Longrightarrow> acyclic (set es)"
    using topo_acyclic [OF ds(4)] edges by auto
  moreover have "set ds = set ids" if ac: "acyclic (set es)"
  proof (rule ccontr)
    assume "set ds \<noteq> set ids"
    then have "set ids - set ds \<noteq> {}"
      using ds(3) by blast
    moreover have "wf (set es)"
      using ac by (simp add: finite_acyclic_wf)
    ultimately obtain z where z: "z \<in> set ids - set ds" "\<And>y. (y, z) \<in> set es \<Longrightarrow> y \<notin> set ids - set ds"
      by (metis wfE_min ex_in_conv)
    then have "open_edges es (set ds) z = 0"
      using edges by (auto simp: open_edges_0)
    then show False
      using ds(5) z(1) by auto
  qed
  ultimately show ?thesis
    using ds by (auto simp: q_def)
qed

end

end
