(* ===== verification/Dsl_Graph.thy ===== *)
theory Dsl_Graph
  imports Graph_Search
begin

text \<open>
  What validation of the control graph guarantees. The two loops of \<^verbatim>\<open>validator.go\<close> instantiate the
  searches of \<open>Graph_Search\<close> and so decide what they are used for: the stack loop computes reachability, and the topological loop
  visits every node exactly when the graph has no cycle. From these follows the well-formedness
  of every accepted document, on which the engine relies.
\<close>

section \<open>The loops\<close>

definition adjacency_rel :: "adjacency \<Rightarrow> (NodeID \<times> NodeID) set" where
  "adjacency_rel outgoing = {(u, v). v \<in> set (slice_at outgoing u)}"

interpretation dsl_search: stack_search "reach_loop outgoing" "slice_at outgoing" "adjacency_targets outgoing"
  for outgoing
  by unfold_locales (simp_all add: slice_at_targets)

lemma reachableNodes_correct: "reachableNodes start outgoing = {v. (start, v) \<in> (adjacency_rel outgoing)\<^sup>*}"
  using dsl_search.search_from [of outgoing start]
  by (simp add: reachableNodes_def adjacency_rel_def dsl_search.edge_rel_def)

interpretation dsl_sweep: topological_sweep "\<lambda>indegree queue ds. topological_loop outgoing indegree queue (length ds)"
    "slice_at outgoing" length
  for outgoing
  by unfold_locales (simp_all split: prod.split)

lemma topological_visited_correct:
  assumes "distinct ids" and "set es \<subseteq> set ids \<times> set ids"
    and "\<And>u. slice_at outgoing u = map snd (filter (\<lambda>(s, t). s = u) es)"
    and "\<And>u. slice_at incoming u = map fst (filter (\<lambda>(s, t). t = u) es)"
  shows "topological_visited ids incoming outgoing = length ids \<longleftrightarrow> acyclic (set es)"
  using dsl_sweep.sweep_all [OF assms(1-3), where inc = "\<lambda>v. length (slice_at incoming v)"] assms(4)
  by (auto simp: topological_visited_def Let_def)

section \<open>Accepted documents\<close>

definition doc_ids :: "Document \<Rightarrow> NodeID set" where
  "doc_ids d = dn_ID ` set (doc_Nodes d)"

definition doc_pairs :: "Document \<Rightarrow> (NodeID \<times> NodeID) list" where
  "doc_pairs d = map (\<lambda>e. (edge_SourceNodeID e, edge_TargetNodeID e)) (doc_Edges d)"

abbreviation doc_rel :: "Document \<Rightarrow> (NodeID \<times> NodeID) set" where
  "doc_rel d \<equiv> set (doc_pairs d)"

definition node_of :: "Document \<Rightarrow> NodeID \<Rightarrow> Node option" where
  "node_of d v = map_of (map (\<lambda>n. (dn_ID n, n)) (doc_Nodes d)) v"

definition edges_from :: "Document \<Rightarrow> NodeID \<Rightarrow> Edge list" where
  "edges_from d v = filter (\<lambda>e. edge_SourceNodeID e = v) (doc_Edges d)"

text \<open>Identities are well-formed and unique; there is one start and one end node.\<close>

definition doc_nodes_ok :: "Document \<Rightarrow> bool" where
  "doc_nodes_ok d \<longleftrightarrow> distinct (map dn_ID (doc_Nodes d)) \<and> (\<forall>n \<in> set (doc_Nodes d). nodeIDPattern (dn_ID n))
     \<and> length (filter (\<lambda>n. Operation_Coordinate (dn_Operation n) = start_coordinate) (doc_Nodes d)) = 1
     \<and> length (filter (\<lambda>n. Operation_Coordinate (dn_Operation n) = end_coordinate) (doc_Nodes d)) = 1
     \<and> (\<exists>n. node_of d (doc_EntryNodeID d) = Some n \<and> Operation_Coordinate (dn_Operation n) = start_coordinate)
     \<and> (\<exists>n. node_of d (doc_ExitNodeID d) = Some n \<and> Operation_Coordinate (dn_Operation n) = end_coordinate)"

text \<open>Edges have unique identities, connect existing nodes, and carry the activation of their source.\<close>

definition doc_edges_ok :: "Document \<Rightarrow> bool" where
  "doc_edges_ok d \<longleftrightarrow> distinct (map edge_ID (doc_Edges d))
     \<and> (\<forall>e \<in> set (doc_Edges d). edgeIDPattern (edge_ID e) \<and> edge_TargetNodeID e \<in> doc_ids d
          \<and> (\<exists>n. node_of d (edge_SourceNodeID e) = Some n \<and> activation_issues n e = []))"

text \<open>
  The control graph is acyclic, the entry is its only source and the exit its only sink, every node
  is on a path from entry to exit, and the routes of a branch are the ones it declares.
\<close>

definition doc_graph_ok :: "Document \<Rightarrow> bool" where
  "doc_graph_ok d \<longleftrightarrow> acyclic (doc_rel d)
     \<and> (\<forall>v \<in> doc_ids d. (v = doc_EntryNodeID d \<longleftrightarrow> v \<notin> Range (doc_rel d))
          \<and> (v = doc_ExitNodeID d \<longleftrightarrow> v \<notin> Domain (doc_rel d))
          \<and> (doc_EntryNodeID d, v) \<in> (doc_rel d)\<^sup>* \<and> (v, doc_ExitNodeID d) \<in> (doc_rel d)\<^sup>*)
     \<and> (\<forall>n \<in> set (doc_Nodes d). op_Type (dn_Operation n) = ''control.branch'' \<longrightarrow>
          validateDSLBranchRoutes n (edges_from d (dn_ID n)) = [])"

text \<open>Every reference of an input names an existing output of an existing node, of a compatible type.\<close>

definition doc_refs_ok :: "Document \<Rightarrow> bool" where
  "doc_refs_ok d \<longleftrightarrow> (\<forall>n \<in> set (doc_Nodes d). \<forall>(name, b) \<in> set (entries (dn_Inputs n)).
     ib_Kind b = BindingNodeOutput \<longrightarrow> (\<forall>out. ib_Output b = Some out \<longrightarrow>
       (\<exists>source t. node_of d (or_NodeID out) = Some source
          \<and> map_of (entries (dn_Outputs source)) (or_Name out) = Some t \<and> compatible t (ib_DataType b))))"

definition wf_document :: "Document \<Rightarrow> bool" where
  "wf_document d \<longleftrightarrow> doc_nodes_ok d \<and> doc_edges_ok d \<and> doc_graph_ok d \<and> doc_refs_ok d"

subsection \<open>The loop over the nodes\<close>

lemma update_new: "k \<notin> fst ` set m \<Longrightarrow> AList.update k v m = m @ [(k, v)]"
  by (induction m) auto

lemma node_loop_issues:
  "nl_issues (fold (document_node_step contract) ns st) = [] \<longleftrightarrow>
     nl_issues st = [] \<and> distinct (map dn_ID ns)
     \<and> (\<forall>n \<in> set ns. nodeIDPattern (dn_ID n) \<and> validateNode contract n = [] \<and> dn_ID n \<notin> fst ` set (nl_nodes st))"
proof (induction ns arbitrary: st)
  case (Cons n ns)
  let ?st = "document_node_step contract n st"
  have "nl_issues ?st = [] \<longleftrightarrow> nl_issues st = [] \<and> nodeIDPattern (dn_ID n) \<and> validateNode contract n = []
      \<and> dn_ID n \<notin> fst ` set (nl_nodes st)"
    by (auto simp: document_node_step_def node_step_issues_def map_of_eq_None_iff)
  moreover have "fst ` set (nl_nodes ?st) = insert (dn_ID n) (fst ` set (nl_nodes st))"
    by (simp add: document_node_step_def dom_update)
  ultimately have "nl_issues (fold (document_node_step contract) ns ?st) = [] \<longleftrightarrow>
      (nl_issues st = [] \<and> nodeIDPattern (dn_ID n) \<and> validateNode contract n = []
        \<and> dn_ID n \<notin> fst ` set (nl_nodes st)) \<and> distinct (map dn_ID ns)
      \<and> (\<forall>m \<in> set ns. nodeIDPattern (dn_ID m) \<and> validateNode contract m = []
           \<and> dn_ID m \<noteq> dn_ID n \<and> dn_ID m \<notin> fst ` set (nl_nodes st))"
    using Cons.IH [of ?st] by simp
  moreover have "dn_ID n \<notin> dn_ID ` set ns \<longleftrightarrow> (\<forall>m \<in> set ns. dn_ID m \<noteq> dn_ID n)"
    by (simp add: image_iff eq_commute)
  ultimately show ?case
    by (simp add: ball_conj_distrib del: image_iff) argo
qed simp

lemma node_loop_nodes:
  "distinct (map dn_ID ns) \<Longrightarrow> \<forall>n \<in> set ns. dn_ID n \<notin> fst ` set (nl_nodes st) \<Longrightarrow>
     nl_nodes (fold (document_node_step contract) ns st) = nl_nodes st @ map (\<lambda>n. (dn_ID n, n)) ns"
proof (induction ns arbitrary: st)
  case (Cons n ns)
  then have eq: "nl_nodes (document_node_step contract n st) = nl_nodes st @ [(dn_ID n, n)]"
    by (simp add: document_node_step_def update_new)
  have "dn_ID m \<noteq> dn_ID n" if "m \<in> set ns" for m
    using Cons.prems(1) that by (metis distinct.simps(2) image_eqI list.set_map list.simps(9))
  then have "\<forall>m \<in> set ns. dn_ID m \<notin> fst ` set (nl_nodes (document_node_step contract n st))"
    using Cons.prems(2) by (simp add: eq)
  then show ?case
    using Cons.IH [of "document_node_step contract n st"] Cons.prems(1) by (simp add: eq)
qed simp

lemma node_loop_counts:
  "nl_startCount (fold (document_node_step contract) ns st) = nl_startCount st
     + length (filter (\<lambda>n. Operation_Coordinate (dn_Operation n) = start_coordinate) ns)"
  "nl_endCount (fold (document_node_step contract) ns st) = nl_endCount st
     + length (filter (\<lambda>n. Operation_Coordinate (dn_Operation n) = end_coordinate) ns)"
  by (induction ns arbitrary: st) (auto simp: document_node_step_def)

subsection \<open>The loop over the edges\<close>

lemma edge_step_issues:
  "el_issues (edge_step nodes e st) = [] \<longleftrightarrow> el_issues st = [] \<and> edgeIDPattern (edge_ID e)
     \<and> edge_ID e \<notin> el_edgeIDs st \<and> map_of nodes (edge_TargetNodeID e) \<noteq> None
     \<and> (\<exists>n. map_of nodes (edge_SourceNodeID e) = Some n \<and> activation_issues n e = [])"
  by (auto simp: edge_step_def Let_def edge_id_issues_def split: option.splits)

lemma edge_step_ids [simp]: "el_edgeIDs (edge_step nodes e st) = insert (edge_ID e) (el_edgeIDs st)"
  by (auto simp: edge_step_def Let_def split: option.splits)

lemma edge_step_slices:
  assumes "map_of nodes (edge_SourceNodeID e) \<noteq> None" and "map_of nodes (edge_TargetNodeID e) \<noteq> None"
  shows "el_incoming (edge_step nodes e st) = append_at (edge_TargetNodeID e) (edge_SourceNodeID e) (el_incoming st)"
    "el_outgoing (edge_step nodes e st) = append_at (edge_SourceNodeID e) (edge_TargetNodeID e) (el_outgoing st)"
    "el_outgoingEdges (edge_step nodes e st) = append_at (edge_SourceNodeID e) e (el_outgoingEdges st)"
  using assms by (auto simp: edge_step_def Let_def)

lemma edge_loop_issues:
  "el_issues (fold (edge_step nodes) es st) = [] \<longleftrightarrow> el_issues st = [] \<and> distinct (map edge_ID es)
     \<and> (\<forall>e \<in> set es. edgeIDPattern (edge_ID e) \<and> edge_ID e \<notin> el_edgeIDs st
          \<and> map_of nodes (edge_TargetNodeID e) \<noteq> None
          \<and> (\<exists>n. map_of nodes (edge_SourceNodeID e) = Some n \<and> activation_issues n e = []))"
  by (induction es arbitrary: st) (auto simp: edge_step_issues image_iff)

lemma edge_loop_slices:
  assumes "\<forall>e \<in> set es. map_of nodes (edge_SourceNodeID e) \<noteq> None \<and> map_of nodes (edge_TargetNodeID e) \<noteq> None"
  shows "el_incoming (fold (edge_step nodes) es st)
      = fold (\<lambda>e. append_at (edge_TargetNodeID e) (edge_SourceNodeID e)) es (el_incoming st)"
    "el_outgoing (fold (edge_step nodes) es st)
      = fold (\<lambda>e. append_at (edge_SourceNodeID e) (edge_TargetNodeID e)) es (el_outgoing st)"
    "el_outgoingEdges (fold (edge_step nodes) es st)
      = fold (\<lambda>e. append_at (edge_SourceNodeID e) e) es (el_outgoingEdges st)"
  using assms by (induction es arbitrary: st) (auto simp: edge_step_slices)

subsection \<open>The document\<close>

lemma degree_issues_empty:
  "degree_issues d st v = [] \<longleftrightarrow>
     (v = doc_EntryNodeID d \<longleftrightarrow> slice_at (el_incoming st) v = [])
     \<and> (v = doc_ExitNodeID d \<longleftrightarrow> slice_at (el_outgoing st) v = [])"
  by (auto simp: degree_issues_def)

lemma concat_Nil_conv: "concat (map f xs) = [] \<longleftrightarrow> (\<forall>x \<in> set xs. f x = [])"
  by auto

lemma node_of_ids: "node_of d v \<noteq> None \<longleftrightarrow> v \<in> doc_ids d"
  by (force simp: node_of_def doc_ids_def map_of_eq_None_iff)

text \<open>The adjacency maps of the validator when every edge connects existing nodes.\<close>

lemma edge_loop_pairs:
  assumes "\<forall>e \<in> set (doc_Edges d). map_of nodes (edge_SourceNodeID e) \<noteq> None \<and> map_of nodes (edge_TargetNodeID e) \<noteq> None"
  defines "st \<equiv> fold (edge_step nodes) (doc_Edges d)
      \<lparr>el_issues = [], el_incoming = [], el_outgoing = [], el_outgoingEdges = [], el_edgeIDs = {}\<rparr>"
  shows "slice_at (el_incoming st) v = map fst (filter (\<lambda>(s, t). t = v) (doc_pairs d))"
    "slice_at (el_outgoing st) v = map snd (filter (\<lambda>(s, t). s = v) (doc_pairs d))"
    "slice_at (el_outgoingEdges st) v = edges_from d v"
  using edge_loop_slices [OF assms(1)]
  by (simp_all add: st_def slice_at_fold_append doc_pairs_def edges_from_def filter_map o_def)

lemma graph_issues_empty:
  assumes nodes: "nodes = map (\<lambda>n. (dn_ID n, n)) (doc_Nodes d)" and dist: "distinct (map dn_ID (doc_Nodes d))"
    and ne: "doc_Nodes d \<noteq> []"
  shows "validateEdgesAndGraph d nodes = [] \<longleftrightarrow> doc_edges_ok d \<and> doc_graph_ok d"
proof -
  define st where "st = fold (edge_step nodes) (doc_Edges d)
      \<lparr>el_issues = [], el_incoming = [], el_outgoing = [], el_outgoingEdges = [], el_edgeIDs = {}\<rparr>"
  have node_of: "map_of nodes v = node_of d v" for v
    by (simp add: nodes node_of_def)
  have ids: "map fst nodes = map dn_ID (doc_Nodes d)"
    by (simp add: nodes)
  have issues: "el_issues st = [] \<longleftrightarrow> doc_edges_ok d"
    unfolding st_def edge_loop_issues doc_edges_ok_def node_of node_of_ids by auto
  have rest: "concat (map (degree_issues d st) (map fst nodes)) = []
      \<and> topological_visited (map fst nodes) (el_incoming st) (el_outgoing st) = length nodes
      \<and> (\<forall>(v, n) \<in> set nodes. v \<in> reachableNodes (doc_EntryNodeID d) (el_outgoing st)
           \<and> v \<in> reachableNodes (doc_ExitNodeID d) (el_incoming st)
           \<and> (op_Type (dn_Operation n) = ''control.branch'' \<longrightarrow>
                validateDSLBranchRoutes n (slice_at (el_outgoingEdges st) v) = []))
      \<longleftrightarrow> doc_graph_ok d" if "doc_edges_ok d"
  proof -
    have edges: "\<forall>e \<in> set (doc_Edges d). map_of nodes (edge_SourceNodeID e) \<noteq> None
        \<and> map_of nodes (edge_TargetNodeID e) \<noteq> None"
      using that unfolding node_of doc_edges_ok_def by (auto simp flip: node_of_ids)
    note slices = edge_loop_pairs [OF edges, folded st_def]
    have sub: "doc_rel d \<subseteq> set (map fst nodes) \<times> set (map fst nodes)"
      using edges by (force simp: doc_pairs_def map_of_eq_None_iff)
    have out: "adjacency_rel (el_outgoing st) = doc_rel d" and inc: "adjacency_rel (el_incoming st) = (doc_rel d)\<inverse>"
      by (force simp: adjacency_rel_def slices)+
    have visited: "topological_visited (map fst nodes) (el_incoming st) (el_outgoing st) = length nodes
        \<longleftrightarrow> acyclic (doc_rel d)"
      using topological_visited_correct [OF _ sub slices(2,1)] dist by (simp add: ids) (simp add: nodes)
    have degrees: "degree_issues d st v = [] \<longleftrightarrow> (v = doc_EntryNodeID d \<longleftrightarrow> v \<notin> Range (doc_rel d))
        \<and> (v = doc_ExitNodeID d \<longleftrightarrow> v \<notin> Domain (doc_rel d))" for v
    proof -
      have "slice_at (el_incoming st) v = [] \<longleftrightarrow> v \<notin> Range (doc_rel d)"
        by (auto simp: slices filter_empty_conv Range_iff)
      moreover have "slice_at (el_outgoing st) v = [] \<longleftrightarrow> v \<notin> Domain (doc_rel d)"
        by (auto simp: slices filter_empty_conv Domain_iff)
      ultimately show ?thesis
        by (simp add: degree_issues_empty)
    qed
    have nodes_ball: "(\<forall>(v, n) \<in> set nodes. P v n) \<longleftrightarrow> (\<forall>n \<in> set (doc_Nodes d). P (dn_ID n) n)" for P
      by (auto simp: nodes)
    have ids_ball: "(\<forall>v \<in> doc_ids d. P v) \<longleftrightarrow> (\<forall>n \<in> set (doc_Nodes d). P (dn_ID n))" for P
      by (auto simp: doc_ids_def)
    show ?thesis
      unfolding concat_Nil_conv visited doc_graph_ok_def nodes_ball ids_ball ids reachableNodes_correct out inc slices
        rtrancl_converse mem_Collect_eq converse_iff
      by (auto simp: degrees visited [unfolded ids])
  qed
  have "validateEdgesAndGraph d nodes = [] \<longleftrightarrow> el_issues st = []
      \<and> (concat (map (degree_issues d st) (map fst nodes)) = []
      \<and> topological_visited (map fst nodes) (el_incoming st) (el_outgoing st) = length nodes
      \<and> (\<forall>(v, n) \<in> set nodes. v \<in> reachableNodes (doc_EntryNodeID d) (el_outgoing st)
           \<and> v \<in> reachableNodes (doc_ExitNodeID d) (el_incoming st)
           \<and> (op_Type (dn_Operation n) = ''control.branch'' \<longrightarrow>
                validateDSLBranchRoutes n (slice_at (el_outgoingEdges st) v) = [])))"
    using ne unfolding validateEdgesAndGraph_def st_def [symmetric] Let_def by (auto simp: nodes)
  then show ?thesis
    using issues rest by blast
qed

lemma boundary_issues_empty:
  "boundary_issues d nodes = [] \<longleftrightarrow>
     (\<exists>n. map_of nodes (doc_EntryNodeID d) = Some n \<and> Operation_Coordinate (dn_Operation n) = start_coordinate)
     \<and> (\<exists>n. map_of nodes (doc_ExitNodeID d) = Some n \<and> Operation_Coordinate (dn_Operation n) = end_coordinate)"
  by (auto simp: boundary_issues_def Let_def split: option.splits)

lemma binding_issues_empty:
  "binding_issues nodes node name b = [] \<longleftrightarrow> (ib_Kind b = BindingNodeOutput \<longrightarrow> (\<forall>out. ib_Output b = Some out \<longrightarrow>
     (\<exists>source t. map_of nodes (or_NodeID out) = Some source
        \<and> map_of (entries (dn_Outputs source)) (or_Name out) = Some t \<and> compatible t (ib_DataType b))))"
  by (auto simp: binding_issues_def Let_def split: InputBindingKind.splits option.splits)

lemma reference_issues_empty:
  "(\<forall>n \<in> set (doc_Nodes d). reference_issues (map (\<lambda>n. (dn_ID n, n)) (doc_Nodes d)) n = []) \<longleftrightarrow> doc_refs_ok d"
  unfolding reference_issues_def doc_refs_ok_def concat_Nil_conv node_of_def
  by (simp add: case_prod_unfold binding_issues_empty)

lemma Validate_empty:
  "Validate contract d = [] \<longleftrightarrow> doc_DSLVersion d = con_version contract \<and> wf_document d
     \<and> (\<forall>n \<in> set (doc_Nodes d). validateNode contract n = [])"
proof -
  define st where "st = fold (document_node_step contract) (doc_Nodes d)
      \<lparr>nl_issues = issue_when (doc_DSLVersion d \<noteq> con_version contract)
          (issue ''DSL_VERSION_UNSUPPORTED'' ''dsl_version is unsupported'' '''' '''' ''dsl_version''),
       nl_nodes = [], nl_startCount = 0, nl_endCount = 0\<rparr>"
  have issues: "nl_issues st = [] \<longleftrightarrow> doc_DSLVersion d = con_version contract \<and> distinct (map dn_ID (doc_Nodes d))
      \<and> (\<forall>n \<in> set (doc_Nodes d). nodeIDPattern (dn_ID n) \<and> validateNode contract n = [])"
    unfolding st_def node_loop_issues by simp
  have nodes: "nl_nodes st = map (\<lambda>n. (dn_ID n, n)) (doc_Nodes d)" if "distinct (map dn_ID (doc_Nodes d))"
    unfolding st_def using node_loop_nodes [OF that] by simp
  have counts: "nl_startCount st = length (filter (\<lambda>n. Operation_Coordinate (dn_Operation n) = start_coordinate) (doc_Nodes d))"
      "nl_endCount st = length (filter (\<lambda>n. Operation_Coordinate (dn_Operation n) = end_coordinate) (doc_Nodes d))"
    unfolding st_def node_loop_counts by simp_all
  have "Validate contract d = [] \<longleftrightarrow> nl_issues st = [] \<and> nl_startCount st = 1 \<and> nl_endCount st = 1
      \<and> boundary_issues d (nl_nodes st) = [] \<and> validateEdgesAndGraph d (nl_nodes st) = []
      \<and> (\<forall>n \<in> set (doc_Nodes d). reference_issues (nl_nodes st) n = [])"
    unfolding Validate_def st_def [symmetric] Let_def by (auto simp: concat_Nil_conv)
  also have "\<dots> \<longleftrightarrow> doc_DSLVersion d = con_version contract \<and> wf_document d
     \<and> (\<forall>n \<in> set (doc_Nodes d). validateNode contract n = [])"
  proof (cases "distinct (map dn_ID (doc_Nodes d)) \<and> doc_Nodes d \<noteq> []")
    case True
    then show ?thesis
      using graph_issues_empty [OF refl, of d]
      unfolding issues counts nodes [OF conjunct1 [OF True]] boundary_issues_empty reference_issues_empty
        wf_document_def doc_nodes_ok_def node_of_def [symmetric] by auto
  next
    case False
    then show ?thesis
      unfolding issues counts wf_document_def doc_nodes_ok_def by auto
  qed
  finally show ?thesis .
qed

end
