(* ===== verification/Document_Clone.thy ===== *)
theory Document_Clone
  imports Dsl_Model
begin

text \<open>
  \<^verbatim>\<open>cloneDocument\<close> of \<^verbatim>\<open>internal/runtime/engine/engine.go\<close>: a document is encoded with \<^verbatim>\<open>json.Marshal\<close> and
  decoded again. Encoding and decoding a string replaces each byte that is not part of a UTF-8
  sequence by the replacement character; a raw message is checked, loses its white space, and has the
  characters \<^verbatim>\<open><\<close>, \<^verbatim>\<open>>\<close>, \<^verbatim>\<open>&\<close> and the line and paragraph separators escaped; a nil raw message of a
  map becomes \<^verbatim>\<open>null\<close>; the keys of a map are written in sorted order. A raw message that is not
  valid JSON makes the encoding fail.
\<close>

fun sanitize_bytes :: "nat \<Rightarrow> string \<Rightarrow> string" where
  "sanitize_bytes 0 s = []"
| "sanitize_bytes (Suc f) s =
     (case s of
        [] \<Rightarrow> []
      | c # r \<Rightarrow>
          if of_char c < (128::nat) then c # sanitize_bytes f r
          else (let n = utf8_size (map of_char s) in
                if n = 0 then replacement_char @ sanitize_bytes f r
                else take n s @ sanitize_bytes f (drop n s)))"

definition clone_string :: "string \<Rightarrow> string" where
  "clone_string s = sanitize_bytes (length s) s"

text \<open>Copying a raw message: outside strings white space is dropped, inside strings some characters
  are escaped; the first argument tells whether the position is inside a string.\<close>

definition html_escape :: "char \<Rightarrow> string option" where
  "html_escape c =
     (if c = CHR ''<'' then Some ([CHR 0x5C] @ ''u003c'')
      else if c = CHR ''>'' then Some ([CHR 0x5C] @ ''u003e'')
      else if c = CHR ''&'' then Some ([CHR 0x5C] @ ''u0026'')
      else None)"

text \<open>One character of a string literal is copied: the bytes written and the text that is left.\<close>

definition copy_unit :: "char \<Rightarrow> string \<Rightarrow> string \<times> string" where
  "copy_unit c s =
     (if c = CHR 0x5C then (case s of [] \<Rightarrow> ([c], []) | d # r \<Rightarrow> ([c, d], r))
      else case html_escape c of
          Some e \<Rightarrow> (e, s)
        | None \<Rightarrow>
            (case s of
               a # b # r \<Rightarrow>
                 if c = CHR 0xE2 \<and> a = CHR 0x80 \<and> (b = CHR 0xA8 \<or> b = CHR 0xA9)
                 then ([CHR 0x5C] @ (if b = CHR 0xA8 then ''u2028'' else ''u2029''), r)
                 else ([c], s)
             | _ \<Rightarrow> ([c], s)))"

fun compact_bytes :: "nat \<Rightarrow> bool \<Rightarrow> string \<Rightarrow> string" where
  "compact_bytes 0 inside s = []"
| "compact_bytes (Suc f) inside s =
     (case s of
        [] \<Rightarrow> []
      | c # r \<Rightarrow>
          if \<not> inside then (if is_ws c then compact_bytes f False r else c # compact_bytes f (c = CHR 0x22) r)
          else if c = CHR 0x22 then c # compact_bytes f False r
          else (let (u, rest) = copy_unit c r in u @ compact_bytes f True rest))"

definition compact :: "raw_message \<Rightarrow> raw_message" where
  "compact raw = compact_bytes (length raw) False raw"

definition clone_raw :: "raw_message \<Rightarrow> raw_message option" where
  "clone_raw raw = (if raw = [] then Some ''null''
     else if json_valid raw then Some (compact raw) else None)"

definition clone_omitted_raw :: "raw_message \<Rightarrow> raw_message option" where
  "clone_omitted_raw raw = (if raw = [] then Some [] else clone_raw raw)"

fun clone_entries :: "('v \<Rightarrow> 'v option) \<Rightarrow> (string, 'v) gomap \<Rightarrow> (string, 'v) gomap \<Rightarrow> (string, 'v) gomap option" where
  "clone_entries f [] acc = Some acc"
| "clone_entries f ((k, v) # es) acc =
     (case f v of None \<Rightarrow> None | Some w \<Rightarrow> clone_entries f es (AList.update (clone_string k) w acc))"

definition clone_gomap :: "('v \<Rightarrow> 'v option) \<Rightarrow> (string, 'v) gomap option \<Rightarrow> (string, 'v) gomap option option" where
  "clone_gomap f m =
     (case m of
        None \<Rightarrow> Some None
      | Some es \<Rightarrow> map_option Some (clone_entries f (sort_key fst es) []))"

fun clone_type :: "DataType \<Rightarrow> DataType" where
  "clone_type (OtherType t) = OtherType (clone_string t)"
| "clone_type t = t"

fun clone_kind :: "DslNodeKind \<Rightarrow> DslNodeKind" where
  "clone_kind (OtherKind k) = OtherKind (clone_string k)"
| "clone_kind k = k"

fun clone_binding_kind :: "InputBindingKind \<Rightarrow> InputBindingKind" where
  "clone_binding_kind (OtherBinding k) = OtherBinding (clone_string k)"
| "clone_binding_kind k = k"

fun clone_activation_kind :: "ActivationKind \<Rightarrow> ActivationKind" where
  "clone_activation_kind (OtherActivation k) = OtherActivation (clone_string k)"
| "clone_activation_kind k = k"

definition clone_binding :: "InputBinding \<Rightarrow> InputBinding option" where
  "clone_binding b = map_option (\<lambda>raw. \<lparr>ib_Kind = clone_binding_kind (ib_Kind b),
       ib_DataType = clone_type (ib_DataType b), ib_Value = raw,
       ib_Output = map_option (\<lambda>r. \<lparr>or_NodeID = clone_string (or_NodeID r), or_Name = clone_string (or_Name r)\<rparr>)
         (ib_Output b)\<rparr>)
     (clone_omitted_raw (ib_Value b))"

definition clone_policy :: "ExecutionPolicy \<Rightarrow> ExecutionPolicy" where
  "clone_policy p = p\<lparr>
     ep_RetryBackoff := map_option (\<lambda>b. b\<lparr>rb_Kind := clone_string (rb_Kind b)\<rparr>) (ep_RetryBackoff p),
     ep_RetryableErrorCodes := map clone_string (ep_RetryableErrorCodes p)\<rparr>"

definition clone_node :: "Node \<Rightarrow> Node option" where
  "clone_node n =
     (case (clone_gomap clone_raw (op_Config (dn_Operation n)), clone_gomap clone_binding (dn_Inputs n),
            clone_gomap (\<lambda>t. Some (clone_type t)) (dn_Outputs n)) of
        (Some config, Some inputs, Some outputs) \<Rightarrow>
          Some \<lparr>dn_ID = clone_string (dn_ID n), dn_Kind = clone_kind (dn_Kind n),
                dn_Operation = \<lparr>op_Type = clone_string (op_Type (dn_Operation n)),
                                 op_Version = op_Version (dn_Operation n), op_Config = config\<rparr>,
                dn_Inputs = inputs, dn_Outputs = outputs, dn_ExecutionPolicy = clone_policy (dn_ExecutionPolicy n)\<rparr>
      | _ \<Rightarrow> None)"

definition clone_edge :: "Edge \<Rightarrow> Edge" where
  "clone_edge e = \<lparr>edge_ID = clone_string (edge_ID e), edge_SourceNodeID = clone_string (edge_SourceNodeID e),
     edge_TargetNodeID = clone_string (edge_TargetNodeID e),
     edge_Activation = \<lparr>act_Kind = clone_activation_kind (act_Kind (edge_Activation e)),
                        act_Route = clone_string (act_Route (edge_Activation e))\<rparr>\<rparr>"

definition cloneDocument :: "Document \<Rightarrow> Document result" where
  "cloneDocument document =
     (case those (map clone_node (doc_Nodes document)) of
        None \<Rightarrow> Inl (Errorf ''json: error calling MarshalJSON'')
      | Some nodes \<Rightarrow> Inr \<lparr>doc_DSLVersion = clone_string (doc_DSLVersion document),
          doc_EntryNodeID = clone_string (doc_EntryNodeID document),
          doc_ExitNodeID = clone_string (doc_ExitNodeID document),
          doc_Nodes = nodes, doc_Edges = map clone_edge (doc_Edges document)\<rparr>)"

end
