(* ===== verification/Engine.thy ===== *)
theory Engine
  imports Runtime_Properties Dsl_Graph Document_Clone
begin

text \<open>
  The engine that interprets a document, \<^verbatim>\<open>internal/runtime/engine/engine.go\<close>: the only owner of the
  progress of a run and its node runs. The engine's maps are association lists; nodes and attempts
  that the source mutates through pointers are written back under their key. An operation returns
  the engine it leaves behind together with its result, since an error may leave a change behind.

  The loop \<^verbatim>\<open>for\<close> of \<^verbatim>\<open>drive\<close> is the function \<open>drive\<close>, one pass over the sorted node identities is
  \<open>drive_pass\<close>, and one iteration of that pass is \<open>drive_visit\<close>. It terminates because every pass
  that reports a change moves a node out of the pending state.
\<close>

section \<open>State\<close>

definition FailureNodeFailed :: string where "FailureNodeFailed = ''NODE_FAILED''"
definition FailureNodeTimeout :: string where "FailureNodeTimeout = ''NODE_TIMEOUT''"
definition FailureRunCanceled :: string where "FailureRunCanceled = ''RUN_CANCELED''"
definition FailureRunTimedOut :: string where "FailureRunTimedOut = ''RUN_TIMED_OUT''"
definition FailureOutputContract :: string where
  "FailureOutputContract = ''RUNTIME_OUTPUT_CONTRACT_VIOLATION''"
definition FailureInputContract :: string where
  "FailureInputContract = ''RUNTIME_INPUT_CONTRACT_VIOLATION''"

record Snapshot =
  snap_ID :: string
  snap_DefinitionHash :: string
  snap_DSL :: Document

datatype EdgeState = EdgePending | EdgeActive | EdgeInactive

record Engine =
  eng_snapshot :: Snapshot
  eng_run :: WorkflowRun
  eng_doc :: Document
  eng_nodeDefs :: "(NodeID, Node) gomap"
  eng_nodes :: "(NodeID, NodeRun) gomap"
  eng_attempts :: "(string, NodeAttempt) gomap"
  eng_attemptNodes :: "(string, NodeID) gomap"
  eng_edges :: "(EdgeID, EdgeState) gomap"
  eng_incoming :: "(NodeID, Edge list) gomap"
  eng_outgoing :: "(NodeID, Edge list) gomap"

type_synonym 'a outcome = "Engine \<times> 'a result"

definition node_def :: "Engine \<Rightarrow> NodeID \<Rightarrow> Node" where
  "node_def engine nid = (case map_of (eng_nodeDefs engine) nid of None \<Rightarrow> zero_Node | Some n \<Rightarrow> n)"

definition set_node :: "Engine \<Rightarrow> NodeID \<Rightarrow> NodeRun \<Rightarrow> Engine" where
  "set_node engine nid node = engine\<lparr>eng_nodes := AList.update nid node (eng_nodes engine)\<rparr>"

definition set_attempt :: "Engine \<Rightarrow> string \<Rightarrow> NodeAttempt \<Rightarrow> Engine" where
  "set_attempt engine aid attempt = engine\<lparr>eng_attempts := AList.update aid attempt (eng_attempts engine)\<rparr>"

definition attempt_node :: "Engine \<Rightarrow> string \<Rightarrow> NodeID" where
  "attempt_node engine aid = (case map_of (eng_attemptNodes engine) aid of None \<Rightarrow> '''' | Some nid \<Rightarrow> nid)"

section \<open>Helpers\<close>

definition sortedNodeIDs :: "Engine \<Rightarrow> NodeID list" where
  "sortedNodeIDs engine = sorted_keys (eng_nodes engine)"

definition allNodeRuns :: "Engine \<Rightarrow> NodeRun list" where
  "allNodeRuns engine = List.map_filter (map_of (eng_nodes engine)) (sortedNodeIDs engine)"

definition allNodesTerminal :: "Engine \<Rightarrow> bool" where
  "allNodesTerminal engine = list_all (\<lambda>(nid, node). NodeState_Terminal (node_state node)) (eng_nodes engine)"

definition allOtherNodesTerminal :: "Engine \<Rightarrow> NodeID \<Rightarrow> bool" where
  "allOtherNodesTerminal engine except =
     list_all (\<lambda>(nid, node). nid = except \<or> NodeState_Terminal (node_state node)) (eng_nodes engine)"

definition allIncomingSettled :: "Engine \<Rightarrow> NodeID \<Rightarrow> bool" where
  "allIncomingSettled engine nid =
     list_all (\<lambda>edge. map_of (eng_edges engine) (edge_ID edge) \<noteq> Some EdgePending)
       (slice_at (eng_incoming engine) nid)"

definition anyIncomingActive :: "Engine \<Rightarrow> NodeID \<Rightarrow> bool" where
  "anyIncomingActive engine nid =
     list_ex (\<lambda>edge. map_of (eng_edges engine) (edge_ID edge) = Some EdgeActive)
       (slice_at (eng_incoming engine) nid)"

text \<open>
  The state an edge takes when its source, in the given state, is settled with the given route.
  Every caller of \<^verbatim>\<open>settleOutgoing\<close> has the source node run in hand.
\<close>

definition settled_state :: "NodeState \<Rightarrow> string \<Rightarrow> Edge \<Rightarrow> EdgeState" where
  "settled_state sourceState selectedRoute edge =
     (let activation = edge_Activation edge in
      if sourceState = NodeSucceeded
         \<and> (act_Kind activation = ActivationAlways
            \<or> act_Kind activation = ActivationRoute \<and> act_Route activation = selectedRoute)
      then EdgeActive else EdgeInactive)"

definition settleOutgoing :: "Engine \<Rightarrow> NodeID \<Rightarrow> string \<Rightarrow> Engine" where
  "settleOutgoing engine source selectedRoute =
     (case map_of (eng_nodes engine) source of
        None \<Rightarrow> engine
      | Some node \<Rightarrow> engine\<lparr>eng_edges :=
          fold (\<lambda>edge. AList.update (edge_ID edge) (settled_state (node_state node) selectedRoute edge))
            (slice_at (eng_outgoing engine) source) (eng_edges engine)\<rparr>)"

definition engine_failure ::
    "Engine \<Rightarrow> string \<Rightarrow> string \<Rightarrow> string \<Rightarrow> NodeID \<Rightarrow> string \<Rightarrow> string \<Rightarrow> bool \<Rightarrow> Failure" where
  "engine_failure engine code phase message nodeID attemptID field retryable = \<lparr>
     fail_Code = code, fail_Phase = phase, fail_Retryable = retryable,
     fail_RunID = run_id (eng_run engine), fail_SnapshotID = snap_ID (eng_snapshot engine),
     fail_DefinitionHash = snap_DefinitionHash (eng_snapshot engine),
     fail_ExecutionNodeID = nodeID, fail_DSLField = field, fail_ExecutionEdgeID = '''',
     fail_AttemptID = attemptID, fail_Expected = '''', fail_Actual = '''', fail_Message = message,
     fail_Details = None\<rparr>"

definition retryable :: "ExecutionPolicy \<Rightarrow> string \<Rightarrow> bool" where
  "retryable policy code = (code \<in> set (ep_RetryableErrorCodes policy))"

text \<open>
  A \<^verbatim>\<open>time.Duration\<close> is a signed 64-bit number of nanoseconds and its product wraps around. A
  policy without backoff is a nil pointer that is dereferenced: \<^term>\<open>None\<close>.
\<close>

definition retryDueAt :: "time \<Rightarrow> ExecutionPolicy \<Rightarrow> time option" where
  "retryDueAt ts policy = map_option (\<lambda>backoff. ts + sint (rb_DelayMS backoff * 1000000)) (ep_RetryBackoff policy)"

fun cancelReason :: "TerminationKind \<Rightarrow> string" where
  "cancelReason TerminationCanceled = FailureRunCanceled"
| "cancelReason TerminationTimedOut = FailureRunTimedOut"
| "cancelReason _ = FailureNodeFailed"

definition atOrCreated :: "time \<Rightarrow> WorkflowRun \<Rightarrow> time" where
  "atOrCreated ts run = (if \<not> IsZero ts then ts else run_createdAt run)"

fun json_type :: "json \<Rightarrow> DataType option" where
  "json_type (JString s) = Some TypeString"
| "json_type (JBool b) = Some TypeBoolean"
| "json_type (JNumber n) =
     (case rat_of_literal n of
        None \<Rightarrow> None
      | Some q \<Rightarrow> if rat_is_int q then Some TypeInteger else Some TypeNumber)"
| "json_type (JArray vs) = Some TypeArray"
| "json_type (JObject ms) = Some TypeObject"
| "json_type JNull = None"

definition rawDataType :: "raw_message \<Rightarrow> DataType option" where
  "rawDataType raw = (case parse_text raw of None \<Rightarrow> None | Some v \<Rightarrow> json_type v)"

fun validate_output_fields :: "(PortName, DataType) gomap \<Rightarrow> (string, raw_message) gomap \<Rightarrow> go_error option" where
  "validate_output_fields [] values = None"
| "validate_output_fields ((name, dataType) # ports) values =
     (case map_of values name of
        None \<Rightarrow> Some (Errorf (''required output '' @ name @ '' is missing''))
      | Some raw \<Rightarrow>
          (case rawDataType raw of
             Some actual \<Rightarrow>
               if actual = dataType \<or> (actual = TypeInteger \<and> dataType = TypeNumber)
               then validate_output_fields ports values
               else Some (Errorf (''output '' @ name @ '' has type '' @ DataType_text actual @ '', expected ''
                            @ DataType_text dataType))
           | None \<Rightarrow> Some (Errorf (''output '' @ name @ '' has type , expected '' @ DataType_text dataType))))"

definition validateOutputs :: "Node \<Rightarrow> (string, raw_message) gomap \<Rightarrow> go_error option" where
  "validateOutputs definition values =
     (if length values \<noteq> length (entries (dn_Outputs definition)) then
        Some (Errorf ''output field count does not match DSL contract'')
      else validate_output_fields (entries (dn_Outputs definition)) values)"

text \<open>
  The loop of \<^verbatim>\<open>resolveInputs\<close>: the map of resolved inputs, \<^term>\<open>None\<close> when a source has not finished,
  or an error.
\<close>

fun resolve_bindings ::
    "Engine \<Rightarrow> (PortName, InputBinding) gomap \<Rightarrow> (string, raw_message) gomap
      \<Rightarrow> (string, raw_message) gomap option result" where
  "resolve_bindings engine [] acc = Inr (Some acc)"
| "resolve_bindings engine ((name, binding) # bindings) acc =
     (case ib_Kind binding of
        BindingLiteral \<Rightarrow> resolve_bindings engine bindings (AList.update name (ib_Value binding) acc)
      | BindingNodeOutput \<Rightarrow>
          (case ib_Output binding of
             None \<Rightarrow> Inl (Errorf ''binding output is missing'')
           | Some out \<Rightarrow>
               (case map_of (eng_nodes engine) (or_NodeID out) of
                  None \<Rightarrow> Inl (Errorf ''source node is missing'')
                | Some source \<Rightarrow>
                    if node_state source \<noteq> NodeSucceeded then
                      (if NodeState_Terminal (node_state source)
                       then Inl (Errorf ''source node did not succeed'') else Inr None)
                    else case map_of (node_effectiveOutputs source) (or_Name out) of
                        None \<Rightarrow> Inl (Errorf ''effective output is missing'')
                      | Some raw \<Rightarrow> resolve_bindings engine bindings (AList.update name raw acc)))
      | OtherBinding k \<Rightarrow> Inl (Errorf ''input binding kind is unsupported''))"

definition resolveInputs :: "Engine \<Rightarrow> Node \<Rightarrow> (string, raw_message) gomap option result" where
  "resolveInputs engine definition = resolve_bindings engine (entries (dn_Inputs definition)) []"

definition raw_at :: "(string, raw_message) gomap \<Rightarrow> string \<Rightarrow> raw_message" where
  "raw_at values name = (case map_of values name of None \<Rightarrow> [] | Some raw \<Rightarrow> raw)"

text \<open>\<^verbatim>\<open>_, _ = run.RequestTermination(intent)\<close>: a refused intent leaves the run as it is.\<close>

definition request_termination :: "Engine \<Rightarrow> TerminationKind \<Rightarrow> time \<Rightarrow> Failure \<Rightarrow> Engine" where
  "request_termination engine kind ts cause =
     (case WorkflowRun_RequestTermination (eng_run engine)
             \<lparr>ti_Kind = kind, ti_RequestedAt = ts, ti_Cause = cause\<rparr> of
        Inl e \<Rightarrow> engine
      | Inr (applied, run) \<Rightarrow> engine\<lparr>eng_run := run\<rparr>)"

section \<open>Driving a run\<close>

text \<open>One node of a pass: go on (with the information whether anything changed), return an error, or
  start over.\<close>

datatype visit = Continue Engine bool | Stop Engine go_error | Redrive Engine

definition fail_pending :: "time \<Rightarrow> Engine \<Rightarrow> NodeID \<Rightarrow> NodeRun \<Rightarrow> Failure \<Rightarrow> visit" where
  "fail_pending ts engine nid node failure =
     (case (if node_kind node = NodeControl then NodeRun_FailControl node failure
            else NodeRun_FailBeforeAttempt node failure) of
        Inl e \<Rightarrow> Stop engine e
      | Inr node' \<Rightarrow>
          Redrive (request_termination (set_node engine nid node') TerminationFailed
                     (atOrCreated ts (eng_run engine)) failure))"

definition drive_branch :: "time \<Rightarrow> Engine \<Rightarrow> NodeID \<Rightarrow> NodeRun \<Rightarrow> (string, raw_message) gomap \<Rightarrow> visit" where
  "drive_branch ts engine nid node inputs =
     (case evaluateBranch (node_def engine nid) (raw_at inputs ''value'') of
        Inl branchErr \<Rightarrow>
          (let (code, field) = (case branchErr of EngineError c n f \<Rightarrow> (c, f) | _ \<Rightarrow> ('''', ''''));
               failure = engine_failure engine code ''control_evaluation'' (error_text branchErr) nid '''' field False
           in case NodeRun_FailControl node failure of
                Inl e \<Rightarrow> Stop engine e
              | Inr node' \<Rightarrow>
                  Redrive (request_termination (set_node engine nid node') TerminationFailed
                             (atOrCreated ts (eng_run engine)) failure))
      | Inr route \<Rightarrow>
          (case NodeRun_SucceedControl node route [] of
             Inl e \<Rightarrow> Stop engine e
           | Inr node' \<Rightarrow> Continue (settleOutgoing (set_node engine nid node') nid route) True))"

definition drive_end :: "Engine \<Rightarrow> NodeID \<Rightarrow> NodeRun \<Rightarrow> (string, raw_message) gomap \<Rightarrow> visit" where
  "drive_end engine nid node inputs =
     (if \<not> allOtherNodesTerminal engine nid then Continue engine False
      else case CompleteWorkflowSuccess (eng_run engine) node (allNodeRuns engine)
                  (raw_at inputs ''workflow_output'') of
          Inl e \<Rightarrow> Stop engine e
        | Inr (run, node') \<Rightarrow> Continue (set_node (engine\<lparr>eng_run := run\<rparr>) nid node') True)"

definition drive_resolved :: "time \<Rightarrow> Engine \<Rightarrow> NodeID \<Rightarrow> NodeRun \<Rightarrow> (string, raw_message) gomap \<Rightarrow> visit" where
  "drive_resolved ts engine nid node inputs =
     (let definition = node_def engine nid; operation = op_Type (dn_Operation definition) in
      if dn_Kind definition = KindTask then
        (case NodeRun_Ready node inputs of
           Inl e \<Rightarrow> Stop engine e
         | Inr node' \<Rightarrow> Continue (set_node engine nid node') True)
      else if operation = ''control.branch'' then drive_branch ts engine nid node inputs
      else if operation = ''control.end'' then drive_end engine nid node inputs
      else if operation = ''control.start'' then Stop engine (Errorf ''unexpected second start node'')
      else Stop engine (Errorf (''unsupported control operation '' @ operation)))"

definition drive_visit :: "time \<Rightarrow> Engine \<Rightarrow> NodeID \<Rightarrow> visit" where
  "drive_visit ts engine nid =
     (case map_of (eng_nodes engine) nid of
        None \<Rightarrow> Stop engine (Panic ''nil node run'')
      | Some node \<Rightarrow>
          if node_state node \<noteq> NodePending \<or> nid = doc_EntryNodeID (eng_doc engine)
             \<or> \<not> allIncomingSettled engine nid then Continue engine False
          else if \<not> anyIncomingActive engine nid then
            (case NodeRun_Skip node of
               Inl e \<Rightarrow> Stop engine e
             | Inr node' \<Rightarrow> Continue (settleOutgoing (set_node engine nid node') nid '''') True)
          else case NodeRun_Activate node of
              Inl e \<Rightarrow> Stop engine e
            | Inr node1 \<Rightarrow>
                (let engine1 = set_node engine nid node1 in
                 case resolveInputs engine1 (node_def engine1 nid) of
                   Inl e \<Rightarrow> fail_pending ts engine1 nid node1
                     (engine_failure engine1 FailureInputContract ''input_binding'' (error_text e) nid '''' ''inputs'' False)
                 | Inr None \<Rightarrow> Continue engine1 False
                 | Inr (Some inputs) \<Rightarrow> drive_resolved ts engine1 nid node1 inputs))"

fun drive_pass :: "time \<Rightarrow> NodeID list \<Rightarrow> Engine \<Rightarrow> bool \<Rightarrow> visit" where
  "drive_pass ts [] engine changed = Continue engine changed"
| "drive_pass ts (nid # ids) engine changed =
     (case drive_visit ts engine nid of
        Continue engine' c \<Rightarrow> drive_pass ts ids engine' (changed \<or> c)
      | v \<Rightarrow> v)"

text \<open>The pass of a terminating run cancels what can be canceled and skips attempts in flight.\<close>

definition attempt_in_flight :: "Engine \<Rightarrow> NodeRun \<Rightarrow> bool" where
  "attempt_in_flight engine node =
     (node_state node \<in> {NodeQueued, NodeRunning} \<and>
      (case map_of (eng_attempts engine) (node_currentAttemptID node) of
         None \<Rightarrow> False
       | Some attempt \<Rightarrow> \<not> AttemptState_Terminal (att_state attempt)))"

fun cancel_pass :: "TerminationKind \<Rightarrow> NodeID list \<Rightarrow> Engine \<Rightarrow> Engine \<times> go_error option" where
  "cancel_pass kind [] engine = (engine, None)"
| "cancel_pass kind (nid # ids) engine =
     (case map_of (eng_nodes engine) nid of
        None \<Rightarrow> (engine, Some (Panic ''nil node run''))
      | Some node \<Rightarrow>
          if NodeState_Terminal (node_state node) \<or> attempt_in_flight engine node
          then cancel_pass kind ids engine
          else case NodeRun_Cancel node (cancelReason kind) of
              Inl e \<Rightarrow> (engine, Some e)
            | Inr node' \<Rightarrow> cancel_pass kind ids (settleOutgoing (set_node engine nid node') nid ''''))"

definition drive_terminating :: "TerminationKind \<Rightarrow> Engine \<Rightarrow> Engine \<times> go_error option" where
  "drive_terminating kind engine =
     (case cancel_pass kind (sortedNodeIDs engine) engine of
        (engine', Some e) \<Rightarrow> (engine', Some e)
      | (engine', None) \<Rightarrow>
          if allNodesTerminal engine' then
            (case WorkflowRun_CompleteTermination (eng_run engine') (allNodeRuns engine') of
               Inl e \<Rightarrow> (engine', Some e)
             | Inr run \<Rightarrow> (engine'\<lparr>eng_run := run\<rparr>, None))
          else (engine', None))"

section \<open>Termination of the loop\<close>

definition pending_count :: "Engine \<Rightarrow> nat" where
  "pending_count engine = length (filter (\<lambda>(nid, node). node_state node = NodePending) (eng_nodes engine))"

lemma pending_count_set_node:
  assumes "map_of (eng_nodes engine) nid = Some node" and "node_state node = NodePending"
  shows "node_state node' = NodePending \<Longrightarrow> pending_count (set_node engine nid node') = pending_count engine"
    and "node_state node' \<noteq> NodePending \<Longrightarrow> pending_count (set_node engine nid node') < pending_count engine"
proof -
  have "map_of m nid = Some node \<Longrightarrow>
      length (filter (\<lambda>(nid, node). node_state node = NodePending) (AList.update nid node' m))
        + (if node_state node' = NodePending then 0 else 1)
      = length (filter (\<lambda>(nid, node). node_state node = NodePending) m)" for m
    using assms(2) by (induction m) auto
  then show "node_state node' = NodePending \<Longrightarrow> pending_count (set_node engine nid node') = pending_count engine"
    and "node_state node' \<noteq> NodePending \<Longrightarrow> pending_count (set_node engine nid node') < pending_count engine"
    using assms(1) by (fastforce simp: pending_count_def set_node_def)+
qed

lemma eng_nodes_settleOutgoing [simp]: "eng_nodes (settleOutgoing engine nid route) = eng_nodes engine"
  by (simp add: settleOutgoing_def split: option.split)

lemma eng_nodes_request_termination [simp]:
  "eng_nodes (request_termination engine k ts c) = eng_nodes engine"
  by (simp add: request_termination_def split: sum.split prod.split)

lemma pending_count_simps [simp]:
  "pending_count (settleOutgoing engine nid route) = pending_count engine"
  "pending_count (request_termination engine k ts c) = pending_count engine"
  "pending_count (engine\<lparr>eng_run := r\<rparr>) = pending_count engine"
  by (simp_all add: pending_count_def)

text \<open>How a visit changes the number of pending nodes.\<close>

definition visit_decreases :: "nat \<Rightarrow> visit \<Rightarrow> bool" where
  "visit_decreases n v = (case v of
     Continue engine c \<Rightarrow> (if c then pending_count engine < n else pending_count engine \<le> n)
   | Redrive engine \<Rightarrow> pending_count engine < n
   | Stop engine e \<Rightarrow> True)"

lemma set_node_map_of [simp]: "map_of (eng_nodes (set_node engine nid node)) = (map_of (eng_nodes engine))(nid \<mapsto> node)"
  by (simp add: set_node_def)

lemma op_leaves_pending:
  "NodeRun_Ready n ins = Inr n' \<Longrightarrow> node_state n' \<noteq> NodePending"
  "NodeRun_Skip n = Inr n' \<Longrightarrow> node_state n' \<noteq> NodePending"
  "NodeRun_SucceedControl n route outs = Inr n' \<Longrightarrow> node_state n' \<noteq> NodePending"
  "NodeRun_FailControl n f = Inr n' \<Longrightarrow> node_state n' \<noteq> NodePending"
  "NodeRun_FailBeforeAttempt n f = Inr n' \<Longrightarrow> node_state n' \<noteq> NodePending"
  "CompleteWorkflowSuccess r n ns out = Inr (r', n') \<Longrightarrow> node_state n' \<noteq> NodePending"
  by (auto dest: Ready_Inr Skip_Inr SucceedControl_Inr FailControl_Inr FailBeforeAttempt_Inr
      CompleteWorkflowSuccess_Inr)

lemma drive_branch_decreases:
  assumes "map_of (eng_nodes engine) nid = Some node" and "node_state node = NodePending"
  shows "visit_decreases (pending_count engine) (drive_branch ts engine nid node inputs)"
  using pending_count_set_node(2) [OF assms]
  unfolding drive_branch_def visit_decreases_def Let_def
  by (simp add: op_leaves_pending case_prod_unfold split: sum.split)

lemma drive_end_decreases:
  assumes "map_of (eng_nodes engine) nid = Some node" and "node_state node = NodePending"
  shows "visit_decreases (pending_count engine) (drive_end engine nid node inputs)"
proof -
  have "pending_count (set_node (engine\<lparr>eng_run := r\<rparr>) nid node') = pending_count (set_node engine nid node')"
    for r node'
    by (simp add: pending_count_def set_node_def)
  then show ?thesis
    using pending_count_set_node(2) [OF assms] unfolding drive_end_def visit_decreases_def
    by (simp add: op_leaves_pending split: sum.split)
qed

lemma drive_resolved_decreases:
  assumes "map_of (eng_nodes engine) nid = Some node" and "node_state node = NodePending"
  shows "visit_decreases (pending_count engine) (drive_resolved ts engine nid node inputs)"
  using drive_branch_decreases [OF assms] drive_end_decreases [OF assms] pending_count_set_node(2) [OF assms]
  unfolding drive_resolved_def Let_def by (simp add: visit_decreases_def op_leaves_pending split: sum.split)

lemma drive_visit_decreases: "visit_decreases (pending_count engine) (drive_visit ts engine nid)"
proof (cases "map_of (eng_nodes engine) nid")
  case None
  then show ?thesis
    by (simp add: drive_visit_def visit_decreases_def)
next
  case (Some node)
  show ?thesis
  proof (cases "node_state node \<noteq> NodePending \<or> nid = doc_EntryNodeID (eng_doc engine)
      \<or> \<not> allIncomingSettled engine nid \<or> \<not> anyIncomingActive engine nid")
    case True
    then show ?thesis
      using Some pending_count_set_node(2) [OF Some]
      by (auto simp: drive_visit_def visit_decreases_def split: sum.split dest!: Skip_Inr)
  next
    case False
    then have pending: "node_state node = NodePending"
      by simp
    show ?thesis
    proof (cases "NodeRun_Activate node")
      case (Inl e)
      then show ?thesis
        using Some False by (simp add: drive_visit_def visit_decreases_def)
    next
      case (Inr node1)
      then have n1: "node_state node1 = NodePending"
        using Activate_Inr pending by fastforce
      define engine1 where "engine1 = set_node engine nid node1"
      have count: "pending_count engine1 = pending_count engine"
        unfolding engine1_def by (rule pending_count_set_node(1) [OF Some pending n1])
      have look: "map_of (eng_nodes engine1) nid = Some node1"
        by (simp add: engine1_def)
      have "visit_decreases (pending_count engine1) (fail_pending ts engine1 nid node1 f)" for f
        using pending_count_set_node(2) [OF look n1]
        by (auto simp: fail_pending_def visit_decreases_def split: sum.split
            dest!: FailControl_Inr FailBeforeAttempt_Inr)
      moreover have "drive_visit ts engine nid = (case resolveInputs engine1 (node_def engine1 nid) of
                   Inl e \<Rightarrow> fail_pending ts engine1 nid node1
                     (engine_failure engine1 FailureInputContract ''input_binding'' (error_text e) nid '''' ''inputs'' False)
                 | Inr None \<Rightarrow> Continue engine1 False
                 | Inr (Some inputs) \<Rightarrow> drive_resolved ts engine1 nid node1 inputs)"
        using Some False Inr by (simp add: drive_visit_def engine1_def [symmetric] Let_def)
      ultimately show ?thesis
        using drive_resolved_decreases [OF look n1, of ts] count
        by (auto simp: visit_decreases_def [of _ "Continue _ _"] split: sum.split option.split)
    qed
  qed
qed

lemma drive_pass_decreases:
  "(if changed then pending_count engine < n else pending_count engine \<le> n) \<Longrightarrow>
     visit_decreases n (drive_pass ts ids engine changed)"
proof (induction ids arbitrary: engine changed)
  case (Cons nid ids)
  have v: "visit_decreases (pending_count engine) (drive_visit ts engine nid)"
    by (rule drive_visit_decreases)
  show ?case
  proof (cases "drive_visit ts engine nid")
    case (Continue engine' c)
    then have "if changed \<or> c then pending_count engine' < n else pending_count engine' \<le> n"
      using v Cons.prems by (auto simp: visit_decreases_def split: if_splits)
    then show ?thesis
      using Continue Cons.IH by simp
  qed (use v Cons.prems in \<open>auto simp: visit_decreases_def split: if_splits\<close>)
qed (simp add: visit_decreases_def)

lemma drive_pass_smaller:
  "drive_pass ts ids engine False = Continue engine' True \<Longrightarrow> pending_count engine' < pending_count engine"
  "drive_pass ts ids engine False = Redrive engine' \<Longrightarrow> pending_count engine' < pending_count engine"
  using drive_pass_decreases [of False engine "pending_count engine" ts ids] by (simp_all add: visit_decreases_def)

function drive :: "time \<Rightarrow> Engine \<Rightarrow> Engine \<times> go_error option" where
  "drive ts engine =
     (case run_termination (eng_run engine) of
        Some intent \<Rightarrow> drive_terminating (ti_Kind intent) engine
      | None \<Rightarrow>
          (case drive_pass ts (sortedNodeIDs engine) engine False of
             Stop engine' e \<Rightarrow> (engine', Some e)
           | Redrive engine' \<Rightarrow> drive ts engine'
           | Continue engine' changed \<Rightarrow>
               if RunState_Terminal (run_state (eng_run engine')) \<or> \<not> changed then (engine', None)
               else drive ts engine'))"
  by pat_completeness auto
termination
  by (relation "measure (\<lambda>(ts, engine). pending_count engine)") (auto dest: drive_pass_smaller)

declare drive.simps [simp del]

section \<open>Operations\<close>

definition drive_result :: "Engine \<times> go_error option \<Rightarrow> 'a \<Rightarrow> 'a outcome" where
  "drive_result r a = (case r of (engine, None) \<Rightarrow> (engine, Inr a) | (engine, Some e) \<Rightarrow> (engine, Inl e))"

definition initialize :: "Engine \<Rightarrow> unit outcome" where
  "initialize engine =
     (let entry = doc_EntryNodeID (eng_doc engine) in
      case WorkflowRun_Start (eng_run engine) (sortedNodeIDs engine) of
        Inl e \<Rightarrow> (engine, Inl e)
      | Inr run \<Rightarrow>
          (let engine1 = engine\<lparr>eng_run := run\<rparr> in
           case map_of (eng_nodes engine1) entry of
             None \<Rightarrow> (engine1, Inl (Panic ''nil start node''))
           | Some start \<Rightarrow>
               (case NodeRun_Activate start of
                  Inl e \<Rightarrow> (engine1, Inl e)
                | Inr start1 \<Rightarrow>
                    (case NodeRun_SucceedControl start1 '''' [(''workflow_input'', run_workflowInput run)] of
                       Inl e \<Rightarrow> (set_node engine1 entry start1, Inl e)
                     | Inr start2 \<Rightarrow>
                         drive_result (drive 0 (settleOutgoing (set_node engine1 entry start2) entry '''')) ()))))"

definition group_edges :: "(Edge \<Rightarrow> NodeID) \<Rightarrow> Edge list \<Rightarrow> (NodeID, Edge list) gomap" where
  "group_edges key edges =
     map (\<lambda>(nid, es). (nid, sort_key edge_ID es)) (fold (\<lambda>edge. append_at (key edge) edge) edges [])"

definition definition_kind :: "Node \<Rightarrow> NodeKind" where
  "definition_kind definition = (if dn_Kind definition = KindControl then NodeControl else NodeTask)"

fun new_node_runs :: "string \<Rightarrow> Node list \<Rightarrow> (NodeID, NodeRun) gomap \<Rightarrow> (NodeID, NodeRun) gomap result" where
  "new_node_runs runID [] acc = Inr acc"
| "new_node_runs runID (definition # definitions) acc =
     (case NewNodeRun runID (dn_ID definition) (definition_kind definition) of
        Inl e \<Rightarrow> Inl e
      | Inr node \<Rightarrow> new_node_runs runID definitions (AList.update (dn_ID definition) node acc))"

text \<open>The engine before \<^verbatim>\<open>initialize\<close>, from the cloned document, the new run and the node runs.\<close>

definition fresh_engine :: "Snapshot \<Rightarrow> WorkflowRun \<Rightarrow> (NodeID, NodeRun) gomap \<Rightarrow> Engine" where
  "fresh_engine snapshot run nodes =
     (let document = snap_DSL snapshot in
      \<lparr>eng_snapshot = snapshot, eng_run = run, eng_doc = document,
       eng_nodeDefs = fold (\<lambda>definition. AList.update (dn_ID definition) definition) (doc_Nodes document) [],
       eng_nodes = nodes, eng_attempts = [], eng_attemptNodes = [],
       eng_edges = fold (\<lambda>edge. AList.update (edge_ID edge) EdgePending) (doc_Edges document) [],
       eng_incoming = group_edges edge_TargetNodeID (doc_Edges document),
       eng_outgoing = group_edges edge_SourceNodeID (doc_Edges document)\<rparr>)"

definition New :: "Contract \<Rightarrow> CompatibilityChecker \<Rightarrow> Snapshot \<Rightarrow> CreateRunCommand \<Rightarrow> Engine result" where
  "New contract compatibility snapshot command =
     (if snap_ID snapshot = '''' \<or> snap_DefinitionHash snapshot = ''''
         \<or> dr_SnapshotID (cmd_Definition command) \<noteq> snap_ID snapshot
         \<or> dr_DefinitionHash (cmd_Definition command) \<noteq> snap_DefinitionHash snapshot then
        Inl (EngineError ''RUNTIME_SNAPSHOT_BINDING_INVALID'' '''' '''')
      else case cloneDocument (snap_DSL snapshot) of
          Inl e \<Rightarrow> Inl (EngineError ''RUNTIME_DSL_INVALID'' '''' '''')
        | Inr document \<Rightarrow>
     (let snapshot1 = snapshot\<lparr>snap_DSL := document\<rparr> in
      case CheckAll compatibility document of
        i # _ \<Rightarrow> Inl (EngineError (issue_Code i) (issue_NodeID i) (issue_Field i))
      | [] \<Rightarrow>
     (case Validate contract document of
        i # _ \<Rightarrow> Inl (EngineError ''RUNTIME_DSL_INVALID'' (issue_NodeID i) (issue_Field i))
      | [] \<Rightarrow>
     (case NewWorkflowRun command of
        Inl e \<Rightarrow> Inl e
      | Inr run \<Rightarrow>
     (case new_node_runs (cmd_RunID command) (doc_Nodes document) [] of
        Inl e \<Rightarrow> Inl e
      | Inr nodes \<Rightarrow>
          (case initialize (fresh_engine snapshot1 run nodes) of
             (engine, Inl e) \<Rightarrow> Inl e
           | (engine, Inr u) \<Rightarrow> Inr engine))))))"

definition NewBuiltinV1 :: "(string \<Rightarrow> py_Stmt list option) \<Rightarrow> Snapshot \<Rightarrow> CreateRunCommand \<Rightarrow> Engine result" where
  "NewBuiltinV1 ParseFile snapshot command =
     New (BuiltinV1Contract ParseFile) BuiltinV1Compatibility snapshot command"

definition ReadyNodeIDs :: "Engine \<Rightarrow> NodeID list" where
  "ReadyNodeIDs engine =
     (if run_termination (eng_run engine) \<noteq> None then []
      else sort (map fst (filter (\<lambda>(nid, node). node_state node = NodeReady) (eng_nodes engine))))"

definition QueueNode :: "NodeID \<Rightarrow> string \<Rightarrow> Engine \<Rightarrow> NodeAttempt outcome" where
  "QueueNode nodeID attemptID engine =
     (if run_termination (eng_run engine) \<noteq> None then (engine, Inl (Errorf ''run is terminating''))
      else if map_of (eng_attempts engine) attemptID \<noteq> None then
        (engine, Inl (Errorf ''attempt id already exists''))
      else case map_of (eng_nodes engine) nodeID of
          None \<Rightarrow> (engine, Inl (Errorf ''node does not exist''))
        | Some node \<Rightarrow>
            (case NodeRun_QueueAttempt node attemptID of
               Inl e \<Rightarrow> (engine, Inl e)
             | Inr (sequence, kind, node') \<Rightarrow>
                 (let engine1 = set_node engine nodeID node' in
                  case NewNodeAttempt attemptID (node_runID node' @ '':'' @ node_executionNodeID node') sequence kind of
                    Inl e \<Rightarrow> (engine1, Inl e)
                  | Inr attempt \<Rightarrow>
                      ((set_attempt engine1 attemptID attempt)\<lparr>eng_attemptNodes :=
                          AList.update attemptID nodeID (eng_attemptNodes engine1)\<rparr>, Inr attempt))))"

definition StartAttempt :: "string \<Rightarrow> Engine \<Rightarrow> unit outcome" where
  "StartAttempt attemptID engine =
     (case map_of (eng_attempts engine) attemptID of
        None \<Rightarrow> (engine, Inl (Errorf ''attempt does not exist''))
      | Some attempt \<Rightarrow>
          if att_state attempt = AttemptRunning then (engine, Inr ())
          else case NodeAttempt_Start attempt of
              Inl e \<Rightarrow> (engine, Inl e)
            | Inr attempt' \<Rightarrow>
                (let engine1 = set_attempt engine attemptID attempt'; nid = attempt_node engine attemptID in
                 case map_of (eng_nodes engine1) nid of
                   None \<Rightarrow> (engine1, Inl (Panic ''nil node run''))
                 | Some node \<Rightarrow>
                     (case NodeRun_AttemptStarted node attemptID of
                        Inl e \<Rightarrow> (engine1, Inl e)
                      | Inr node' \<Rightarrow> (set_node engine1 nid node', Inr ()))))"

definition RecordAttemptResult :: "string \<Rightarrow> AttemptResult \<Rightarrow> Engine \<Rightarrow> bool outcome" where
  "RecordAttemptResult attemptID result engine =
     (case map_of (eng_attempts engine) attemptID of
        None \<Rightarrow> (engine, Inl (Errorf ''attempt does not exist''))
      | Some attempt \<Rightarrow>
          (case map_of (eng_nodes engine) (attempt_node engine attemptID) of
             None \<Rightarrow> (engine, Inl (Errorf ''attempt node does not exist''))
           | Some node \<Rightarrow>
               if node_currentAttemptID node \<noteq> attemptID then (engine, Inr False)
               else case att_result attempt of
                   Some recorded \<Rightarrow>
                     if AttemptResult_Equal recorded result then (engine, Inr False)
                     else (engine, Inl (Errorf ''attempt result conflicts with recorded terminal fact''))
                 | None \<Rightarrow>
                     (case NodeAttempt_Complete attempt result of
                        Inl e \<Rightarrow> (engine, Inl e)
                      | Inr attempt' \<Rightarrow> (set_attempt engine attemptID attempt', Inr True))))"

text \<open>\<open>nid\<close> is the key under which the node run is stored.\<close>

definition acceptSuccess ::
    "Engine \<Rightarrow> NodeID \<Rightarrow> NodeRun \<Rightarrow> Node \<Rightarrow> string \<Rightarrow> (string, raw_message) gomap \<Rightarrow> Engine result" where
  "acceptSuccess engine nid node definition attemptID outputs =
     (case validateOutputs definition outputs of
        Some e \<Rightarrow> Inl e
      | None \<Rightarrow>
          (case NodeRun_SucceedAttempt node attemptID outputs of
             Inl e \<Rightarrow> Inl e
           | Inr node' \<Rightarrow> Inr (settleOutgoing (set_node engine nid node') (dn_ID definition) '''')))"

definition fail_run :: "time \<Rightarrow> Engine \<Rightarrow> NodeID \<Rightarrow> NodeRun result \<Rightarrow> Failure \<Rightarrow> unit outcome" where
  "fail_run ts engine nid transitioned failure =
     (case transitioned of
        Inl e \<Rightarrow> (engine, Inl e)
      | Inr node' \<Rightarrow>
          drive_result (drive ts (request_termination (set_node engine nid node') TerminationFailed ts failure)) ())"

definition retry_wait :: "time \<Rightarrow> Engine \<Rightarrow> NodeID \<Rightarrow> NodeRun \<Rightarrow> string \<Rightarrow> RetryKind \<Rightarrow> ExecutionPolicy \<Rightarrow> unit outcome" where
  "retry_wait ts engine nid node attemptID kind policy =
     (case retryDueAt ts policy of
        None \<Rightarrow> (engine, Inl (Panic ''nil retry backoff''))
      | Some due \<Rightarrow>
          (case NodeRun_RetryWait node attemptID kind due of
             Inl e \<Rightarrow> (engine, Inl e)
           | Inr node' \<Rightarrow> (set_node engine nid node', Inr ())))"

definition attempt_failure :: "Engine \<Rightarrow> NodeRun \<Rightarrow> string \<Rightarrow> string \<Rightarrow> AttemptResult \<Rightarrow> Failure" where
  "attempt_failure engine node attemptID code result =
     (engine_failure engine code ''node_execution'' (res_Message result) (node_executionNodeID node) attemptID
        (res_DSLField result) False)\<lparr>fail_Details := res_ErrorDetails result\<rparr>"

text \<open>The completion of an attempt of a run that is terminating, and of one that is not.\<close>

definition complete_terminating ::
    "time \<Rightarrow> Engine \<Rightarrow> NodeID \<Rightarrow> NodeRun \<Rightarrow> string \<Rightarrow> AttemptResult \<Rightarrow> TerminationKind \<Rightarrow> unit outcome" where
  "complete_terminating ts engine nid node attemptID result kind =
     (case (if res_State result = AttemptSucceeded then
              acceptSuccess engine nid node (node_def engine (node_executionNodeID node)) attemptID (res_Outputs result)
            else Inl (Errorf ''not succeeded'')) of
        Inr engine' \<Rightarrow> drive_result (drive ts engine') ()
      | Inl e \<Rightarrow>
          (case NodeRun_Cancel node (cancelReason kind) of
             Inl e' \<Rightarrow> (engine, Inl e')
           | Inr node' \<Rightarrow> drive_result (drive ts (set_node engine nid node')) ()))"

definition complete_running ::
    "time \<Rightarrow> Engine \<Rightarrow> NodeID \<Rightarrow> NodeRun \<Rightarrow> string \<Rightarrow> AttemptResult \<Rightarrow> unit outcome" where
  "complete_running ts engine nid node attemptID result =
     (let definition = node_def engine (node_executionNodeID node); policy = dn_ExecutionPolicy definition in
      case res_State result of
        AttemptSucceeded \<Rightarrow>
          (case acceptSuccess engine nid node definition attemptID (res_Outputs result) of
             Inr engine' \<Rightarrow> drive_result (drive ts engine') ()
           | Inl e \<Rightarrow>
               (let failure = engine_failure engine FailureOutputContract ''output_binding'' (error_text e)
                      (node_executionNodeID node) attemptID ''outputs'' False
                in fail_run ts engine nid (NodeRun_FailAttempt node attemptID NodeFailed failure) failure))
      | AttemptLost \<Rightarrow>
          if node_recoveryCount node < ep_MaxRecoveries policy then
            retry_wait ts engine nid node attemptID AttemptRecovery policy
          else
            (let failure = attempt_failure engine node attemptID (res_ErrorCode result) result
             in fail_run ts engine nid (NodeRun_FailAttempt node attemptID NodeFailed failure) failure)
      | AttemptCanceled \<Rightarrow>
          (let failure = attempt_failure engine node attemptID (res_ErrorCode result) result
           in fail_run ts engine nid (NodeRun_Cancel node FailureNodeFailed) failure)
      | _ \<Rightarrow>
          if res_State result = AttemptFailed \<or> res_State result = AttemptTimedOut then
            (if retryable policy (res_ErrorCode result) \<and> node_businessAttemptCount node < ep_MaxAttempts policy then
               retry_wait ts engine nid node attemptID AttemptBusiness policy
             else
               (let code = (if res_State result = AttemptTimedOut \<and> res_ErrorCode result = ''''
                            then FailureNodeTimeout else res_ErrorCode result);
                    failure = attempt_failure engine node attemptID code result;
                    target = (if res_State result = AttemptTimedOut then NodeTimedOut else NodeFailed)
                in fail_run ts engine nid (NodeRun_FailAttempt node attemptID target failure) failure))
          else (engine, Inl (Errorf ''attempt result state is unsupported'')))"

definition HandleAttemptCompleted :: "string \<Rightarrow> time \<Rightarrow> Engine \<Rightarrow> unit outcome" where
  "HandleAttemptCompleted attemptID ts engine =
     (case map_of (eng_attempts engine) attemptID of
        None \<Rightarrow> (engine, Inl (Errorf ''attempt does not exist''))
      | Some attempt \<Rightarrow>
          if IsZero ts then (engine, Inl (Errorf ''completion timestamp is required''))
          else if Before ts (run_createdAt (eng_run engine)) then
            (engine, Inl (Errorf ''completion timestamp cannot predate the run''))
          else case att_result attempt of
              None \<Rightarrow> (engine, Inl (Errorf ''attempt result has not been recorded''))
            | Some result \<Rightarrow>
                (let nid = attempt_node engine attemptID in
                 case map_of (eng_nodes engine) nid of
                   None \<Rightarrow> (engine, Inl (Errorf ''attempt node does not exist''))
                 | Some node \<Rightarrow>
                     if node_currentAttemptID node \<noteq> attemptID then (engine, Inr ())
                     else if NodeState_Terminal (node_state node) \<or> node_state node = NodeRetryWait
                             \<or> node_state node = NodeReady then (engine, Inr ())
                     else case run_termination (eng_run engine) of
                         Some intent \<Rightarrow>
                           complete_terminating ts engine nid node attemptID result (ti_Kind intent)
                       | None \<Rightarrow> complete_running ts engine nid node attemptID result))"

definition Engine_RetryDue :: "NodeID \<Rightarrow> time \<Rightarrow> Engine \<Rightarrow> unit outcome" where
  "Engine_RetryDue nodeID ts engine =
     (if run_termination (eng_run engine) \<noteq> None then drive_result (drive ts engine) ()
      else case map_of (eng_nodes engine) nodeID of
          None \<Rightarrow> (engine, Inl (Errorf ''node does not exist''))
        | Some node \<Rightarrow>
            if node_state node \<noteq> NodeRetryWait then (engine, Inr ())
            else case NodeRun_RetryDue node ts of
                Inl e \<Rightarrow> (engine, Inl e)
              | Inr (due, node') \<Rightarrow> (set_node engine nodeID node', Inr ()))"

definition request_and_drive :: "TerminationKind \<Rightarrow> Failure \<Rightarrow> time \<Rightarrow> Engine \<Rightarrow> bool outcome" where
  "request_and_drive kind cause ts engine =
     (case WorkflowRun_RequestTermination (eng_run engine)
             \<lparr>ti_Kind = kind, ti_RequestedAt = ts, ti_Cause = cause\<rparr> of
        Inl e \<Rightarrow> (engine, Inl e)
      | Inr (applied, run) \<Rightarrow> drive_result (drive ts (engine\<lparr>eng_run := run\<rparr>)) applied)"

definition RequestCancel :: "time \<Rightarrow> string \<Rightarrow> Engine \<Rightarrow> bool outcome" where
  "RequestCancel ts cause engine =
     (if RunState_Terminal (run_state (eng_run engine)) then (engine, Inr False)
      else request_and_drive TerminationCanceled
             (engine_failure engine FailureRunCanceled ''run_control'' cause '''' '''' '''' False) ts engine)"

definition DeadlineReached :: "time \<Rightarrow> Engine \<Rightarrow> bool outcome" where
  "DeadlineReached ts engine =
     (if RunState_Terminal (run_state (eng_run engine)) then (engine, Inr False)
      else if Before ts (run_deadlineAt (eng_run engine)) then (engine, Inr False)
      else request_and_drive TerminationTimedOut
             (engine_failure engine FailureRunTimedOut ''run_deadline'' ''workflow deadline reached''
                '''' '''' '''' False) ts engine)"

definition CancelAttempt :: "string \<Rightarrow> time \<Rightarrow> Engine \<Rightarrow> unit outcome" where
  "CancelAttempt attemptID ts engine =
     (case RecordAttemptResult attemptID
             \<lparr>res_State = AttemptCanceled, res_Outputs = [], res_ErrorCode = ''ATTEMPT_CANCELED'',
              res_Message = ''attempt cancellation acknowledged'', res_DSLField = '''', res_ErrorDetails = None\<rparr>
             engine of
        (engine', Inl e) \<Rightarrow> (engine', Inl e)
      | (engine', Inr accepted) \<Rightarrow> HandleAttemptCompleted attemptID ts engine')"

end
