(* ===== verification/Engine_Steps.thy ===== *)
theory Engine_Steps
  imports Engine
begin

text \<open>
  The elementary transitions of an engine. Every operation of \<^verbatim>\<open>engine.go\<close> is a sequence of the steps
  of the relation \<open>advance\<close>: each changes one node run along its own operations, together with the
  edges, the attempt or the run that the code changes with it. The invariants of the next theories
  are proved once per step.
\<close>

section \<open>What never changes\<close>

definition static :: "Engine \<Rightarrow> Snapshot \<times> Document \<times> (NodeID, Node) gomap \<times> (NodeID, Edge list) gomap
    \<times> (NodeID, Edge list) gomap" where
  "static e = (eng_snapshot e, eng_doc e, eng_nodeDefs e, eng_incoming e, eng_outgoing e)"

lemma set_node_simps [simp]:
  "eng_snapshot (set_node e i n) = eng_snapshot e" "eng_run (set_node e i n) = eng_run e"
  "eng_doc (set_node e i n) = eng_doc e" "eng_nodeDefs (set_node e i n) = eng_nodeDefs e"
  "eng_attempts (set_node e i n) = eng_attempts e" "eng_attemptNodes (set_node e i n) = eng_attemptNodes e"
  "eng_edges (set_node e i n) = eng_edges e" "eng_incoming (set_node e i n) = eng_incoming e"
  "eng_outgoing (set_node e i n) = eng_outgoing e"
  by (simp_all add: set_node_def)

lemma set_attempt_simps [simp]:
  "eng_snapshot (set_attempt e i a) = eng_snapshot e" "eng_run (set_attempt e i a) = eng_run e"
  "eng_doc (set_attempt e i a) = eng_doc e" "eng_nodeDefs (set_attempt e i a) = eng_nodeDefs e"
  "eng_nodes (set_attempt e i a) = eng_nodes e" "eng_attemptNodes (set_attempt e i a) = eng_attemptNodes e"
  "eng_edges (set_attempt e i a) = eng_edges e" "eng_incoming (set_attempt e i a) = eng_incoming e"
  "eng_outgoing (set_attempt e i a) = eng_outgoing e"
  "map_of (eng_attempts (set_attempt e i a)) = (map_of (eng_attempts e))(i \<mapsto> a)"
  by (simp_all add: set_attempt_def)

lemma settleOutgoing_simps [simp]:
  "eng_snapshot (settleOutgoing e i r) = eng_snapshot e" "eng_run (settleOutgoing e i r) = eng_run e"
  "eng_doc (settleOutgoing e i r) = eng_doc e" "eng_nodeDefs (settleOutgoing e i r) = eng_nodeDefs e"
  "eng_attempts (settleOutgoing e i r) = eng_attempts e"
  "eng_attemptNodes (settleOutgoing e i r) = eng_attemptNodes e"
  "eng_incoming (settleOutgoing e i r) = eng_incoming e" "eng_outgoing (settleOutgoing e i r) = eng_outgoing e"
  by (simp_all add: settleOutgoing_def split: option.split)

lemma node_def_static: "static e' = static e \<Longrightarrow> node_def e' = node_def e"
  by (auto simp: static_def node_def_def fun_eq_iff)

section \<open>Steps\<close>

text \<open>A pending node that is due: the run is not terminating, and every incoming edge is settled.\<close>

definition due_node :: "Engine \<Rightarrow> NodeID \<Rightarrow> NodeRun \<Rightarrow> bool" where
  "due_node e nid n \<longleftrightarrow> run_termination (eng_run e) = None \<and> map_of (eng_nodes e) nid = Some n
     \<and> node_state n = NodePending \<and> nid \<noteq> doc_EntryNodeID (eng_doc e) \<and> allIncomingSettled e nid"

text \<open>A node run whose current attempt has a recorded result.\<close>

definition completed_node :: "Engine \<Rightarrow> NodeID \<Rightarrow> NodeRun \<Rightarrow> string \<Rightarrow> AttemptResult \<Rightarrow> bool" where
  "completed_node e nid n aid res \<longleftrightarrow> map_of (eng_nodes e) nid = Some n \<and> node_currentAttemptID n = aid
     \<and> map_of (eng_attemptNodes e) aid = Some nid
     \<and> (\<exists>a. map_of (eng_attempts e) aid = Some a \<and> att_result a = Some res)"

definition requested :: "Engine \<Rightarrow> TerminationKind \<Rightarrow> WorkflowRun \<Rightarrow> bool" where
  "requested e kind run' \<longleftrightarrow> (\<exists>i. WorkflowRun_RequestTermination (eng_run e) i = Inr (True, run') \<and> ti_Kind i = kind)"

inductive advance :: "Engine \<Rightarrow> Engine \<Rightarrow> bool" where
  adv_skip: "due_node e nid n \<Longrightarrow> \<not> anyIncomingActive e nid \<Longrightarrow> NodeRun_Skip n = Inr n' \<Longrightarrow>
    advance e (settleOutgoing (set_node e nid n') nid '''')"
| adv_activate: "due_node e nid n \<Longrightarrow> anyIncomingActive e nid \<Longrightarrow> NodeRun_Activate n = Inr n' \<Longrightarrow>
    \<not> node_activated n \<Longrightarrow> advance e (set_node e nid n')"
| adv_ready: "due_node e nid n \<Longrightarrow> anyIncomingActive e nid \<Longrightarrow> dn_Kind (node_def e nid) = KindTask \<Longrightarrow>
    resolveInputs e (node_def e nid) = Inr (Some inputs) \<Longrightarrow> NodeRun_Ready n inputs = Inr n' \<Longrightarrow>
    advance e (set_node e nid n')"
| adv_fail: "due_node e nid n \<Longrightarrow> NodeRun_FailControl n f = Inr n' \<or> NodeRun_FailBeforeAttempt n f = Inr n' \<Longrightarrow>
    requested e TerminationFailed run' \<Longrightarrow>
    fail_Phase f = ''input_binding'' \<longrightarrow> anyIncomingActive e nid \<and> isl (resolveInputs e (node_def e nid)) \<Longrightarrow>
    advance e ((set_node e nid n')\<lparr>eng_run := run'\<rparr>)"
| adv_branch: "due_node e nid n \<Longrightarrow> anyIncomingActive e nid \<Longrightarrow>
    op_Type (dn_Operation (node_def e nid)) = ''control.branch'' \<Longrightarrow>
    resolveInputs e (node_def e nid) = Inr (Some inputs) \<Longrightarrow>
    evaluateBranch (node_def e nid) (raw_at inputs ''value'') = Inr route \<Longrightarrow>
    NodeRun_SucceedControl n route [] = Inr n' \<Longrightarrow>
    advance e (settleOutgoing (set_node e nid n') nid route)"
| adv_end: "due_node e nid n \<Longrightarrow> anyIncomingActive e nid \<Longrightarrow>
    op_Type (dn_Operation (node_def e nid)) = ''control.end'' \<Longrightarrow> allOtherNodesTerminal e nid \<Longrightarrow>
    resolveInputs e (node_def e nid) = Inr (Some inputs) \<Longrightarrow>
    CompleteWorkflowSuccess (eng_run e) n (allNodeRuns e) (raw_at inputs ''workflow_output'') = Inr (run', n') \<Longrightarrow>
    advance e (set_node (e\<lparr>eng_run := run'\<rparr>) nid n')"
| adv_cancel: "run_termination (eng_run e) = Some intent \<Longrightarrow> map_of (eng_nodes e) nid = Some n \<Longrightarrow>
    \<not> attempt_in_flight e n \<Longrightarrow> NodeRun_Cancel n (cancelReason (ti_Kind intent)) = Inr n' \<Longrightarrow>
    advance e (settleOutgoing (set_node e nid n') nid '''')"
| adv_finish: "run_termination (eng_run e) = Some intent \<Longrightarrow> allNodesTerminal e \<Longrightarrow>
    WorkflowRun_CompleteTermination (eng_run e) (allNodeRuns e) = Inr run' \<Longrightarrow> advance e (e\<lparr>eng_run := run'\<rparr>)"
| adv_queue: "run_termination (eng_run e) = None \<Longrightarrow> map_of (eng_attempts e) aid = None \<Longrightarrow>
    map_of (eng_nodes e) nid = Some n \<Longrightarrow> NodeRun_QueueAttempt n aid = Inr (sq, kind, n') \<Longrightarrow>
    NewNodeAttempt aid (node_runID n @ '':'' @ node_executionNodeID n) sq kind = Inr a \<Longrightarrow>
    advance e ((set_attempt (set_node e nid n') aid a)\<lparr>eng_attemptNodes :=
      AList.update aid nid (eng_attemptNodes e)\<rparr>)"
| adv_start: "map_of (eng_attempts e) aid = Some a \<Longrightarrow> map_of (eng_attemptNodes e) aid = Some nid \<Longrightarrow>
    map_of (eng_nodes e) nid = Some n \<Longrightarrow> NodeAttempt_Start a = Inr a' \<Longrightarrow>
    NodeRun_AttemptStarted n aid = Inr n' \<Longrightarrow> advance e (set_node (set_attempt e aid a') nid n')"
| adv_record: "map_of (eng_attempts e) aid = Some a \<Longrightarrow> map_of (eng_attemptNodes e) aid = Some nid \<Longrightarrow>
    map_of (eng_nodes e) nid = Some n \<Longrightarrow> node_currentAttemptID n = aid \<Longrightarrow> att_result a = None \<Longrightarrow>
    NodeAttempt_Complete a res = Inr a' \<Longrightarrow> advance e (set_attempt e aid a')"
| adv_accept: "completed_node e nid n aid res \<Longrightarrow> res_State res = AttemptSucceeded \<Longrightarrow>
    validateOutputs (node_def e nid) (res_Outputs res) = None \<Longrightarrow>
    NodeRun_SucceedAttempt n aid (res_Outputs res) = Inr n' \<Longrightarrow>
    advance e (settleOutgoing (set_node e nid n') nid '''')"
| adv_cancel_completed: "completed_node e nid n aid res \<Longrightarrow> run_termination (eng_run e) = Some intent \<Longrightarrow>
    NodeRun_Cancel n (cancelReason (ti_Kind intent)) = Inr n' \<Longrightarrow> advance e (set_node e nid n')"
| adv_retry: "completed_node e nid n aid res \<Longrightarrow> run_termination (eng_run e) = None \<Longrightarrow>
    (if kind = AttemptRecovery then node_recoveryCount n < ep_MaxRecoveries (dn_ExecutionPolicy (node_def e nid))
     else node_businessAttemptCount n < ep_MaxAttempts (dn_ExecutionPolicy (node_def e nid))) \<Longrightarrow>
    NodeRun_RetryWait n aid kind due = Inr n' \<Longrightarrow> advance e (set_node e nid n')"
| adv_due: "run_termination (eng_run e) = None \<Longrightarrow> map_of (eng_nodes e) nid = Some n \<Longrightarrow>
    NodeRun_RetryDue n ts = Inr (True, n') \<Longrightarrow> advance e (set_node e nid n')"
| adv_fail_completed: "completed_node e nid n aid res \<Longrightarrow> run_termination (eng_run e) = None \<Longrightarrow>
    (NodeRun_FailAttempt n aid target f = Inr n' \<and> node_state n \<noteq> NodePending)
      \<or> NodeRun_Cancel n FailureNodeFailed = Inr n' \<Longrightarrow>
    requested e TerminationFailed run' \<Longrightarrow> fail_Phase f \<noteq> ''input_binding'' \<Longrightarrow>
    advance e ((set_node e nid n')\<lparr>eng_run := run'\<rparr>)"
| adv_terminate: "requested e kind run' \<Longrightarrow> kind \<noteq> TerminationFailed \<Longrightarrow> advance e (e\<lparr>eng_run := run'\<rparr>)"

lemma advance_static: "advance e e' \<Longrightarrow> static e' = static e"
  by (induction rule: advance.induct) (simp_all add: static_def)

text \<open>
  How the parts change: a node run moves along its own operations or stays, so does the run and so
  does every attempt; at most one attempt is new.
\<close>

lemma advance_node:
  "advance e e' \<Longrightarrow> map_of (eng_nodes e') i = Some n' \<Longrightarrow>
     map_of (eng_nodes e) i = Some n' \<or> (\<exists>n. map_of (eng_nodes e) i = Some n \<and> node_step n n')"
  by (induction rule: advance.induct)
    (auto simp: due_node_def completed_node_def split: if_splits intro: node_step.intros)

lemma advance_keys: "advance e e' \<Longrightarrow> map fst (eng_nodes e') = map fst (eng_nodes e)"
  by (induction rule: advance.induct) (auto simp: set_node_def due_node_def completed_node_def set_attempt_def)

lemma advance_run: "advance e e' \<Longrightarrow> eng_run e' = eng_run e \<or> run_step (eng_run e) (eng_run e')"
  by (induction rule: advance.induct) (auto simp: requested_def intro: run_step.intros)

lemma advance_attempt:
  "advance e e' \<Longrightarrow> map_of (eng_attempts e') i = Some a' \<Longrightarrow>
     map_of (eng_attempts e) i = Some a' \<or> (\<exists>a. map_of (eng_attempts e) i = Some a \<and> attempt_step a a')
     \<or> (map_of (eng_attempts e) i = None \<and> att_id a' = i \<and> attempt_wf a' \<and> att_state a' = AttemptQueued
         \<and> att_stateVersion a' = 1)"
proof (induction rule: advance.induct)
  case (adv_queue e aid nid n sq kind n' a)
  then show ?case
    using NewNodeAttempt_wf [OF adv_queue(5)] by (auto simp: NewNodeAttempt_def split: if_splits)
next
  case (adv_record e aid a nid n res a')
  show ?case
  proof (cases "i = aid \<and> \<not> AttemptState_Terminal (att_state a)")
    case True
    then have "attempt_step a a'"
      using adv_record(6) by (auto intro: as_complete)
    then show ?thesis
      using True adv_record(1,7) by simp
  next
    case False
    then show ?thesis
      using adv_record(1,5,6,7) Complete_Inr [OF adv_record(6)] by (auto split: if_splits)
  qed
qed (auto split: if_splits intro: as_start)

end
