(* ===== verification/Engine_Invariant.thy ===== *)
theory Engine_Invariant
  imports Engine_Steps
begin

text \<open>
  The invariant of an engine and its preservation by every elementary step: identities, the
  well-formedness of runs, nodes and attempts, the agreement of a node run with its current
  attempt, the edges as a projection of their source's state, the retry budgets, and how the run's
  state limits the states of its nodes.
\<close>

section \<open>The invariant\<close>

definition control_type :: "string \<Rightarrow> bool" where
  "control_type ty \<longleftrightarrow> ty \<in> {''control.start'', ''control.end'', ''control.branch''}"

definition static_ok :: "Engine \<Rightarrow> bool" where
  "static_ok e \<longleftrightarrow> wf_document (eng_doc e)
     \<and> eng_nodeDefs e = map (\<lambda>n. (dn_ID n, n)) (doc_Nodes (eng_doc e))
     \<and> (\<forall>v. slice_at (eng_incoming e) v
          = sort_key edge_ID (filter (\<lambda>d. edge_TargetNodeID d = v) (doc_Edges (eng_doc e))))
     \<and> (\<forall>v. slice_at (eng_outgoing e) v
          = sort_key edge_ID (filter (\<lambda>d. edge_SourceNodeID d = v) (doc_Edges (eng_doc e))))
     \<and> (\<forall>n \<in> set (doc_Nodes (eng_doc e)).
          (op_Type (dn_Operation n) = ''control.end'' \<longrightarrow> dn_ID n = doc_ExitNodeID (eng_doc e))
          \<and> (op_Type (dn_Operation n) = ''control.start'' \<longrightarrow> dn_ID n = doc_EntryNodeID (eng_doc e))
          \<and> dn_Kind n = (if control_type (op_Type (dn_Operation n)) then KindControl else KindTask)
          \<and> (dn_Kind n \<noteq> KindControl \<longrightarrow> ep_MaxAttempts (dn_ExecutionPolicy n) \<noteq> 0
               \<and> ep_RetryBackoff (dn_ExecutionPolicy n) \<noteq> None)
          \<and> unat (ep_MaxAttempts (dn_ExecutionPolicy n)) + unat (ep_MaxRecoveries (dn_ExecutionPolicy n)) < 2 ^ 32)"

definition node_ok :: "Engine \<Rightarrow> NodeID \<Rightarrow> NodeRun \<Rightarrow> bool" where
  "node_ok e nid n \<longleftrightarrow> node_wf n \<and> node_counted n \<and> node_runID n = run_id (eng_run e)
     \<and> node_executionNodeID n = nid \<and> node_kind n = definition_kind (node_def e nid)
     \<and> (node_state n \<noteq> NodeSucceeded \<longrightarrow> node_selectedRoute n = '''')"

definition nodes_ok :: "Engine \<Rightarrow> bool" where
  "nodes_ok e \<longleftrightarrow> distinct (map fst (eng_nodes e)) \<and> fst ` set (eng_nodes e) = doc_ids (eng_doc e)
     \<and> (\<forall>nid n. map_of (eng_nodes e) nid = Some n \<longrightarrow> node_ok e nid n)"

definition run_ok :: "Engine \<Rightarrow> bool" where
  "run_ok e \<longleftrightarrow> run_wf (eng_run e) \<and> run_state (eng_run e) \<noteq> RunPending
     \<and> run_executionNodeIDs (eng_run e) = doc_ids (eng_doc e)"

definition attempts_ok :: "Engine \<Rightarrow> bool" where
  "attempts_ok e \<longleftrightarrow> distinct (map fst (eng_attempts e)) \<and> distinct (map fst (eng_attemptNodes e))
     \<and> dom (map_of (eng_attemptNodes e)) = dom (map_of (eng_attempts e))
     \<and> (\<forall>aid a. map_of (eng_attempts e) aid = Some a \<longrightarrow> attempt_wf a \<and> att_id a = aid
          \<and> (\<exists>nid \<in> doc_ids (eng_doc e). map_of (eng_attemptNodes e) aid = Some nid
               \<and> att_nodeRunID a = run_id (eng_run e) @ '':'' @ nid))"

text \<open>The state of the current attempt that a node state allows.\<close>

definition attempt_fits :: "NodeRun \<Rightarrow> NodeAttempt \<Rightarrow> bool" where
  "attempt_fits n a = (case node_state n of
     NodeQueued \<Rightarrow> att_state a = AttemptQueued \<or> att_state a = AttemptCanceled
   | NodeRunning \<Rightarrow> att_state a \<noteq> AttemptQueued
   | NodeSucceeded \<Rightarrow> att_state a = AttemptSucceeded
       \<and> map_option res_Outputs (att_result a) = Some (node_effectiveOutputs n)
   | _ \<Rightarrow> AttemptState_Terminal (att_state a))"

definition current_ok :: "Engine \<Rightarrow> bool" where
  "current_ok e \<longleftrightarrow> (\<forall>nid n. map_of (eng_nodes e) nid = Some n \<longrightarrow> node_currentAttemptID n \<noteq> '''' \<longrightarrow>
     map_of (eng_attemptNodes e) (node_currentAttemptID n) = Some nid
     \<and> (\<exists>a. map_of (eng_attempts e) (node_currentAttemptID n) = Some a \<and> attempt_fits n a))"

text \<open>Conversely, an attempt without a result is the current one of a queued or running node.\<close>

definition live_ok :: "Engine \<Rightarrow> bool" where
  "live_ok e \<longleftrightarrow> (\<forall>aid a. map_of (eng_attempts e) aid = Some a \<longrightarrow> \<not> AttemptState_Terminal (att_state a) \<longrightarrow>
     (\<exists>nid n. map_of (eng_attemptNodes e) aid = Some nid \<and> map_of (eng_nodes e) nid = Some n
        \<and> node_currentAttemptID n = aid \<and> node_state n \<in> {NodeQueued, NodeRunning}))"

text \<open>The state of an edge as a projection of its source node run.\<close>

definition edge_fits :: "NodeRun \<Rightarrow> Edge \<Rightarrow> EdgeState option \<Rightarrow> bool" where
  "edge_fits n d st = (case node_state n of
     NodeSucceeded \<Rightarrow> st = Some (settled_state NodeSucceeded (node_selectedRoute n) d)
   | NodeSkipped \<Rightarrow> st = Some EdgeInactive
   | s \<Rightarrow> st = Some EdgePending \<or> (NodeState_Terminal s \<and> st = Some EdgeInactive))"

definition edges_ok :: "Engine \<Rightarrow> bool" where
  "edges_ok e \<longleftrightarrow> (\<forall>d \<in> set (doc_Edges (eng_doc e)). \<forall>n. map_of (eng_nodes e) (edge_SourceNodeID d) = Some n \<longrightarrow>
     edge_fits n d (map_of (eng_edges e) (edge_ID d)))"

text \<open>
  Only a terminating run has nodes that failed, timed out or were canceled; a terminal run has only
  terminal nodes. The entry has succeeded with the workflow input, and a succeeded task exposes
  outputs that meet its output contract.
\<close>

definition outcome_ok :: "Engine \<Rightarrow> bool" where
  "outcome_ok e \<longleftrightarrow> (\<forall>nid n. map_of (eng_nodes e) nid = Some n \<longrightarrow>
     (run_termination (eng_run e) = None \<longrightarrow> node_state n \<notin> {NodeFailed, NodeTimedOut, NodeCanceled})
     \<and> (RunState_Terminal (run_state (eng_run e)) \<longrightarrow> NodeState_Terminal (node_state n)))"

definition outputs_ok :: "Engine \<Rightarrow> bool" where
  "outputs_ok e \<longleftrightarrow>
     (\<exists>n. map_of (eng_nodes e) (doc_EntryNodeID (eng_doc e)) = Some n \<and> node_state n = NodeSucceeded
        \<and> node_effectiveOutputs n = [(''workflow_input'', run_workflowInput (eng_run e))])
     \<and> (\<forall>nid n. map_of (eng_nodes e) nid = Some n \<longrightarrow> node_kind n = NodeTask \<longrightarrow> node_state n = NodeSucceeded \<longrightarrow>
          validateOutputs (node_def e nid) (node_effectiveOutputs n) = None)"

text \<open>
  The retry budget: business attempts stay within the policy's maximum and recoveries within
  theirs, and a node that may still queue an attempt has room for the kind it will queue.
\<close>

definition budget_fits :: "ExecutionPolicy \<Rightarrow> NodeRun \<Rightarrow> bool" where
  "budget_fits p n \<longleftrightarrow> node_businessAttemptCount n \<le> ep_MaxAttempts p \<and> node_recoveryCount n \<le> ep_MaxRecoveries p
     \<and> (node_state n \<in> {NodePending, NodeReady, NodeRetryWait} \<longrightarrow>
          (if node_nextAttemptKind n = AttemptRecovery then node_recoveryCount n < ep_MaxRecoveries p
           else node_businessAttemptCount n < ep_MaxAttempts p))"

definition budget_ok :: "Engine \<Rightarrow> bool" where
  "budget_ok e \<longleftrightarrow> (\<forall>nid n. map_of (eng_nodes e) nid = Some n \<longrightarrow> node_kind n = NodeTask \<longrightarrow>
     budget_fits (dn_ExecutionPolicy (node_def e nid)) n)"

definition engine_ok :: "Engine \<Rightarrow> bool" where
  "engine_ok e \<longleftrightarrow> static_ok e \<and> nodes_ok e \<and> run_ok e \<and> attempts_ok e \<and> current_ok e \<and> edges_ok e
     \<and> outcome_ok e \<and> outputs_ok e \<and> budget_ok e \<and> live_ok e"

lemma engine_okD:
  assumes "engine_ok e"
  shows "static_ok e" "nodes_ok e" "run_ok e" "attempts_ok e" "current_ok e" "edges_ok e" "outcome_ok e"
    "outputs_ok e" "budget_ok e" "live_ok e"
  using assms by (simp_all add: engine_ok_def)

lemma nodes_okD: "nodes_ok e \<Longrightarrow> map_of (eng_nodes e) nid = Some n \<Longrightarrow> node_ok e nid n"
  by (simp add: nodes_ok_def)

section \<open>Preservation\<close>

lemma advance_static_ok: "advance e e' \<Longrightarrow> static_ok e \<Longrightarrow> static_ok e'"
  using advance_static [of e e'] by (simp add: static_def static_ok_def)

lemma advance_doc: "advance e e' \<Longrightarrow> eng_doc e' = eng_doc e \<and> node_def e' = node_def e"
  using advance_static [of e e'] node_def_static [of e' e] by (simp add: static_def)

lemma node_step_identity:
  "node_step n n' \<Longrightarrow> node_runID n' = node_runID n \<and> node_executionNodeID n' = node_executionNodeID n
     \<and> node_kind n' = node_kind n
     \<and> (node_selectedRoute n' = node_selectedRoute n \<or> node_state n' = NodeSucceeded)"
  by (induction rule: node_step.induct) (auto dest!: node_op_Inr split: if_splits)

lemma advance_run_id:
  assumes "advance e e'"
  shows "run_id (eng_run e') = run_id (eng_run e) \<and> run_command (eng_run e') = run_command (eng_run e)"
proof -
  have "run_command (eng_run e') = run_command (eng_run e)"
    using advance_run [OF assms] run_step_command by metis
  then show ?thesis
    by (simp add: run_command_def)
qed

lemma advance_node_ok:
  assumes "advance e e'" and "nodes_ok e" and "map_of (eng_nodes e') nid = Some n'"
  shows "node_ok e' nid n'"
proof -
  have shared: "run_id (eng_run e') = run_id (eng_run e)" "node_def e' = node_def e"
    using advance_run_id advance_doc assms(1) by blast+
  from advance_node [OF assms(1,3)] consider "map_of (eng_nodes e) nid = Some n'"
    | n where "map_of (eng_nodes e) nid = Some n" "node_step n n'"
    by blast
  then show ?thesis
  proof cases
    case 1
    then show ?thesis
      using assms(2) shared by (simp add: nodes_ok_def node_ok_def)
  next
    case (2 n)
    then have n: "node_ok e nid n"
      using assms(2) by (simp add: nodes_ok_def)
    have "node_state n \<noteq> NodeSucceeded"
      using node_step_change [OF 2(2)] by auto
    then show ?thesis
      using n node_step_wf [OF 2(2)] node_step_counted [OF 2(2)] node_step_identity [OF 2(2)] shared
      by (auto simp: node_ok_def)
  qed
qed

lemma advance_nodes_ok: "advance e e' \<Longrightarrow> nodes_ok e \<Longrightarrow> nodes_ok e'"
  using advance_node_ok [of e e'] advance_keys [of e e'] advance_doc [of e e']
  by (simp add: nodes_ok_def) (metis image_set)

lemma run_step_ids:
  "run_step r r' \<Longrightarrow> run_state r \<noteq> RunPending \<Longrightarrow>
     run_state r' \<noteq> RunPending \<and> run_executionNodeIDs r' = run_executionNodeIDs r"
proof (induction rule: run_step.induct)
  case (rs_start r ids r')
  then show ?case by (cases "run_state r") (auto simp: run_ops split: run_splits)
qed (auto simp: run_ops split: run_splits)

lemma advance_run_ok: "advance e e' \<Longrightarrow> run_ok e \<Longrightarrow> run_ok e'"
  using advance_run [of e e'] advance_doc [of e e'] run_step_wf run_step_ids by (auto simp: run_ok_def)

subsection \<open>Edges\<close>

lemma find_member: "find P xs = Some x \<Longrightarrow> x \<in> set xs \<and> P x"
  by (induction xs) (auto split: if_splits)

lemma settle_edge:
  assumes "static_ok e" and d: "d \<in> set (doc_Edges (eng_doc e))" and n: "map_of (eng_nodes e) nid = Some n"
  shows "map_of (eng_edges (settleOutgoing e nid route)) (edge_ID d) =
    (if edge_SourceNodeID d = nid then Some (settled_state (node_state n) route d)
     else map_of (eng_edges e) (edge_ID d))"
proof -
  let ?out = "slice_at (eng_outgoing e) nid"
  have set: "set ?out = {c \<in> set (doc_Edges (eng_doc e)). edge_SourceNodeID c = nid}"
    using assms(1) by (simp add: static_ok_def)
  have inj: "c = d" if "c \<in> set (doc_Edges (eng_doc e))" "edge_ID c = edge_ID d" for c
    using that d assms(1) unfolding static_ok_def wf_document_def doc_edges_ok_def distinct_map inj_on_def by blast
  have "find (\<lambda>c. edge_ID c = edge_ID d) (rev ?out) = (if edge_SourceNodeID d = nid then Some d else None)"
  proof (cases "find (\<lambda>c. edge_ID c = edge_ID d) (rev ?out)")
    case None
    then show ?thesis
      using d set by (auto simp: find_None_iff)
  next
    case (Some c)
    then have "c \<in> set ?out" "edge_ID c = edge_ID d"
      using find_member [OF Some] by simp_all
    then show ?thesis
      using Some inj [of c] set by auto
  qed
  then show ?thesis
    by (simp add: settleOutgoing_def n map_of_fold_update)
qed

lemma edge_fits_nonterminal:
  "edge_fits n d st \<Longrightarrow> \<not> NodeState_Terminal (node_state n) \<Longrightarrow> st = Some EdgePending"
  by (cases "node_state n") (auto simp: edge_fits_def)

lemma edge_fits_pending:
  "node_state n \<noteq> NodeSucceeded \<Longrightarrow> node_state n \<noteq> NodeSkipped \<Longrightarrow> edge_fits n d (Some EdgePending)"
  by (cases "node_state n") (auto simp: edge_fits_def)

lemma edges_set_node:
  assumes "edges_ok e" and "map_of (eng_nodes e) nid = Some n" and "\<not> NodeState_Terminal (node_state n)"
    and "node_state n' \<noteq> NodeSucceeded" and "node_state n' \<noteq> NodeSkipped"
  shows "edges_ok (set_node e nid n')"
  unfolding edges_ok_def
proof (intro ballI allI impI)
  fix d m
  assume d: "d \<in> set (doc_Edges (eng_doc (set_node e nid n')))"
    and m: "map_of (eng_nodes (set_node e nid n')) (edge_SourceNodeID d) = Some m"
  show "edge_fits m d (map_of (eng_edges (set_node e nid n')) (edge_ID d))"
  proof (cases "edge_SourceNodeID d = nid")
    case True
    then have "edge_fits n d (map_of (eng_edges e) (edge_ID d))"
      using assms(1,2) d by (simp add: edges_ok_def)
    then have "map_of (eng_edges e) (edge_ID d) = Some EdgePending"
      using assms(3) by (rule edge_fits_nonterminal)
    then show ?thesis
      using True m assms(4,5) by (simp add: edge_fits_pending)
  next
    case False
    then show ?thesis
      using assms(1) d m by (simp add: edges_ok_def)
  qed
qed

lemma edges_settle:
  assumes "static_ok e" and "edges_ok e" and "NodeState_Terminal (node_state n')"
    and "node_state n' = NodeSucceeded \<longrightarrow> route = node_selectedRoute n'"
  shows "edges_ok (settleOutgoing (set_node e nid n') nid route)"
  unfolding edges_ok_def
proof (intro ballI allI impI)
  fix d n
  let ?e = "set_node e nid n'"
  assume d: "d \<in> set (doc_Edges (eng_doc (settleOutgoing ?e nid route)))"
    and n: "map_of (eng_nodes (settleOutgoing ?e nid route)) (edge_SourceNodeID d) = Some n"
  have "static_ok ?e"
    using assms(1) by (simp add: static_ok_def)
  then have "map_of (eng_edges (settleOutgoing ?e nid route)) (edge_ID d) =
      (if edge_SourceNodeID d = nid then Some (settled_state (node_state n') route d)
       else map_of (eng_edges e) (edge_ID d))"
    using settle_edge [of ?e d nid n' route] d by simp
  moreover have "settled_state s route d = EdgeInactive" if "s \<noteq> NodeSucceeded" for s
    using that by (simp add: settled_state_def Let_def)
  ultimately show "edge_fits n d (map_of (eng_edges (settleOutgoing ?e nid route)) (edge_ID d))"
    using assms d n by (cases "node_state n'") (auto simp: edge_fits_def edges_ok_def split: if_splits)
qed

lemma edges_ok_same:
  "edges_ok e \<Longrightarrow> eng_nodes e' = eng_nodes e \<Longrightarrow> eng_edges e' = eng_edges e \<Longrightarrow> eng_doc e' = eng_doc e \<Longrightarrow> edges_ok e'"
  by (simp add: edges_ok_def)

lemma node_def_of: "static_ok e \<Longrightarrow> nid \<in> doc_ids (eng_doc e) \<Longrightarrow>
    node_def e nid \<in> set (doc_Nodes (eng_doc e)) \<and> dn_ID (node_def e nid) = nid"
proof -
  assume s: "static_ok e" and "nid \<in> doc_ids (eng_doc e)"
  then obtain n where "node_of (eng_doc e) nid = Some n"
    using node_of_ids by blast
  then have "(nid, n) \<in> set (map (\<lambda>n. (dn_ID n, n)) (doc_Nodes (eng_doc e)))" "node_def e nid = n"
    using s by (auto simp: node_of_def node_def_def static_ok_def dest: map_of_SomeD)
  then show ?thesis
    by auto
qed

lemma node_key: "nodes_ok e \<Longrightarrow> map_of (eng_nodes e) nid = Some n \<Longrightarrow> nid \<in> doc_ids (eng_doc e)"
  by (force simp: nodes_ok_def dest: map_of_SomeD)

lemma op_states:
  "NodeRun_Activate n = Inr n' \<Longrightarrow> node_state n' = NodePending"
  "NodeRun_Ready n ins = Inr n' \<Longrightarrow> node_state n' = NodeReady"
  "NodeRun_Skip n = Inr n' \<Longrightarrow> node_state n' = NodeSkipped"
  "NodeRun_SucceedControl n route outs = Inr n' \<Longrightarrow> node_state n' = NodeSucceeded \<and> node_selectedRoute n' = route"
  "NodeRun_FailControl n f = Inr n' \<Longrightarrow> node_state n' = NodeFailed"
  "NodeRun_FailBeforeAttempt n f = Inr n' \<Longrightarrow> node_state n' = NodeFailed"
  "NodeRun_QueueAttempt n a = Inr (sq, k, n') \<Longrightarrow> node_state n' = NodeQueued"
  "NodeRun_AttemptStarted n a = Inr n' \<Longrightarrow> node_state n' = NodeRunning"
  "NodeRun_RetryWait n a k due = Inr n' \<Longrightarrow> node_state n' = NodeRetryWait"
  "NodeRun_RetryDue n t = Inr (True, n') \<Longrightarrow> node_state n' = NodeReady"
  "NodeRun_SucceedAttempt n a outs = Inr n' \<Longrightarrow> node_state n' = NodeSucceeded
     \<and> node_selectedRoute n' = node_selectedRoute n \<and> node_effectiveOutputs n' = outs"
  "NodeRun_FailAttempt n a st f = Inr n' \<Longrightarrow> node_state n' = NodeFailed \<or> node_state n' = NodeTimedOut"
  "NodeRun_Cancel n reason = Inr n' \<Longrightarrow> node_state n' = NodeCanceled"
  "CompleteWorkflowSuccess r n ns out = Inr (r', n') \<Longrightarrow> node_state n' = NodeSucceeded"
  by (auto dest!: node_op_Inr)

lemma op_nonterminal:
  "node_step n n' \<Longrightarrow> \<not> NodeState_Terminal (node_state n)"
  using node_step_change by blast

lemma exit_no_edges:
  assumes "static_ok e" and "nodes_ok e" and "map_of (eng_nodes e) nid = Some n"
    and "op_Type (dn_Operation (node_def e nid)) = ''control.end''" and "d \<in> set (doc_Edges (eng_doc e))"
  shows "edge_SourceNodeID d \<noteq> nid"
proof -
  have "nid = doc_ExitNodeID (eng_doc e)"
    using node_def_of [OF assms(1) node_key [OF assms(2,3)]] assms(1,4) unfolding static_ok_def by metis
  moreover have "nid \<notin> Domain (doc_rel (eng_doc e))"
    using assms(1) node_key [OF assms(2,3)] calculation
    unfolding static_ok_def wf_document_def doc_graph_ok_def by blast
  ultimately show ?thesis
    using assms(5) by (force simp: doc_pairs_def)
qed

lemma advance_edges_ok:
  "advance e e' \<Longrightarrow> static_ok e \<Longrightarrow> nodes_ok e \<Longrightarrow> edges_ok e \<Longrightarrow> edges_ok e'"
proof (induction rule: advance.induct)
  case (adv_end e nid n inputs run' n')
  have nid: "map_of (eng_nodes e) nid = Some n"
    using adv_end(1) by (simp add: due_node_def)
  have "edge_SourceNodeID d \<noteq> nid" if "d \<in> set (doc_Edges (eng_doc e))" for d
    using exit_no_edges [OF adv_end(7,8) nid adv_end(3) that] .
  then show ?case
    using adv_end(9) by (auto simp: edges_ok_def)
next
  case (adv_fail e nid n f n' run')
  then have "edges_ok (set_node e nid n')"
    by (intro edges_set_node) (auto simp: due_node_def dest: op_states)
  then show ?case
    by (rule edges_ok_same) simp_all
next
  case (adv_fail_completed e nid n aid res target f n' run')
  then have "\<not> NodeState_Terminal (node_state n)"
    by (auto dest: op_nonterminal [OF ns_fail_attempt] op_nonterminal [OF ns_cancel])
  then have "edges_ok (set_node e nid n')"
    using adv_fail_completed by (intro edges_set_node) (auto simp: completed_node_def dest: op_states)
  then show ?case
    by (rule edges_ok_same) simp_all
next
  case (adv_queue e aid nid n sq kind n' a)
  then have "edges_ok (set_node e nid n')"
    by (intro edges_set_node) (auto dest: op_states op_nonterminal [OF ns_queue])
  then show ?case
    by (rule edges_ok_same) simp_all
next
  case (adv_start e aid a nid n a' n')
  then have "edges_ok (set_node e nid n')"
    by (intro edges_set_node) (auto dest: op_states op_nonterminal [OF ns_started])
  then show ?case
    by (rule edges_ok_same) (simp_all add: set_node_def set_attempt_def)
next
  case (adv_accept e nid n aid res n')
  have "node_state n \<noteq> NodeSucceeded"
    using op_nonterminal [OF ns_succeed_attempt [OF adv_accept(4)]] by auto
  moreover have "node_ok e nid n"
    using adv_accept(1,6) by (auto simp: completed_node_def intro: nodes_okD)
  ultimately have "node_selectedRoute n = ''''"
    by (simp add: node_ok_def)
  then show ?case
    using adv_accept op_states(11) [OF adv_accept(4)] by (intro edges_settle) auto
next
  case (adv_cancel_completed e nid n aid res intent n')
  then show ?case
    by (intro edges_set_node) (auto simp: completed_node_def dest: op_states op_nonterminal [OF ns_cancel])
next
  case (adv_retry e nid n aid res kind due n')
  then show ?case
    by (intro edges_set_node) (auto simp: completed_node_def dest: op_states op_nonterminal [OF ns_retry_wait])
next
  case (adv_due e nid n ts n')
  then show ?case
    by (intro edges_set_node) (auto dest: op_states op_nonterminal [OF ns_retry_due])
next
  case (adv_activate e nid n n')
  then show ?case
    by (intro edges_set_node) (auto simp: due_node_def dest: op_states)
next
  case (adv_ready e nid n inputs n')
  then show ?case
    by (intro edges_set_node) (auto simp: due_node_def dest: op_states)
next
  case (adv_finish e intent run')
  then show ?case
    by (simp add: edges_ok_def)
next
  case (adv_record e aid a nid n res a')
  then show ?case
    by (simp add: edges_ok_def)
next
  case (adv_terminate e kind run')
  then show ?case
    by (simp add: edges_ok_def)
qed (auto intro!: edges_settle dest: op_states)

subsection \<open>Attempts\<close>

lemma attempt_step_identity:
  "attempt_step a a' \<Longrightarrow> att_id a' = att_id a \<and> att_nodeRunID a' = att_nodeRunID a"
  by (induction rule: attempt_step.induct) (auto dest!: Start_attempt_Inr Complete_Inr split: if_splits)

lemma attempts_ok_same:
  "attempts_ok e \<Longrightarrow> eng_attempts e' = eng_attempts e \<Longrightarrow> eng_attemptNodes e' = eng_attemptNodes e \<Longrightarrow>
     eng_doc e' = eng_doc e \<Longrightarrow> run_id (eng_run e') = run_id (eng_run e) \<Longrightarrow> attempts_ok e'"
  unfolding attempts_ok_def by presburger

lemma attempts_set_attempt:
  assumes "attempts_ok e" and "map_of (eng_attempts e) aid = Some a" and "attempt_step a a'"
  shows "attempts_ok (set_attempt e aid a')"
proof -
  have "map fst (eng_attempts (set_attempt e aid a')) = map fst (eng_attempts e)"
    using assms(2) by (simp add: set_attempt_def)
  then show ?thesis
    using assms attempt_step_wf [OF assms(3)] attempt_step_identity [OF assms(3)]
    unfolding attempts_ok_def by auto
qed

lemma attempt_step_of_record:
  assumes "attempt_wf a" and "att_result a = None" and "NodeAttempt_Complete a res = Inr a'"
  shows "attempt_step a a'"
  using assms by (intro as_complete) (auto simp: attempt_wf_def)

lemma attempts_queue:
  assumes "nodes_ok e" and "attempts_ok e" and "map_of (eng_nodes e) nid = Some n"
    and new: "NewNodeAttempt aid (node_runID n @ '':'' @ node_executionNodeID n) sq kind = Inr a"
  shows "attempts_ok ((set_attempt (set_node e nid n') aid a)\<lparr>eng_attemptNodes :=
      AList.update aid nid (eng_attemptNodes e)\<rparr>)"
proof -
  have n: "node_ok e nid n" "nid \<in> doc_ids (eng_doc e)"
    using assms(1,3) by (auto intro: nodes_okD node_key)
  have a: "attempt_wf a" "att_id a = aid" "att_nodeRunID a = run_id (eng_run e) @ '':'' @ nid"
    using NewNodeAttempt_wf [OF new] new n(1)
    by (auto simp: NewNodeAttempt_def node_ok_def split: if_splits)
  have "distinct (map fst (AList.update aid a (eng_attempts e)))"
      "distinct (map fst (AList.update aid nid (eng_attemptNodes e)))"
    using assms(2) by (simp_all add: attempts_ok_def distinct_update)
  then show ?thesis
    using assms(2) a n(2) unfolding attempts_ok_def by (auto simp: set_attempt_def)
qed

lemma advance_attempts_ok:
  assumes "advance e e'" and "nodes_ok e" and "attempts_ok e"
  shows "attempts_ok e'"
proof (cases "eng_attempts e' = eng_attempts e \<and> eng_attemptNodes e' = eng_attemptNodes e")
  case True
  then show ?thesis
    using assms(3) advance_run_id [OF assms(1)] advance_doc [OF assms(1)] by (intro attempts_ok_same [of e e']) auto
next
  case False
  from assms(1) show ?thesis
  proof (cases rule: advance.cases)
    case (adv_queue aid nid n sq kind n' a)
    then show ?thesis
      using assms(2,3) attempts_queue by blast
  next
    case (adv_start aid a nid n a' n')
    then have "attempts_ok (set_attempt e aid a')"
      using assms(3) by (intro attempts_set_attempt) (auto intro: as_start)
    then show ?thesis
      unfolding adv_start by (rule attempts_ok_same) simp_all
  next
    case (adv_record aid a nid n res a')
    then have "attempt_wf a"
      using assms(3) by (simp add: attempts_ok_def)
    then have "attempt_step a a'"
      using adv_record by (intro attempt_step_of_record)
    then show ?thesis
      using adv_record assms(3) attempts_set_attempt by blast
  qed (use False in simp_all)
qed

lemma attempts_okD:
  assumes "attempts_ok e" and "map_of (eng_attempts e) aid = Some a"
  shows "attempt_wf a \<and> att_id a = aid \<and> (\<exists>nid \<in> doc_ids (eng_doc e). map_of (eng_attemptNodes e) aid = Some nid
    \<and> att_nodeRunID a = run_id (eng_run e) @ '':'' @ nid)"
  using assms unfolding attempts_ok_def by blast

lemma current_set_node:
  assumes "current_ok e" and "map_of (eng_nodes e) nid = Some n"
    and "node_currentAttemptID n' = node_currentAttemptID n"
    and "\<And>a. node_currentAttemptID n \<noteq> '''' \<Longrightarrow> map_of (eng_attempts e) (node_currentAttemptID n) = Some a \<Longrightarrow>
      attempt_fits n a \<Longrightarrow> attempt_fits n' a"
  shows "current_ok (set_node e nid n')"
  unfolding current_ok_def
proof (intro allI impI)
  fix i m
  assume m: "map_of (eng_nodes (set_node e nid n')) i = Some m" and cur: "node_currentAttemptID m \<noteq> ''''"
  show "map_of (eng_attemptNodes (set_node e nid n')) (node_currentAttemptID m) = Some i
      \<and> (\<exists>a. map_of (eng_attempts (set_node e nid n')) (node_currentAttemptID m) = Some a \<and> attempt_fits m a)"
  proof (cases "i = nid")
    case True
    then have "m = n'"
      using m by simp
    then obtain a where "map_of (eng_attemptNodes e) (node_currentAttemptID n) = Some nid"
        "map_of (eng_attempts e) (node_currentAttemptID n) = Some a" "attempt_fits n a"
      using assms(1,2,3) cur unfolding current_ok_def by metis
    then show ?thesis
      using assms(3,4) cur True \<open>m = n'\<close> by auto
  next
    case False
    then show ?thesis
      using assms(1) m cur by (simp add: current_ok_def)
  qed
qed

lemma current_ok_same:
  "current_ok e \<Longrightarrow> eng_nodes e' = eng_nodes e \<Longrightarrow> eng_attempts e' = eng_attempts e \<Longrightarrow>
     eng_attemptNodes e' = eng_attemptNodes e \<Longrightarrow> current_ok e'"
  by (simp add: current_ok_def)

text \<open>A pending node has no attempt, and a node with a recorded result has a terminal attempt.\<close>

lemma due_node_no_attempt:
  assumes "due_node e nid n" and "nodes_ok e"
  shows "map_of (eng_nodes e) nid = Some n \<and> node_currentAttemptID n = ''''"
proof -
  have n: "map_of (eng_nodes e) nid = Some n" "node_state n = NodePending"
    using assms(1) by (auto simp: due_node_def)
  then have "node_wf n"
    using assms(2) by (simp add: nodes_ok_def node_ok_def)
  then show ?thesis
    using n unfolding node_wf_def by blast
qed

lemma completed_terminal:
  assumes "completed_node e nid n aid res" and "attempts_ok e"
    and "map_of (eng_attempts e) (node_currentAttemptID n) = Some a"
  shows "AttemptState_Terminal (att_state a) \<and> att_state a = res_State res \<and> att_result a = Some res"
  using assms by (auto simp: completed_node_def attempts_ok_def attempt_wf_def)

lemma attempt_fits_terminal:
  "AttemptState_Terminal (att_state a) \<Longrightarrow> node_state n \<in> {NodeReady, NodeRetryWait, NodeFailed, NodeTimedOut, NodeCanceled} \<Longrightarrow>
     attempt_fits n a"
  by (auto simp: attempt_fits_def)

lemma not_in_flight_terminal:
  assumes "\<not> attempt_in_flight e n" and "map_of (eng_attempts e) (node_currentAttemptID n) = Some a"
    and "attempt_fits n a" and "node_wf n" and "\<not> NodeState_Terminal (node_state n)"
  shows "AttemptState_Terminal (att_state a)"
proof -
  have "node_state n \<noteq> OtherNodeState s" for s
    using assms(4) unfolding node_wf_def by blast
  then show ?thesis
    using assms(1,2,3,5) by (cases "node_state n") (auto simp: attempt_in_flight_def attempt_fits_def)
qed

lemma op_current:
  "NodeRun_RetryWait n a k due = Inr n' \<Longrightarrow> node_currentAttemptID n' = node_currentAttemptID n"
  "NodeRun_RetryDue n t = Inr (True, n') \<Longrightarrow> node_currentAttemptID n' = node_currentAttemptID n"
  "NodeRun_SucceedAttempt n a outs = Inr n' \<Longrightarrow> node_currentAttemptID n' = node_currentAttemptID n"
  "NodeRun_FailAttempt n a st f = Inr n' \<Longrightarrow> node_currentAttemptID n' = node_currentAttemptID n"
  "NodeRun_Cancel n reason = Inr n' \<Longrightarrow> node_currentAttemptID n' = node_currentAttemptID n"
  "NodeRun_AttemptStarted n a = Inr n' \<Longrightarrow> node_currentAttemptID n' = node_currentAttemptID n"
  "NodeRun_Activate n = Inr n' \<Longrightarrow> node_currentAttemptID n' = node_currentAttemptID n"
  "NodeRun_Ready n ins = Inr n' \<Longrightarrow> node_currentAttemptID n' = node_currentAttemptID n"
  "NodeRun_Skip n = Inr n' \<Longrightarrow> node_currentAttemptID n' = node_currentAttemptID n"
  "NodeRun_SucceedControl n route outs = Inr n' \<Longrightarrow> node_currentAttemptID n' = node_currentAttemptID n"
  "NodeRun_FailControl n f = Inr n' \<Longrightarrow> node_currentAttemptID n' = node_currentAttemptID n"
  "NodeRun_FailBeforeAttempt n f = Inr n' \<Longrightarrow> node_currentAttemptID n' = node_currentAttemptID n"
  "CompleteWorkflowSuccess r n ns out = Inr (r', n') \<Longrightarrow> node_currentAttemptID n' = node_currentAttemptID n"
  "NodeRun_QueueAttempt n a = Inr (sq, k, n') \<Longrightarrow> node_currentAttemptID n' = a"
  by (auto dest!: node_op_Inr split: if_splits)

lemma current_pending:
  "due_node e nid n \<Longrightarrow> nodes_ok e \<Longrightarrow> current_ok e \<Longrightarrow> node_currentAttemptID n' = node_currentAttemptID n \<Longrightarrow>
     current_ok (set_node e nid n')"
  using due_node_no_attempt [of e nid n] by (intro current_set_node [of e nid n n']) auto

lemma current_completed:
  assumes "completed_node e nid n aid res" and "attempts_ok e" and "current_ok e"
    and "node_currentAttemptID n' = node_currentAttemptID n"
    and "node_state n' \<in> {NodeReady, NodeRetryWait, NodeFailed, NodeTimedOut, NodeCanceled}"
  shows "current_ok (set_node e nid n')"
  using assms completed_terminal [OF assms(1,2)] attempt_fits_terminal [of _ n']
  by (intro current_set_node [of e nid n]) (auto simp: completed_node_def)

lemma current_start:
  assumes "current_ok e" and "map_of (eng_attempts e) aid = Some a"
    and "map_of (eng_nodes e) nid = Some n" and "NodeAttempt_Start a = Inr a'" and "NodeRun_AttemptStarted n aid = Inr n'"
    and "attempts_ok e"
  shows "current_ok (set_node (set_attempt e aid a') nid n')"
  unfolding current_ok_def
proof (intro allI impI)
  let ?e = "set_node (set_attempt e aid a') nid n'"
  fix i m
  assume m: "map_of (eng_nodes ?e) i = Some m" and cur: "node_currentAttemptID m \<noteq> ''''"
  have a': "att_state a' = AttemptRunning"
    using Start_attempt_Inr [OF assms(4)] by simp
  have n': "node_state n' = NodeRunning" "node_currentAttemptID n' = aid" "node_currentAttemptID n = aid"
    using AttemptStarted_Inr [OF assms(5)] by auto
  show "map_of (eng_attemptNodes ?e) (node_currentAttemptID m) = Some i
      \<and> (\<exists>a. map_of (eng_attempts ?e) (node_currentAttemptID m) = Some a \<and> attempt_fits m a)"
  proof (cases "i = nid")
    case True
    then have "m = n'"
      using m by simp
    moreover have "map_of (eng_attemptNodes e) aid = Some nid"
      using assms(1,3) n' cur \<open>m = n'\<close> unfolding current_ok_def by metis
    ultimately show ?thesis
      using True a' n' by (simp add: attempt_fits_def)
  next
    case False
    then obtain b where b: "map_of (eng_attemptNodes e) (node_currentAttemptID m) = Some i"
        "map_of (eng_attempts e) (node_currentAttemptID m) = Some b" "attempt_fits m b"
      using assms(1) m cur unfolding current_ok_def by auto
    have "aid \<noteq> ''''"
      using attempts_okD [OF assms(6,2)] by (auto simp: attempt_wf_def)
    then have "map_of (eng_attemptNodes e) aid = Some nid"
      using assms(1,3) n' unfolding current_ok_def by metis
    then have "node_currentAttemptID m \<noteq> aid"
      using b(1) False by auto
    then show ?thesis
      using b by simp
  qed
qed

lemma current_record:
  assumes "current_ok e" and "map_of (eng_attempts e) aid = Some a" and "map_of (eng_nodes e) nid = Some n"
    and "node_currentAttemptID n = aid" and "att_result a = None" and "NodeAttempt_Complete a res = Inr a'"
    and "attempts_ok e"
  shows "current_ok (set_attempt e aid a')"
  unfolding current_ok_def
proof (intro allI impI)
  let ?e = "set_attempt e aid a'"
  fix i m
  assume m: "map_of (eng_nodes ?e) i = Some m" and cur: "node_currentAttemptID m \<noteq> ''''"
  obtain b where b: "map_of (eng_attemptNodes e) (node_currentAttemptID m) = Some i"
      "map_of (eng_attempts e) (node_currentAttemptID m) = Some b" "attempt_fits m b"
    using assms(1) m cur unfolding current_ok_def by auto
  have wf: "attempt_wf a"
    using attempts_okD [OF assms(7,2)] by simp
  then have "\<not> AttemptState_Terminal (att_state a)"
    using assms(5) by (simp add: attempt_wf_def)
  then have a': "AttemptState_Terminal (att_state a')" "validAttemptTransition (att_state a) (att_state a')"
    using Complete_Inr [OF assms(6)] by auto
  have "attempt_fits m a'" if "node_currentAttemptID m = aid"
  proof -
    have "b = a"
      using b(2) assms(2) that by simp
    then have fits: "attempt_fits m a"
      using b(3) by simp
    then have "node_state m = NodeQueued \<or> node_state m = NodeRunning"
      using \<open>\<not> AttemptState_Terminal (att_state a)\<close> by (cases "node_state m") (auto simp: attempt_fits_def)
    then show ?thesis
    proof
      assume m: "node_state m = NodeQueued"
      then have "att_state a = AttemptQueued"
        using fits \<open>\<not> AttemptState_Terminal (att_state a)\<close> by (auto simp: attempt_fits_def)
      then have "att_state a' = AttemptCanceled"
        using a' by auto
      then show ?thesis
        using m by (simp add: attempt_fits_def)
    next
      assume m: "node_state m = NodeRunning"
      then show ?thesis
        using a'(1) by (auto simp: attempt_fits_def)
    qed
  qed
  then show "map_of (eng_attemptNodes ?e) (node_currentAttemptID m) = Some i
      \<and> (\<exists>a. map_of (eng_attempts ?e) (node_currentAttemptID m) = Some a \<and> attempt_fits m a)"
    using b by auto
qed

lemma current_queue:
  assumes "current_ok e" and "map_of (eng_attempts e) aid = None" and "map_of (eng_nodes e) nid = Some n"
    and q: "NodeRun_QueueAttempt n aid = Inr (sq, kind, n')"
    and new: "NewNodeAttempt aid (node_runID n @ '':'' @ node_executionNodeID n) sq kind = Inr a"
  shows "current_ok ((set_attempt (set_node e nid n') aid a)\<lparr>eng_attemptNodes :=
      AList.update aid nid (eng_attemptNodes e)\<rparr>)"
  unfolding current_ok_def
proof (intro allI impI)
  let ?e = "(set_attempt (set_node e nid n') aid a)\<lparr>eng_attemptNodes := AList.update aid nid (eng_attemptNodes e)\<rparr>"
  fix i m
  assume m: "map_of (eng_nodes ?e) i = Some m" and cur: "node_currentAttemptID m \<noteq> ''''"
  have a: "att_state a = AttemptQueued"
    using new by (auto simp: NewNodeAttempt_def split: if_splits)
  have n': "node_state n' = NodeQueued" "node_currentAttemptID n' = aid"
    using QueueAttempt_Inr [OF q] by auto
  show "map_of (eng_attemptNodes ?e) (node_currentAttemptID m) = Some i
      \<and> (\<exists>a. map_of (eng_attempts ?e) (node_currentAttemptID m) = Some a \<and> attempt_fits m a)"
  proof (cases "i = nid")
    case True
    then show ?thesis
      using m n' a by (auto simp: attempt_fits_def)
  next
    case False
    then obtain b where b: "map_of (eng_attemptNodes e) (node_currentAttemptID m) = Some i"
        "map_of (eng_attempts e) (node_currentAttemptID m) = Some b" "attempt_fits m b"
      using assms(1) m cur unfolding current_ok_def by auto
    then have "node_currentAttemptID m \<noteq> aid"
      using assms(2) by auto
    then show ?thesis
      using b by simp
  qed
qed

lemma advance_current_ok:
  "advance e e' \<Longrightarrow> nodes_ok e \<Longrightarrow> attempts_ok e \<Longrightarrow> current_ok e \<Longrightarrow> current_ok e'"
proof (induction rule: advance.induct)
  case (adv_skip e nid n n')
  then have "current_ok (set_node e nid n')"
    by (intro current_pending) (auto simp: op_current)
  then show ?case by (rule current_ok_same) simp_all
next
  case (adv_activate e nid n n')
  then show ?case by (intro current_pending) (auto simp: op_current)
next
  case (adv_ready e nid n inputs n')
  then show ?case by (intro current_pending) (auto simp: op_current)
next
  case (adv_fail e nid n f n' run')
  then have "current_ok (set_node e nid n')"
    by (intro current_pending [of e nid n]) (auto simp: op_current)
  then show ?case by (rule current_ok_same) simp_all
next
  case (adv_branch e nid n inputs route n')
  then have "current_ok (set_node e nid n')"
    by (intro current_pending) (auto simp: op_current)
  then show ?case by (rule current_ok_same) simp_all
next
  case (adv_end e nid n inputs run' n')
  then have "current_ok (set_node e nid n')"
    by (intro current_pending) (auto simp: op_current)
  then show ?case by (rule current_ok_same) (simp_all add: set_node_def)
next
  case (adv_cancel e intent nid n n')
  have n: "node_wf n" "\<not> NodeState_Terminal (node_state n)"
    using adv_cancel(2,5) op_nonterminal [OF ns_cancel [OF adv_cancel(4)]] by (auto simp: nodes_ok_def node_ok_def)
  have "attempt_fits n' a" if "map_of (eng_attempts e) (node_currentAttemptID n) = Some a" "attempt_fits n a" for a
    using not_in_flight_terminal [OF adv_cancel(3) that n] op_states(13) [OF adv_cancel(4)]
    by (intro attempt_fits_terminal) auto
  then have "current_ok (set_node e nid n')"
    using adv_cancel by (intro current_set_node [of e nid n]) (auto simp: op_current)
  then show ?case by (rule current_ok_same) simp_all
next
  case (adv_finish e intent run')
  show ?case by (rule current_ok_same [OF adv_finish(6)]) simp_all
next
  case (adv_queue e aid nid n sq kind n' a)
  then show ?case by (intro current_queue)
next
  case (adv_start e aid a nid n a' n')
  then show ?case by (intro current_start)
next
  case (adv_record e aid a nid n res a')
  then show ?case by (intro current_record)
next
  case (adv_accept e nid n aid res n')
  have "attempt_fits n' a" if "map_of (eng_attempts e) (node_currentAttemptID n) = Some a" for a
    using completed_terminal [OF adv_accept(1,6) that] adv_accept(2) op_states(11) [OF adv_accept(4)]
    by (simp add: attempt_fits_def)
  then have "current_ok (set_node e nid n')"
    using adv_accept by (intro current_set_node [of e nid n]) (auto simp: op_current completed_node_def)
  then show ?case by (rule current_ok_same) simp_all
next
  case (adv_cancel_completed e nid n aid res intent n')
  then show ?case by (intro current_completed) (auto simp: op_current dest: op_states)
next
  case (adv_retry e nid n aid res kind due n')
  then show ?case by (intro current_completed) (auto simp: op_current dest: op_states)
next
  case (adv_due e nid n ts n')
  have n: "node_state n = NodeRetryWait" "node_state n' = NodeReady"
    using RetryDue_Inr [OF adv_due(3)] by auto
  then show ?case
    using adv_due by (intro current_set_node [of e nid n]) (auto simp: op_current attempt_fits_def)
next
  case (adv_fail_completed e nid n aid res target f n' run')
  then have "current_ok (set_node e nid n')"
    by (intro current_completed [of e nid n aid res]) (auto simp: op_current dest: op_states)
  then show ?case by (rule current_ok_same) simp_all
next
  case (adv_terminate e kind run')
  show ?case by (rule current_ok_same [OF adv_terminate(5)]) simp_all
qed

lemma live_set_node:
  assumes "live_ok e" and "map_of (eng_nodes e) nid = Some n"
    and "\<And>a. map_of (eng_attempts e) (node_currentAttemptID n) = Some a \<Longrightarrow>
      node_state n \<in> {NodeQueued, NodeRunning} \<Longrightarrow> AttemptState_Terminal (att_state a)"
  shows "live_ok (set_node e nid n')"
  unfolding live_ok_def
proof (intro allI impI)
  fix aid a
  assume a: "map_of (eng_attempts (set_node e nid n')) aid = Some a" "\<not> AttemptState_Terminal (att_state a)"
  then obtain i m where m: "map_of (eng_attemptNodes e) aid = Some i" "map_of (eng_nodes e) i = Some m"
      "node_currentAttemptID m = aid" "node_state m \<in> {NodeQueued, NodeRunning}"
    using assms(1) unfolding live_ok_def by fastforce
  then have "i \<noteq> nid"
    using assms(2,3) a by auto
  then show "\<exists>i m. map_of (eng_attemptNodes (set_node e nid n')) aid = Some i
      \<and> map_of (eng_nodes (set_node e nid n')) i = Some m \<and> node_currentAttemptID m = aid
      \<and> node_state m \<in> {NodeQueued, NodeRunning}"
    using m by auto
qed

lemma live_ok_same:
  "live_ok e \<Longrightarrow> eng_nodes e' = eng_nodes e \<Longrightarrow> eng_attempts e' = eng_attempts e \<Longrightarrow>
     eng_attemptNodes e' = eng_attemptNodes e \<Longrightarrow> live_ok e'"
  by (simp add: live_ok_def)

lemma live_pending:
  "due_node e nid n \<Longrightarrow> live_ok e \<Longrightarrow> live_ok (set_node e nid n')"
  by (rule live_set_node) (auto simp: due_node_def)

lemma live_completed:
  "completed_node e nid n aid res \<Longrightarrow> attempts_ok e \<Longrightarrow> live_ok e \<Longrightarrow> live_ok (set_node e nid n')"
  using completed_terminal [of e nid n aid res] by (intro live_set_node [of e nid n]) (auto simp: completed_node_def)

lemma live_queue:
  assumes "live_ok e" and "map_of (eng_attempts e) aid = None" and "map_of (eng_nodes e) nid = Some n"
    and q: "NodeRun_QueueAttempt n aid = Inr (sq, kind, n')"
  shows "live_ok ((set_attempt (set_node e nid n') aid a)\<lparr>eng_attemptNodes :=
      AList.update aid nid (eng_attemptNodes e)\<rparr>)"
proof -
  have n: "node_state n = NodeReady" "node_state n' = NodeQueued" "node_currentAttemptID n' = aid"
    using QueueAttempt_Inr [OF q] by auto
  then have "live_ok (set_node e nid n')"
    by (intro live_set_node [OF assms(1,3)]) auto
  then show ?thesis
    using assms(2) n unfolding live_ok_def by auto
qed

lemma live_start:
  assumes "live_ok e" and "map_of (eng_attempts e) aid = Some a" and "map_of (eng_attemptNodes e) aid = Some nid"
    and "map_of (eng_nodes e) nid = Some n" and "NodeAttempt_Start a = Inr a'" and "NodeRun_AttemptStarted n aid = Inr n'"
  shows "live_ok (set_node (set_attempt e aid a') nid n')"
  unfolding live_ok_def
proof (intro allI impI)
  let ?e = "set_node (set_attempt e aid a') nid n'"
  fix bid b
  assume b: "map_of (eng_attempts ?e) bid = Some b" "\<not> AttemptState_Terminal (att_state b)"
  have n': "node_state n' = NodeRunning" "node_currentAttemptID n' = aid" "node_currentAttemptID n = aid"
    using AttemptStarted_Inr [OF assms(6)] by auto
  show "\<exists>i m. map_of (eng_attemptNodes ?e) bid = Some i \<and> map_of (eng_nodes ?e) i = Some m
      \<and> node_currentAttemptID m = bid \<and> node_state m \<in> {NodeQueued, NodeRunning}"
  proof (cases "bid = aid")
    case True
    then show ?thesis
      using assms(3) n' by auto
  next
    case False
    then obtain i m where m: "map_of (eng_attemptNodes e) bid = Some i" "map_of (eng_nodes e) i = Some m"
        "node_currentAttemptID m = bid" "node_state m \<in> {NodeQueued, NodeRunning}"
      using assms(1) b unfolding live_ok_def by fastforce
    then have "i \<noteq> nid"
      using False n'(3) assms(4) by auto
    then show ?thesis
      using m by auto
  qed
qed

lemma live_record:
  assumes "live_ok e" and "attempt_wf a" and "att_result a = None" and "NodeAttempt_Complete a res = Inr a'"
  shows "live_ok (set_attempt e aid a')"
proof -
  have "AttemptState_Terminal (att_state a')"
    using Complete_Inr [OF assms(4)] assms(2,3) by (auto simp: attempt_wf_def split: if_splits)
  then show ?thesis
    using assms(1) unfolding live_ok_def by auto
qed

lemma advance_live_ok:
  "advance e e' \<Longrightarrow> nodes_ok e \<Longrightarrow> attempts_ok e \<Longrightarrow> current_ok e \<Longrightarrow> live_ok e \<Longrightarrow> live_ok e'"
proof (induction rule: advance.induct)
  case (adv_skip e nid n n')
  then have "live_ok (set_node e nid n')" by (intro live_pending)
  then show ?case by (rule live_ok_same) simp_all
next
  case (adv_activate e nid n n')
  then show ?case by (intro live_pending)
next
  case (adv_ready e nid n inputs n')
  then show ?case by (intro live_pending)
next
  case (adv_fail e nid n f n' run')
  then have "live_ok (set_node e nid n')" by (intro live_pending)
  then show ?case by (rule live_ok_same) simp_all
next
  case (adv_branch e nid n inputs route n')
  then have "live_ok (set_node e nid n')" by (intro live_pending)
  then show ?case by (rule live_ok_same) simp_all
next
  case (adv_end e nid n inputs run' n')
  then have "live_ok (set_node e nid n')" by (intro live_pending)
  then show ?case by (rule live_ok_same) (simp_all add: set_node_def)
next
  case (adv_cancel e intent nid n n')
  have "AttemptState_Terminal (att_state a)" if "map_of (eng_attempts e) (node_currentAttemptID n) = Some a"
      "node_state n \<in> {NodeQueued, NodeRunning}" for a
    using adv_cancel(3) that by (auto simp: attempt_in_flight_def)
  then have "live_ok (set_node e nid n')"
    using adv_cancel(2,8) by (intro live_set_node) auto
  then show ?case by (rule live_ok_same) simp_all
next
  case (adv_finish e intent run')
  show ?case by (rule live_ok_same [OF adv_finish(7)]) simp_all
next
  case (adv_queue e aid nid n sq kind n' a)
  then show ?case by (intro live_queue)
next
  case (adv_start e aid a nid n a' n')
  then show ?case by (intro live_start)
next
  case (adv_record e aid a nid n res a')
  then show ?case using attempts_okD [OF adv_record(8,1)] by (intro live_record) auto
next
  case (adv_accept e nid n aid res n')
  then have "live_ok (set_node e nid n')" by (intro live_completed)
  then show ?case by (rule live_ok_same) simp_all
next
  case (adv_cancel_completed e nid n aid res intent n')
  then show ?case by (intro live_completed)
next
  case (adv_retry e nid n aid res kind due n')
  then show ?case by (intro live_completed)
next
  case (adv_due e nid n ts n')
  then show ?case
    using RetryDue_Inr [OF adv_due(3)] by (intro live_set_node [of e nid n]) auto
next
  case (adv_fail_completed e nid n aid res target f n' run')
  then have "live_ok (set_node e nid n')" by (intro live_completed)
  then show ?case by (rule live_ok_same) simp_all
next
  case (adv_terminate e kind run')
  show ?case by (rule live_ok_same [OF adv_terminate(6)]) simp_all
qed

subsection \<open>Outcomes, outputs and budgets\<close>

lemma advance_lookup: "advance e e' \<Longrightarrow> map_of (eng_nodes e) i = Some n \<Longrightarrow> \<exists>n'. map_of (eng_nodes e') i = Some n'"
  using advance_keys [of e e'] by (metis map_of_fst_iff)

lemma advance_terminal_node:
  assumes "advance e e'" and "map_of (eng_nodes e) i = Some n" and "NodeState_Terminal (node_state n)"
  shows "map_of (eng_nodes e') i = Some n"
proof -
  obtain n' where n': "map_of (eng_nodes e') i = Some n'"
    using advance_lookup [OF assms(1,2)] by blast
  then show ?thesis
    using advance_node [OF assms(1) n'] assms(2,3) op_nonterminal by fastforce
qed

lemma requested_run:
  "requested e kind run' \<Longrightarrow> run_state run' = run_state (eng_run e) \<and> run_termination run' \<noteq> None
     \<and> \<not> RunState_Terminal (run_state (eng_run e))"
  by (auto simp: requested_def dest!: RequestTermination_Inr)

text \<open>The runs and node states a step leads to.\<close>

lemma advance_run_outcome:
  assumes "advance e e'" and "nodes_ok e"
  shows "run_termination (eng_run e') = None \<longrightarrow> run_termination (eng_run e) = None"
    and "RunState_Terminal (run_state (eng_run e')) \<longrightarrow> RunState_Terminal (run_state (eng_run e))
      \<or> (\<forall>i n. map_of (eng_nodes e') i = Some n \<longrightarrow> NodeState_Terminal (node_state n))"
proof -
  show "run_termination (eng_run e') = None \<longrightarrow> run_termination (eng_run e) = None"
    using advance_run [OF assms(1)] run_step_termination by fastforce
  from assms(1) show "RunState_Terminal (run_state (eng_run e')) \<longrightarrow> RunState_Terminal (run_state (eng_run e))
      \<or> (\<forall>i n. map_of (eng_nodes e') i = Some n \<longrightarrow> NodeState_Terminal (node_state n))"
  proof (cases rule: advance.cases)
    case (adv_end nid n inputs run' n')
    have others: "i = nid \<or> NodeState_Terminal (node_state m)" if "map_of (eng_nodes e) i = Some m" for i m
      using adv_end(5) map_of_SomeD [OF that] by (auto simp: allOtherNodesTerminal_def list_all_iff)
    show ?thesis
      unfolding adv_end(1) using others op_states(14) [OF adv_end(7)] by auto
  next
    case (adv_finish intent run')
    then show ?thesis
      by (auto simp: allNodesTerminal_def list_all_iff dest: map_of_SomeD)
  qed (auto dest: requested_run)
qed

lemma advance_failure:
  assumes "advance e e'" and "map_of (eng_nodes e') i = Some n'"
    and "node_state n' \<in> {NodeFailed, NodeTimedOut, NodeCanceled}"
  shows "map_of (eng_nodes e) i = Some n' \<or> run_termination (eng_run e') \<noteq> None"
  using assms
proof (cases rule: advance.cases)
  case (adv_fail nid n f m run')
  then show ?thesis
    using requested_run [OF adv_fail(4)] by simp
next
  case (adv_fail_completed nid n aid res target f m run')
  then show ?thesis
    using requested_run [OF adv_fail_completed(5)] by simp
next
  case (adv_terminate kind run')
  then show ?thesis
    using requested_run [OF adv_terminate(2)] by simp
qed (use assms in \<open>auto split: if_splits dest: op_states\<close>)

lemma advance_outcome_ok:
  assumes "advance e e'" and "nodes_ok e" and "outcome_ok e"
  shows "outcome_ok e'"
  unfolding outcome_ok_def
proof (intro allI impI conjI)
  fix i n'
  assume n': "map_of (eng_nodes e') i = Some n'"
  show "node_state n' \<notin> {NodeFailed, NodeTimedOut, NodeCanceled}" if "run_termination (eng_run e') = None"
    using advance_failure [OF assms(1) n'] advance_run_outcome(1) [OF assms(1,2)] that assms(3)
    by (auto simp: outcome_ok_def)
  show "NodeState_Terminal (node_state n')" if "RunState_Terminal (run_state (eng_run e'))"
    using advance_run_outcome(2) [OF assms(1,2)] that n'
  proof (elim impE disjE)
    assume "RunState_Terminal (run_state (eng_run e))"
    moreover obtain n where n: "map_of (eng_nodes e) i = Some n"
      using advance_node [OF assms(1) n'] by blast
    ultimately have "NodeState_Terminal (node_state n)"
      using assms(3) by (auto simp: outcome_ok_def)
    then show ?thesis
      using advance_terminal_node [OF assms(1) n] n' by simp
  qed auto
qed

lemma advance_task_success:
  assumes "advance e e'" and "map_of (eng_nodes e') i = Some n'" and "node_state n' = NodeSucceeded"
    and "node_kind n' = NodeTask"
  shows "map_of (eng_nodes e) i = Some n' \<or> validateOutputs (node_def e i) (node_effectiveOutputs n') = None"
  using assms
proof (cases rule: advance.cases)
  case (adv_branch nid n inputs route m)
  then show ?thesis
    using assms(2,4) SucceedControl_Inr [OF adv_branch(7)] by (auto split: if_splits)
next
  case (adv_end nid n inputs run' m)
  then show ?thesis
    using assms(2,4) CompleteWorkflowSuccess_Inr [OF adv_end(7)] by (auto split: if_splits)
next
  case (adv_accept nid n aid res m)
  then show ?thesis
    using assms(2) op_states(11) [OF adv_accept(5)] by (auto split: if_splits)
qed (use assms in \<open>auto split: if_splits dest: op_states\<close>)

lemma advance_outputs_ok:
  assumes "advance e e'" and "outputs_ok e"
  shows "outputs_ok e'"
proof -
  have shared: "eng_doc e' = eng_doc e" "node_def e' = node_def e"
      "run_workflowInput (eng_run e') = run_workflowInput (eng_run e)"
    using advance_doc [OF assms(1)] advance_run_id [OF assms(1)] by (auto simp: run_command_def)
  show ?thesis
    using assms(2) advance_terminal_node [OF assms(1)] advance_task_success [OF assms(1)]
    unfolding outputs_ok_def shared by (metis NodeState_Terminal.simps(1))
qed

lemma budget_done:
  "budget_fits p n \<Longrightarrow> node_businessAttemptCount n' = node_businessAttemptCount n \<Longrightarrow>
     node_recoveryCount n' = node_recoveryCount n \<Longrightarrow> node_state n' \<notin> {NodePending, NodeReady, NodeRetryWait} \<Longrightarrow>
     budget_fits p n'"
  by (simp add: budget_fits_def)

lemma budget_step:
  assumes "node_step n n'" and "budget_fits p n" and "node_wf n"
    and "node_state n' = NodeRetryWait \<Longrightarrow>
      (if node_nextAttemptKind n' = AttemptRecovery then node_recoveryCount n < ep_MaxRecoveries p
       else node_businessAttemptCount n < ep_MaxAttempts p)"
  shows "budget_fits p n'"
  using assms
proof (induction rule: node_step.induct)
  case (ns_queue n a sq k n')
  have q: "node_state n = NodeReady" "k = node_nextAttemptKind n" "node_state n' = NodeQueued"
      "node_recoveryCount n' = (if k = AttemptRecovery then node_recoveryCount n + 1 else node_recoveryCount n)"
      "node_businessAttemptCount n' = (if k = AttemptRecovery then node_businessAttemptCount n
         else node_businessAttemptCount n + 1)"
    using QueueAttempt_Inr [OF ns_queue(1)] by auto
  then show ?case
    using ns_queue(2) by (auto simp: budget_fits_def intro: inc_le)
next
  case (ns_retry_wait n a k due n')
  then show ?case
    using RetryWait_Inr [OF ns_retry_wait(1)] by (auto simp: budget_fits_def)
next
  case (ns_activate n n')
  then show ?case
    using Activate_Inr [OF ns_activate(1)] by (simp add: budget_fits_def)
next
  case (ns_retry_due n t n')
  then show ?case
    using RetryDue_Inr [OF ns_retry_due(1)] by (simp add: budget_fits_def)
next
  case (ns_ready n ins n')
  then show ?case
    using Ready_Inr [OF ns_ready(1)] by (auto simp: budget_fits_def)
next
  case (ns_skip n n')
  show ?case
    using Skip_Inr [OF ns_skip(1)] by (intro budget_done [OF ns_skip(2)]) simp_all
next
  case (ns_succeed_control n route outs n')
  show ?case
    using SucceedControl_Inr [OF ns_succeed_control(1)] by (intro budget_done [OF ns_succeed_control(2)]) simp_all
next
  case (ns_fail_control n f n')
  show ?case
    using FailControl_Inr [OF ns_fail_control(1)] by (intro budget_done [OF ns_fail_control(2)]) simp_all
next
  case (ns_fail_before n f n')
  show ?case
    using FailBeforeAttempt_Inr [OF ns_fail_before(1)] by (intro budget_done [OF ns_fail_before(2)]) simp_all
next
  case (ns_started n a n')
  show ?case
    using AttemptStarted_Inr [OF ns_started(1)] by (intro budget_done [OF ns_started(2)]) simp_all
next
  case (ns_succeed_attempt n a outs n')
  show ?case
    using SucceedAttempt_Inr [OF ns_succeed_attempt(1)] by (intro budget_done [OF ns_succeed_attempt(2)]) simp_all
next
  case (ns_fail_attempt n a st f n')
  show ?case
    using FailAttempt_Inr [OF ns_fail_attempt(1)] by (intro budget_done [OF ns_fail_attempt(2)]) auto
next
  case (ns_cancel n reason n')
  show ?case
    using Cancel_Inr [OF ns_cancel(1)] by (intro budget_done [OF ns_cancel(2)]) simp_all
next
  case (ns_end r n ns out r' n')
  show ?case
    using CompleteWorkflowSuccess_Inr [OF ns_end(1)] by (intro budget_done [OF ns_end(2)]) simp_all
qed

lemma advance_retry_budget:
  assumes "advance e e'" and "map_of (eng_nodes e') i = Some n'" and "node_state n' = NodeRetryWait"
  shows "map_of (eng_nodes e) i = Some n' \<or> (\<exists>n. map_of (eng_nodes e) i = Some n \<and> node_step n n'
    \<and> (if node_nextAttemptKind n' = AttemptRecovery
       then node_recoveryCount n < ep_MaxRecoveries (dn_ExecutionPolicy (node_def e i))
       else node_businessAttemptCount n < ep_MaxAttempts (dn_ExecutionPolicy (node_def e i))))"
  using assms
proof (cases rule: advance.cases)
  case (adv_retry nid n aid res kind due m)
  have "node_nextAttemptKind m = kind"
    using RetryWait_Inr [OF adv_retry(5)] by auto
  then show ?thesis
    using adv_retry assms(2) ns_retry_wait [OF adv_retry(5)] by (auto simp: completed_node_def split: if_splits)
qed (use assms in \<open>auto split: if_splits dest: op_states\<close>)

lemma advance_budget_ok:
  assumes "advance e e'" and "nodes_ok e" and "budget_ok e"
  shows "budget_ok e'"
  unfolding budget_ok_def
proof (intro allI impI)
  fix i n'
  let ?p = "dn_ExecutionPolicy (node_def e i)"
  assume n': "map_of (eng_nodes e') i = Some n'" "node_kind n' = NodeTask"
  have "budget_fits ?p n'"
  proof (cases "map_of (eng_nodes e) i = Some n'")
    case True
    then show ?thesis
      using assms(3) n'(2) by (simp add: budget_ok_def)
  next
    case False
    then obtain n where n: "map_of (eng_nodes e) i = Some n" "node_step n n'"
      using advance_node [OF assms(1) n'(1)] by blast
    have "node_kind n = NodeTask" "node_wf n"
      using node_step_identity [OF n(2)] n'(2) nodes_okD [OF assms(2) n(1)] by (auto simp: node_ok_def)
    then show ?thesis
      using budget_step [OF n(2), of ?p] assms(3) n advance_retry_budget [OF assms(1) n'(1)] False
      by (auto simp: budget_ok_def)
  qed
  then show "budget_fits (dn_ExecutionPolicy (node_def e' i)) n'"
    using advance_doc [OF assms(1)] by simp
qed

text \<open>Every step keeps the invariant.\<close>

theorem advance_engine_ok: "advance e e' \<Longrightarrow> engine_ok e \<Longrightarrow> engine_ok e'"
  unfolding engine_ok_def
  by (auto intro: advance_static_ok advance_nodes_ok advance_run_ok advance_attempts_ok advance_current_ok
      advance_edges_ok advance_outcome_ok advance_outputs_ok advance_budget_ok advance_live_ok)

lemma advances_engine_ok: "advance\<^sup>*\<^sup>* e e' \<Longrightarrow> engine_ok e \<Longrightarrow> engine_ok e'"
  by (induction rule: rtranclp_induct) (auto intro: advance_engine_ok)

end
