(* ===== verification/Engine_Operations.thy ===== *)
theory Engine_Operations
  imports Engine_Invariant
begin

text \<open>
  Every operation of the engine is a sequence of elementary steps, whatever it returns; hence every
  engine that the operations reach from a new one satisfies the invariant.
\<close>

section \<open>Preliminaries\<close>

lemma update_same: "map_of m k = Some v \<Longrightarrow> AList.update k v m = m"
  by (induction m) (auto split: if_splits)

lemma set_node_same: "map_of (eng_nodes e) nid = Some n \<Longrightarrow> set_node e nid n = e"
  by (simp add: set_node_def update_same)

text \<open>A completion or drive time is absent or not before the creation of the run.\<close>

definition time_ok :: "Engine \<Rightarrow> time \<Rightarrow> bool" where
  "time_ok e ts \<longleftrightarrow> ts = 0 \<or> run_createdAt (eng_run e) \<le> ts"

lemma run_created_nonzero: "run_wf r \<Longrightarrow> run_createdAt r \<noteq> 0"
  by (auto simp: run_wf_def NewWorkflowRun_def run_command_def Let_def split: if_splits)

lemma advance_createdAt: "advance e e' \<Longrightarrow> run_createdAt (eng_run e') = run_createdAt (eng_run e)"
  using advance_run_id [of e e'] by (simp add: run_command_def)

lemma advances_createdAt: "advance\<^sup>*\<^sup>* e e' \<Longrightarrow> run_createdAt (eng_run e') = run_createdAt (eng_run e)"
  by (induction rule: rtranclp_induct) (auto simp: advance_createdAt)

lemma request_failed:
  assumes "engine_ok e" and "run_termination (eng_run e) = None" and "\<not> RunState_Terminal (run_state (eng_run e))"
    and "ts \<noteq> 0" and "run_createdAt (eng_run e) \<le> ts" and "fail_Code f \<noteq> ''''"
  obtains run' where "WorkflowRun_RequestTermination (eng_run e)
      \<lparr>ti_Kind = TerminationFailed, ti_RequestedAt = ts, ti_Cause = f\<rparr> = Inr (True, run')"
    and "requested e TerminationFailed run'"
proof -
  have "run_state (eng_run e) \<noteq> RunPending"
    using engine_okD(3) [OF assms(1)] by (simp add: run_ok_def)
  then have "\<exists>run'. WorkflowRun_RequestTermination (eng_run e)
      \<lparr>ti_Kind = TerminationFailed, ti_RequestedAt = ts, ti_Cause = f\<rparr> = Inr (True, run')"
    using assms(2-6) by (simp add: WorkflowRun_RequestTermination_def)
  then show ?thesis
    using that by (fastforce simp: requested_def)
qed

lemma pending_run_active:
  assumes "engine_ok e" and "map_of (eng_nodes e) nid = Some n" and "\<not> NodeState_Terminal (node_state n)"
  shows "\<not> RunState_Terminal (run_state (eng_run e))"
  using engine_okD(7) [OF assms(1)] assms(2,3) by (auto simp: outcome_ok_def)

lemma request_termination_set_node:
  "WorkflowRun_RequestTermination (eng_run e) \<lparr>ti_Kind = k, ti_RequestedAt = ts, ti_Cause = f\<rparr> = Inr (b, run') \<Longrightarrow>
     request_termination (set_node e nid n) k ts f = (set_node e nid n)\<lparr>eng_run := run'\<rparr>"
  by (simp add: request_termination_def)

section \<open>Driving\<close>

fun visit_engine :: "visit \<Rightarrow> Engine" where
  "visit_engine (Continue e c) = e"
| "visit_engine (Stop e err) = e"
| "visit_engine (Redrive e) = e"

lemma request_fail_advances:
  assumes "engine_ok e" and "due_node e nid n" and "time_ok e ts" and "fail_Code f \<noteq> ''''"
    and "fail_Phase f = ''input_binding'' \<longrightarrow> anyIncomingActive e nid \<and> isl (resolveInputs e (node_def e nid))"
    and "NodeRun_FailControl n f = Inr n' \<or> NodeRun_FailBeforeAttempt n f = Inr n'"
  shows "advance e (request_termination (set_node e nid n') TerminationFailed (atOrCreated ts (eng_run e)) f)"
proof -
  have n: "map_of (eng_nodes e) nid = Some n" "node_state n = NodePending" "run_termination (eng_run e) = None"
    using assms(2) by (auto simp: due_node_def)
  have created: "run_createdAt (eng_run e) \<noteq> 0"
    using run_created_nonzero engine_okD(3) [OF assms(1)] by (simp add: run_ok_def)
  obtain run' where run': "WorkflowRun_RequestTermination (eng_run e)
      \<lparr>ti_Kind = TerminationFailed, ti_RequestedAt = atOrCreated ts (eng_run e), ti_Cause = f\<rparr> = Inr (True, run')"
      "requested e TerminationFailed run'"
  proof (rule request_failed [OF assms(1) n(3) pending_run_active [OF assms(1) n(1)]])
    show "\<not> NodeState_Terminal (node_state n)"
      by (simp add: n(2))
    show "atOrCreated ts (eng_run e) \<noteq> 0" "run_createdAt (eng_run e) \<le> atOrCreated ts (eng_run e)"
      using assms(3) created by (auto simp: atOrCreated_def time_ok_def)
  qed (use assms(4) in simp_all)
  show ?thesis
    unfolding request_termination_set_node [OF run'(1)]
    by (rule adv_fail [OF assms(2,6) run'(2) assms(5)])
qed

lemma evaluateBranch_error:
  "evaluateBranch node raw = Inl err \<Longrightarrow> \<exists>c i f. err = EngineError c i f \<and> c \<noteq> ''''"
proof -
  have "evaluate_cases node v fb k cs = Inl err \<Longrightarrow> \<exists>c i f. err = EngineError c i f \<and> c \<noteq> ''''" for v fb k cs
    by (induction cs arbitrary: k)
      (auto simp: FailureBranchPathNotFound_def FailureBranchOperatorMismatch_def
        split: option.splits sum.splits if_splits)
  then show "evaluateBranch node raw = Inl err \<Longrightarrow> ?thesis"
    by (auto simp: evaluateBranch_def FailureBranchOperatorMismatch_def split: option.splits)
qed

lemma due_node_same:
  assumes "due_node e nid n" and "node_state n' = NodePending"
  shows "due_node (set_node e nid n') nid n'"
  using assms by (simp add: due_node_def allIncomingSettled_def)

lemma drive_resolved_advances:
  assumes ok: "engine_ok e" and due: "due_node e nid n" and active: "anyIncomingActive e nid" and time: "time_ok e ts"
    and inputs: "resolveInputs e (node_def e nid) = Inr (Some inputs)"
  shows "advance\<^sup>*\<^sup>* e (visit_engine (drive_resolved ts e nid n inputs))"
proof -
  let ?def = "node_def e nid"
  consider (task) "dn_Kind ?def = KindTask" | (branch) "dn_Kind ?def \<noteq> KindTask" "op_Type (dn_Operation ?def) = ''control.branch''"
    | (exit) "dn_Kind ?def \<noteq> KindTask" "op_Type (dn_Operation ?def) = ''control.end''"
    | (other) "dn_Kind ?def \<noteq> KindTask" "op_Type (dn_Operation ?def) \<notin> {''control.branch'', ''control.end''}"
    by auto
  then show ?thesis
  proof cases
    case task
    then show ?thesis
      using adv_ready [OF due active task inputs]
      by (auto simp: drive_resolved_def Let_def split: sum.split intro: r_into_rtranclp)
  next
    case branch
    show ?thesis
    proof (cases "evaluateBranch ?def (raw_at inputs ''value'')")
      case (Inl err)
      then obtain c i f where err: "err = EngineError c i f" "c \<noteq> ''''"
        using evaluateBranch_error by blast
      then show ?thesis
        using branch Inl request_fail_advances [OF ok due time]
        by (auto simp: drive_resolved_def drive_branch_def Let_def engine_failure_def split: sum.split
            intro!: r_into_rtranclp)
    next
      case (Inr route)
      then show ?thesis
        using branch adv_branch [OF due active branch(2) inputs Inr]
        by (auto simp: drive_resolved_def drive_branch_def Let_def split: sum.split intro: r_into_rtranclp)
    qed
  next
    case exit
    then show ?thesis
      using adv_end [OF due active exit(2) _ inputs]
      by (auto simp: drive_resolved_def drive_end_def Let_def split: sum.split intro: r_into_rtranclp)
  next
    case other
    then show ?thesis
      by (auto simp: drive_resolved_def Let_def)
  qed
qed

lemma drive_visit_advances:
  assumes ok: "engine_ok e" and none: "run_termination (eng_run e) = None" and time: "time_ok e ts"
  shows "advance\<^sup>*\<^sup>* e (visit_engine (drive_visit ts e nid))"
proof (cases "map_of (eng_nodes e) nid")
  case None
  then show ?thesis
    by (simp add: drive_visit_def)
next
  case (Some n)
  show ?thesis
  proof (cases "node_state n \<noteq> NodePending \<or> nid = doc_EntryNodeID (eng_doc e) \<or> \<not> allIncomingSettled e nid")
    case True
    then show ?thesis
      using Some by (simp add: drive_visit_def)
  next
    case False
    then have due: "due_node e nid n"
      using Some none by (simp add: due_node_def)
    show ?thesis
    proof (cases "anyIncomingActive e nid")
      case inactive: False
      then show ?thesis
        using Some False adv_skip [OF due inactive]
        by (auto simp: drive_visit_def split: sum.split intro: r_into_rtranclp)
    next
      case active: True
      show ?thesis
      proof (cases "NodeRun_Activate n")
        case (Inl err)
        then show ?thesis
          using Some False active by (simp add: drive_visit_def)
      next
        case (Inr n1)
        define e1 where "e1 = set_node e nid n1"
        have steps: "advance\<^sup>*\<^sup>* e e1"
        proof (cases "node_activated n")
          case True
          then have "n1 = n"
            using Activate_Inr [OF Inr] by simp
          then show ?thesis
            using Some by (simp add: e1_def set_node_same)
        next
          case False
          then show ?thesis
            unfolding e1_def by (intro r_into_rtranclp adv_activate [OF due active Inr])
        qed
        then have ok1: "engine_ok e1"
          using ok advances_engine_ok by blast
        have due1: "due_node e1 nid n1"
          unfolding e1_def using due op_states(1) [OF Inr] by (rule due_node_same)
        have active1: "anyIncomingActive e1 nid" and time1: "time_ok e1 ts"
          using active time by (simp_all add: e1_def anyIncomingActive_def time_ok_def)
        have visit: "drive_visit ts e nid = (case resolveInputs e1 (node_def e1 nid) of
                   Inl err \<Rightarrow> fail_pending ts e1 nid n1
                     (engine_failure e1 FailureInputContract ''input_binding'' (error_text err) nid '''' ''inputs'' False)
                 | Inr None \<Rightarrow> Continue e1 False
                 | Inr (Some inputs) \<Rightarrow> drive_resolved ts e1 nid n1 inputs)"
          using Some False active Inr by (simp add: drive_visit_def e1_def [symmetric] Let_def)
        have "advance\<^sup>*\<^sup>* e1 (visit_engine (fail_pending ts e1 nid n1 f))"
          if "fail_Code f \<noteq> ''''" "resolveInputs e1 (node_def e1 nid) = Inl err" for f err
          using request_fail_advances [OF ok1 due1 time1 that(1)] that(2) active1
          by (auto simp: fail_pending_def split: sum.split intro: r_into_rtranclp)
        moreover have "fail_Code (engine_failure e1 FailureInputContract a b c d g h) \<noteq> ''''" for a b c d g h
          by (simp add: engine_failure_def FailureInputContract_def)
        ultimately have "advance\<^sup>*\<^sup>* e1 (visit_engine (drive_visit ts e nid))"
          unfolding visit using drive_resolved_advances [OF ok1 due1 active1 time1]
          by (auto split: sum.split option.split)
        then show ?thesis
          using steps by simp
      qed
    qed
  qed
qed

lemma drive_visit_continue:
  assumes "drive_visit ts e nid = Continue e' c" and "run_termination (eng_run e) = None"
  shows "run_termination (eng_run e') = None"
  using assms
  by (auto simp: drive_visit_def fail_pending_def drive_resolved_def drive_branch_def drive_end_def Let_def
      case_prod_unfold split: option.splits if_splits sum.splits dest!: CompleteWorkflowSuccess_Inr)

lemma drive_pass_advances:
  assumes "engine_ok e" and "run_termination (eng_run e) = None" and "time_ok e ts"
  shows "advance\<^sup>*\<^sup>* e (visit_engine (drive_pass ts ids e changed))
    \<and> (\<forall>e' c. drive_pass ts ids e changed = Continue e' c \<longrightarrow> run_termination (eng_run e') = None)"
  using assms
proof (induction ids arbitrary: e changed)
  case (Cons nid ids)
  have v: "advance\<^sup>*\<^sup>* e (visit_engine (drive_visit ts e nid))"
    using Cons.prems by (intro drive_visit_advances)
  show ?case
  proof (cases "drive_visit ts e nid")
    case (Continue e1 c)
    then have e1: "advance\<^sup>*\<^sup>* e e1" "run_termination (eng_run e1) = None"
      using v drive_visit_continue [OF Continue Cons.prems(2)] by auto
    then have "engine_ok e1" "time_ok e1 ts"
      using Cons.prems advances_engine_ok advances_createdAt by (auto simp: time_ok_def)
    then show ?thesis
      using Cons.IH [of e1 "changed \<or> c"] e1 Continue by (auto intro: rtranclp_trans)
  qed (use v in auto)
qed auto

lemma cancel_pass_advances:
  assumes "run_termination (eng_run e) = Some intent"
  shows "advance\<^sup>*\<^sup>* e (fst (cancel_pass (ti_Kind intent) ids e))
    \<and> eng_run (fst (cancel_pass (ti_Kind intent) ids e)) = eng_run e"
  using assms
proof (induction ids arbitrary: e)
  case (Cons nid ids)
  show ?case
  proof (cases "map_of (eng_nodes e) nid")
    case (Some n)
    show ?thesis
    proof (cases "NodeState_Terminal (node_state n) \<or> attempt_in_flight e n")
      case True
      then show ?thesis
        using Some Cons by simp
    next
      case False
      show ?thesis
      proof (cases "NodeRun_Cancel n (cancelReason (ti_Kind intent))")
        case (Inr n')
        let ?e = "settleOutgoing (set_node e nid n') nid ''''"
        have "advance e ?e"
          using Cons.prems Some False Inr by (intro adv_cancel) auto
        then show ?thesis
          using Some False Inr Cons.IH [of ?e] Cons.prems by (auto intro: converse_rtranclp_into_rtranclp)
      qed (use Some False in simp)
    qed
  qed simp
qed simp

lemma drive_terminating_advances:
  assumes "run_termination (eng_run e) = Some intent"
  shows "advance\<^sup>*\<^sup>* e (fst (drive_terminating (ti_Kind intent) e))"
proof -
  obtain e1 r where c: "cancel_pass (ti_Kind intent) (sortedNodeIDs e) e = (e1, r)"
    by fastforce
  have e1: "advance\<^sup>*\<^sup>* e e1" "run_termination (eng_run e1) = Some intent"
    using cancel_pass_advances [OF assms, of "sortedNodeIDs e"] c assms by auto
  show ?thesis
    using e1 adv_finish [OF e1(2)]
    by (auto simp: drive_terminating_def c split: option.split sum.split intro: rtranclp.rtrancl_into_rtrancl)
qed

lemma drive_advances:
  "engine_ok e \<Longrightarrow> time_ok e ts \<Longrightarrow> advance\<^sup>*\<^sup>* e (fst (drive ts e))"
proof (induction ts e rule: drive.induct)
  case (1 ts e)
  show ?case
  proof (cases "run_termination (eng_run e)")
    case (Some intent)
    then show ?thesis
      using drive_terminating_advances [OF Some] by (simp add: drive.simps [of ts e])
  next
    case None
    define v where "v = drive_pass ts (sortedNodeIDs e) e False"
    have v: "advance\<^sup>*\<^sup>* e (visit_engine v)"
      unfolding v_def using drive_pass_advances 1(3,4) None by blast
    then have next_ok: "engine_ok (visit_engine v)" "time_ok (visit_engine v) ts"
      using 1(3,4) advances_engine_ok advances_createdAt by (auto simp: time_ok_def)
    show ?thesis
    proof (cases v)
      case (Continue e1 c)
      then show ?thesis
        using 1(1) [OF None] Continue [unfolded v_def] None v next_ok
        by (auto simp: drive.simps [of ts e] v_def [symmetric] intro: rtranclp_trans)
    next
      case (Redrive e1)
      then show ?thesis
        using 1(2) [OF None] Redrive [unfolded v_def] None v next_ok
        by (auto simp: drive.simps [of ts e] v_def [symmetric] intro: rtranclp_trans)
    next
      case (Stop e1 err)
      then show ?thesis
        using None v by (simp add: drive.simps [of ts e] v_def [symmetric])
    qed
  qed
qed

section \<open>Operations\<close>

lemma drive_result_engine [simp]: "fst (drive_result r a) = fst r"
  by (simp add: drive_result_def split: prod.split option.split)

lemma queue_sequence:
  assumes "engine_ok e" and n: "map_of (eng_nodes e) nid = Some n"
    and q: "NodeRun_QueueAttempt n aid = Inr (sq, kind, n')"
  shows "\<exists>a. NewNodeAttempt aid (node_runID n @ '':'' @ node_executionNodeID n) sq kind = Inr a"
proof -
  let ?p = "dn_ExecutionPolicy (node_def e nid)"
  let ?b = "node_businessAttemptCount n" and ?r = "node_recoveryCount n"
  have ok: "node_ok e nid n"
    using engine_okD(2) [OF assms(1)] n by (rule nodes_okD)
  have q': "node_kind n = NodeTask" "node_state n = NodeReady" "aid \<noteq> ''''" "sq = node_nextAttemptSeq n + 1"
      "kind = node_nextAttemptKind n"
    using QueueAttempt_Inr [OF q] by auto
  have fits: "budget_fits ?p n"
    using engine_okD(9) [OF assms(1)] n q'(1) by (simp add: budget_ok_def)
  have small: "unat (ep_MaxAttempts ?p) + unat (ep_MaxRecoveries ?p) < 2 ^ 32"
    using engine_okD(1) [OF assms(1)] node_def_of [of e nid] node_key [OF engine_okD(2) [OF assms(1)] n]
    by (auto simp: static_ok_def)
  have "unat ?b + unat ?r < unat (ep_MaxAttempts ?p) + unat (ep_MaxRecoveries ?p)"
    using fits q'(2) unfolding budget_fits_def word_less_nat_alt word_le_nat_alt by (simp split: if_splits)
  then have "unat ?b + unat ?r + 1 < 2 ^ 32"
    using small by simp
  then have "(of_nat (unat ?b + unat ?r + 1) :: 32 word) \<noteq> 0"
    unfolding word_of_nat_eq_0_iff by (auto dest!: dvd_imp_le)
  moreover have "sq = of_nat (unat ?b + unat ?r + 1)"
    using ok q'(4) by (simp add: node_ok_def node_counted_def)
  moreover have "kind = AttemptInitial \<or> kind = AttemptBusiness \<or> kind = AttemptRecovery"
  proof -
    have "\<forall>s. node_nextAttemptKind n \<noteq> OtherRetryKind s"
      using ok unfolding node_ok_def node_wf_def by blast
    then show ?thesis
      unfolding q'(5) by (cases "node_nextAttemptKind n") auto
  qed
  ultimately show ?thesis
    using q'(3) by (auto simp: NewNodeAttempt_def)
qed

lemma QueueNode_advances:
  assumes "engine_ok e"
  shows "advance\<^sup>*\<^sup>* e (fst (QueueNode nid aid e))"
proof (cases "run_termination (eng_run e) = None \<and> map_of (eng_attempts e) aid = None")
  case True
  show ?thesis
  proof (cases "map_of (eng_nodes e) nid")
    case (Some n)
    show ?thesis
    proof (cases "NodeRun_QueueAttempt n aid")
      case (Inr r)
      obtain sq kind n' where r: "r = (sq, kind, n')"
        by (cases r)
      then obtain a where a: "NewNodeAttempt aid (node_runID n @ '':'' @ node_executionNodeID n) sq kind = Inr a"
        using queue_sequence [OF assms Some] Inr by blast
      have "node_runID n' = node_runID n" "node_executionNodeID n' = node_executionNodeID n"
        using QueueAttempt_Inr [of n aid sq kind n'] Inr r by auto
      then show ?thesis
        using True Some Inr r a adv_queue [of e aid nid n sq kind n' a] by (auto simp: QueueNode_def Let_def)
    qed (use True Some in \<open>simp add: QueueNode_def\<close>)
  qed (use True in \<open>simp add: QueueNode_def\<close>)
qed (auto simp: QueueNode_def)

lemma live_node:
  assumes "engine_ok e" and "map_of (eng_attempts e) aid = Some a" and "\<not> AttemptState_Terminal (att_state a)"
  obtains nid n where "map_of (eng_attemptNodes e) aid = Some nid" and "map_of (eng_nodes e) nid = Some n"
    and "node_currentAttemptID n = aid" and "attempt_fits n a" and "node_state n \<in> {NodeQueued, NodeRunning}"
proof -
  obtain nid n where n: "map_of (eng_attemptNodes e) aid = Some nid" "map_of (eng_nodes e) nid = Some n"
      "node_currentAttemptID n = aid" "node_state n \<in> {NodeQueued, NodeRunning}"
    using engine_okD(10) [OF assms(1)] assms(2,3) unfolding live_ok_def by blast
  have "aid \<noteq> ''''"
    using attempts_okD [OF engine_okD(4) [OF assms(1)] assms(2)] by (auto simp: attempt_wf_def)
  then have "attempt_fits n a"
    using engine_okD(5) [OF assms(1)] n assms(2) unfolding current_ok_def by fastforce
  then show ?thesis
    using that n by blast
qed

lemma StartAttempt_advances:
  assumes "engine_ok e"
  shows "advance\<^sup>*\<^sup>* e (fst (StartAttempt aid e))"
proof (cases "map_of (eng_attempts e) aid")
  case (Some a)
  show ?thesis
  proof (cases "NodeAttempt_Start a")
    case (Inr a')
    have a: "att_state a = AttemptQueued"
      using Start_attempt_Inr [OF Inr] by simp
    then obtain nid n where n: "map_of (eng_attemptNodes e) aid = Some nid" "map_of (eng_nodes e) nid = Some n"
        "node_currentAttemptID n = aid" "attempt_fits n a" "node_state n \<in> {NodeQueued, NodeRunning}"
      using live_node [OF assms Some] by auto
    then have queued: "node_state n = NodeQueued"
      using a by (auto simp: attempt_fits_def)
    have "node_ok e nid n"
      using engine_okD(2) [OF assms] n(2) by (rule nodes_okD)
    then have "node_wf n"
      by (simp add: node_ok_def)
    then have "node_kind n \<noteq> NodeControl"
      using queued unfolding node_wf_def by blast
    then obtain n' where n': "NodeRun_AttemptStarted n aid = Inr n'"
      using queued n(3) \<open>node_wf n\<close>
      by (cases "node_kind n") (auto simp: NodeRun_AttemptStarted_def NodeRun_transition_def node_wf_def)
    show ?thesis
      using Some a Inr n n' adv_start [OF Some n(1,2) Inr n'] by (auto simp: StartAttempt_def Let_def attempt_node_def)
  qed (use Some in \<open>simp add: StartAttempt_def\<close>)
qed (simp add: StartAttempt_def)

lemma attempt_node_of:
  assumes "engine_ok e" and "map_of (eng_attempts e) aid = Some a"
  shows "map_of (eng_attemptNodes e) aid = Some (attempt_node e aid)"
  using attempts_okD [OF engine_okD(4) [OF assms(1)] assms(2)] by (auto simp: attempt_node_def)

lemma RecordAttemptResult_advances:
  assumes "engine_ok e"
  shows "advance\<^sup>*\<^sup>* e (fst (RecordAttemptResult aid res e))"
proof (cases "map_of (eng_attempts e) aid")
  case (Some a)
  note owner = attempt_node_of [OF assms Some]
  show ?thesis
    using Some adv_record [OF Some owner]
    by (auto simp: RecordAttemptResult_def split: option.split sum.split)
qed (simp add: RecordAttemptResult_def)

lemma acceptSuccess_advances:
  assumes "engine_ok e" and c: "completed_node e nid n aid res" and "res_State res = AttemptSucceeded"
    and "acceptSuccess e nid n (node_def e (node_executionNodeID n)) aid (res_Outputs res) = Inr e'"
  shows "advance e e'"
proof -
  have "map_of (eng_nodes e) nid = Some n"
    using c by (simp add: completed_node_def)
  then have "node_executionNodeID n = nid" "dn_ID (node_def e nid) = nid"
    using nodes_okD [OF engine_okD(2) [OF assms(1)]] node_def_of [OF engine_okD(1) [OF assms(1)]]
      node_key [OF engine_okD(2) [OF assms(1)]] by (auto simp: node_ok_def)
  then show ?thesis
    using assms(4) adv_accept [OF c assms(3)] by (auto simp: acceptSuccess_def split: option.splits sum.splits)
qed

lemma fail_run_advances:
  assumes ok: "engine_ok e" and c: "completed_node e nid n aid res" and none: "run_termination (eng_run e) = None"
    and ts: "ts \<noteq> 0" "run_createdAt (eng_run e) \<le> ts" and code: "fail_Code f \<noteq> ''''" "fail_Phase f \<noteq> ''input_binding''"
    and n: "\<not> NodeState_Terminal (node_state n)" "node_state n \<noteq> NodePending"
    and t: "t = NodeRun_FailAttempt n aid target f \<or> t = NodeRun_Cancel n FailureNodeFailed"
  shows "advance\<^sup>*\<^sup>* e (fst (fail_run ts e nid t f))"
proof (cases t)
  case (Inl err)
  then show ?thesis
    by (simp add: fail_run_def)
next
  case (Inr n')
  have "map_of (eng_nodes e) nid = Some n"
    using c by (simp add: completed_node_def)
  then obtain run' where run': "WorkflowRun_RequestTermination (eng_run e)
      \<lparr>ti_Kind = TerminationFailed, ti_RequestedAt = ts, ti_Cause = f\<rparr> = Inr (True, run')"
      "requested e TerminationFailed run'"
    using request_failed [OF ok none pending_run_active [OF ok _ n(1)] ts code(1)] by metis
  let ?e = "(set_node e nid n')\<lparr>eng_run := run'\<rparr>"
  have step: "advance e ?e"
    using t Inr n(2) by (intro adv_fail_completed [OF c none _ run'(2) code(2)]) auto
  then have "engine_ok ?e" "time_ok ?e ts"
    using ok ts advance_engine_ok advance_createdAt [OF step] by (auto simp: time_ok_def)
  then have "advance\<^sup>*\<^sup>* e (fst (drive ts ?e))"
    using step drive_advances by (meson converse_rtranclp_into_rtranclp)
  then show ?thesis
    using Inr by (simp add: fail_run_def request_termination_set_node [OF run'(1)])
qed

lemma retry_wait_advances:
  assumes c: "completed_node e nid n aid res" and none: "run_termination (eng_run e) = None"
    and p: "p = dn_ExecutionPolicy (node_def e nid)"
    and room: "if kind = AttemptRecovery then node_recoveryCount n < ep_MaxRecoveries p
         else node_businessAttemptCount n < ep_MaxAttempts p"
  shows "advance\<^sup>*\<^sup>* e (fst (retry_wait ts e nid n aid kind p))"
  using adv_retry [OF c none room [unfolded p]]
  by (auto simp: retry_wait_def split: option.split sum.split)

lemma attempt_failure_code [simp]:
  "fail_Code (attempt_failure e n aid code res) = code" "fail_Phase (attempt_failure e n aid code res) = ''node_execution''"
  by (simp_all add: attempt_failure_def engine_failure_def)

lemma complete_running_advances:
  assumes ok: "engine_ok e" and c: "completed_node e nid n aid res" and none: "run_termination (eng_run e) = None"
    and ts: "ts \<noteq> 0" "run_createdAt (eng_run e) \<le> ts"
    and n: "\<not> NodeState_Terminal (node_state n)" "node_state n \<noteq> NodePending"
  shows "advance\<^sup>*\<^sup>* e (fst (complete_running ts e nid n aid res))"
proof -
  obtain a where a: "map_of (eng_attempts e) aid = Some a" "att_result a = Some res"
      and look: "map_of (eng_nodes e) nid = Some n"
    using c by (auto simp: completed_node_def)
  have code: "res_ErrorCode res \<noteq> ''''" if "res_State res \<noteq> AttemptSucceeded"
    using attempts_okD [OF engine_okD(4) [OF ok] a(1)] a(2) that by (auto simp: attempt_wf_def)
  have nid: "node_executionNodeID n = nid"
    using nodes_okD [OF engine_okD(2) [OF ok] look] by (simp add: node_ok_def)
  note fail = fail_run_advances [OF ok c none ts _ _ n]
  note retry = retry_wait_advances [OF c none refl]
  show ?thesis
  proof (cases "res_State res")
    case AttemptSucceeded
    have "advance\<^sup>*\<^sup>* e (fst (drive ts e'))"
      if "acceptSuccess e nid n (node_def e (node_executionNodeID n)) aid (res_Outputs res) = Inr e'" for e'
    proof -
      have step: "advance e e'"
        using acceptSuccess_advances [OF ok c AttemptSucceeded that] .
      then have "engine_ok e'" "time_ok e' ts"
        using ok ts advance_engine_ok advance_createdAt [OF step] by (auto simp: time_ok_def)
      then show ?thesis
        using step drive_advances by (meson converse_rtranclp_into_rtranclp)
    qed
    moreover have "fail_Code (engine_failure e FailureOutputContract ''output_binding'' v w x y z) \<noteq> ''''"
      "fail_Phase (engine_failure e FailureOutputContract ''output_binding'' v w x y z) \<noteq> ''input_binding''" for v w x y z
      by (simp_all add: engine_failure_def FailureOutputContract_def)
    then have "advance\<^sup>*\<^sup>* e (fst (fail_run ts e nid (NodeRun_FailAttempt n aid NodeFailed
        (engine_failure e FailureOutputContract ''output_binding'' v w x y z))
        (engine_failure e FailureOutputContract ''output_binding'' v w x y z)))"
      for v w x y z
      using fail by blast
    ultimately show ?thesis
      using AttemptSucceeded by (auto simp: complete_running_def Let_def split: sum.split)
  next
    case AttemptLost
    then show ?thesis
      using code fail [of "attempt_failure e n aid (res_ErrorCode res) res"] retry [of AttemptRecovery ts]
      by (auto simp: complete_running_def Let_def nid)
  next
    case AttemptCanceled
    then show ?thesis
      using code fail [of "attempt_failure e n aid (res_ErrorCode res) res"]
      by (auto simp: complete_running_def Let_def nid)
  next
    case AttemptFailed
    then show ?thesis
      using code fail [of "attempt_failure e n aid (res_ErrorCode res) res"] retry [of AttemptBusiness ts]
      by (auto simp: complete_running_def Let_def nid)
  next
    case AttemptTimedOut
    then show ?thesis
      using code fail [of "attempt_failure e n aid (res_ErrorCode res) res"] retry [of AttemptBusiness ts]
      by (auto simp: complete_running_def Let_def nid)
  qed (simp_all add: complete_running_def Let_def)
qed

lemma drive_terminating_run:
  "run_termination (eng_run e) = Some intent \<Longrightarrow> advance\<^sup>*\<^sup>* e (fst (drive ts e))"
  using drive_terminating_advances [of e intent] by (simp add: drive.simps)

lemma complete_terminating_advances:
  assumes ok: "engine_ok e" and c: "completed_node e nid n aid res" and some: "run_termination (eng_run e) = Some intent"
  shows "advance\<^sup>*\<^sup>* e (fst (complete_terminating ts e nid n aid res (ti_Kind intent)))"
proof -
  have accept: "advance\<^sup>*\<^sup>* e (fst (drive ts e'))"
    if "acceptSuccess e nid n (node_def e (node_executionNodeID n)) aid (res_Outputs res) = Inr e'"
      "res_State res = AttemptSucceeded" for e'
  proof -
    have "advance e e'"
      using acceptSuccess_advances [OF ok c that(2,1)] .
    moreover have "run_termination (eng_run e') = Some intent"
      using that some by (auto simp: acceptSuccess_def split: option.splits sum.splits)
    ultimately show ?thesis
      using drive_terminating_run by (meson converse_rtranclp_into_rtranclp)
  qed
  have cancel: "advance\<^sup>*\<^sup>* e (fst (drive ts (set_node e nid n')))"
    if "NodeRun_Cancel n (cancelReason (ti_Kind intent)) = Inr n'" for n'
    using adv_cancel_completed [OF c some that] drive_terminating_run [of "set_node e nid n'" intent ts] some
    by (simp add: converse_rtranclp_into_rtranclp)
  show ?thesis
    using accept cancel by (auto simp: complete_terminating_def split: sum.split)
qed

lemma HandleAttemptCompleted_advances:
  assumes "engine_ok e"
  shows "advance\<^sup>*\<^sup>* e (fst (HandleAttemptCompleted aid ts e))"
proof (cases "map_of (eng_attempts e) aid")
  case (Some a)
  let ?nid = "attempt_node e aid"
  note owner = attempt_node_of [OF assms Some]
  have pending: "node_state n \<noteq> NodePending" if "map_of (eng_nodes e) ?nid = Some n" "node_currentAttemptID n = aid" for n
  proof -
    have "aid \<noteq> ''''"
      using attempts_okD [OF engine_okD(4) [OF assms] Some] by (auto simp: attempt_wf_def)
    moreover have "node_wf n"
      using nodes_okD [OF engine_okD(2) [OF assms] that(1)] by (simp add: node_ok_def)
    ultimately show ?thesis
      using that(2) unfolding node_wf_def by blast
  qed
  have completed: "completed_node e ?nid n aid res" if "map_of (eng_nodes e) ?nid = Some n"
      "node_currentAttemptID n = aid" "att_result a = Some res" for n res
    using that owner Some by (simp add: completed_node_def)
  show ?thesis
    using Some completed complete_terminating_advances [OF assms] complete_running_advances [OF assms] pending
    by (auto simp: HandleAttemptCompleted_def Let_def split: option.split)
qed (simp add: HandleAttemptCompleted_def)

lemma Engine_RetryDue_advances: "advance\<^sup>*\<^sup>* e (fst (Engine_RetryDue nid ts e))"
proof (cases "run_termination (eng_run e)")
  case None
  show ?thesis
  proof (cases "map_of (eng_nodes e) nid")
    case (Some n)
    show ?thesis
    proof (cases "NodeRun_RetryDue n ts")
      case (Inr r)
      obtain b n' where r: "r = (b, n')"
        by (cases r)
      show ?thesis
      proof (cases b)
        case True
        then show ?thesis
          using None Some Inr r adv_due [OF None Some, of ts n'] by (auto simp: Engine_RetryDue_def)
      next
        case False
        then have "n' = n"
          using RetryDue_Inr [of n ts b n'] Inr r by simp
        then show ?thesis
          using None Some Inr r by (simp add: Engine_RetryDue_def set_node_same)
      qed
    qed (use None Some in \<open>simp add: Engine_RetryDue_def\<close>)
  qed (use None in \<open>simp add: Engine_RetryDue_def\<close>)
next
  case (Some intent)
  then show ?thesis
    using drive_terminating_run by (simp add: Engine_RetryDue_def)
qed

lemma request_and_drive_advances:
  assumes "kind \<noteq> TerminationFailed"
  shows "advance\<^sup>*\<^sup>* e (fst (request_and_drive kind cause ts e))"
proof (cases "WorkflowRun_RequestTermination (eng_run e) \<lparr>ti_Kind = kind, ti_RequestedAt = ts, ti_Cause = cause\<rparr>")
  case (Inr r)
  obtain b run' where r: "r = (b, run')"
    by (cases r)
  have intent_set: "run_termination run' \<noteq> None"
    using RequestTermination_Inr [OF Inr [unfolded r]] by (cases b) auto
  then obtain intent where intent: "run_termination run' = Some intent"
    by auto
  have "advance\<^sup>*\<^sup>* e (e\<lparr>eng_run := run'\<rparr>)"
  proof (cases b)
    case True
    then have "requested e kind run'"
      using Inr r unfolding requested_def by fastforce
    then show ?thesis
      using assms adv_terminate by blast
  next
    case False
    then have "run' = eng_run e"
      using RequestTermination_Inr [of "eng_run e" _ b run'] Inr r by auto
    then show ?thesis
      by simp
  qed
  moreover have "advance\<^sup>*\<^sup>* (e\<lparr>eng_run := run'\<rparr>) (fst (drive ts (e\<lparr>eng_run := run'\<rparr>)))"
    using drive_terminating_run [of "e\<lparr>eng_run := run'\<rparr>" intent] intent by simp
  ultimately show ?thesis
    using Inr r by (simp add: request_and_drive_def)
qed (simp add: request_and_drive_def)

lemma RequestCancel_advances: "advance\<^sup>*\<^sup>* e (fst (RequestCancel ts cause e))"
  by (simp add: RequestCancel_def request_and_drive_advances)

lemma DeadlineReached_advances: "advance\<^sup>*\<^sup>* e (fst (DeadlineReached ts e))"
  by (simp add: DeadlineReached_def request_and_drive_advances)

lemma CancelAttempt_advances:
  assumes "engine_ok e"
  shows "advance\<^sup>*\<^sup>* e (fst (CancelAttempt aid ts e))"
proof -
  define res where "res = \<lparr>res_State = AttemptCanceled, res_Outputs = [], res_ErrorCode = ''ATTEMPT_CANCELED'',
     res_Message = ''attempt cancellation acknowledged'', res_DSLField = '''', res_ErrorDetails = None\<rparr>"
  obtain e1 r where r: "RecordAttemptResult aid res e = (e1, r)"
    by fastforce
  then have e1: "advance\<^sup>*\<^sup>* e e1"
    using RecordAttemptResult_advances [OF assms, of aid res] by simp
  then have "advance\<^sup>*\<^sup>* e1 (fst (HandleAttemptCompleted aid ts e1))"
    using assms advances_engine_ok HandleAttemptCompleted_advances by blast
  then show ?thesis
    using e1 r unfolding CancelAttempt_def res_def [symmetric] by (auto split: sum.split)
qed

section \<open>Reachable engines\<close>

text \<open>One call of an operation that changes the engine, whatever it returns.\<close>

inductive engine_op :: "Engine \<Rightarrow> Engine \<Rightarrow> bool" where
  "engine_op e (fst (QueueNode nid aid e))"
| "engine_op e (fst (StartAttempt aid e))"
| "engine_op e (fst (RecordAttemptResult aid res e))"
| "engine_op e (fst (HandleAttemptCompleted aid ts e))"
| "engine_op e (fst (Engine_RetryDue nid ts e))"
| "engine_op e (fst (RequestCancel ts cause e))"
| "engine_op e (fst (DeadlineReached ts e))"
| "engine_op e (fst (CancelAttempt aid ts e))"

lemma engine_op_advances: "engine_op e e' \<Longrightarrow> engine_ok e \<Longrightarrow> advance\<^sup>*\<^sup>* e e'"
  by (induction rule: engine_op.induct)
    (simp_all add: QueueNode_advances StartAttempt_advances RecordAttemptResult_advances
      HandleAttemptCompleted_advances Engine_RetryDue_advances RequestCancel_advances DeadlineReached_advances
      CancelAttempt_advances)

lemma engine_op_ok: "engine_op e e' \<Longrightarrow> engine_ok e \<Longrightarrow> engine_ok e'"
  using engine_op_advances advances_engine_ok by blast

lemma engine_ops_ok: "engine_op\<^sup>*\<^sup>* e e' \<Longrightarrow> engine_ok e \<Longrightarrow> engine_ok e'"
  by (induction rule: rtranclp_induct) (auto intro: engine_op_ok)

lemma engine_ops_advances: "engine_op\<^sup>*\<^sup>* e e' \<Longrightarrow> engine_ok e \<Longrightarrow> advance\<^sup>*\<^sup>* e e'"
  by (induction rule: rtranclp_induct) (auto intro: rtranclp_trans engine_op_advances engine_ops_ok)

end
