(* ===== verification/Engine_New.thy ===== *)
theory Engine_New
  imports Engine_Operations
begin

text \<open>
  A new engine satisfies the invariant: the indexes that \<^verbatim>\<open>New\<close> of \<^verbatim>\<open>engine.go\<close> builds from the cloned and
  validated document, its pending node runs, and the entry that \<^verbatim>\<open>initialize\<close> completes before it drives.
\<close>

section \<open>Indexes of the document\<close>

text \<open>Attempt sequences are 32 bit numbers: a policy's attempts and recoveries together stay below.\<close>

definition small_budgets :: "Document \<Rightarrow> bool" where
  "small_budgets d \<longleftrightarrow> (\<forall>n \<in> set (doc_Nodes d).
     unat (ep_MaxAttempts (dn_ExecutionPolicy n)) + unat (ep_MaxRecoveries (dn_ExecutionPolicy n)) < 2 ^ 32)"

text \<open>
  A contract whose control operations are the start, the end and the branch operation in their
  first version, and whose other operations are tasks.
\<close>

definition standard_control :: "Contract \<Rightarrow> bool" where
  "standard_control c \<longleftrightarrow> (\<forall>ty v spec. map_of (con_specs c) (ty, v) = Some spec \<longrightarrow>
     (if control_type ty then v = 1 \<and> os_Kind spec = KindControl else os_Kind spec = KindTask))"

lemma BuiltinV1Contract_standard: "standard_control (BuiltinV1Contract ParseFile)"
  by (auto simp: standard_control_def BuiltinV1Contract_def builtin_specs_def control_type_def split: if_splits)

lemma those_Some: "those xs = Some ys \<longleftrightarrow> xs = map Some ys"
proof (induction xs arbitrary: ys)
  case (Cons x xs)
  have none: "those (map Some zs) = Some zs" for zs :: "'a list"
    by (induction zs) auto
  show ?case
    using Cons.IH none by (cases x; cases ys) (auto split: option.splits)
qed auto

lemma cloneDocument_budgets:
  assumes "cloneDocument d = Inr d'" and "small_budgets d"
  shows "small_budgets d'"
proof -
  obtain nodes where nodes: "map clone_node (doc_Nodes d) = map Some nodes" "doc_Nodes d' = nodes"
    using assms(1) by (auto simp: cloneDocument_def those_Some split: option.splits)
  have "dn_ExecutionPolicy m = clone_policy (dn_ExecutionPolicy n)" if "clone_node n = Some m" for n m
    using that by (auto simp: clone_node_def split: option.splits)
  moreover have "\<exists>n \<in> set (doc_Nodes d). clone_node n = Some m" if "m \<in> set nodes" for m
    using nodes(1) that by (metis (no_types, lifting) image_iff list.set_map)
  ultimately show ?thesis
    using assms(2) nodes(2) by (fastforce simp: small_budgets_def clone_policy_def)
qed

lemma fold_update_new:
  "distinct (map key xs) \<Longrightarrow> \<forall>x \<in> set xs. key x \<notin> fst ` set m \<Longrightarrow>
     fold (\<lambda>x. AList.update (key x) (val x)) xs m = m @ map (\<lambda>x. (key x, val x)) xs"
proof (induction xs arbitrary: m)
  case (Cons x xs)
  then have "\<forall>y \<in> set xs. key y \<notin> fst ` set (m @ [(key x, val x)])"
    by (auto simp: image_iff)
  then show ?case
    using Cons by (simp add: update_new)
qed simp

lemma slice_group_edges:
  "slice_at (group_edges key edges) v = sort_key edge_ID (filter (\<lambda>d. key d = v) edges)"
  by (simp add: group_edges_def slice_at_fold_append [where val = "\<lambda>d. d"])

lemma single_member: "length (filter P xs) = 1 \<Longrightarrow> x \<in> set xs \<Longrightarrow> P x \<Longrightarrow> y \<in> set xs \<Longrightarrow> P y \<Longrightarrow> x = y"
proof -
  assume "length (filter P xs) = 1"
  then obtain z where "filter P xs = [z]"
    by (auto simp: length_Suc_conv)
  moreover assume "x \<in> set xs" "P x" "y \<in> set xs" "P y"
  moreover have "set (filter P xs) = {x \<in> set xs. P x}"
    by auto
  ultimately have "x \<in> {z}" "y \<in> {z}"
    by (metis (mono_tags, lifting) empty_set list.simps(15) mem_Collect_eq)+
  then show ?thesis
    by simp
qed

lemma validateNode_spec:
  "validateNode c n = [] \<Longrightarrow> map_of (con_specs c) (Operation_Coordinate (dn_Operation n)) \<noteq> None"
  by (cases "map_of (con_specs c) (Operation_Coordinate (dn_Operation n))") (simp_all add: validateNode_def)

lemma validateTaskPolicy_Nil:
  "validateTaskPolicy n = [] \<Longrightarrow>
     ep_MaxAttempts (dn_ExecutionPolicy n) \<noteq> 0 \<and> ep_RetryBackoff (dn_ExecutionPolicy n) \<noteq> None"
  by (auto simp: validateTaskPolicy_def Let_def split: option.splits if_splits)

lemma validateNode_policy:
  "validateNode c n = [] \<Longrightarrow> dn_Kind n \<noteq> KindControl \<Longrightarrow>
     ep_MaxAttempts (dn_ExecutionPolicy n) \<noteq> 0 \<and> ep_RetryBackoff (dn_ExecutionPolicy n) \<noteq> None"
  by (rule validateTaskPolicy_Nil) (auto simp: validateNode_def split: option.splits)

lemma validateNode_kind:
  "validateNode c n = [] \<Longrightarrow> map_of (con_specs c) (Operation_Coordinate (dn_Operation n)) = Some spec \<Longrightarrow>
     dn_Kind n = os_Kind spec"
  by (simp add: validateNode_def)

lemma accepted_control:
  assumes "standard_control c" and "validateNode c n = []"
  shows "if control_type (op_Type (dn_Operation n)) then op_Version (dn_Operation n) = 1 \<and> dn_Kind n = KindControl
    else dn_Kind n = KindTask"
proof -
  obtain spec where spec: "map_of (con_specs c) (Operation_Coordinate (dn_Operation n)) = Some spec"
    using validateNode_spec [OF assms(2)] by auto
  then show ?thesis
    using assms(1) validateNode_kind [OF assms(2) spec]
    unfolding standard_control_def Operation_Coordinate_def by metis
qed

lemma boundary_unique:
  assumes one: "length (filter (\<lambda>n. Operation_Coordinate (dn_Operation n) = (ty, 1)) (doc_Nodes d)) = 1"
    and m: "node_of d v = Some m" "Operation_Coordinate (dn_Operation m) = (ty, 1)"
    and n: "n \<in> set (doc_Nodes d)" "op_Type (dn_Operation n) = ty" "op_Version (dn_Operation n) = 1"
  shows "dn_ID n = v"
proof -
  have "m \<in> set (doc_Nodes d)" "dn_ID m = v"
    using map_of_SomeD [OF m(1) [unfolded node_of_def]] by auto
  moreover have "Operation_Coordinate (dn_Operation n) = (ty, 1)"
    by (simp add: Operation_Coordinate_def n)
  ultimately show ?thesis
    using single_member [of "\<lambda>n. Operation_Coordinate (dn_Operation n) = (ty, 1)" "doc_Nodes d" n m]
      one m(2) n(1) by blast
qed

lemma boundary_nodes:
  assumes "wf_document d" and "standard_control c" and v: "\<forall>n \<in> set (doc_Nodes d). validateNode c n = []"
    and n: "n \<in> set (doc_Nodes d)"
  shows "op_Type (dn_Operation n) = ''control.end'' \<Longrightarrow> dn_ID n = doc_ExitNodeID d"
    and "op_Type (dn_Operation n) = ''control.start'' \<Longrightarrow> dn_ID n = doc_EntryNodeID d"
    and "dn_Kind n = (if control_type (op_Type (dn_Operation n)) then KindControl else KindTask)"
proof -
  have doc: "doc_nodes_ok d"
    using assms(1) by (simp add: wf_document_def)
  have kind: "if control_type (op_Type (dn_Operation n)) then op_Version (dn_Operation n) = 1 \<and> dn_Kind n = KindControl
      else dn_Kind n = KindTask"
    using accepted_control [OF assms(2)] v n by blast
  then show "dn_Kind n = (if control_type (op_Type (dn_Operation n)) then KindControl else KindTask)"
    by presburger
  show "dn_ID n = doc_ExitNodeID d" if ty: "op_Type (dn_Operation n) = ''control.end''"
  proof -
    have "op_Version (dn_Operation n) = 1"
      using kind ty by (simp add: control_type_def)
    then show ?thesis
      using doc n ty boundary_unique [of "''control.end''" d] unfolding doc_nodes_ok_def by blast
  qed
  show "dn_ID n = doc_EntryNodeID d" if ty: "op_Type (dn_Operation n) = ''control.start''"
  proof -
    have "op_Version (dn_Operation n) = 1"
      using kind ty by (simp add: control_type_def)
    then show ?thesis
      using doc n ty boundary_unique [of "''control.start''" d] unfolding doc_nodes_ok_def by blast
  qed
qed

lemma fresh_static_ok:
  assumes "Validate c (snap_DSL s) = []" and "standard_control c" and "small_budgets (snap_DSL s)"
  shows "static_ok (fresh_engine s run nodes)"
proof -
  let ?d = "snap_DSL s"
  have wf: "wf_document ?d" and v: "\<forall>n \<in> set (doc_Nodes ?d). validateNode c n = []"
    using assms(1) by (simp_all add: Validate_empty)
  have "distinct (map dn_ID (doc_Nodes ?d))"
    using wf by (simp add: wf_document_def doc_nodes_ok_def)
  then have "eng_nodeDefs (fresh_engine s run nodes) = map (\<lambda>n. (dn_ID n, n)) (doc_Nodes ?d)"
    using fold_update_new [of dn_ID _ "[]" "\<lambda>n. n"] by (simp add: fresh_engine_def Let_def)
  moreover have "eng_doc (fresh_engine s run nodes) = ?d"
      "eng_incoming (fresh_engine s run nodes) = group_edges edge_TargetNodeID (doc_Edges ?d)"
      "eng_outgoing (fresh_engine s run nodes) = group_edges edge_SourceNodeID (doc_Edges ?d)"
    by (simp_all add: fresh_engine_def Let_def)
  ultimately show ?thesis
    using wf boundary_nodes [OF wf assms(2) v] validateNode_policy [OF bspec [OF v]] assms(3)
    by (simp add: static_ok_def slice_group_edges small_budgets_def)
qed

section \<open>Node runs\<close>

definition pending_node :: "string \<Rightarrow> Node \<Rightarrow> NodeRun" where
  "pending_node runID d = projr (NewNodeRun runID (dn_ID d) (definition_kind d))"

lemma new_node_runs_Inr:
  assumes "new_node_runs runID ds acc = Inr nodes" and "distinct (map dn_ID ds)"
    and "\<forall>d \<in> set ds. dn_ID d \<notin> fst ` set acc"
  shows "nodes = acc @ map (\<lambda>d. (dn_ID d, pending_node runID d)) ds
    \<and> (\<forall>d \<in> set ds. NewNodeRun runID (dn_ID d) (definition_kind d) = Inr (pending_node runID d))"
  using assms
proof (induction ds arbitrary: acc)
  case (Cons d ds)
  then obtain n where n: "NewNodeRun runID (dn_ID d) (definition_kind d) = Inr n"
      "new_node_runs runID ds (acc @ [(dn_ID d, n)]) = Inr nodes"
    by (auto simp: update_new split: sum.splits)
  have "\<forall>c \<in> set ds. dn_ID c \<notin> fst ` set (acc @ [(dn_ID d, n)])"
    using Cons.prems by (auto simp: image_iff)
  then show ?case
    using Cons.IH [OF n(2)] Cons.prems(2) n(1) by (auto simp: pending_node_def)
qed simp

text \<open>The node runs of a new engine: one pending run per definition.\<close>

definition fresh_nodes :: "Engine \<Rightarrow> bool" where
  "fresh_nodes e \<longleftrightarrow> distinct (map fst (eng_nodes e)) \<and> fst ` set (eng_nodes e) = doc_ids (eng_doc e)
     \<and> (\<forall>nid n. map_of (eng_nodes e) nid = Some n \<longrightarrow>
          NewNodeRun (run_id (eng_run e)) nid (definition_kind (node_def e nid)) = Inr n)"

lemma fresh_engine_nodes:
  assumes s: "static_ok (fresh_engine s run nodes)" and "new_node_runs (run_id run) (doc_Nodes (snap_DSL s)) [] = Inr nodes"
  shows "fresh_nodes (fresh_engine s run nodes)"
proof -
  let ?e = "fresh_engine s run nodes" and ?d = "snap_DSL s"
  have e: "eng_nodes ?e = nodes" "eng_doc ?e = ?d" "eng_run ?e = run"
    by (simp_all add: fresh_engine_def Let_def)
  have dist: "distinct (map dn_ID (doc_Nodes ?d))"
    using s by (simp add: static_ok_def e wf_document_def doc_nodes_ok_def)
  note nodes = new_node_runs_Inr [OF assms(2) dist]
  have eq: "nodes = map (\<lambda>d. (dn_ID d, pending_node (run_id run) d)) (doc_Nodes ?d)"
    using nodes by simp
  have "NewNodeRun (run_id run) nid (definition_kind (node_def ?e nid)) = Inr n"
    if look: "map_of nodes nid = Some n" for nid n
  proof -
    obtain d where d: "d \<in> set (doc_Nodes ?d)" "nid = dn_ID d" "n = pending_node (run_id run) d"
      using map_of_SomeD [OF look] eq by auto
    have "map_of (map (\<lambda>n. (dn_ID n, n)) (doc_Nodes ?d)) nid = Some d"
      using d dist by (intro map_of_is_SomeI) (auto simp: comp_def)
    then have "node_def ?e nid = d"
      using s by (simp add: node_def_def static_ok_def e)
    then show ?thesis
      using nodes d by simp
  qed
  moreover have "distinct (map fst nodes)" "fst ` set nodes = doc_ids ?d"
    using dist unfolding eq by (simp_all add: comp_def doc_ids_def image_image)
  ultimately show ?thesis
    by (simp add: fresh_nodes_def e)
qed

section \<open>Initialization\<close>

text \<open>The engine after \<^verbatim>\<open>initialize\<close> has started the run and completed the entry, before it drives.\<close>

definition entered :: "Engine \<Rightarrow> WorkflowRun \<Rightarrow> NodeRun \<Rightarrow> Engine" where
  "entered e run n = (let entry = doc_EntryNodeID (eng_doc e) in
     settleOutgoing (set_node (e\<lparr>eng_run := run\<rparr>) entry n) entry '''')"

lemma initialize_Inr:
  assumes "initialize e = (e', Inr ())"
  obtains run n n' where "WorkflowRun_Start (eng_run e) (sortedNodeIDs e) = Inr run"
    and "map_of (eng_nodes e) (doc_EntryNodeID (eng_doc e)) = Some n"
    and "\<exists>m. NodeRun_Activate n = Inr m
      \<and> NodeRun_SucceedControl m '''' [(''workflow_input'', run_workflowInput run)] = Inr n'"
    and "drive 0 (entered e run n') = (e', None)"
  using assms
  by (auto simp: initialize_def Let_def drive_result_def entered_def split: sum.splits option.splits prod.splits)

lemma entered_nodes:
  "eng_nodes (entered e run n) = AList.update (doc_EntryNodeID (eng_doc e)) n (eng_nodes e)"
  "eng_doc (entered e run n) = eng_doc e" "eng_run (entered e run n) = run"
  "eng_attempts (entered e run n) = eng_attempts e" "eng_attemptNodes (entered e run n) = eng_attemptNodes e"
  "node_def (entered e run n) = node_def e" "eng_nodeDefs (entered e run n) = eng_nodeDefs e"
  "eng_incoming (entered e run n) = eng_incoming e" "eng_outgoing (entered e run n) = eng_outgoing e"
  by (simp_all add: entered_def Let_def settleOutgoing_def set_node_def node_def_def fun_eq_iff)

lemma completed_control_wf:
  assumes "node_wf n" and "node_state n = NodePending" and "node_kind n = NodeControl"
    and "n' = n\<lparr>node_activated := True, node_state := NodeSucceeded, node_stateVersion := v,
      node_selectedRoute := r, node_effectiveOutputs := outs\<rparr>"
  shows "node_wf n'" and "node_counted n \<Longrightarrow> node_counted n'"
  using assms by (simp_all add: node_wf_def node_counted_def)

lemma entered_ok:
  assumes s: "static_ok e" and f: "fresh_nodes e" and r: "run_wf (eng_run e)" "run_termination (eng_run e) = None"
    and a: "eng_attempts e = []" "eng_attemptNodes e = []"
    and edges: "eng_edges e = fold (\<lambda>edge. AList.update (edge_ID edge) EdgePending) (doc_Edges (eng_doc e)) []"
    and run: "WorkflowRun_Start (eng_run e) (sortedNodeIDs e) = Inr run"
    and n: "map_of (eng_nodes e) (doc_EntryNodeID (eng_doc e)) = Some n"
    and m: "NodeRun_Activate n = Inr m" "NodeRun_SucceedControl m '''' [(''workflow_input'', run_workflowInput run)] = Inr n'"
  shows "engine_ok (entered e run n')"
proof -
  let ?e = "entered e run n'" and ?entry = "doc_EntryNodeID (eng_doc e)"
  note es = entered_nodes [of e run n']
  have new: "NewNodeRun (run_id (eng_run e)) nid (definition_kind (node_def e nid)) = Inr k"
    if "map_of (eng_nodes e) nid = Some k" for nid k
    using f that unfolding fresh_nodes_def by blast
  obtain v where n': "n' = n\<lparr>node_activated := True, node_state := NodeSucceeded, node_stateVersion := v,
      node_selectedRoute := '''', node_effectiveOutputs := [(''workflow_input'', run_workflowInput run)]\<rparr>"
      "node_kind n = NodeControl"
  proof -
    have "\<not> node_activated n"
      using new [OF n] by (auto simp: NewNodeRun_def split: if_splits)
    then show ?thesis
      using that Activate_Inr [OF m(1)] SucceedControl_Inr [OF m(2)] by auto
  qed
  have run': "run_wf run" "run_id run = run_id (eng_run e)" "run_state run = RunRunning" "run_termination run = None"
      "run_executionNodeIDs run = set (sortedNodeIDs e)"
    using Start_run_wf [OF run r(1)] run r(2) by (auto simp: run_ops split: run_splits dest!: collect_identities_Inr)
  have static: "static_ok ?e"
    using s by (simp add: static_ok_def es)
  have nodes: "map_of (eng_nodes ?e) nid = Some k \<longleftrightarrow>
      (if nid = ?entry then k = n' else map_of (eng_nodes e) nid = Some k)" for nid k
    by (auto simp: es)
  have fresh: "node_wf k \<and> node_counted k \<and> node_state k = NodePending \<and> node_currentAttemptID k = ''''
      \<and> node_runID k = run_id (eng_run e) \<and> node_executionNodeID k = nid
      \<and> node_kind k = definition_kind (node_def e nid) \<and> node_selectedRoute k = ''''
      \<and> node_businessAttemptCount k = 0 \<and> node_recoveryCount k = 0 \<and> node_nextAttemptKind k = AttemptInitial"
    if "map_of (eng_nodes e) nid = Some k" for nid k
    using new [OF that] NewNodeRun_wf [OF new [OF that]] by (auto simp: NewNodeRun_def split: if_splits)
  have entry: "node_wf n' \<and> node_counted n' \<and> node_currentAttemptID n' = '''' \<and> node_selectedRoute n' = ''''
      \<and> node_runID n' = run_id (eng_run e) \<and> node_executionNodeID n' = ?entry
      \<and> node_kind n' = definition_kind (node_def e ?entry) \<and> node_state n' = NodeSucceeded"
  proof -
    have "node_wf n'" "node_counted n'"
      using fresh [OF n] completed_control_wf [of n] n' by blast+
    then show ?thesis
      using fresh [OF n] unfolding n'(1) by simp
  qed
  have "nodes_ok ?e"
    unfolding nodes_ok_def
  proof (intro conjI allI impI)
    show "distinct (map fst (eng_nodes ?e))" "fst ` set (eng_nodes ?e) = doc_ids (eng_doc ?e)"
      using f n by (simp_all add: es fresh_nodes_def dom_update insert_absorb) (force dest: map_of_SomeD)
  next
    fix nid k
    assume "map_of (eng_nodes ?e) nid = Some k"
    then show "node_ok ?e nid k"
      using fresh [of nid k] entry unfolding nodes by (simp add: node_ok_def es run' split: if_splits)
  qed
  moreover have "run_ok ?e"
    using run' f by (simp add: run_ok_def es sortedNodeIDs_def fresh_nodes_def)
  moreover have "attempts_ok ?e" "live_ok ?e"
    by (simp_all add: attempts_ok_def live_ok_def es a)
  moreover have "current_ok ?e"
    using entry fresh unfolding current_ok_def nodes by (simp split: if_splits)
  moreover have "edges_ok ?e"
  proof -
    have "static_ok (e\<lparr>eng_run := run\<rparr>)"
      using s by (simp add: static_ok_def)
    moreover have "edges_ok (e\<lparr>eng_run := run\<rparr>)"
      unfolding edges_ok_def
    proof (intro ballI allI impI)
      fix d k
      assume d: "d \<in> set (doc_Edges (eng_doc (e\<lparr>eng_run := run\<rparr>)))"
        and k: "map_of (eng_nodes (e\<lparr>eng_run := run\<rparr>)) (edge_SourceNodeID d) = Some k"
      then have "map_of (eng_edges e) (edge_ID d) = Some EdgePending"
        by (auto simp: edges map_of_fold_update find_None_iff split: option.split)
      moreover have "node_state k = NodePending"
        using fresh k by simp
      ultimately show "edge_fits k d (map_of (eng_edges (e\<lparr>eng_run := run\<rparr>)) (edge_ID d))"
        by (simp add: edge_fits_pending)
    qed
    ultimately show ?thesis
      using edges_settle [of "e\<lparr>eng_run := run\<rparr>" n' "''''" ?entry] entry
      by (simp add: entered_def Let_def)
  qed
  moreover have "outcome_ok ?e"
    using entry fresh unfolding outcome_ok_def nodes by (simp add: es run')
  moreover have "outputs_ok ?e"
  proof -
    have "node_effectiveOutputs n' = [(''workflow_input'', run_workflowInput run)]" "node_kind n' = NodeControl"
      using n' by simp_all
    then show ?thesis
      using entry fresh unfolding outputs_ok_def nodes es by simp
  qed
  moreover have "budget_ok ?e"
    unfolding budget_ok_def
  proof (intro allI impI)
    fix nid k
    assume look: "map_of (eng_nodes ?e) nid = Some k" and kind: "node_kind k = NodeTask"
    then have k: "map_of (eng_nodes e) nid = Some k"
      using entry fresh [OF n] n'(2) unfolding nodes by (auto split: if_splits)
    then have "nid \<in> doc_ids (eng_doc e)"
      using f by (force simp: fresh_nodes_def dest: map_of_SomeD)
    moreover have "dn_Kind (node_def e nid) \<noteq> KindControl"
      using fresh [OF k] kind by (auto simp: definition_kind_def)
    ultimately have "ep_MaxAttempts (dn_ExecutionPolicy (node_def e nid)) \<noteq> 0"
      using node_def_of [OF s] s unfolding static_ok_def by blast
    then show "budget_fits (dn_ExecutionPolicy (node_def ?e nid)) k"
      using fresh [OF k] by (simp add: budget_fits_def es word_gt_0)
  qed
  ultimately show ?thesis
    using static by (simp add: engine_ok_def)
qed

section \<open>New engines and what they reach\<close>

lemma New_Inr:
  assumes "New c cc s cmd = Inr e"
  obtains d run nodes where "cloneDocument (snap_DSL s) = Inr d" and "Validate c d = []"
    and "NewWorkflowRun cmd = Inr run" and "new_node_runs (cmd_RunID cmd) (doc_Nodes d) [] = Inr nodes"
    and "initialize (fresh_engine (s\<lparr>snap_DSL := d\<rparr>) run nodes) = (e, Inr ())"
  using assms by (auto simp: New_def Let_def split: if_splits sum.splits list.splits prod.splits)

text \<open>The engine that \<^verbatim>\<open>New\<close> initializes: no attempts, pending edges, and a run that has not started.\<close>

definition unstarted :: "Engine \<Rightarrow> bool" where
  "unstarted e \<longleftrightarrow> static_ok e \<and> fresh_nodes e \<and> run_wf (eng_run e) \<and> run_termination (eng_run e) = None
     \<and> run_stateVersion (eng_run e) = 1 \<and> eng_attempts e = [] \<and> eng_attemptNodes e = []
     \<and> eng_edges e = fold (\<lambda>edge. AList.update (edge_ID edge) EdgePending) (doc_Edges (eng_doc e)) []"

lemma New_fresh:
  assumes "New c cc s cmd = Inr e" and "standard_control c" and "small_budgets (snap_DSL s)"
  obtains f where "unstarted f" and "initialize f = (e, Inr ())" and "run_command (eng_run f) = cmd"
    and "cloneDocument (snap_DSL s) = Inr (eng_doc f)" and "Validate c (eng_doc f) = []"
    and "eng_snapshot f = s\<lparr>snap_DSL := eng_doc f\<rparr>"
proof -
  obtain d run nodes where d: "cloneDocument (snap_DSL s) = Inr d" "Validate c d = []"
      and run: "NewWorkflowRun cmd = Inr run" "new_node_runs (cmd_RunID cmd) (doc_Nodes d) [] = Inr nodes"
      and init: "initialize (fresh_engine (s\<lparr>snap_DSL := d\<rparr>) run nodes) = (e, Inr ())"
    using New_Inr [OF assms(1)] by blast
  let ?f = "fresh_engine (s\<lparr>snap_DSL := d\<rparr>) run nodes"
  have static: "static_ok ?f"
    using fresh_static_ok [of c "s\<lparr>snap_DSL := d\<rparr>"] d assms(2,3) cloneDocument_budgets by simp
  note r = NewWorkflowRun_run_wf [OF run(1)]
  have "cmd_RunID cmd = run_id run"
    using r by (auto simp: run_command_def)
  then have fresh: "fresh_nodes ?f"
    using fresh_engine_nodes [OF static] run(2) by simp
  have f: "eng_run ?f = run" "eng_doc ?f = d" "eng_attempts ?f = []" "eng_attemptNodes ?f = []"
      "eng_edges ?f = fold (\<lambda>edge. AList.update (edge_ID edge) EdgePending) (doc_Edges d) []"
      "eng_snapshot ?f = s\<lparr>snap_DSL := d\<rparr>"
    by (simp_all add: fresh_engine_def Let_def)
  show ?thesis
    by (rule that [of ?f]) (use static fresh r d init in \<open>simp_all add: unstarted_def f\<close>)
qed

lemma unstarted_entered:
  assumes "unstarted f" and "initialize f = (e, Inr ())"
  obtains run n m n' where "WorkflowRun_Start (eng_run f) (sortedNodeIDs f) = Inr run"
    and "map_of (eng_nodes f) (doc_EntryNodeID (eng_doc f)) = Some n" and "NodeRun_Activate n = Inr m"
    and "NodeRun_SucceedControl m '''' [(''workflow_input'', run_workflowInput run)] = Inr n'"
    and "engine_ok (entered f run n')" and "drive 0 (entered f run n') = (e, None)"
proof -
  obtain run n m n' where step: "WorkflowRun_Start (eng_run f) (sortedNodeIDs f) = Inr run"
      "map_of (eng_nodes f) (doc_EntryNodeID (eng_doc f)) = Some n" "NodeRun_Activate n = Inr m"
      "NodeRun_SucceedControl m '''' [(''workflow_input'', run_workflowInput run)] = Inr n'"
      "drive 0 (entered f run n') = (e, None)"
    using initialize_Inr [OF assms(2)] by metis
  moreover have "engine_ok (entered f run n')"
    using entered_ok [OF _ _ _ _ _ _ _ step(1-4)] assms(1) by (simp add: unstarted_def)
  ultimately show ?thesis
    using that by blast
qed

lemma New_engine_ok:
  assumes "New c cc s cmd = Inr e" and "standard_control c" and "small_budgets (snap_DSL s)"
  shows "engine_ok e \<and> run_command (eng_run e) = cmd"
proof -
  obtain f where f: "unstarted f" "initialize f = (e, Inr ())" "run_command (eng_run f) = cmd"
    using New_fresh [OF assms] by blast
  obtain run n' where run: "WorkflowRun_Start (eng_run f) (sortedNodeIDs f) = Inr run"
      and ok: "engine_ok (entered f run n')" and drive: "drive 0 (entered f run n') = (e, None)"
    using unstarted_entered [OF f(1,2)] by metis
  have adv: "advance\<^sup>*\<^sup>* (entered f run n') e"
    using drive_advances [OF ok, of 0] drive by (simp add: time_ok_def)
  have "run_command (eng_run e) = run_command (eng_run (entered f run n'))"
    using adv by (induction rule: rtranclp_induct) (auto dest: advance_run_id)
  moreover have "run_command run = cmd"
    using run_step_command [OF rs_start [OF run]] f(3) by simp
  ultimately show ?thesis
    using advances_engine_ok [OF adv ok] by (simp add: entered_nodes)
qed

text \<open>The engines that a sequence of operations reaches from a new one, whatever the operations return.\<close>

definition reachable_engine :: "(string \<Rightarrow> py_Stmt list option) \<Rightarrow> Snapshot \<Rightarrow> CreateRunCommand \<Rightarrow> Engine \<Rightarrow> bool" where
  "reachable_engine ParseFile s cmd e \<longleftrightarrow> (\<exists>e0. NewBuiltinV1 ParseFile s cmd = Inr e0 \<and> engine_op\<^sup>*\<^sup>* e0 e)"

lemma reachable_engine_ok:
  "reachable_engine ParseFile s cmd e \<Longrightarrow> small_budgets (snap_DSL s) \<Longrightarrow> engine_ok e"
  using New_engine_ok [OF _ BuiltinV1Contract_standard] engine_ops_ok
  unfolding reachable_engine_def NewBuiltinV1_def by blast

text \<open>Every reachable engine has advanced from one that has just entered its definition.\<close>

definition entering :: "Engine \<Rightarrow> WorkflowRun \<Rightarrow> NodeRun \<Rightarrow> NodeRun \<Rightarrow> bool" where
  "entering f run n n' \<longleftrightarrow> unstarted f \<and> WorkflowRun_Start (eng_run f) (sortedNodeIDs f) = Inr run
     \<and> map_of (eng_nodes f) (doc_EntryNodeID (eng_doc f)) = Some n
     \<and> (\<exists>m. NodeRun_Activate n = Inr m
          \<and> NodeRun_SucceedControl m '''' [(''workflow_input'', run_workflowInput run)] = Inr n')
     \<and> engine_ok (entered f run n')"

lemma reachable_entered:
  assumes "reachable_engine ParseFile s cmd e" and "small_budgets (snap_DSL s)"
  obtains f run n n' where "entering f run n n'" and "advance\<^sup>*\<^sup>* (entered f run n') e"
    and "Validate (BuiltinV1Contract ParseFile) (eng_doc f) = []" and "cloneDocument (snap_DSL s) = Inr (eng_doc f)"
proof -
  obtain e0 where e0: "NewBuiltinV1 ParseFile s cmd = Inr e0" "engine_op\<^sup>*\<^sup>* e0 e"
    using assms(1) by (auto simp: reachable_engine_def)
  note new = e0(1) [unfolded NewBuiltinV1_def] BuiltinV1Contract_standard assms(2)
  obtain f where f: "unstarted f" "initialize f = (e0, Inr ())"
      and doc: "Validate (BuiltinV1Contract ParseFile) (eng_doc f) = []" "cloneDocument (snap_DSL s) = Inr (eng_doc f)"
    using New_fresh [OF new] by metis
  obtain run n m n' where step: "WorkflowRun_Start (eng_run f) (sortedNodeIDs f) = Inr run"
      "map_of (eng_nodes f) (doc_EntryNodeID (eng_doc f)) = Some n" "NodeRun_Activate n = Inr m"
      "NodeRun_SucceedControl m '''' [(''workflow_input'', run_workflowInput run)] = Inr n'"
      and ok: "engine_ok (entered f run n')" and drive: "drive 0 (entered f run n') = (e0, None)"
    by (rule unstarted_entered [OF f])
  have "advance\<^sup>*\<^sup>* (entered f run n') e0"
    using drive_advances [OF ok, of 0] drive by (simp add: time_ok_def)
  moreover have "advance\<^sup>*\<^sup>* e0 e"
    using engine_ops_advances [OF e0(2)] New_engine_ok [OF new] by simp
  ultimately have "advance\<^sup>*\<^sup>* (entered f run n') e"
    by simp
  moreover have "entering f run n n'"
    using f(1) step ok by (auto simp: entering_def)
  ultimately show ?thesis
    using that doc by blast
qed

end
