(* ===== verification/Engine_Versions.thy ===== *)
theory Engine_Versions
  imports Engine_New
begin

text \<open>
  The optimistic state versions of an engine never wrap: each is bounded by the number of attempts,
  which the retry budgets bound in turn. Restoring a persisted aggregate rejects version zero, so
  this is what makes every reachable engine restorable.
\<close>

section \<open>Bounds\<close>

fun state_phase :: "NodeState \<Rightarrow> bool \<Rightarrow> nat" where
  "state_phase NodePending activated = (if activated then 2 else 1)"
| "state_phase NodeReady activated = 3"
| "state_phase NodeQueued activated = 0"
| "state_phase NodeRunning activated = 1"
| "state_phase NodeRetryWait activated = 2"
| "state_phase _ activated = 4"

text \<open>Four changes per attempt, and the changes since the last one.\<close>

definition node_version_bound :: "NodeRun \<Rightarrow> nat" where
  "node_version_bound n = 4 * unat (node_nextAttemptSeq n) + state_phase (node_state n) (node_activated n)"

definition node_version_ok :: "NodeRun \<Rightarrow> bool" where
  "node_version_ok n \<longleftrightarrow> node_stateVersion n \<noteq> 0 \<and> unat (node_stateVersion n) \<le> node_version_bound n"

definition run_version_ok :: "WorkflowRun \<Rightarrow> bool" where
  "run_version_ok r \<longleftrightarrow> run_stateVersion r \<noteq> 0
     \<and> unat (run_stateVersion r) \<le> (if RunState_Terminal (run_state r) then 4 else if run_termination r = None then 2 else 3)"

definition attempt_version_ok :: "NodeAttempt \<Rightarrow> bool" where
  "attempt_version_ok a \<longleftrightarrow> att_stateVersion a \<noteq> 0
     \<and> unat (att_stateVersion a) \<le> (if AttemptState_Terminal (att_state a) then 3 else if att_state a = AttemptQueued then 1 else 2)"

definition versions_ok :: "Engine \<Rightarrow> bool" where
  "versions_ok e \<longleftrightarrow> run_version_ok (eng_run e)
     \<and> (\<forall>nid n. map_of (eng_nodes e) nid = Some n \<longrightarrow> node_version_ok n)
     \<and> (\<forall>aid a. map_of (eng_attempts e) aid = Some a \<longrightarrow> attempt_version_ok a)"

section \<open>Steps\<close>

lemma word_incr:
  fixes v :: "64 word"
  assumes "unat v \<le> b" and "b < 2 ^ 63"
  shows "v + 1 \<noteq> 0" and "unat (v + 1) \<le> b + 1"
proof -
  have "unat (v + 1) = unat v + 1"
    using assms by (simp add: unat_word_ariths)
  then show "v + 1 \<noteq> 0" "unat (v + 1) \<le> b + 1"
    using assms(1) by (auto simp del: unat_add_lem) 
qed

lemma node_bound_small: "node_version_bound n < 2 ^ 63"
proof -
  have "unat (node_nextAttemptSeq n) < 2 ^ 32"
    using unsigned_less [of "node_nextAttemptSeq n"] by simp
  moreover have "state_phase s b \<le> 4" for s b
    by (cases s) auto
  ultimately show ?thesis
    unfolding node_version_bound_def
    using add_less_le_mono [of "4 * unat (node_nextAttemptSeq n)" "4 * 2 ^ 32" "state_phase (node_state n) (node_activated n)" 4]
    by simp
qed

text \<open>Every step but queueing keeps the attempt sequence.\<close>

lemma node_step_version:
  assumes "node_step n n'" and ok: "node_version_ok n"
    and room: "node_state n = NodeReady \<Longrightarrow> unat (node_nextAttemptSeq n) < 2 ^ 32 - 1"
  shows "node_version_ok n'"
proof -
  note incr = word_incr [OF conjunct2 [OF ok [unfolded node_version_ok_def]] node_bound_small]
  have bound: "node_version_bound n + 1 \<le> node_version_bound n'"
    using assms(1) room
  proof (induction rule: node_step.induct)
    case (ns_queue n a sq k n')
    then show ?case
      using QueueAttempt_Inr [OF ns_queue(1)] by (auto simp: node_version_bound_def unat_word_ariths)
  next
    case (ns_fail_attempt n a st f n')
    then show ?case
      using FailAttempt_Inr [OF ns_fail_attempt(1)] by (auto simp: node_version_bound_def)
  qed (auto simp: node_version_bound_def dest!: node_op_Inr)
  have "node_stateVersion n' = node_stateVersion n + 1"
    using node_step_change [OF assms(1)] by simp
  then show ?thesis
    using incr bound by (simp add: node_version_ok_def)
qed

lemma run_step_version:
  assumes "run_step r r'" and "run_version_ok r" and "run_state r = RunRunning"
  shows "run_version_ok r'"
proof -
  have b: "unat (run_stateVersion r) \<le> (if run_termination r = None then 2 else 3)"
    using assms(2,3) by (auto simp: run_version_ok_def split: if_splits)
  have incr: "run_stateVersion r + 1 \<noteq> 0" "unat (run_stateVersion r + 1) \<le> (if run_termination r = None then 3 else 4)"
    using word_incr [OF b] by (auto split: if_splits)
  show ?thesis
    using assms(1) incr assms(3)
  proof (induction rule: run_step.induct)
    case (rs_request r i r')
    then show ?case
      using RequestTermination_Inr [OF rs_request(1)] by (auto simp: run_version_ok_def split: if_splits)
  next
    case (rs_terminate r ns r')
    obtain i where i: "run_termination r = Some i" "known_kind (ti_Kind i)"
        "r' = r\<lparr>run_state := kind_state (ti_Kind i), run_stateVersion := run_stateVersion r + 1\<rparr>"
      by (rule CompleteTermination_Inr [OF rs_terminate(1)])
    moreover have "RunState_Terminal (kind_state (ti_Kind i))"
      using i(2) by (auto simp: known_kind_def kind_state_def)
    ultimately show ?case
      using rs_terminate(2,3) by (simp add: run_version_ok_def)
  next
    case (rs_succeed r e ns out r' e')
    then show ?case
      using CompleteWorkflowSuccess_Inr [OF rs_succeed(1)] by (auto simp: run_version_ok_def split: if_splits)
  qed (auto simp: run_ops split: run_splits)
qed

lemma attempt_step_version:
  assumes "attempt_step a a'" and ok: "attempt_version_ok a" and "attempt_wf a"
  shows "attempt_version_ok a'"
  using assms
proof (induction rule: attempt_step.induct)
  case (as_start a a')
  then have "unat (att_stateVersion a) \<le> 1"
    using Start_attempt_Inr [OF as_start(1)] by (simp add: attempt_version_ok_def)
  then show ?case
    using Start_attempt_Inr [OF as_start(1)] word_incr [of "att_stateVersion a" 1]
    by (simp add: attempt_version_ok_def)
next
  case (as_complete a r a')
  then have "unat (att_stateVersion a) \<le> 2"
    by (auto simp: attempt_version_ok_def split: if_splits)
  then show ?case
    using Complete_Inr [OF as_complete(1)] as_complete(2) word_incr [of "att_stateVersion a" 2]
    by (simp add: attempt_version_ok_def)
qed

section \<open>Engines\<close>

lemma budget_room:
  fixes b r ma mr :: "32 word"
  assumes "b \<le> ma" and "r \<le> mr" and "b < ma \<or> r < mr" and "unat ma + unat mr < 2 ^ 32"
  shows "unat (b + r) < 2 ^ 32 - 1"
proof -
  have "unat b + unat r < unat ma + unat mr"
    using assms(1-3) by (auto simp: word_le_nat_alt word_less_nat_alt)
  moreover from this have "unat (b + r) = unat b + unat r"
    using assms(4) by (simp add: unat_word_ariths)
  ultimately show ?thesis
    using assms(4) by simp
qed

text \<open>A ready node has room for one more attempt sequence.\<close>

lemma ready_room:
  assumes "engine_ok e" and n: "map_of (eng_nodes e) nid = Some n" "node_state n = NodeReady"
  shows "unat (node_nextAttemptSeq n) < 2 ^ 32 - 1"
proof -
  have ok: "node_ok e nid n"
    using nodes_okD [OF engine_okD(2) [OF assms(1)] n(1)] .
  then have "node_kind n = NodeTask" "node_nextAttemptSeq n = node_businessAttemptCount n + node_recoveryCount n"
    using n(2) by (auto simp: node_ok_def node_wf_def node_counted_def)
  then have fits: "budget_fits (dn_ExecutionPolicy (node_def e nid)) n"
    using engine_okD(9) [OF assms(1)] n(1) by (simp add: budget_ok_def)
  have "node_def e nid \<in> set (doc_Nodes (eng_doc e))"
    using node_def_of [OF engine_okD(1) [OF assms(1)]] node_key [OF engine_okD(2) [OF assms(1)] n(1)] by blast
  then have "unat (ep_MaxAttempts (dn_ExecutionPolicy (node_def e nid)))
      + unat (ep_MaxRecoveries (dn_ExecutionPolicy (node_def e nid))) < 2 ^ 32"
    using engine_okD(1) [OF assms(1)] unfolding static_ok_def by blast
  moreover have "node_businessAttemptCount n < ep_MaxAttempts (dn_ExecutionPolicy (node_def e nid))
      \<or> node_recoveryCount n < ep_MaxRecoveries (dn_ExecutionPolicy (node_def e nid))"
    using fits n(2) by (simp add: budget_fits_def split: if_splits)
  ultimately show ?thesis
    using fits \<open>node_nextAttemptSeq n = _\<close> budget_room unfolding budget_fits_def by metis
qed

lemma advance_versions_ok:
  assumes step: "advance e e'" and ok: "engine_ok e" and v: "versions_ok e"
  shows "versions_ok e'"
proof -
  have "run_state (eng_run e) = RunRunning" if "run_step (eng_run e) (eng_run e')"
  proof -
    have "\<not> RunState_Terminal (run_state (eng_run e))"
      using run_step_change [OF that] by blast
    moreover have "run_state (eng_run e) \<in> {RunRunning, RunSucceeded, RunFailed, RunCanceled, RunTimedOut}"
      using engine_okD(3) [OF ok] unfolding run_ok_def run_wf_def by blast
    ultimately show ?thesis
      by auto
  qed
  then have "run_version_ok (eng_run e')"
    using advance_run [OF step] run_step_version v unfolding versions_ok_def by metis
  moreover have "node_version_ok n'" if "map_of (eng_nodes e') nid = Some n'" for nid n'
    using advance_node [OF step that] node_step_version ready_room [OF ok] v
    unfolding versions_ok_def by blast
  moreover have "attempt_version_ok a'" if "map_of (eng_attempts e') aid = Some a'" for aid a'
  proof -
    have "attempt_wf a" if "map_of (eng_attempts e) aid = Some a" for a
      using attempts_okD [OF engine_okD(4) [OF ok] that] by blast
    moreover have "attempt_version_ok a'" if "att_state a' = AttemptQueued" "att_stateVersion a' = 1"
      using that by (simp add: attempt_version_ok_def)
    ultimately show ?thesis
      using advance_attempt [OF step that] attempt_step_version v unfolding versions_ok_def by blast
  qed
  ultimately show ?thesis
    by (simp add: versions_ok_def)
qed

lemma advances_versions_ok: "advance\<^sup>*\<^sup>* e e' \<Longrightarrow> engine_ok e \<Longrightarrow> versions_ok e \<Longrightarrow> versions_ok e'"
  by (induction rule: rtranclp_induct) (auto intro: advance_versions_ok advances_engine_ok)

lemma entering_versions_ok:
  assumes "entering f run n n'"
  shows "versions_ok (entered f run n')"
proof -
  obtain m where f: "unstarted f" and run: "WorkflowRun_Start (eng_run f) (sortedNodeIDs f) = Inr run"
      and n: "map_of (eng_nodes f) (doc_EntryNodeID (eng_doc f)) = Some n"
      and m: "NodeRun_Activate n = Inr m"
        "NodeRun_SucceedControl m '''' [(''workflow_input'', run_workflowInput run)] = Inr n'"
    using assms by (auto simp: entering_def)
  have fresh: "node_stateVersion k = 1 \<and> node_state k = NodePending \<and> \<not> node_activated k"
    if "map_of (eng_nodes f) nid = Some k" for nid k
  proof -
    have "NewNodeRun (run_id (eng_run f)) nid (definition_kind (node_def f nid)) = Inr k"
      using f that unfolding unstarted_def fresh_nodes_def by blast
    then show ?thesis
      by (auto simp: NewNodeRun_def split: if_splits)
  qed
  have "run_version_ok run"
    using run f by (auto simp: unstarted_def run_version_ok_def run_ops split: run_splits)
  moreover have "node_version_ok k" if "map_of (eng_nodes f) nid = Some k" for nid k
    using fresh [OF that] by (simp add: node_version_ok_def node_version_bound_def)
  moreover have "node_version_ok n'"
    using fresh [OF n] Activate_Inr [OF m(1)] SucceedControl_Inr [OF m(2)]
    by (simp add: node_version_ok_def node_version_bound_def)
  ultimately show ?thesis
    using f by (simp add: versions_ok_def entered_nodes unstarted_def)
qed

lemma reachable_versions_ok:
  assumes "reachable_engine ParseFile s cmd e" and "small_budgets (snap_DSL s)"
  shows "versions_ok e"
proof -
  obtain f run n n' where "entering f run n n'" "advance\<^sup>*\<^sup>* (entered f run n') e"
    using reachable_entered [OF assms] by metis
  then show ?thesis
    using entering_versions_ok advances_versions_ok unfolding entering_def by blast
qed

end
