(* ===== verification/Engine_State.thy ===== *)
theory Engine_State
  imports Engine_Versions Runtime_Records
begin

text \<open>
  The persisted form of an engine, \<^verbatim>\<open>internal/runtime/engine/state.go\<close>: a snapshot holds the records of
  the run, of its node runs and of its attempts, in sorted order; restoring one builds a new engine
  from the immutable definition, checks every record against it, and settles the edges again from
  the terminal node runs.
\<close>

section \<open>Snapshots\<close>

record State =
  st_Run :: WorkflowRunRecord
  st_Nodes :: "NodeRunRecord list"
  st_Attempts :: "NodeAttemptRecord list"

definition SnapshotState :: "Engine \<Rightarrow> State" where
  "SnapshotState engine = \<lparr>
     st_Run = WorkflowRun_Snapshot (eng_run engine),
     st_Nodes = map NodeRun_Snapshot (List.map_filter (map_of (eng_nodes engine)) (sortedNodeIDs engine)),
     st_Attempts = map NodeAttempt_Snapshot
       (List.map_filter (map_of (eng_attempts engine)) (sorted_keys (eng_attempts engine)))\<rparr>"

section \<open>Restoring\<close>

definition entry_outputs :: "Engine \<Rightarrow> WorkflowRun \<Rightarrow> NodeRunRecord \<Rightarrow> NodeRunRecord" where
  "entry_outputs instance run rec =
     (if nrr_ExecutionNodeID rec = doc_EntryNodeID (eng_doc instance) \<and> nrr_State rec = NodeSucceeded
         \<and> length (nrr_EffectiveOutputs rec) = 0
      then rec\<lparr>nrr_EffectiveOutputs := [(''workflow_input'', run_workflowInput run)]\<rparr> else rec)"

fun restore_nodes ::
    "Engine \<Rightarrow> WorkflowRun \<Rightarrow> NodeRunRecord list \<Rightarrow> (NodeID, NodeRun) gomap \<Rightarrow> (NodeID, NodeRun) gomap result" where
  "restore_nodes instance run [] nodes = Inr nodes"
| "restore_nodes instance run (rec # recs) nodes =
     (let nid = nrr_ExecutionNodeID rec in
      case map_of (eng_nodeDefs instance) nid of
        None \<Rightarrow> Inl (Errorf (''persisted node '' @ quoted nid @ '' is absent from immutable DSL''))
      | Some definition \<Rightarrow>
          if nrr_RunID rec \<noteq> run_id run \<or> nrr_Kind rec \<noteq> definition_kind definition then
            Inl (Errorf (''persisted node '' @ quoted nid @ '' identity or kind disagrees with immutable DSL''))
          else case RestoreNodeRun (entry_outputs instance run rec) of
              Inl e \<Rightarrow> Inl e
            | Inr node \<Rightarrow>
                if map_of nodes nid \<noteq> None then
                  Inl (Errorf (''persisted node '' @ quoted nid @ '' is duplicated''))
                else restore_nodes instance run recs (AList.update nid node nodes))"

text \<open>The owner of an attempt is the empty identity when no node run has the recorded one.\<close>

definition attempt_owner :: "(NodeID, NodeRun) gomap \<Rightarrow> NodeAttemptRecord \<Rightarrow> NodeID" where
  "attempt_owner nodes rec =
     (case find (\<lambda>(nid, node). nar_NodeRunID rec = node_runID node @ '':'' @ node_executionNodeID node) nodes of
        None \<Rightarrow> '''' | Some (nid, node) \<Rightarrow> nid)"

fun restore_attempts ::
    "(NodeID, NodeRun) gomap \<Rightarrow> NodeAttemptRecord list \<Rightarrow> (string, NodeAttempt) gomap \<Rightarrow> (string, NodeID) gomap \<Rightarrow>
     ((string, NodeAttempt) gomap \<times> (string, NodeID) gomap) result" where
  "restore_attempts nodes [] attempts attemptNodes = Inr (attempts, attemptNodes)"
| "restore_attempts nodes (rec # recs) attempts attemptNodes =
     (case RestoreNodeAttempt rec of
        Inl e \<Rightarrow> Inl e
      | Inr attempt \<Rightarrow>
          (let owner = attempt_owner nodes rec in
           if owner = '''' then
             Inl (Errorf (''attempt '' @ quoted (nar_ID rec) @ '' references an unknown node run''))
           else if map_of attempts (nar_ID rec) \<noteq> None then
             Inl (Errorf (''persisted attempt '' @ quoted (nar_ID rec) @ '' is duplicated''))
           else restore_attempts nodes recs (AList.update (nar_ID rec) attempt attempts)
                  (AList.update (nar_ID rec) owner attemptNodes)))"

definition current_missing ::
    "(string, NodeAttempt) gomap \<Rightarrow> (string, NodeID) gomap \<Rightarrow> NodeID \<times> NodeRun \<Rightarrow> bool" where
  "current_missing attempts attemptNodes = (\<lambda>(nid, node).
     node_currentAttemptID node \<noteq> ''''
     \<and> (map_of attempts (node_currentAttemptID node) = None
        \<or> map_of attemptNodes (node_currentAttemptID node) \<noteq> Some nid))"

definition settle_restored :: "NodeID \<Rightarrow> Engine \<Rightarrow> Engine" where
  "settle_restored nid engine =
     (case map_of (eng_nodes engine) nid of
        None \<Rightarrow> engine
      | Some node \<Rightarrow> if NodeState_Terminal (node_state node)
                     then settleOutgoing engine nid (node_selectedRoute node) else engine)"

definition restored_engine ::
    "Engine \<Rightarrow> WorkflowRun \<Rightarrow> (NodeID, NodeRun) gomap \<Rightarrow> (string, NodeAttempt) gomap \<Rightarrow> (string, NodeID) gomap \<Rightarrow> Engine" where
  "restored_engine instance run nodes attempts attemptNodes =
     (let engine = instance\<lparr>eng_run := run, eng_nodes := nodes, eng_attempts := attempts,
            eng_attemptNodes := attemptNodes, eng_edges := map (\<lambda>(eid, st). (eid, EdgePending)) (eng_edges instance)\<rparr>
      in fold settle_restored (sortedNodeIDs engine) engine)"

definition Restore :: "Contract \<Rightarrow> CompatibilityChecker \<Rightarrow> Snapshot \<Rightarrow> State \<Rightarrow> Engine result" where
  "Restore contract compatibility snapshot state =
     (case New contract compatibility snapshot (record_command (st_Run state)) of
        Inl e \<Rightarrow> Inl e
      | Inr instance \<Rightarrow>
     (case RestoreWorkflowRun (st_Run state) of
        Inl e \<Rightarrow> Inl e
      | Inr run \<Rightarrow>
          if dr_SnapshotID (run_definition run) \<noteq> snap_ID snapshot
             \<or> dr_DefinitionHash (run_definition run) \<noteq> snap_DefinitionHash snapshot then
            Inl (EngineError ''RUNTIME_SNAPSHOT_BINDING_INVALID'' '''' '''')
          else if length (st_Nodes state) \<noteq> length (eng_nodeDefs instance) then
            Inl (Errorf ''persisted node set is incomplete'')
          else case restore_nodes instance run (st_Nodes state) [] of
              Inl e \<Rightarrow> Inl e
            | Inr nodes \<Rightarrow>
     (case restore_attempts nodes (st_Attempts state) [] [] of
        Inl e \<Rightarrow> Inl e
      | Inr (attempts, attemptNodes) \<Rightarrow>
          (case find (current_missing attempts attemptNodes) nodes of
             Some (nid, node) \<Rightarrow>
               Inl (Errorf (''node '' @ quoted nid @ '' current attempt is missing or belongs to another node''))
           | None \<Rightarrow> Inr (restored_engine instance run nodes attempts attemptNodes)))))"

definition RestoreBuiltinV1 :: "(string \<Rightarrow> py_Stmt list option) \<Rightarrow> Snapshot \<Rightarrow> State \<Rightarrow> Engine result" where
  "RestoreBuiltinV1 ParseFile snapshot state =
     Restore (BuiltinV1Contract ParseFile) BuiltinV1Compatibility snapshot state"

section \<open>Restoring a snapshot\<close>

lemma map_filter_the:
  "(\<And>k. k \<in> set ks \<Longrightarrow> f k \<noteq> None) \<Longrightarrow> List.map_filter f ks = map (\<lambda>k. the (f k)) ks"
  by (induction ks) (auto simp: List.map_filter_def)

lemma map_filter_keys: "List.map_filter (map_of m) (sorted_keys m) = map (\<lambda>k. the (map_of m k)) (sorted_keys m)"
  by (rule map_filter_the) (simp add: map_of_eq_None_iff)

lemma snapshot_nodes:
  "st_Nodes (SnapshotState e) = map (\<lambda>nid. NodeRun_Snapshot (the (map_of (eng_nodes e) nid))) (sortedNodeIDs e)"
  by (simp add: SnapshotState_def sortedNodeIDs_def map_filter_keys)

lemma snapshot_attempts:
  "st_Attempts (SnapshotState e)
     = map (\<lambda>aid. NodeAttempt_Snapshot (the (map_of (eng_attempts e) aid))) (sorted_keys (eng_attempts e))"
  by (simp add: SnapshotState_def map_filter_keys)

text \<open>A node run that restoring accepts as it is.\<close>

definition restorable :: "Engine \<Rightarrow> WorkflowRun \<Rightarrow> NodeID \<Rightarrow> NodeRun \<Rightarrow> bool" where
  "restorable i run nid n \<longleftrightarrow> node_wf n \<and> node_stateVersion n \<noteq> 0 \<and> node_executionNodeID n = nid
     \<and> node_runID n = run_id run
     \<and> (\<exists>d. map_of (eng_nodeDefs i) nid = Some d \<and> node_kind n = definition_kind d)
     \<and> (nid = doc_EntryNodeID (eng_doc i) \<longrightarrow> node_effectiveOutputs n \<noteq> [])"

lemma restore_nodes_snapshots:
  "distinct ids \<Longrightarrow> set ids \<inter> fst ` set acc = {} \<Longrightarrow> (\<And>nid. nid \<in> set ids \<Longrightarrow> restorable i run nid (f nid)) \<Longrightarrow>
     restore_nodes i run (map (\<lambda>nid. NodeRun_Snapshot (f nid)) ids) acc = Inr (acc @ map (\<lambda>nid. (nid, f nid)) ids)"
proof (induction ids arbitrary: acc)
  case (Cons nid ids)
  let ?n = "f nid"
  have r: "restorable i run nid ?n"
    using Cons.prems(3) by simp
  then have rec: "nrr_ExecutionNodeID (NodeRun_Snapshot ?n) = nid" "nrr_RunID (NodeRun_Snapshot ?n) = run_id run"
      "entry_outputs i run (NodeRun_Snapshot ?n) = NodeRun_Snapshot ?n" "nrr_Kind (NodeRun_Snapshot ?n) = node_kind ?n"
    by (auto simp: restorable_def NodeRun_Snapshot_def entry_outputs_def)
  have "RestoreNodeRun (NodeRun_Snapshot ?n) = Inr ?n"
    using r by (intro node_roundtrip) (simp_all add: restorable_def)
  moreover have "map_of acc nid = None"
    using Cons.prems(2) by (auto simp: map_of_eq_None_iff)
  ultimately have "restore_nodes i run (map (\<lambda>nid. NodeRun_Snapshot (f nid)) (nid # ids)) acc
      = restore_nodes i run (map (\<lambda>nid. NodeRun_Snapshot (f nid)) ids) (acc @ [(nid, ?n)])"
    using r by (auto simp: rec restorable_def update_new map_of_eq_None_iff)
  then show ?case
    using Cons.IH [of "acc @ [(nid, ?n)]"] Cons.prems by auto
qed simp

lemma attempt_owner_of:
  assumes "map_of nodes nid = Some n" and "\<And>k m. (k, m) \<in> set nodes \<Longrightarrow> node_executionNodeID m = k \<and> node_runID m = rid"
    and "nar_NodeRunID rec = rid @ '':'' @ nid"
  shows "attempt_owner nodes rec = nid"
proof -
  let ?P = "\<lambda>(k, m). nar_NodeRunID rec = node_runID m @ '':'' @ node_executionNodeID m"
  have "(nid, n) \<in> set nodes"
    using assms(1) by (rule map_of_SomeD)
  then have "?P (nid, n)"
    using assms(2,3) by simp
  then have "find ?P nodes \<noteq> None"
    using \<open>(nid, n) \<in> set nodes\<close> by (auto simp: find_None_iff)
  then obtain k m where km: "find ?P nodes = Some (k, m)"
    by auto
  then have "(k, m) \<in> set nodes" "?P (k, m)"
    using find_member [OF km] by simp_all
  then have "k = nid"
    using assms(2) [of k m] assms(3) by simp
  then show ?thesis
    using km by (simp add: attempt_owner_def)
qed

lemma restore_attempts_snapshots:
  "distinct ids \<Longrightarrow> set ids \<inter> fst ` set as = {} \<Longrightarrow> set ids \<inter> fst ` set ns = {} \<Longrightarrow>
     (\<And>aid. aid \<in> set ids \<Longrightarrow> attempt_wf (f aid) \<and> att_stateVersion (f aid) \<noteq> 0 \<and> att_id (f aid) = aid
        \<and> attempt_owner nodes (NodeAttempt_Snapshot (f aid)) = g aid \<and> g aid \<noteq> '''') \<Longrightarrow>
     restore_attempts nodes (map (\<lambda>aid. NodeAttempt_Snapshot (f aid)) ids) as ns
       = Inr (as @ map (\<lambda>aid. (aid, f aid)) ids, ns @ map (\<lambda>aid. (aid, g aid)) ids)"
proof (induction ids arbitrary: as ns)
  case (Cons aid ids)
  let ?a = "f aid"
  have a: "attempt_wf ?a" "att_stateVersion ?a \<noteq> 0" "att_id ?a = aid"
      "attempt_owner nodes (NodeAttempt_Snapshot ?a) = g aid" "g aid \<noteq> ''''"
    using Cons.prems(4) [of aid] by simp_all
  have "nar_ID (NodeAttempt_Snapshot ?a) = aid"
    by (simp add: NodeAttempt_Snapshot_def a)
  moreover have "map_of as aid = None"
    using Cons.prems(2) by (auto simp: map_of_eq_None_iff)
  moreover have "aid \<notin> fst ` set as" "aid \<notin> fst ` set ns"
    using Cons.prems(2,3) by auto
  ultimately have "restore_attempts nodes (map (\<lambda>aid. NodeAttempt_Snapshot (f aid)) (aid # ids)) as ns
      = restore_attempts nodes (map (\<lambda>aid. NodeAttempt_Snapshot (f aid)) ids) (as @ [(aid, ?a)]) (ns @ [(aid, g aid)])"
    using a attempt_roundtrip [OF a(1,2)] by (simp add: update_new)
  then show ?case
    using Cons.IH [of "as @ [(aid, ?a)]" "ns @ [(aid, g aid)]"] Cons.prems by auto
qed simp

text \<open>The order of a key set is not observable: a map rebuilt over its sorted keys is the same map.\<close>

definition rebuilt :: "('k::linorder \<rightharpoonup> 'v) \<Rightarrow> 'k list \<Rightarrow> ('k, 'v) gomap" where
  "rebuilt f ks = map (\<lambda>k. (k, the (f k))) ks"

lemma map_of_rebuilt: "dom f = set ks \<Longrightarrow> map_of (rebuilt f ks) = f"
proof
  fix k
  assume "dom f = set ks"
  then show "map_of (rebuilt f ks) k = f k"
    by (cases "f k") (force simp: rebuilt_def map_of_map_restrict restrict_map_def domIff)+
qed

lemma keys_rebuilt [simp]: "map fst (rebuilt f ks) = ks"
  by (simp add: rebuilt_def comp_def)

lemma dom_sorted_keys: "dom (map_of m) = set (sorted_keys m)"
  by (simp add: dom_map_of_conv_image_fst)

subsection \<open>Edges\<close>

lemma settle_restored_simps [simp]:
  "eng_nodes (settle_restored nid e) = eng_nodes e" "eng_run (settle_restored nid e) = eng_run e"
  "eng_attempts (settle_restored nid e) = eng_attempts e"
  "eng_attemptNodes (settle_restored nid e) = eng_attemptNodes e" "static (settle_restored nid e) = static e"
  by (auto simp: settle_restored_def settleOutgoing_def static_def split: option.split)

lemma fold_settle_simps [simp]:
  "eng_nodes (fold settle_restored ids e) = eng_nodes e" "eng_run (fold settle_restored ids e) = eng_run e"
  "eng_attempts (fold settle_restored ids e) = eng_attempts e"
  "eng_attemptNodes (fold settle_restored ids e) = eng_attemptNodes e"
  "static (fold settle_restored ids e) = static e"
  by (induction ids arbitrary: e) auto

lemma static_ok_static: "static e' = static e \<Longrightarrow> static_ok e' = static_ok e"
  by (simp add: static_def static_ok_def)

definition restored_edge :: "NodeRun \<Rightarrow> Edge \<Rightarrow> EdgeState" where
  "restored_edge n d = (if NodeState_Terminal (node_state n)
     then settled_state (node_state n) (node_selectedRoute n) d else EdgePending)"

lemma settle_restored_edge:
  assumes "static_ok e" and d: "d \<in> set (doc_Edges (eng_doc e))" and n: "map_of (eng_nodes e) (edge_SourceNodeID d) = Some n"
  shows "map_of (eng_edges (settle_restored nid e)) (edge_ID d) =
    (if nid = edge_SourceNodeID d \<and> NodeState_Terminal (node_state n) then Some (restored_edge n d)
     else map_of (eng_edges e) (edge_ID d))"
proof (cases "map_of (eng_nodes e) nid")
  case None
  then show ?thesis
    using n by (auto simp: settle_restored_def)
next
  case (Some m)
  then show ?thesis
    using settle_edge [OF assms(1) d Some] n by (auto simp: settle_restored_def restored_edge_def)
qed

lemma fold_settle_edge:
  assumes "static_ok e" and d: "d \<in> set (doc_Edges (eng_doc e))" and n: "map_of (eng_nodes e) (edge_SourceNodeID d) = Some n"
  shows "map_of (eng_edges (fold settle_restored ids e)) (edge_ID d) =
    (if edge_SourceNodeID d \<in> set ids \<and> NodeState_Terminal (node_state n) then Some (restored_edge n d)
     else map_of (eng_edges e) (edge_ID d))"
  using assms
proof (induction ids arbitrary: e)
  case (Cons nid ids)
  have "static_ok (settle_restored nid e)" "d \<in> set (doc_Edges (eng_doc (settle_restored nid e)))"
    using Cons.prems static_ok_static [OF settle_restored_simps(5) [of nid e]] settle_restored_simps(5) [of nid e]
    by (simp_all add: static_def)
  then show ?case
    using Cons.IH [of "settle_restored nid e"] Cons.prems(3) settle_restored_edge [OF Cons.prems, of nid] by auto
qed simp

subsection \<open>Engines\<close>

text \<open>
  Two engines over the same definition with the same run, node runs and attempts; the edges of the
  second are the projection of its node runs.
\<close>

definition restored_from :: "Engine \<Rightarrow> Engine \<Rightarrow> bool" where
  "restored_from e e' \<longleftrightarrow> static e' = static e \<and> eng_run e' = eng_run e
     \<and> distinct (map fst (eng_nodes e')) \<and> distinct (map fst (eng_attempts e')) \<and> distinct (map fst (eng_attemptNodes e'))
     \<and> map_of (eng_nodes e') = map_of (eng_nodes e) \<and> map_of (eng_attempts e') = map_of (eng_attempts e)
     \<and> map_of (eng_attemptNodes e') = map_of (eng_attemptNodes e)
     \<and> (\<forall>d \<in> set (doc_Edges (eng_doc e)). \<forall>n. map_of (eng_nodes e) (edge_SourceNodeID d) = Some n \<longrightarrow>
          map_of (eng_edges e') (edge_ID d) = Some (restored_edge n d))"

lemma restored_edge_fits: "restored_edge n d = st \<Longrightarrow> edge_fits n d (Some st)"
  by (cases "node_state n") (auto simp: restored_edge_def edge_fits_def settled_state_def Let_def)

lemma restored_engine_ok:
  assumes "restored_from e e'" and "engine_ok e"
  shows "engine_ok e'"
proof -
  note r = assms(1) [unfolded restored_from_def]
  have same: "eng_doc e' = eng_doc e" "node_def e' = node_def e" "eng_run e' = eng_run e"
      "map_of (eng_nodes e') = map_of (eng_nodes e)" "map_of (eng_attempts e') = map_of (eng_attempts e)"
      "map_of (eng_attemptNodes e') = map_of (eng_attemptNodes e)"
    using r node_def_static [of e' e] by (auto simp: static_def)
  have "fst ` set (eng_nodes e') = fst ` set (eng_nodes e)"
    using same(4) by (metis dom_map_of_conv_image_fst)
  then have "nodes_ok e'"
    using engine_okD(2) [OF assms(2)] r unfolding nodes_ok_def node_ok_def same by simp
  moreover have "static_ok e'"
    using r static_ok_static engine_okD(1) [OF assms(2)] by blast
  moreover have "attempts_ok e'"
    using engine_okD(4) [OF assms(2)] r unfolding attempts_ok_def same by blast
  moreover have "edges_ok e'"
    using r restored_edge_fits unfolding edges_ok_def same by metis
  moreover have "run_ok e'" "current_ok e'" "outcome_ok e'" "outputs_ok e'" "budget_ok e'" "live_ok e'"
    using engine_okD [OF assms(2)]
    unfolding run_ok_def current_ok_def outcome_ok_def outputs_ok_def budget_ok_def live_ok_def same by blast+
  ultimately show ?thesis
    by (simp add: engine_ok_def)
qed

lemma restored_versions_ok: "restored_from e e' \<Longrightarrow> versions_ok e \<Longrightarrow> versions_ok e'"
  by (simp add: restored_from_def versions_ok_def)

lemma engine_restorable:
  assumes ok: "engine_ok e" and v: "versions_ok e" and i: "static i = static e"
    and n: "map_of (eng_nodes e) nid = Some n"
  shows "restorable i (eng_run e) nid n"
proof -
  have doc: "eng_doc i = eng_doc e" "eng_nodeDefs i = eng_nodeDefs e"
    using i by (simp_all add: static_def)
  have "node_ok e nid n" "nid \<in> doc_ids (eng_doc e)"
    using nodes_okD [OF engine_okD(2) [OF ok] n] node_key [OF engine_okD(2) [OF ok] n] .
  moreover from this(2) obtain d where d: "map_of (eng_nodeDefs e) nid = Some d"
    using engine_okD(1) [OF ok] node_of_ids [of "eng_doc e" nid] by (auto simp: static_ok_def node_of_def)
  moreover have "node_def e nid = d"
    by (simp add: node_def_def d)
  moreover have "node_effectiveOutputs n \<noteq> []" if "nid = doc_EntryNodeID (eng_doc e)"
    using engine_okD(8) [OF ok] n that by (auto simp: outputs_ok_def)
  ultimately show ?thesis
    using v n by (auto simp: restorable_def node_ok_def doc versions_ok_def node_version_ok_def)
qed

lemma pending_edges:
  assumes "engine_ok i" and "d \<in> set (doc_Edges (eng_doc i))"
  shows "map_of (map (\<lambda>(eid, st). (eid, EdgePending)) (eng_edges i)) (edge_ID d) = Some EdgePending"
proof -
  have "edge_SourceNodeID d \<in> doc_ids (eng_doc i)"
    using engine_okD(1) [OF assms(1)] assms(2) node_of_ids
    unfolding static_ok_def wf_document_def doc_edges_ok_def by (metis option.distinct(1))
  then obtain n where "map_of (eng_nodes i) (edge_SourceNodeID d) = Some n"
    using engine_okD(2) [OF assms(1)] by (metis map_of_fst_iff nodes_ok_def set_map)
  then have "edge_fits n d (map_of (eng_edges i) (edge_ID d))"
    using engine_okD(6) [OF assms(1)] assms(2) by (simp add: edges_ok_def)
  then obtain st where "map_of (eng_edges i) (edge_ID d) = Some st"
    by (cases "node_state n") (auto simp: edge_fits_def)
  then show ?thesis
    by (simp add: map_of_map [of "\<lambda>_. EdgePending"])
qed

lemma snapshot_restore_nodes:
  assumes "engine_ok e" and "versions_ok e" and "static i = static e"
  shows "restore_nodes i (eng_run e) (st_Nodes (SnapshotState e)) [] = Inr (rebuilt (map_of (eng_nodes e)) (sortedNodeIDs e))"
proof -
  have "restorable i (eng_run e) nid (the (map_of (eng_nodes e) nid))" if "nid \<in> set (sortedNodeIDs e)" for nid
  proof -
    obtain n where "map_of (eng_nodes e) nid = Some n"
      using \<open>nid \<in> set (sortedNodeIDs e)\<close> map_of_fst_iff [of nid "eng_nodes e"] by (auto simp: sortedNodeIDs_def)
    then show ?thesis
      using engine_restorable [OF assms] by simp
  qed
  moreover have "distinct (sortedNodeIDs e)"
    using engine_okD(2) [OF assms(1)] by (simp add: sortedNodeIDs_def nodes_ok_def)
  ultimately show ?thesis
    unfolding snapshot_nodes rebuilt_def by (subst restore_nodes_snapshots) simp_all
qed

abbreviation attempt_keys :: "Engine \<Rightarrow> string list" where
  "attempt_keys e \<equiv> sorted_keys (eng_attempts e)"

lemma snapshot_restore_attempts:
  assumes ok: "engine_ok e" and v: "versions_ok e"
  shows "restore_attempts (rebuilt (map_of (eng_nodes e)) (sortedNodeIDs e)) (st_Attempts (SnapshotState e)) [] []
    = Inr (rebuilt (map_of (eng_attempts e)) (attempt_keys e), rebuilt (map_of (eng_attemptNodes e)) (attempt_keys e))"
proof -
  let ?nodes = "rebuilt (map_of (eng_nodes e)) (sortedNodeIDs e)"
  let ?f = "\<lambda>aid. the (map_of (eng_attempts e) aid)" and ?g = "\<lambda>aid. the (map_of (eng_attemptNodes e) aid)"
  have nodes: "map_of ?nodes = map_of (eng_nodes e)" "distinct (map fst ?nodes)"
    using engine_okD(2) [OF ok]
    by (simp_all add: map_of_rebuilt sortedNodeIDs_def dom_sorted_keys nodes_ok_def)
  have ids: "node_executionNodeID m = k \<and> node_runID m = run_id (eng_run e)" if "(k, m) \<in> set ?nodes" for k m
  proof -
    have "map_of (eng_nodes e) k = Some m"
      using that map_of_is_SomeI [OF nodes(2) that] nodes(1) by simp
    then show ?thesis
      using nodes_okD [OF engine_okD(2) [OF ok]] by (simp add: node_ok_def)
  qed
  have "attempt_wf (?f aid) \<and> att_stateVersion (?f aid) \<noteq> 0 \<and> att_id (?f aid) = aid
      \<and> attempt_owner ?nodes (NodeAttempt_Snapshot (?f aid)) = ?g aid \<and> ?g aid \<noteq> ''''"
    if "aid \<in> set (attempt_keys e)" for aid
  proof -
    obtain a where a: "map_of (eng_attempts e) aid = Some a"
      using \<open>aid \<in> set (attempt_keys e)\<close> map_of_fst_iff [of aid "eng_attempts e"] by auto
    obtain nid where at: "attempt_wf a" "att_id a = aid" and nid: "nid \<in> doc_ids (eng_doc e)"
        "map_of (eng_attemptNodes e) aid = Some nid" "att_nodeRunID a = run_id (eng_run e) @ '':'' @ nid"
      using attempts_okD [OF engine_okD(4) [OF ok] a] by blast
    obtain n where n: "map_of (eng_nodes e) nid = Some n"
      using engine_okD(2) [OF ok] nid(1) by (metis map_of_fst_iff nodes_ok_def set_map)
    have "nid \<noteq> ''''"
      using nodes_okD [OF engine_okD(2) [OF ok] n] by (auto simp: node_ok_def node_wf_def)
    moreover have "attempt_owner ?nodes (NodeAttempt_Snapshot a) = nid"
      using nodes(1) n nid(3) ids by (intro attempt_owner_of) (auto simp: NodeAttempt_Snapshot_def)
    ultimately show ?thesis
      using at a nid(2) v by (simp add: versions_ok_def attempt_version_ok_def)
  qed
  then show ?thesis
    unfolding snapshot_attempts rebuilt_def [of "map_of (eng_attempts e)"] rebuilt_def [of "map_of (eng_attemptNodes e)"]
    using engine_okD(4) [OF ok]
    by (subst restore_attempts_snapshots [of _ _ _ ?f _ ?g]) (simp_all add: attempts_ok_def)
qed

lemma snapshot_node_count:
  assumes ok: "engine_ok e" and "static i = static e"
  shows "length (st_Nodes (SnapshotState e)) = length (eng_nodeDefs i)"
proof -
  have "length (st_Nodes (SnapshotState e)) = card (fst ` set (eng_nodes e))"
    using engine_okD(2) [OF ok] distinct_card [of "map fst (eng_nodes e)"]
    by (simp add: snapshot_nodes sortedNodeIDs_def nodes_ok_def)
  also have "\<dots> = card (set (map dn_ID (doc_Nodes (eng_doc e))))"
    using engine_okD(2) [OF ok] by (simp add: nodes_ok_def doc_ids_def)
  also have "\<dots> = length (doc_Nodes (eng_doc e))"
    using engine_okD(1) [OF ok] distinct_card [of "map dn_ID (doc_Nodes (eng_doc e))"]
    by (simp add: static_ok_def wf_document_def doc_nodes_ok_def)
  also have "\<dots> = length (eng_nodeDefs i)"
    using engine_okD(1) [OF ok] assms(2) by (simp add: static_ok_def static_def)
  finally show ?thesis .
qed

lemma restored_engine_from:
  assumes ok: "engine_ok e" and i: "static i = static e" "engine_ok i"
    and maps: "map_of nodes = map_of (eng_nodes e)" "map_of attempts = map_of (eng_attempts e)"
      "map_of owners = map_of (eng_attemptNodes e)"
    and keys: "distinct (map fst nodes)" "distinct (map fst attempts)" "distinct (map fst owners)"
  shows "restored_from e (restored_engine i (eng_run e) nodes attempts owners)"
proof -
  let ?i = "i\<lparr>eng_run := eng_run e, eng_nodes := nodes, eng_attempts := attempts, eng_attemptNodes := owners,
      eng_edges := map (\<lambda>(eid, st). (eid, EdgePending)) (eng_edges i)\<rparr>"
  let ?e = "restored_engine i (eng_run e) nodes attempts owners"
  have e: "?e = fold settle_restored (sortedNodeIDs ?i) ?i"
    by (simp add: restored_engine_def Let_def)
  have static: "static ?i = static e" "eng_doc ?i = eng_doc e" "static_ok ?i"
    using i(1) engine_okD(1) [OF ok] static_ok_static [of ?i e] by (simp_all add: static_def)
  have "map_of (eng_edges ?e) (edge_ID d) = Some (restored_edge n d)"
    if d: "d \<in> set (doc_Edges (eng_doc e))" and n: "map_of (eng_nodes e) (edge_SourceNodeID d) = Some n" for d n
  proof -
    have "map_of (eng_edges ?i) (edge_ID d) = Some EdgePending"
      using pending_edges [OF i(2), of d] d static(2) by simp
    moreover have "edge_SourceNodeID d \<in> set (sortedNodeIDs ?i)"
      using n maps(1) map_of_fst_iff [of "edge_SourceNodeID d" nodes] by (simp add: sortedNodeIDs_def)
    ultimately show ?thesis
      using fold_settle_edge [OF static(3), of d n "sortedNodeIDs ?i"] d n static(2)
      unfolding e by (simp add: maps restored_edge_def)
  qed
  then show ?thesis
    using static keys by (simp add: restored_from_def e maps)
qed

lemma Restore_SnapshotState:
  assumes new: "New c cc s (run_command (eng_run e)) = Inr i" and i: "static i = static e" "engine_ok i"
    and ok: "engine_ok e" and v: "versions_ok e"
  obtains e' where "Restore c cc s (SnapshotState e) = Inr e'" and "restored_from e e'"
proof -
  let ?nodes = "rebuilt (map_of (eng_nodes e)) (sortedNodeIDs e)"
  let ?attempts = "rebuilt (map_of (eng_attempts e)) (attempt_keys e)"
  let ?owners = "rebuilt (map_of (eng_attemptNodes e)) (attempt_keys e)"
  let ?e = "restored_engine i (eng_run e) ?nodes ?attempts ?owners"
  have maps: "map_of ?nodes = map_of (eng_nodes e)" "map_of ?attempts = map_of (eng_attempts e)"
      "map_of ?owners = map_of (eng_attemptNodes e)"
    using engine_okD(4) [OF ok]
    by (simp_all add: map_of_rebuilt sortedNodeIDs_def dom_sorted_keys attempts_ok_def)
  have keys: "distinct (map fst ?nodes)" "distinct (map fst ?attempts)" "distinct (map fst ?owners)"
    using engine_okD(2,4) [OF ok] by (simp_all add: sortedNodeIDs_def nodes_ok_def attempts_ok_def)
  have "run_wf (eng_run e)" "run_stateVersion (eng_run e) \<noteq> 0"
    using engine_okD(3) [OF ok] v by (simp_all add: run_ok_def versions_ok_def run_version_ok_def)
  then have run: "RestoreWorkflowRun (st_Run (SnapshotState e)) = Inr (eng_run e)"
    by (simp add: SnapshotState_def run_roundtrip)
  have cmd: "record_command (st_Run (SnapshotState e)) = run_command (eng_run e)"
    by (simp add: SnapshotState_def record_command_Snapshot)
  have binding: "dr_SnapshotID (run_definition (eng_run e)) = snap_ID s"
      "dr_DefinitionHash (run_definition (eng_run e)) = snap_DefinitionHash s"
    using new by (auto simp: New_def run_command_def split: if_splits)
  have "\<not> current_missing ?attempts ?owners (k, n)" if "(k, n) \<in> set ?nodes" for k n
  proof -
    have "map_of (eng_nodes e) k = Some n"
      using map_of_is_SomeI [OF keys(1) that] maps(1) by simp
    then show ?thesis
      using engine_okD(5) [OF ok] by (auto simp: current_missing_def maps current_ok_def)
  qed
  then have find: "find (current_missing ?attempts ?owners) ?nodes = None"
    by (auto simp: find_None_iff)
  have "Restore c cc s (SnapshotState e) = Inr ?e"
    using snapshot_restore_nodes [OF ok v i(1)] snapshot_restore_attempts [OF ok v]
    by (simp add: Restore_def cmd new run binding snapshot_node_count [OF ok i(1)] find)
  moreover have "restored_from e ?e"
    using restored_engine_from [OF ok i maps keys] .
  ultimately show ?thesis
    using that by blast
qed

section \<open>Reachable engines\<close>

text \<open>
  Every reachable engine survives its own persistence: restoring the snapshot succeeds, gives the
  same run, node runs and attempts, and the restored engine satisfies the invariant again.
\<close>

lemma reachable_restore:
  assumes r: "reachable_engine ParseFile s cmd e" and small: "small_budgets (snap_DSL s)"
  obtains e' where "RestoreBuiltinV1 ParseFile s (SnapshotState e) = Inr e'" and "restored_from e e'"
proof -
  obtain e0 where e0: "NewBuiltinV1 ParseFile s cmd = Inr e0" "engine_op\<^sup>*\<^sup>* e0 e"
    using r by (auto simp: reachable_engine_def)
  note new = e0(1) [unfolded NewBuiltinV1_def] BuiltinV1Contract_standard small
  have ok: "engine_ok e0" "run_command (eng_run e0) = cmd"
    using New_engine_ok [OF new] by simp_all
  have adv: "advance\<^sup>*\<^sup>* e0 e"
    using engine_ops_advances [OF e0(2) ok(1)] .
  have "static e = static e0"
    using adv by (induction rule: rtranclp_induct) (auto dest: advance_static)
  moreover have "run_command (eng_run e) = run_command (eng_run e0)"
    using adv by (induction rule: rtranclp_induct) (auto dest: advance_run_id)
  ultimately show ?thesis
    using Restore_SnapshotState [of "BuiltinV1Contract ParseFile" BuiltinV1Compatibility s e e0]
      e0(1) ok reachable_engine_ok [OF r small] reachable_versions_ok [OF r small] that
    unfolding NewBuiltinV1_def RestoreBuiltinV1_def by metis
qed

end
