(* ===== verification/Engine_Outcome.thy ===== *)
theory Engine_Outcome
  imports Engine_State
begin

text \<open>
  Consequences of the invariant for the outcome of a run: a terminal run never changes again, it
  has succeeded exactly when its end node has, and handling a completion twice changes nothing.
\<close>

section \<open>Terminal runs\<close>

text \<open>Every step needs a node run, a run or an attempt that is not terminal.\<close>

lemma advance_live:
  "advance e e' \<Longrightarrow> attempts_ok e \<Longrightarrow> (\<exists>nid n n'. map_of (eng_nodes e) nid = Some n \<and> node_step n n')
     \<or> run_step (eng_run e) (eng_run e')
     \<or> (\<exists>aid a. map_of (eng_attempts e) aid = Some a \<and> \<not> AttemptState_Terminal (att_state a))"
proof (induction rule: advance.induct)
  case (adv_record e aid a nid n res a')
  then show ?case
    using attempts_okD [OF adv_record(7,1)] unfolding attempt_wf_def by metis
next
  case (adv_finish e intent run')
  then show ?case
    using rs_terminate by fastforce
next
  case (adv_terminate e kind run')
  then show ?case
    using rs_request by (fastforce simp: requested_def)
qed (fastforce simp: due_node_def completed_node_def intro: node_step.intros)+

lemma terminal_stuck:
  assumes ok: "engine_ok e" and "RunState_Terminal (run_state (eng_run e))"
  shows "\<not> advance e e'"
proof
  assume step: "advance e e'"
  have nodes: "NodeState_Terminal (node_state n)" if "map_of (eng_nodes e) nid = Some n" for nid n
    using engine_okD(7) [OF ok] assms(2) that by (simp add: outcome_ok_def)
  moreover have "\<not> run_step (eng_run e) (eng_run e')"
    using run_step_change assms(2) by blast
  moreover have "AttemptState_Terminal (att_state a)" if "map_of (eng_attempts e) aid = Some a" for aid a
  proof (rule ccontr)
    assume "\<not> AttemptState_Terminal (att_state a)"
    then obtain nid n where "map_of (eng_nodes e) nid = Some n" "node_state n \<in> {NodeQueued, NodeRunning}"
      using engine_okD(10) [OF ok] \<open>map_of (eng_attempts e) aid = Some a\<close> unfolding live_ok_def by blast
    then show False
      using nodes by fastforce
  qed
  ultimately show False
    using advance_live [OF step engine_okD(4) [OF ok]] op_nonterminal by blast
qed

lemma engine_terminal_final:
  assumes "engine_ok e" and "RunState_Terminal (run_state (eng_run e))" and "engine_op\<^sup>*\<^sup>* e e'"
  shows "e' = e"
proof -
  have "advance\<^sup>*\<^sup>* e e'"
    using engine_ops_advances [OF assms(3,1)] .
  then show ?thesis
    using terminal_stuck [OF assms(1,2)] by (cases rule: converse_rtranclpE) auto
qed

section \<open>Success\<close>

text \<open>The run has succeeded exactly when its end node has.\<close>

definition exit_ok :: "Engine \<Rightarrow> bool" where
  "exit_ok e \<longleftrightarrow> (\<forall>n. map_of (eng_nodes e) (doc_ExitNodeID (eng_doc e)) = Some n \<longrightarrow>
     (node_state n = NodeSucceeded \<longleftrightarrow> run_state (eng_run e) = RunSucceeded))"

lemma exit_definition:
  assumes "static_ok e"
  shows "op_Type (dn_Operation (node_def e (doc_ExitNodeID (eng_doc e)))) = ''control.end''"
    and "definition_kind (node_def e (doc_ExitNodeID (eng_doc e))) = NodeControl"
proof -
  obtain n where n: "node_of (eng_doc e) (doc_ExitNodeID (eng_doc e)) = Some n"
      "Operation_Coordinate (dn_Operation n) = end_coordinate"
    using assms unfolding static_ok_def wf_document_def doc_nodes_ok_def by blast
  then have "n \<in> set (doc_Nodes (eng_doc e))" "node_def e (doc_ExitNodeID (eng_doc e)) = n"
    using assms map_of_SomeD [OF n(1) [unfolded node_of_def]]
    by (auto simp: node_def_def static_ok_def node_of_def)
  moreover have "op_Type (dn_Operation n) = ''control.end''"
    using n(2) by (simp add: Operation_Coordinate_def)
  moreover from this have "dn_Kind n = KindControl"
    using assms calculation(1) by (simp add: static_ok_def control_type_def)
  ultimately show "op_Type (dn_Operation (node_def e (doc_ExitNodeID (eng_doc e)))) = ''control.end''"
      "definition_kind (node_def e (doc_ExitNodeID (eng_doc e))) = NodeControl"
    by (simp_all add: definition_kind_def)
qed

text \<open>How a step makes a node run succeed, and how it makes the run succeed.\<close>

lemma advance_succeeded:
  "advance e e' \<Longrightarrow> map_of (eng_nodes e') i = Some n' \<Longrightarrow> node_state n' = NodeSucceeded \<Longrightarrow>
     map_of (eng_nodes e) i = Some n' \<or> node_kind n' = NodeTask
     \<or> op_Type (dn_Operation (node_def e i)) = ''control.branch'' \<or> run_state (eng_run e') = RunSucceeded"
  by (induction rule: advance.induct) (auto dest!: node_op_Inr split: if_splits)

lemma requested_state: "requested e kind run' \<Longrightarrow> run_state run' = run_state (eng_run e)"
  by (auto simp: requested_def dest: RequestTermination_Inr)

lemma advance_run_succeeded:
  "advance e e' \<Longrightarrow> run_state (eng_run e') = RunSucceeded \<Longrightarrow> \<not> RunState_Terminal (run_state (eng_run e)) \<Longrightarrow>
     \<exists>nid n n'. map_of (eng_nodes e) nid = Some n \<and> op_Type (dn_Operation (node_def e nid)) = ''control.end''
       \<and> map_of (eng_nodes e') nid = Some n' \<and> node_state n' = NodeSucceeded"
proof (induction rule: advance.induct)
  case (adv_end e nid n inputs run' n')
  then show ?case
    using CompleteWorkflowSuccess_Inr [OF adv_end(6)] by (auto simp: due_node_def)
next
  case (adv_finish e intent run')
  obtain t :: TerminationIntent where "known_kind (ti_Kind t)" "run' = (eng_run e)\<lparr>run_state := kind_state (ti_Kind t),
      run_stateVersion := run_stateVersion (eng_run e) + 1\<rparr>"
    by (rule CompleteTermination_Inr [OF adv_finish(3)]) blast
  then show ?case
    using adv_finish(4) by (auto simp: known_kind_def kind_state_def)
next
  case (adv_fail e nid n f n' run')
  then show ?case
    using requested_state [OF adv_fail(3)] by auto
next
  case (adv_fail_completed e nid n aid res target f n' run')
  then show ?case
    using requested_state [OF adv_fail_completed(4)] by auto
next
  case (adv_terminate e kind run')
  then show ?case
    using requested_state [OF adv_terminate(1)] by auto
qed simp_all

lemma advance_exit_ok:
  assumes step: "advance e e'" and ok: "engine_ok e" and exit: "exit_ok e"
  shows "exit_ok e'"
proof -
  let ?x = "doc_ExitNodeID (eng_doc e)"
  note static = engine_okD(1) [OF ok]
  have type: "op_Type (dn_Operation (node_def e ?x)) = ''control.end''" "definition_kind (node_def e ?x) = NodeControl"
    using exit_definition [OF static] by simp_all
  have active: "\<not> RunState_Terminal (run_state (eng_run e))"
    using terminal_stuck [OF ok] step by blast
  have "node_state n' = NodeSucceeded \<longleftrightarrow> run_state (eng_run e') = RunSucceeded"
    if n': "map_of (eng_nodes e') ?x = Some n'" for n'
  proof
    assume succeeded: "node_state n' = NodeSucceeded"
    have "node_kind n' = NodeControl"
      using advance_node_ok [OF step engine_okD(2) [OF ok] n'] type(2) advance_doc [OF step] by (simp add: node_ok_def)
    moreover have "map_of (eng_nodes e) ?x \<noteq> Some n'"
      using exit succeeded active unfolding exit_ok_def by force
    ultimately show "run_state (eng_run e') = RunSucceeded"
      using advance_succeeded [OF step n' succeeded] type(1) by auto
  next
    assume "run_state (eng_run e') = RunSucceeded"
    then obtain nid n m where nid: "map_of (eng_nodes e) nid = Some n" "op_Type (dn_Operation (node_def e nid)) = ''control.end''"
        "map_of (eng_nodes e') nid = Some m" "node_state m = NodeSucceeded"
      using advance_run_succeeded [OF step _ active] by blast
    then have "nid = ?x"
      using static node_def_of [OF static node_key [OF engine_okD(2) [OF ok] nid(1)]] unfolding static_ok_def by metis
    then show "node_state n' = NodeSucceeded"
      using nid n' by simp
  qed
  then show ?thesis
    using advance_doc [OF step] by (simp add: exit_ok_def)
qed

lemma advances_exit_ok: "advance\<^sup>*\<^sup>* e e' \<Longrightarrow> engine_ok e \<Longrightarrow> exit_ok e \<Longrightarrow> exit_ok e'"
  by (induction rule: rtranclp_induct) (auto intro: advance_exit_ok advances_engine_ok)

lemma entry_not_exit: "wf_document d \<Longrightarrow> doc_EntryNodeID d \<noteq> doc_ExitNodeID d"
  unfolding wf_document_def doc_nodes_ok_def by force

lemma fresh_pending:
  assumes "fresh_nodes f" and "map_of (eng_nodes f) nid = Some k"
  shows "node_state k = NodePending \<and> \<not> node_activated k"
proof -
  have "NewNodeRun (run_id (eng_run f)) nid (definition_kind (node_def f nid)) = Inr k"
    using assms unfolding fresh_nodes_def by blast
  then show ?thesis
    by (auto simp: NewNodeRun_def split: if_splits)
qed

lemma entering_exit_ok:
  assumes "entering f run n n'"
  shows "exit_ok (entered f run n')"
proof -
  have "wf_document (eng_doc f)" "fresh_nodes f" "run_state run = RunRunning"
    using assms by (auto simp: entering_def unstarted_def static_ok_def run_ops split: run_splits)
  then show ?thesis
    using entry_not_exit fresh_pending by (fastforce simp: exit_ok_def entered_nodes)
qed

lemma reachable_exit_ok:
  assumes "reachable_engine ParseFile s cmd e" and "small_budgets (snap_DSL s)"
  shows "exit_ok e"
proof -
  obtain f run n n' where "entering f run n n'" "advance\<^sup>*\<^sup>* (entered f run n') e"
    using reachable_entered [OF assms] by metis
  then show ?thesis
    using entering_exit_ok advances_exit_ok unfolding entering_def by blast
qed

section \<open>Completions\<close>

lemma advance_node_terminal:
  "advance e e' \<Longrightarrow> map_of (eng_nodes e) nid = Some n \<Longrightarrow> NodeState_Terminal (node_state n) \<Longrightarrow>
     map_of (eng_nodes e') nid = Some n"
  using advance_node [of e e' nid] advance_keys [of e e'] map_of_fst_iff [of nid "eng_nodes e"]
    map_of_fst_iff [of nid "eng_nodes e'"] op_nonterminal
  by (metis option.sel)

lemma advances_node_terminal:
  "advance\<^sup>*\<^sup>* e e' \<Longrightarrow> map_of (eng_nodes e) nid = Some n \<Longrightarrow> NodeState_Terminal (node_state n) \<Longrightarrow>
     map_of (eng_nodes e') nid = Some n"
  by (induction rule: rtranclp_induct) (auto intro: advance_node_terminal)

lemma advance_result:
  "advance e e' \<Longrightarrow> map_of (eng_attempts e) aid = Some a \<Longrightarrow> att_result a = Some r \<Longrightarrow> attempts_ok e \<Longrightarrow>
     map_of (eng_attempts e') aid = Some a \<and> map_of (eng_attemptNodes e') aid = map_of (eng_attemptNodes e) aid"
proof (induction rule: advance.induct)
  case (adv_start e aid' a' nid n a'' n')
  then show ?case
    using attempts_okD [OF adv_start(8,6)] Start_attempt_Inr [OF adv_start(4)]
    by (auto simp: attempt_wf_def split: if_splits)
qed (auto split: if_splits)

lemma advances_result:
  "advance\<^sup>*\<^sup>* e e' \<Longrightarrow> engine_ok e \<Longrightarrow> map_of (eng_attempts e) aid = Some a \<Longrightarrow> att_result a = Some r \<Longrightarrow>
     map_of (eng_attempts e') aid = Some a \<and> map_of (eng_attemptNodes e') aid = map_of (eng_attemptNodes e) aid"
  by (induction rule: rtranclp_induct) (use advance_result advances_engine_ok engine_okD(4) in metis)+

text \<open>A node run that no longer waits for the completion of its current attempt.\<close>

definition settled_node :: "Engine \<Rightarrow> NodeID \<Rightarrow> bool" where
  "settled_node e nid \<longleftrightarrow> (\<exists>n. map_of (eng_nodes e) nid = Some n
     \<and> (NodeState_Terminal (node_state n) \<or> node_state n = NodeRetryWait))"

lemma drive_settled:
  assumes "advance e e'" and "engine_ok e" and "time_ok e ts"
    and "map_of (eng_nodes e') nid = Some n" and "NodeState_Terminal (node_state n)"
  shows "settled_node (fst (drive ts e')) nid"
proof -
  have "engine_ok e'" "time_ok e' ts"
    using assms(1-3) advance_engine_ok advance_createdAt [OF assms(1)] by (auto simp: time_ok_def)
  then have "map_of (eng_nodes (fst (drive ts e'))) nid = Some n"
    using drive_advances advances_node_terminal assms(4,5) by blast
  then show ?thesis
    using assms(5) by (simp add: settled_node_def)
qed

lemma drive_result_fst: "drive_result r () = (e1, Inr ()) \<Longrightarrow> fst r = e1"
  by (auto simp: drive_result_def split: prod.splits option.splits)

lemma fail_run_settled:
  assumes ok: "engine_ok e" and c: "completed_node e nid n aid res" and none: "run_termination (eng_run e) = None"
    and ts: "ts \<noteq> 0" "run_createdAt (eng_run e) \<le> ts" and code: "fail_Code f \<noteq> ''''" "fail_Phase f \<noteq> ''input_binding''"
    and n: "\<not> NodeState_Terminal (node_state n)" "node_state n \<noteq> NodePending"
    and t: "t = NodeRun_FailAttempt n aid target f \<or> t = NodeRun_Cancel n FailureNodeFailed"
    and r: "fail_run ts e nid t f = (e1, Inr ())"
  shows "settled_node e1 nid"
proof -
  obtain n' where n': "t = Inr n'"
    using r by (cases t) (auto simp: fail_run_def)
  have "map_of (eng_nodes e) nid = Some n"
    using c by (simp add: completed_node_def)
  then obtain run' where run': "WorkflowRun_RequestTermination (eng_run e)
      \<lparr>ti_Kind = TerminationFailed, ti_RequestedAt = ts, ti_Cause = f\<rparr> = Inr (True, run')"
      "requested e TerminationFailed run'"
    using request_failed [OF ok none pending_run_active [OF ok _ n(1)] ts code(1)] by metis
  let ?e = "(set_node e nid n')\<lparr>eng_run := run'\<rparr>"
  have step: "advance e ?e"
    using t n' n(2) by (intro adv_fail_completed [OF c none _ run'(2) code(2)]) auto
  have "NodeState_Terminal (node_state n')"
    using t n' op_states(12) [of n aid target f n'] op_states(13) [of n FailureNodeFailed n'] by auto
  then have "settled_node (fst (drive ts ?e)) nid"
    using drive_settled [OF step ok, of ts nid n'] ts by (simp add: time_ok_def set_node_def)
  moreover have "fst (drive ts ?e) = e1"
    using r n' by (auto simp: fail_run_def request_termination_set_node [OF run'(1)] dest: drive_result_fst)
  ultimately show ?thesis
    by simp
qed

lemma retry_wait_settled: "retry_wait ts e nid n aid kind p = (e1, Inr ()) \<Longrightarrow> settled_node e1 nid"
  by (auto simp: retry_wait_def settled_node_def set_node_def dest: op_states split: option.splits sum.splits)

lemma acceptSuccess_settled:
  assumes ok: "engine_ok e" and c: "completed_node e nid n aid res" and "res_State res = AttemptSucceeded"
    and ts: "time_ok e ts"
    and r: "acceptSuccess e nid n (node_def e (node_executionNodeID n)) aid (res_Outputs res) = Inr e'"
  shows "settled_node (fst (drive ts e')) nid"
proof -
  obtain n' where "NodeRun_SucceedAttempt n aid (res_Outputs res) = Inr n'"
      "eng_nodes e' = eng_nodes (set_node e nid n')"
    using r by (auto simp: acceptSuccess_def settleOutgoing_def split: option.splits sum.splits)
  then have "map_of (eng_nodes e') nid = Some n'" "NodeState_Terminal (node_state n')"
    by (auto simp: set_node_def dest: op_states)
  then show ?thesis
    using drive_settled [OF acceptSuccess_advances [OF ok c assms(3) r] ok ts] by blast
qed

lemma complete_running_settled:
  assumes ok: "engine_ok e" and c: "completed_node e nid n aid res" and none: "run_termination (eng_run e) = None"
    and ts: "ts \<noteq> 0" "run_createdAt (eng_run e) \<le> ts"
    and n: "\<not> NodeState_Terminal (node_state n)" "node_state n \<noteq> NodePending"
    and r: "complete_running ts e nid n aid res = (e1, Inr ())"
  shows "settled_node e1 nid"
proof -
  obtain a where a: "map_of (eng_attempts e) aid = Some a" "att_result a = Some res"
    using c by (auto simp: completed_node_def)
  have code: "res_ErrorCode res \<noteq> ''''" if "res_State res \<noteq> AttemptSucceeded"
    using attempts_okD [OF engine_okD(4) [OF ok] a(1)] a(2) that by (auto simp: attempt_wf_def)
  have output_code: "fail_Code (engine_failure e FailureOutputContract ''output_binding'' v w x y z) \<noteq> ''''"
    "fail_Phase (engine_failure e FailureOutputContract ''output_binding'' v w x y z) \<noteq> ''input_binding''" for v w x y z
    by (simp_all add: engine_failure_def FailureOutputContract_def)
  have failed: "settled_node e1 nid" if "fail_run ts e nid (NodeRun_FailAttempt n aid target f) f = (e1, Inr ())"
      "fail_Code f \<noteq> ''''" "fail_Phase f \<noteq> ''input_binding''" for target f
    using fail_run_settled [OF ok c none ts that(2,3) n _ that(1)] by blast
  have canceled: "settled_node e1 nid" if "fail_run ts e nid (NodeRun_Cancel n FailureNodeFailed) f = (e1, Inr ())"
      "fail_Code f \<noteq> ''''" "fail_Phase f \<noteq> ''input_binding''" for f
    using fail_run_settled [OF ok c none ts that(2,3) n _ that(1)] by blast
  show ?thesis
  proof (cases "res_State res")
    case AttemptSucceeded
    show ?thesis
    proof (cases "acceptSuccess e nid n (node_def e (node_executionNodeID n)) aid (res_Outputs res)")
      case (Inl err)
      then show ?thesis
        using r AttemptSucceeded failed output_code by (simp add: complete_running_def Let_def)
    next
      case (Inr e')
      then show ?thesis
        using r AttemptSucceeded acceptSuccess_settled [OF ok c AttemptSucceeded _ Inr] ts
        by (auto simp: complete_running_def Let_def time_ok_def dest: drive_result_fst)
    qed
  next
    case AttemptLost
    then show ?thesis
      using r code failed retry_wait_settled by (simp add: complete_running_def Let_def split: if_splits)
  next
    case AttemptCanceled
    then show ?thesis
      using r code canceled by (simp add: complete_running_def Let_def)
  next
    case AttemptFailed
    then show ?thesis
      using r code failed retry_wait_settled by (simp add: complete_running_def Let_def split: if_splits)
  next
    case AttemptTimedOut
    then show ?thesis
      using r code failed retry_wait_settled by (simp add: complete_running_def Let_def split: if_splits)
  qed (use r in \<open>simp_all add: complete_running_def Let_def\<close>)
qed

lemma complete_terminating_settled:
  assumes ok: "engine_ok e" and c: "completed_node e nid n aid res" and some: "run_termination (eng_run e) = Some intent"
    and ts: "time_ok e ts" and r: "complete_terminating ts e nid n aid res (ti_Kind intent) = (e1, Inr ())"
  shows "settled_node e1 nid"
proof -
  have cancel: "settled_node (fst (drive ts (set_node e nid n'))) nid"
    if "NodeRun_Cancel n (cancelReason (ti_Kind intent)) = Inr n'" for n'
    using drive_settled [OF adv_cancel_completed [OF c some that] ok ts, of nid n'] op_states(13) [OF that]
    by (simp add: set_node_def)
  show ?thesis
    using r acceptSuccess_settled [OF ok c _ ts] cancel
    by (auto simp: complete_terminating_def split: sum.splits if_splits dest!: drive_result_fst)
qed

text \<open>Handling a completion that was handled before changes nothing, at whatever later time.\<close>

lemma HandleAttemptCompleted_settled:
  assumes ok: "engine_ok e" and r: "HandleAttemptCompleted aid ts e = (e1, Inr ())"
  shows "\<exists>a res nid n. map_of (eng_attempts e) aid = Some a \<and> att_result a = Some res
    \<and> map_of (eng_attemptNodes e) aid = Some nid \<and> map_of (eng_nodes e1) nid = Some n
    \<and> (node_currentAttemptID n = aid \<longrightarrow> NodeState_Terminal (node_state n) \<or> node_state n = NodeRetryWait
         \<or> node_state n = NodeReady)"
proof -
  obtain a res where a: "map_of (eng_attempts e) aid = Some a" "att_result a = Some res"
      and ts: "ts \<noteq> 0" "run_createdAt (eng_run e) \<le> ts"
    using r by (auto simp: HandleAttemptCompleted_def split: option.splits if_splits)
  let ?nid = "attempt_node e aid"
  have owner: "map_of (eng_attemptNodes e) aid = Some ?nid"
    using attempt_node_of [OF ok a(1)] .
  obtain n where n: "map_of (eng_nodes e) ?nid = Some n"
    using r a ts by (auto simp: HandleAttemptCompleted_def Let_def split: option.splits)
  show ?thesis
  proof (cases "node_currentAttemptID n = aid \<and> \<not> (NodeState_Terminal (node_state n) \<or> node_state n = NodeRetryWait
      \<or> node_state n = NodeReady)")
    case True
    then have c: "completed_node e ?nid n aid res"
      using a owner n by (simp add: completed_node_def)
    have "node_state n \<noteq> NodePending"
    proof -
      have "aid \<noteq> ''''" "node_wf n"
        using attempts_okD [OF engine_okD(4) [OF ok] a(1)] nodes_okD [OF engine_okD(2) [OF ok] n]
        by (auto simp: attempt_wf_def node_ok_def)
      then show ?thesis
        using True unfolding node_wf_def by blast
    qed
    then have "settled_node e1 ?nid"
      using r a ts n True complete_running_settled [OF ok c _ ts] complete_terminating_settled [OF ok c]
      by (cases "run_termination (eng_run e)") (auto simp: HandleAttemptCompleted_def Let_def time_ok_def)
    then show ?thesis
      using a owner by (auto simp: settled_node_def)
  next
    case False
    then have "e1 = e"
      using r a ts n by (auto simp: HandleAttemptCompleted_def Let_def split: if_splits)
    then show ?thesis
      using a owner n False by auto
  qed
qed

lemma HandleAttemptCompleted_again:
  assumes ok: "engine_ok e" and r: "HandleAttemptCompleted aid ts e = (e1, Inr ())"
    and ts': "ts' \<noteq> 0" "run_createdAt (eng_run e) \<le> ts'"
  shows "HandleAttemptCompleted aid ts' e1 = (e1, Inr ())"
proof -
  obtain a res nid n where a: "map_of (eng_attempts e) aid = Some a" "att_result a = Some res"
      "map_of (eng_attemptNodes e) aid = Some nid" and n: "map_of (eng_nodes e1) nid = Some n"
      and settled: "node_currentAttemptID n = aid \<longrightarrow> NodeState_Terminal (node_state n) \<or> node_state n = NodeRetryWait
        \<or> node_state n = NodeReady"
    using HandleAttemptCompleted_settled [OF ok r] by blast
  have adv: "advance\<^sup>*\<^sup>* e e1"
    using HandleAttemptCompleted_advances [OF ok, of aid ts] r by simp
  have "map_of (eng_attempts e1) aid = Some a" "attempt_node e1 aid = nid" "run_createdAt (eng_run e1) = run_createdAt (eng_run e)"
    using advances_result [OF adv ok a(1,2)] a(3) advances_createdAt [OF adv] by (simp_all add: attempt_node_def)
  then show ?thesis
    using a(2) n settled ts' by (auto simp: HandleAttemptCompleted_def Let_def)
qed

end
