(* ===== verification/Engine_Liveness.thy ===== *)
theory Engine_Liveness
  imports Engine_Outcome
begin

text \<open>
  What the engine is sure to do: a terminating run cancels every node that has no attempt in
  flight, and completes as soon as none is left.
\<close>

section \<open>Operations that cannot fail\<close>

lemma Cancel_ok:
  assumes "node_wf n" and "\<not> NodeState_Terminal (node_state n)" and "reason \<noteq> ''''"
  obtains n' where "NodeRun_Cancel n reason = Inr n'"
proof -
  have "node_kind n = NodeControl \<or> node_kind n = NodeTask" "\<And>s. node_state n \<noteq> OtherNodeState s"
    using assms(1) unfolding node_wf_def by blast+
  moreover have "node_state n = NodePending" if "node_kind n = NodeControl"
  proof -
    have "node_state n \<in> {NodePending, NodeSucceeded, NodeFailed, NodeSkipped, NodeCanceled}"
      using assms(1) that unfolding node_wf_def by blast
    then show ?thesis
      using assms(2) by auto
  qed
  ultimately have "validNodeTransition (node_kind n) (node_state n) NodeCanceled"
    using assms(2) by (cases "node_state n") auto
  then show ?thesis
    using that assms(3) by (simp add: NodeRun_Cancel_def NodeRun_transition_def)
qed

lemma cancelReason_nonempty [simp]: "cancelReason k \<noteq> ''''"
  by (cases k) (simp_all add: FailureRunCanceled_def FailureRunTimedOut_def FailureNodeFailed_def)

lemma validate_node_identities_ok:
  "distinct (map node_executionNodeID ns) \<Longrightarrow> set (map node_executionNodeID ns) \<inter> seen = {} \<Longrightarrow>
     (\<forall>n \<in> set ns. node_runID n = run_id run \<and> node_executionNodeID n \<noteq> ''''
        \<and> node_executionNodeID n \<in> run_executionNodeIDs run) \<Longrightarrow>
     validate_node_identities run expected seen ns = None"
  by (induction ns arbitrary: seen) auto

lemma allNodeRuns_map: "allNodeRuns e = map (\<lambda>nid. the (map_of (eng_nodes e) nid)) (sortedNodeIDs e)"
  by (simp add: allNodeRuns_def sortedNodeIDs_def map_filter_keys)

lemma allNodeRuns_ids:
  assumes "nodes_ok e"
  shows "map node_executionNodeID (allNodeRuns e) = sortedNodeIDs e"
    and "set (allNodeRuns e) = ran (map_of (eng_nodes e))"
proof -
  have look: "map_of (eng_nodes e) nid = Some (the (map_of (eng_nodes e) nid))" if "nid \<in> set (sortedNodeIDs e)" for nid
    using that map_of_fst_iff [of nid "eng_nodes e"] by (auto simp: sortedNodeIDs_def)
  have "node_executionNodeID (the (map_of (eng_nodes e) nid)) = nid" if "nid \<in> set (sortedNodeIDs e)" for nid
    using nodes_okD [OF assms look [OF that]] by (simp add: node_ok_def)
  then show "map node_executionNodeID (allNodeRuns e) = sortedNodeIDs e"
    by (simp add: allNodeRuns_map map_idI)
  have "set (sortedNodeIDs e) = dom (map_of (eng_nodes e))"
    by (simp add: sortedNodeIDs_def dom_map_of_conv_image_fst)
  then show "set (allNodeRuns e) = ran (map_of (eng_nodes e))"
    by (auto simp: allNodeRuns_map ran_def dom_def image_iff) (metis option.sel)
qed

lemma validateNodeSet_ok:
  assumes "engine_ok e"
  shows "WorkflowRun_validateNodeSet (eng_run e) (allNodeRuns e) = None"
proof -
  let ?run = "eng_run e"
  have nodes: "nodes_ok e" and run: "run_wf ?run" "run_state ?run \<noteq> RunPending" "run_executionNodeIDs ?run = doc_ids (eng_doc e)"
    using engine_okD(2,3) [OF assms] by (simp_all add: run_ok_def)
  note ids = allNodeRuns_ids [OF nodes]
  have keys: "set (sortedNodeIDs e) = doc_ids (eng_doc e)" "distinct (sortedNodeIDs e)"
    using nodes by (simp_all add: sortedNodeIDs_def nodes_ok_def)
  have "length (allNodeRuns e) = card (doc_ids (eng_doc e))"
    using keys distinct_card [OF keys(2)] by (simp add: allNodeRuns_map)
  moreover have "run_nodeRunCount ?run = of_nat (card (doc_ids (eng_doc e)))"
    using run(1,3) by (simp add: run_wf_def)
  moreover have "validate_node_identities ?run expected {} (allNodeRuns e) = None" for expected
  proof (rule validate_node_identities_ok)
    show "distinct (map node_executionNodeID (allNodeRuns e))"
      by (simp add: ids keys)
    show "\<forall>n \<in> set (allNodeRuns e). node_runID n = run_id ?run \<and> node_executionNodeID n \<noteq> ''''
        \<and> node_executionNodeID n \<in> run_executionNodeIDs ?run"
      unfolding ids run(3)
      using nodes_okD [OF nodes] node_key [OF nodes] by (auto simp: ran_def node_ok_def node_wf_def)
  qed simp
  ultimately show ?thesis
    using run(2) by (simp add: WorkflowRun_validateNodeSet_def split: option.split)
qed

section \<open>Terminating runs\<close>

text \<open>A node run that a terminating run leaves alone.\<close>

definition left_alone :: "Engine \<Rightarrow> NodeRun \<Rightarrow> bool" where
  "left_alone e n \<longleftrightarrow> NodeState_Terminal (node_state n) \<or> attempt_in_flight e n"

lemma left_alone_attempts: "eng_attempts e' = eng_attempts e \<Longrightarrow> left_alone e' = left_alone e"
  by (simp add: left_alone_def attempt_in_flight_def fun_eq_iff)

lemma cancel_pass_ok:
  assumes "engine_ok e" and "run_termination (eng_run e) = Some intent" and "set ids \<subseteq> doc_ids (eng_doc e)"
  shows "\<exists>e'. cancel_pass (ti_Kind intent) ids e = (e', None) \<and> advance\<^sup>*\<^sup>* e e' \<and> eng_run e' = eng_run e
    \<and> eng_attempts e' = eng_attempts e
    \<and> (\<forall>nid n. map_of (eng_nodes e) nid = Some n \<longrightarrow> left_alone e n \<longrightarrow> map_of (eng_nodes e') nid = Some n)
    \<and> (\<forall>nid \<in> set ids. \<forall>n. map_of (eng_nodes e') nid = Some n \<longrightarrow> left_alone e n)"
  using assms
proof (induction ids arbitrary: e)
  case (Cons nid ids)
  have ok: "engine_ok e" and some: "run_termination (eng_run e) = Some intent"
    using Cons.prems(1,2) .
  obtain n where n: "map_of (eng_nodes e) nid = Some n"
    using Cons.prems(3) engine_okD(2) [OF ok] by (metis list.set_intros(1) map_of_fst_iff nodes_ok_def set_map subsetD)
  show ?case
  proof (cases "left_alone e n")
    case True
    obtain e' where e': "cancel_pass (ti_Kind intent) ids e = (e', None)" "advance\<^sup>*\<^sup>* e e'" "eng_run e' = eng_run e"
        "eng_attempts e' = eng_attempts e"
        "\<And>nid n. map_of (eng_nodes e) nid = Some n \<Longrightarrow> left_alone e n \<Longrightarrow> map_of (eng_nodes e') nid = Some n"
        "\<And>nid n. nid \<in> set ids \<Longrightarrow> map_of (eng_nodes e') nid = Some n \<Longrightarrow> left_alone e n"
      using Cons.IH [OF ok some] Cons.prems(3) by auto
    moreover have "cancel_pass (ti_Kind intent) (nid # ids) e = (e', None)"
      using True e'(1) n by (simp add: left_alone_def)
    moreover have "map_of (eng_nodes e') nid = Some n"
      using e'(5) [OF n True] .
    ultimately show ?thesis
      using True by auto
  next
    case False
    have "node_wf n" "\<not> NodeState_Terminal (node_state n)"
      using nodes_okD [OF engine_okD(2) [OF ok] n] False by (simp_all add: node_ok_def left_alone_def)
    then obtain n' where n': "NodeRun_Cancel n (cancelReason (ti_Kind intent)) = Inr n'"
      using Cancel_ok cancelReason_nonempty by metis
    let ?e = "settleOutgoing (set_node e nid n') nid ''''"
    have step: "advance e ?e"
      using adv_cancel [OF some n _ n'] False by (simp add: left_alone_def)
    have e: "engine_ok ?e" "run_termination (eng_run ?e) = Some intent" "set ids \<subseteq> doc_ids (eng_doc ?e)"
      using advance_engine_ok [OF step ok] some Cons.prems(3) by simp_all
    have alone: "left_alone ?e = left_alone e"
      by (rule left_alone_attempts) simp
    obtain e' where e': "cancel_pass (ti_Kind intent) ids ?e = (e', None)" "advance\<^sup>*\<^sup>* ?e e'" "eng_run e' = eng_run ?e"
        "eng_attempts e' = eng_attempts ?e"
        "\<And>nid n. map_of (eng_nodes ?e) nid = Some n \<Longrightarrow> left_alone e n \<Longrightarrow> map_of (eng_nodes e') nid = Some n"
        "\<And>nid n. nid \<in> set ids \<Longrightarrow> map_of (eng_nodes e') nid = Some n \<Longrightarrow> left_alone e n"
      using Cons.IH [OF e] unfolding alone by metis
    have nodes: "map_of (eng_nodes ?e) = (map_of (eng_nodes e))(nid \<mapsto> n')"
      by (simp add: settleOutgoing_def set_node_def split: option.split)
    have "left_alone e n'"
      using op_states(13) [OF n'] by (simp add: left_alone_def)
    moreover from this have "map_of (eng_nodes e') nid = Some n'"
      using e'(5) nodes by simp
    moreover have "cancel_pass (ti_Kind intent) (nid # ids) e = (e', None)"
      using False e'(1) n n' by (simp add: left_alone_def)
    moreover have "advance\<^sup>*\<^sup>* e e'"
      using step e'(2) by (rule converse_rtranclp_into_rtranclp)
    moreover have "map_of (eng_nodes e') k = Some m" if "map_of (eng_nodes e) k = Some m" "left_alone e m" for k m
      using e'(5) [of k m] that n False nodes by (cases "k = nid") auto
    ultimately show ?thesis
      using e'(3,4,6) by auto
  qed
qed simp

lemma CompleteTermination_ok:
  assumes ok: "engine_ok e" and some: "run_termination (eng_run e) = Some intent"
    and "\<not> RunState_Terminal (run_state (eng_run e))" and "allNodesTerminal e"
  shows "\<exists>run'. WorkflowRun_CompleteTermination (eng_run e) (allNodeRuns e) = Inr run' \<and> run_state run' = kind_state (ti_Kind intent)"
proof -
  have run: "run_wf (eng_run e)" "run_state (eng_run e) \<noteq> RunPending"
    using engine_okD(3) [OF ok] by (simp_all add: run_ok_def)
  have kind: "known_kind (ti_Kind intent)"
    using run(1) some unfolding run_wf_def by blast
  have state: "run_state (eng_run e) = RunRunning"
    using run assms(3) unfolding run_wf_def by force
  have "list_all (\<lambda>n. NodeState_Terminal (node_state n)) (allNodeRuns e)"
    using assms(4) unfolding list_all_iff allNodeRuns_ids(2) [OF engine_okD(2) [OF ok]] allNodesTerminal_def
    by (auto simp: ran_def dest!: map_of_SomeD)
  then show ?thesis
    using validateNodeSet_ok [OF ok] some state kind
    by (auto simp: WorkflowRun_CompleteTermination_def WorkflowRun_transition_def known_kind_def kind_state_def
        split: TerminationKind.split)
qed

lemma allNodesTerminal_map: "nodes_ok e \<Longrightarrow>
    allNodesTerminal e \<longleftrightarrow> (\<forall>nid n. map_of (eng_nodes e) nid = Some n \<longrightarrow> NodeState_Terminal (node_state n))"
  using ball_values_map_of [of "eng_nodes e" "\<lambda>nid n. NodeState_Terminal (node_state n)"]
  by (simp add: allNodesTerminal_def list_all_iff nodes_ok_def)

text \<open>
  Driving a terminating run never fails; afterwards every node run is terminal or has an attempt in
  flight, and without one the run has reached the state its intent names.
\<close>

lemma drive_terminating_ok:
  assumes ok: "engine_ok e" and some: "run_termination (eng_run e) = Some intent"
    and active: "\<not> RunState_Terminal (run_state (eng_run e))"
  shows "\<exists>e'. drive ts e = (e', None) \<and> (\<forall>nid n. map_of (eng_nodes e') nid = Some n \<longrightarrow> left_alone e' n)
    \<and> (if allNodesTerminal e' then run_state (eng_run e') = kind_state (ti_Kind intent)
       else \<not> RunState_Terminal (run_state (eng_run e')))
    \<and> eng_attempts e' = eng_attempts e \<and> run_termination (eng_run e') = Some intent"
proof -
  have keys: "set (sortedNodeIDs e) = doc_ids (eng_doc e)"
    using engine_okD(2) [OF ok] by (simp add: sortedNodeIDs_def nodes_ok_def)
  obtain e1 where e1: "cancel_pass (ti_Kind intent) (sortedNodeIDs e) e = (e1, None)" "advance\<^sup>*\<^sup>* e e1"
      "eng_run e1 = eng_run e" "eng_attempts e1 = eng_attempts e"
      and alone: "\<forall>nid \<in> set (sortedNodeIDs e). \<forall>n. map_of (eng_nodes e1) nid = Some n \<longrightarrow> left_alone e n"
    using cancel_pass_ok [OF ok some, of "sortedNodeIDs e"] keys by blast
  have ok1: "engine_ok e1"
    using advances_engine_ok [OF e1(2) ok] .
  have "eng_doc e1 = eng_doc e"
    using e1(2) by (induction rule: rtranclp_induct) (auto dest: advance_doc)
  then have alone1: "left_alone e1 n" if "map_of (eng_nodes e1) nid = Some n" for nid n
    using alone keys node_key [OF engine_okD(2) [OF ok1] that] that left_alone_attempts [OF e1(4)] by auto
  show ?thesis
  proof (cases "allNodesTerminal e1")
    case True
    have "run_termination (eng_run e1) = Some intent" "\<not> RunState_Terminal (run_state (eng_run e1))"
      using some active e1(3) by simp_all
    then obtain run' where run': "WorkflowRun_CompleteTermination (eng_run e1) (allNodeRuns e1) = Inr run'"
        "run_state run' = kind_state (ti_Kind intent)"
      using CompleteTermination_ok [OF ok1, of intent] True by blast
    have kept: "run_termination run' = Some intent"
      using run'(1) some e1(3) by (auto elim!: CompleteTermination_Inr)
    have "drive ts e = (e1\<lparr>eng_run := run'\<rparr>, None)"
      using e1(1) True run'(1) by (simp only: drive.simps [of ts e] some option.case drive_terminating_def prod.case if_True sum.case)
    moreover have "left_alone (e1\<lparr>eng_run := run'\<rparr>) = left_alone e1" "allNodesTerminal (e1\<lparr>eng_run := run'\<rparr>)"
      using True left_alone_attempts [of "e1\<lparr>eng_run := run'\<rparr>" e1] by (simp_all add: allNodesTerminal_def)
    ultimately show ?thesis
      using alone1 run'(2) e1(4) kept by simp
  next
    case False
    then have "drive ts e = (e1, None)"
      using some e1(1) by (simp add: drive.simps drive_terminating_def)
    then show ?thesis
      using alone1 False active some e1(3,4) by simp
  qed
qed

end
