(* ===== verification/Engine_Winddown.thy ===== *)
theory Engine_Winddown
  imports Engine_Liveness
begin

text \<open>
  Winding a run down: a request to cancel and a reached deadline always take effect, what they leave
  behind are only the attempts in flight, and acknowledging these ends the run.
\<close>

definition winding :: "Engine \<Rightarrow> TerminationIntent \<Rightarrow> bool" where
  "winding e intent \<longleftrightarrow> run_termination (eng_run e) = Some intent
     \<and> (\<forall>nid n. map_of (eng_nodes e) nid = Some n \<longrightarrow> left_alone e n)
     \<and> (if allNodesTerminal e then run_state (eng_run e) = kind_state (ti_Kind intent)
        else \<not> RunState_Terminal (run_state (eng_run e)))"

definition live_attempts :: "Engine \<Rightarrow> string set" where
  "live_attempts e = {aid. \<exists>a. map_of (eng_attempts e) aid = Some a \<and> \<not> AttemptState_Terminal (att_state a)}"

lemma drive_winding:
  assumes "engine_ok e" and "run_termination (eng_run e) = Some intent" and "\<not> RunState_Terminal (run_state (eng_run e))"
  obtains e' where "drive ts e = (e', None)" and "winding e' intent" and "eng_attempts e' = eng_attempts e"
  using drive_terminating_ok [OF assms, of ts] unfolding winding_def by blast

lemma winding_done:
  assumes ok: "engine_ok e" and w: "winding e intent" and none: "live_attempts e = {}"
  shows "run_state (eng_run e) = kind_state (ti_Kind intent)"
proof -
  have "\<not> attempt_in_flight e n" for n
    using none by (auto simp: attempt_in_flight_def live_attempts_def split: option.splits)
  then have "allNodesTerminal e"
    using w allNodesTerminal_map [OF engine_okD(2) [OF ok]] by (auto simp: winding_def left_alone_def)
  then show ?thesis
    using w by (simp add: winding_def)
qed

lemma kind_state_terminal: "known_kind k \<Longrightarrow> RunState_Terminal (kind_state k)"
  by (auto simp: known_kind_def kind_state_def)

section \<open>Requests\<close>

lemma request_and_drive_winding:
  assumes ok: "engine_ok e" and kind: "kind \<in> {TerminationCanceled, TerminationTimedOut}"
    and active: "\<not> RunState_Terminal (run_state (eng_run e))"
    and ts: "ts \<noteq> 0" "run_createdAt (eng_run e) \<le> ts" and code: "fail_Code cause \<noteq> ''''"
  obtains e' intent where "request_and_drive kind cause ts e = (e', Inr (run_termination (eng_run e) = None))"
    and "winding e' intent" and "eng_attempts e' = eng_attempts e" and "advance\<^sup>*\<^sup>* e e'"
    and "intent = (case run_termination (eng_run e) of
      None \<Rightarrow> \<lparr>ti_Kind = kind, ti_RequestedAt = ts, ti_Cause = cause\<rparr> | Some first \<Rightarrow> first)"
proof -
  define asked :: TerminationIntent where "asked = \<lparr>ti_Kind = kind, ti_RequestedAt = ts, ti_Cause = cause\<rparr>"
  define run' where "run' = (if run_termination (eng_run e) = None
    then (eng_run e)\<lparr>run_termination := Some asked, run_stateVersion := run_stateVersion (eng_run e) + 1\<rparr> else eng_run e)"
  define intent where "intent = (case run_termination (eng_run e) of None \<Rightarrow> asked | Some first \<Rightarrow> first)"
  have "run_state (eng_run e) \<noteq> RunPending"
    using engine_okD(3) [OF ok] by (simp add: run_ok_def)
  then have request: "WorkflowRun_RequestTermination (eng_run e) asked = Inr (run_termination (eng_run e) = None, run')"
    using kind active ts code
    by (auto simp: WorkflowRun_RequestTermination_def asked_def run'_def)
  have run': "run_termination run' = Some intent" "\<not> RunState_Terminal (run_state run')"
    using active by (auto simp: run'_def intent_def split: option.split)
  have "advance\<^sup>*\<^sup>* e (e\<lparr>eng_run := run'\<rparr>)"
  proof (cases "run_termination (eng_run e) = None")
    case True
    then have "requested e kind run'"
      using request unfolding requested_def asked_def by force
    then show ?thesis
      using adv_terminate kind by blast
  qed (auto simp: run'_def)
  then have ok': "engine_ok (e\<lparr>eng_run := run'\<rparr>)"
    using advances_engine_ok ok by blast
  obtain e' where e': "drive ts (e\<lparr>eng_run := run'\<rparr>) = (e', None)" "winding e' intent" "eng_attempts e' = eng_attempts e"
    using drive_winding [OF ok', of intent ts] run' by auto
  have result: "request_and_drive kind cause ts e = (e', Inr (run_termination (eng_run e) = None))"
    using request e'(1) by (simp add: request_and_drive_def asked_def drive_result_def)
  then have "advance\<^sup>*\<^sup>* e e'"
    using request_and_drive_advances [of kind e cause ts] kind by auto
  then show thesis
    using that [OF result e'(2,3) _ intent_def [unfolded asked_def]] by simp
qed

section \<open>Acknowledged cancellations\<close>

lemma attempt_wf_live:
  "attempt_wf a \<Longrightarrow> \<not> AttemptState_Terminal (att_state a) \<Longrightarrow>
     att_result a = None \<and> att_state a \<in> {AttemptQueued, AttemptRunning}"
  by (cases "att_state a") (simp_all add: attempt_wf_def)

lemma live_attempt_node:
  assumes ok: "engine_ok e" and a: "map_of (eng_attempts e) aid = Some a" and live: "\<not> AttemptState_Terminal (att_state a)"
  obtains nid n where "attempt_node e aid = nid" and "map_of (eng_attemptNodes e) aid = Some nid"
    and "map_of (eng_nodes e) nid = Some n" and "node_currentAttemptID n = aid"
    and "node_state n \<in> {NodeQueued, NodeRunning}" and "node_wf n" and "att_result a = None"
    and "att_state a \<in> {AttemptQueued, AttemptRunning}"
proof -
  obtain nid n where n: "map_of (eng_attemptNodes e) aid = Some nid" "map_of (eng_nodes e) nid = Some n"
      "node_currentAttemptID n = aid" "node_state n \<in> {NodeQueued, NodeRunning}"
    using engine_okD(10) [OF ok] a live unfolding live_ok_def by blast
  moreover have "attempt_node e aid = nid"
    using attempt_node_of [OF ok a] n(1) by simp
  moreover have "node_wf n"
    using nodes_okD [OF engine_okD(2) [OF ok] n(2)] by (simp add: node_ok_def)
  moreover have "att_result a = None" "att_state a \<in> {AttemptQueued, AttemptRunning}"
    using attempt_wf_live [of a] attempts_okD [OF engine_okD(4) [OF ok] a] live by simp_all
  ultimately show thesis
    by (intro that)
qed

definition canceled_result :: AttemptResult where
  "canceled_result = \<lparr>res_State = AttemptCanceled, res_Outputs = [], res_ErrorCode = ''ATTEMPT_CANCELED'',
     res_Message = ''attempt cancellation acknowledged'', res_DSLField = '''', res_ErrorDetails = None\<rparr>"

lemma Complete_canceled:
  "att_state a \<in> {AttemptQueued, AttemptRunning} \<Longrightarrow> NodeAttempt_Complete a canceled_result
     = Inr (a\<lparr>att_state := AttemptCanceled, att_stateVersion := att_stateVersion a + 1, att_result := Some canceled_result\<rparr>)"
  by (auto simp: NodeAttempt_Complete_def NodeAttempt_transition_def canceled_result_def)

lemma CancelAttempt_winding:
  assumes ok: "engine_ok e" and w: "winding e intent" and active: "\<not> RunState_Terminal (run_state (eng_run e))"
    and live: "aid \<in> live_attempts e" and ts: "ts \<noteq> 0" "run_createdAt (eng_run e) \<le> ts"
  obtains e' where "CancelAttempt aid ts e = (e', Inr ())" and "winding e' intent"
    and "live_attempts e' = live_attempts e - {aid}" and "advance\<^sup>*\<^sup>* e e'"
proof -
  obtain a where a: "map_of (eng_attempts e) aid = Some a" "\<not> AttemptState_Terminal (att_state a)"
    using live by (auto simp: live_attempts_def)
  obtain nid n where n: "attempt_node e aid = nid" "map_of (eng_attemptNodes e) aid = Some nid"
      "map_of (eng_nodes e) nid = Some n" "node_currentAttemptID n = aid"
      "node_state n \<in> {NodeQueued, NodeRunning}" "node_wf n" "att_result a = None"
      "att_state a \<in> {AttemptQueued, AttemptRunning}"
    using live_attempt_node [OF ok a] by blast
  define a' where "a' = a\<lparr>att_state := AttemptCanceled, att_stateVersion := att_stateVersion a + 1,
    att_result := Some canceled_result\<rparr>"
  define e1 where "e1 = set_attempt e aid a'"
  have complete: "NodeAttempt_Complete a canceled_result = Inr a'"
    using Complete_canceled [OF n(8)] by (simp add: a'_def)
  have recorded: "RecordAttemptResult aid canceled_result e = (e1, Inr True)"
    using a(1) n complete by (simp add: RecordAttemptResult_def e1_def)
  have step1: "advance e e1"
    using adv_record [OF a(1) n(2,3,4,7) complete] by (simp add: e1_def)
  have ok1: "engine_ok e1"
    using advances_engine_ok [OF r_into_rtranclp [of advance, OF step1] ok] .
  have e1: "map_of (eng_attempts e1) aid = Some a'" "eng_nodes e1 = eng_nodes e" "eng_run e1 = eng_run e"
      "eng_attemptNodes e1 = eng_attemptNodes e" "attempt_node e1 aid = nid"
    using n(1) by (simp_all add: e1_def set_attempt_def update_conv attempt_node_def)
  have some: "run_termination (eng_run e1) = Some intent"
    using w e1(3) by (simp add: winding_def)
  have c: "completed_node e1 nid n aid canceled_result"
    using e1 n by (simp add: completed_node_def a'_def)
  have "\<not> NodeState_Terminal (node_state n)"
    using n(5) by auto
  then obtain n' where n': "NodeRun_Cancel n (cancelReason (ti_Kind intent)) = Inr n'"
    using Cancel_ok [OF n(6)] cancelReason_nonempty by blast
  define e2 where "e2 = set_node e1 nid n'"
  have "engine_ok e2"
    using advances_engine_ok [OF r_into_rtranclp [of advance, OF adv_cancel_completed [OF c some n']] ok1]
    by (simp add: e2_def)
  moreover have "run_termination (eng_run e2) = Some intent" "\<not> RunState_Terminal (run_state (eng_run e2))"
    using some active e1(3) by (simp_all add: e2_def set_node_def)
  ultimately obtain e3 where e3: "drive ts e2 = (e3, None)" "winding e3 intent" "eng_attempts e3 = eng_attempts e2"
    by (rule drive_winding)
  have "HandleAttemptCompleted aid ts e1 = complete_terminating ts e1 nid n aid canceled_result (ti_Kind intent)"
    using e1 n ts some by (auto simp: HandleAttemptCompleted_def a'_def Let_def)
  also have "\<dots> = (e3, Inr ())"
    using n' e3(1) by (simp add: complete_terminating_def canceled_result_def e2_def [symmetric] drive_result_def)
  finally have result: "CancelAttempt aid ts e = (e3, Inr ())"
    using recorded by (simp add: CancelAttempt_def canceled_result_def [symmetric])
  have "eng_attempts e3 = AList.update aid a' (eng_attempts e)"
    using e3(3) by (simp add: e2_def e1_def set_node_def set_attempt_def)
  then have "live_attempts e3 = live_attempts e - {aid}"
    by (auto simp: live_attempts_def update_conv a'_def)
  moreover have "advance\<^sup>*\<^sup>* e e3"
    using CancelAttempt_advances [OF ok, of aid ts] result by simp
  ultimately show thesis
    using that result e3(2) by blast
qed

lemma cancel_all:
  assumes "engine_ok e" and "winding e intent" and "distinct aids" and "set aids = live_attempts e"
    and "ts \<noteq> 0" and "run_createdAt (eng_run e) \<le> ts"
  shows "run_state (eng_run (fold (\<lambda>aid e. fst (CancelAttempt aid ts e)) aids e)) = kind_state (ti_Kind intent)"
  using assms
proof (induction aids arbitrary: e)
  case Nil
  then show ?case
    using winding_done [of e intent] by simp
next
  case (Cons aid aids)
  have live: "aid \<in> live_attempts e"
    using Cons.prems(4) by auto
  have active: "\<not> RunState_Terminal (run_state (eng_run e))"
    using Cons.prems(1) live engine_okD(7,10) unfolding outcome_ok_def live_ok_def live_attempts_def by fastforce
  obtain e' where e': "CancelAttempt aid ts e = (e', Inr ())" "winding e' intent"
      "live_attempts e' = live_attempts e - {aid}" "advance\<^sup>*\<^sup>* e e'"
    using CancelAttempt_winding [OF Cons.prems(1,2) active live Cons.prems(5,6)] .
  have "engine_ok e'" "run_createdAt (eng_run e') \<le> ts" "set aids = live_attempts e'"
    using advances_engine_ok [OF e'(4) Cons.prems(1)] advances_createdAt [OF e'(4)] Cons.prems(3,4,6) e'(3) by auto
  then show ?case
    using Cons.IH [of e'] e'(1,2) Cons.prems(3,5) by simp
qed

end
