(* ===== verification/Engine_Sample.thy ===== *)
theory Engine_Sample
  imports Engine_State Runtime_Properties
begin

text \<open>
  A concrete workflow for the instances of the properties: a start node, one RPC task that may be
  attempted twice and recovered once, and an end node that returns the task's response.
\<close>

section \<open>The definition\<close>

definition sample_id :: "string \<Rightarrow> char \<Rightarrow> string" where
  "sample_id p c = p @ replicate 23 (CHR ''0'') @ [c]"

definition sample_start :: NodeID where "sample_start = sample_id ''xn_'' (CHR ''0'')"
definition sample_task :: NodeID where "sample_task = sample_id ''xn_'' (CHR ''2'')"
definition sample_end :: NodeID where "sample_end = sample_id ''xn_'' (CHR ''9'')"

definition sample_policy :: ExecutionPolicy where
  "sample_policy = \<lparr>ep_MaxAttempts = 2, ep_MaxRecoveries = 1, ep_AttemptTimeoutMS = 1000,
     ep_RetryBackoff = Some \<lparr>rb_Kind = ''fixed'', rb_DelayMS = 5\<rparr>, ep_RetryableErrorCodes = [''E'']\<rparr>"

definition sample_reference :: "NodeID \<Rightarrow> PortName \<Rightarrow> InputBinding" where
  "sample_reference nid name = \<lparr>ib_Kind = BindingNodeOutput, ib_DataType = TypeObject, ib_Value = [],
     ib_Output = Some \<lparr>or_NodeID = nid, or_Name = name\<rparr>\<rparr>"

definition sample_nodes :: "Node list" where
  "sample_nodes = [
     \<lparr>dn_ID = sample_start, dn_Kind = KindControl,
      dn_Operation = \<lparr>op_Type = ''control.start'', op_Version = 1, op_Config = Some []\<rparr>, dn_Inputs = Some [],
      dn_Outputs = Some [(''workflow_input'', TypeObject)], dn_ExecutionPolicy = zero_policy\<rparr>,
     \<lparr>dn_ID = sample_task, dn_Kind = KindTask,
      dn_Operation = \<lparr>op_Type = ''task.rpc'', op_Version = 1,
        op_Config = Some [(''contract_revision'', quoted ''1''), (''idempotent'', ''true''), (''operation'', quoted ''o''),
          (''service_id'', quoted ''s'')]\<rparr>,
      dn_Inputs = Some [(''request'', sample_reference sample_start ''workflow_input'')],
      dn_Outputs = Some [(''response'', TypeObject)], dn_ExecutionPolicy = sample_policy\<rparr>,
     \<lparr>dn_ID = sample_end, dn_Kind = KindControl,
      dn_Operation = \<lparr>op_Type = ''control.end'', op_Version = 1, op_Config = Some []\<rparr>,
      dn_Inputs = Some [(''workflow_output'', sample_reference sample_task ''response'')],
      dn_Outputs = Some [], dn_ExecutionPolicy = zero_policy\<rparr>]"

definition sample_edge :: "char \<Rightarrow> NodeID \<Rightarrow> NodeID \<Rightarrow> Edge" where
  "sample_edge c source target = \<lparr>edge_ID = sample_id ''xe_'' c, edge_SourceNodeID = source, edge_TargetNodeID = target,
     edge_Activation = \<lparr>act_Kind = ActivationAlways, act_Route = ''''\<rparr>\<rparr>"

definition sample_edges :: "Edge list" where
  "sample_edges = [sample_edge (CHR ''1'') sample_start sample_task, sample_edge (CHR ''2'') sample_task sample_end]"

definition sample_document :: Document where
  "sample_document = \<lparr>doc_DSLVersion = ''1'', doc_EntryNodeID = sample_start, doc_ExitNodeID = sample_end,
     doc_Nodes = sample_nodes, doc_Edges = sample_edges\<rparr>"

definition sample_snapshot :: Snapshot where
  "sample_snapshot = \<lparr>snap_ID = ''s1'', snap_DefinitionHash = ''h1'', snap_DSL = sample_document\<rparr>"

text \<open>No Python source occurs in it, so that any parser will do: this one rejects everything.\<close>

definition sample_parser :: "string \<Rightarrow> py_Stmt list option" where
  "sample_parser source = None"

section \<open>The new engine\<close>

definition sample_pending :: "NodeID \<Rightarrow> NodeKind \<Rightarrow> NodeRun" where
  "sample_pending nid kind = \<lparr>node_runID = ''r1'', node_executionNodeID = nid, node_kind = kind,
     node_state = NodePending, node_stateVersion = 1, node_activated = False, node_selectedRoute = '''',
     node_resolvedInputs = [], node_effectiveOutputs = [], node_effectiveAttemptID = '''', node_currentAttemptID = '''',
     node_nextAttemptSeq = 0, node_businessAttemptCount = 0, node_recoveryCount = 0,
     node_nextAttemptKind = AttemptInitial, node_nextRetryAt = 0, node_failure = None, node_cancelReason = ''''\<rparr>"

definition sample_engine :: Engine where
  "sample_engine = \<lparr>eng_snapshot = sample_snapshot,
     eng_run = sample_run\<lparr>run_state := RunRunning, run_stateVersion := 2, run_nodeRunCount := 3,
       run_executionNodeIDs := {sample_start, sample_task, sample_end}\<rparr>,
     eng_doc = sample_document, eng_nodeDefs = map (\<lambda>n. (dn_ID n, n)) sample_nodes,
     eng_nodes = [
       (sample_start, (sample_pending sample_start NodeControl)\<lparr>node_state := NodeSucceeded, node_stateVersion := 3,
          node_activated := True, node_effectiveOutputs := [(''workflow_input'', ''{}'')]\<rparr>),
       (sample_task, (sample_pending sample_task NodeTask)\<lparr>node_state := NodeReady, node_stateVersion := 3,
          node_activated := True, node_resolvedInputs := [(''request'', ''{}'')]\<rparr>),
       (sample_end, sample_pending sample_end NodeControl)],
     eng_attempts = [], eng_attemptNodes = [],
     eng_edges = [(sample_id ''xe_'' (CHR ''1''), EdgeActive), (sample_id ''xe_'' (CHR ''2''), EdgePending)],
     eng_incoming = [(sample_task, [sample_edge (CHR ''1'') sample_start sample_task]),
                     (sample_end, [sample_edge (CHR ''2'') sample_task sample_end])],
     eng_outgoing = [(sample_start, [sample_edge (CHR ''1'') sample_start sample_task]),
                     (sample_task, [sample_edge (CHR ''2'') sample_task sample_end])]\<rparr>"

lemma sample_new: "NewBuiltinV1 sample_parser sample_snapshot sample_command = Inr sample_engine"
  by code_simp

lemma sample_small: "small_budgets (snap_DSL sample_snapshot)"
  by (simp add: small_budgets_def sample_snapshot_def sample_document_def sample_nodes_def sample_policy_def zero_policy_def)

lemma sample_reachable: "reachable_engine sample_parser sample_snapshot sample_command sample_engine"
  using sample_new by (auto simp: reachable_engine_def)

section \<open>A history\<close>

definition sample_result :: AttemptResult where
  "sample_result = \<lparr>res_State = AttemptSucceeded, res_Outputs = [(''response'', ''{}'')], res_ErrorCode = '''',
     res_Message = '''', res_DSLField = '''', res_ErrorDetails = None\<rparr>"

definition sample_error :: AttemptResult where
  "sample_error = \<lparr>res_State = AttemptFailed, res_Outputs = [], res_ErrorCode = ''F'',
     res_Message = ''no'', res_DSLField = '''', res_ErrorDetails = None\<rparr>"

definition sample_running :: Engine where
  "sample_running = fst (StartAttempt ''a1'' (fst (QueueNode sample_task ''a1'' sample_engine)))"

definition sample_recorded :: Engine where
  "sample_recorded = fst (RecordAttemptResult ''a1'' sample_result sample_running)"

definition sample_finished :: Engine where
  "sample_finished = fst (HandleAttemptCompleted ''a1'' 20 sample_recorded)"

definition sample_rejected :: Engine where
  "sample_rejected = fst (RecordAttemptResult ''a1'' sample_error sample_running)"

definition sample_failed :: Engine where
  "sample_failed = fst (HandleAttemptCompleted ''a1'' 20 sample_rejected)"

lemma reachable_op:
  "reachable_engine p s c e \<Longrightarrow> engine_op e e' \<Longrightarrow> reachable_engine p s c e'"
  unfolding reachable_engine_def by (meson rtranclp.rtrancl_into_rtrancl)

lemma sample_history:
  "reachable_engine sample_parser sample_snapshot sample_command sample_running"
  "reachable_engine sample_parser sample_snapshot sample_command sample_recorded"
  "reachable_engine sample_parser sample_snapshot sample_command sample_finished"
  "reachable_engine sample_parser sample_snapshot sample_command sample_rejected"
  "reachable_engine sample_parser sample_snapshot sample_command sample_failed"
  unfolding sample_finished_def sample_failed_def sample_recorded_def sample_rejected_def sample_running_def
  by (intro sample_reachable reachable_op [OF _ engine_op.intros(1)] reachable_op [OF _ engine_op.intros(2)]
      reachable_op [OF _ engine_op.intros(3)] reachable_op [OF _ engine_op.intros(4)])+

lemma sample_states:
  "run_state (eng_run sample_finished) = RunSucceeded"
  "run_state (eng_run sample_failed) = RunFailed"
  by code_simp+

end
