(* ===== verification/Doc_Activation.thy ===== *)
theory Doc_Activation
  imports Dsl_Graph
begin

text \<open>
  Which nodes of an executable document run. A choice of a route for every branch activates the entry and
  the target of every edge that leaves an active node and, if it carries a route, carries the chosen one.
  The bindings of a document are safe when no choice activates the reader of an output but not its source.
\<close>

definition branch_node :: "Node \<Rightarrow> bool" where
  "branch_node n = (op_Type (dn_Operation n) = ''control.branch'')"

definition edge_taken :: "(NodeID \<Rightarrow> RouteName) \<Rightarrow> Edge \<Rightarrow> bool" where
  "edge_taken c e \<longleftrightarrow> (act_Kind (edge_Activation e) = ActivationRoute \<longrightarrow> c (edge_SourceNodeID e) = act_Route (edge_Activation e))"

inductive doc_active :: "Document \<Rightarrow> (NodeID \<Rightarrow> RouteName) \<Rightarrow> NodeID \<Rightarrow> bool" for d c where
  doc_active_entry: "doc_active d c (doc_EntryNodeID d)"
| doc_active_edge: "doc_active d c (edge_SourceNodeID e) \<Longrightarrow> e \<in> set (doc_Edges d) \<Longrightarrow> edge_taken c e \<Longrightarrow>
    doc_active d c (edge_TargetNodeID e)"

inductive_simps doc_active_iff: "doc_active d c v"

definition doc_choice :: "Document \<Rightarrow> (NodeID \<Rightarrow> RouteName) \<Rightarrow> bool" where
  "doc_choice d c \<longleftrightarrow> (\<forall>n \<in> set (doc_Nodes d). branch_node n \<longrightarrow>
     (\<exists>e \<in> set (doc_Edges d). edge_SourceNodeID e = dn_ID n \<and> act_Route (edge_Activation e) = c (dn_ID n)))"

definition bindings_safe :: "Document \<Rightarrow> bool" where
  "bindings_safe d \<longleftrightarrow> (\<forall>n \<in> set (doc_Nodes d). \<forall>(name, b) \<in> set (entries (dn_Inputs n)). \<forall>out.
     ib_Kind b = BindingNodeOutput \<and> ib_Output b = Some out \<longrightarrow>
       (or_NodeID out, dn_ID n) \<in> (doc_rel d)\<^sup>+
       \<and> (\<forall>c. doc_choice d c \<and> doc_active d c (dn_ID n) \<longrightarrow> doc_active d c (or_NodeID out)))"

lemma doc_rel_iff: "(u, v) \<in> doc_rel d \<longleftrightarrow> (\<exists>e \<in> set (doc_Edges d). edge_SourceNodeID e = u \<and> edge_TargetNodeID e = v)"
  by (auto simp: doc_pairs_def)

lemma doc_active_along:
  "doc_active d c u \<Longrightarrow> e \<in> set (doc_Edges d) \<Longrightarrow> edge_SourceNodeID e = u \<Longrightarrow> edge_TargetNodeID e = v \<Longrightarrow> edge_taken c e \<Longrightarrow>
   doc_active d c v"
  using doc_active_edge [of d c e] by auto

end
