(* ===== verification/Engine_Flow.thy ===== *)
theory Engine_Flow
  imports Engine_Outcome Doc_Activation
begin

text \<open>
  The flow of activation through a run. While a run is not terminating, a node run has left the pending
  state only after every source of its incoming edges has succeeded or was skipped, and it was skipped
  exactly when no edge into it is active. A run therefore follows a choice of routes of its document, and a
  document whose bindings are safe for every choice never starts a node without the inputs it refers to.
\<close>

section \<open>The routes of a branch\<close>

lemma branch_member_route: "branch_member m c = Some c' \<Longrightarrow> bc_Route c' = route_member m (bc_Route c)"
  by (cases m) (auto simp: branch_member_def Let_def split: if_splits)

lemma branch_members_route: "branch_members ms c = Some c' \<Longrightarrow> bc_Route c' = fold route_member ms (bc_Route c)"
  by (induction ms arbitrary: c) (auto simp: branch_member_route split: option.splits)

lemma unmarshal_case_route: "unmarshal_case v = Some c \<Longrightarrow> bc_Route c = case_route v"
  by (cases v) (auto simp: zero_branchCase_def dest: branch_members_route)

lemma unmarshal_case_list_routes: "unmarshal_case_list vs = Some cs \<Longrightarrow> map bc_Route cs = map case_route vs"
  by (induction vs arbitrary: cs) (auto simp: unmarshal_case_route split: option.splits)

lemma evaluate_cases_route: "evaluate_cases node v fallback i cs = Inr r \<Longrightarrow> r = fallback \<or> r \<in> bc_Route ` set cs"
  by (induction cs arbitrary: i) (auto split: option.splits sum.splits if_splits)

lemma evaluateBranch_declared:
  assumes "evaluateBranch node raw = Inr route"
  shows "route \<in> set (declared_routes node)"
proof -
  obtain cs fallback v where cs: "unmarshal_cases (config_raw node ''cases'') = Some cs"
      and fallback: "Option.bind (parse_text (config_raw node ''default_route'')) (\<lambda>v. unmarshal_string v '''') = Some fallback"
      and "evaluate_cases node v fallback 0 cs = Inr route"
    using evaluateBranch_Inr [OF assms] by metis
  then consider "route = fallback" | "route \<in> bc_Route ` set cs"
    using evaluate_cases_route by metis
  then show ?thesis
  proof cases
    case 1
    then show ?thesis
      using fallback by (simp add: declared_routes_def to_string_def [abs_def])
  next
    case 2
    then obtain vs where "parse_text (config_raw node ''cases'') = Some (JArray vs)" "unmarshal_case_list vs = Some cs"
      using cs by (auto simp: unmarshal_cases_def split: option.splits json.splits)
    moreover have "bc_Route ` set cs = case_route ` set vs"
      using arg_cong [where f = set, OF unmarshal_case_list_routes [OF calculation(2)]] by simp
    ultimately show ?thesis
      using 2 by (simp add: declared_routes_def)
  qed
qed

text \<open>A validated configuration has no empty route: the last member \<^verbatim>\<open>route\<close> of every case is a string.\<close>

lemma map_of_dedup_members: "map_of (dedup_members ms) = map_of (rev ms)"
proof -
  have "map_of (fold (\<lambda>(k, v) m. AList.update k v m) ms m) = map_of m ++ map_of (rev ms)" for m :: "(string \<times> 'a) list"
    by (induction ms arbitrary: m) (auto simp: fun_eq_iff map_add_def split: option.splits)
  then show ?thesis
    by (simp add: dedup_members_def)
qed

lemma field_names:
  "fold_name ''route'' = ''route''" "fold_name ''path'' = ''path''" "fold_name ''operator'' = ''operator''"
  "fold_name ''value'' = ''value''"
  by code_simp+

lemma route_fold:
  "fst ` set ms \<subseteq> {''route'', ''path'', ''operator'', ''value''} \<Longrightarrow> map_of (rev ms) ''route'' = Some (JString t) \<Longrightarrow>
     fold route_member ms r = t"
proof (induction ms rule: rev_induct)
  case (snoc m ms)
  obtain k v where m: "m = (k, v)"
    by (cases m)
  show ?case
    using snoc by (cases "k = ''route''") (auto simp: m field_names)
qed simp

lemma portPattern_nonempty: "portPattern t \<Longrightarrow> t \<noteq> ''''"
  by (auto simp: portPattern_def)

lemma validate_case_route:
  assumes "validate_case node i branch_case = []"
  shows "\<exists>t. map_of branch_case ''route'' = Some (JString t) \<and> t \<noteq> ''''"
    and "fst ` set branch_case \<subseteq> {''route'', ''path'', ''operator'', ''value''}"
proof -
  have "case member_string branch_case ''route'' of None \<Rightarrow> False | Some t \<Rightarrow> portPattern t"
    using assms unfolding validate_case_Nil by blast
  then obtain v t where "map_of branch_case ''route'' = Some v" "unmarshal_string v '''' = Some t" "portPattern t"
    by (auto simp: member_string_def to_string_def split: option.splits bind_splits)
  then show "\<exists>t. map_of branch_case ''route'' = Some (JString t) \<and> t \<noteq> ''''"
    using portPattern_nonempty by (cases v) auto
  have "\<forall>(field, v) \<in> set branch_case. field \<in> {''route'', ''path'', ''operator'', ''value''}"
    using assms unfolding validate_case_Nil by blast
  then show "fst ` set branch_case \<subseteq> {''route'', ''path'', ''operator'', ''value''}"
    by auto
qed

lemma validate_cases_Nil: "validate_cases node i cs = [] \<Longrightarrow> c \<in> set cs \<Longrightarrow> \<exists>j. validate_case node j c = []"
  by (induction cs arbitrary: i) auto

lemma case_route_nonempty:
  assumes "to_raw_map v = Some c" and "validate_case node i c = []"
  shows "case_route v \<noteq> ''''"
proof -
  note valid = validate_case_route [OF assms(2)]
  obtain t where t: "map_of c ''route'' = Some (JString t)" "t \<noteq> ''''"
    using valid(1) by blast
  then obtain ms where v: "v = JObject ms" "c = dedup_members ms"
    using assms(1) by (cases v) auto
  have "k \<in> {''route'', ''path'', ''operator'', ''value''}" if k: "k \<in> fst ` set ms" for k
  proof -
    have "map_of c k \<noteq> None"
      using k by (auto simp: v map_of_dedup_members map_of_eq_None_iff)
    then have "k \<in> fst ` set c"
      unfolding map_of_eq_None_iff by simp
    then show ?thesis
      by (rule subsetD [OF valid(2)])
  qed
  then show ?thesis
    using route_fold [of ms t "''''"] t by (auto simp: v map_of_dedup_members)
qed

lemma evaluateBranch_nonempty:
  assumes "evaluateBranch node raw = Inr route" and valid: "validateBranchConfig node = []"
  shows "route \<noteq> ''''"
proof -
  obtain cs fallback v where cs: "unmarshal_cases (config_raw node ''cases'') = Some cs"
      and fallback: "Option.bind (parse_text (config_raw node ''default_route'')) (\<lambda>v. unmarshal_string v '''') = Some fallback"
      and "evaluate_cases node v fallback 0 cs = Inr route"
    using evaluateBranch_Inr [OF assms(1)] by metis
  then consider "route = fallback" | "route \<in> bc_Route ` set cs"
    using evaluate_cases_route by metis
  then show ?thesis
  proof cases
    case 1
    have "case decode_config node ''default_route'' to_string of None \<Rightarrow> False | Some t \<Rightarrow> portPattern t"
      using valid by (auto simp: validateBranchConfig_def issue_when_def split: option.splits if_splits)
    then have "portPattern fallback"
      using fallback by (auto simp: decode_config_def config_raw_def to_string_def [abs_def] split: option.splits)
    then show ?thesis
      using 1 portPattern_nonempty by simp
  next
    case 2
    obtain r rs where r: "decode_config node ''cases'' (to_slice to_raw_map) = Some (r # rs)" "validate_cases node 0 (r # rs) = []"
      using valid by (auto simp: validateBranchConfig_def split: option.splits list.splits)
    then obtain raw w where raw: "config_raw node ''cases'' = raw" "parse_text raw = Some w" "to_slice to_raw_map w = Some (r # rs)"
      by (auto simp: decode_config_def config_raw_def split: option.splits bind_splits)
    then obtain vs where vs: "w = JArray vs" "map to_raw_map vs = map Some (r # rs)"
      by (cases w) (auto simp: those_Some)
    have "bc_Route ` set cs = case_route ` set vs"
      using arg_cong [where f = set, OF unmarshal_case_list_routes [of vs cs]] cs raw vs by (simp add: unmarshal_cases_def)
    moreover have "case_route u \<noteq> ''''" if "u \<in> set vs" for u
    proof -
      have "to_raw_map u \<in> Some ` set (r # rs)"
        using arg_cong [where f = set, OF vs(2)] that by (metis imageI list.set_map)
      then obtain c where c: "to_raw_map u = Some c" "c \<in> set (r # rs)"
        by blast
      obtain j where "validate_case node j c = []"
        using validate_cases_Nil [OF r(2) c(2)] by blast
      then show ?thesis
        by (rule case_route_nonempty [OF c(1)])
    qed
    ultimately show ?thesis
      using 2 by auto
  qed
qed

section \<open>What the built-in contract accepts\<close>

lemma validateNode_parts:
  assumes "validateNode c n = []" and "map_of (con_specs c) (Operation_Coordinate (dn_Operation n)) = Some spec"
  shows "validateInputs n (entries (dn_Inputs n)) (os_Inputs spec) (os_AllowExtraInputs spec) = []"
    and "dsl_validateOutputs n spec = []"
    and "\<forall>validate. os_ValidateConfig spec = Some validate \<longrightarrow> validate n = []"
proof -
  obtain config inputs outputs where c:
      "op_Config (dn_Operation n) = Some config" "dn_Inputs n = Some inputs" "dn_Outputs n = Some outputs"
    using assms by (cases "op_Config (dn_Operation n)"; cases "dn_Inputs n"; cases "dn_Outputs n") (simp_all add: validateNode_def)
  have parts: "validateInputs n inputs (os_Inputs spec) (os_AllowExtraInputs spec) = [] \<and> dsl_validateOutputs n spec = []
      \<and> (case os_ValidateConfig spec of None \<Rightarrow> [] | Some validate \<Rightarrow> validate n) = []"
    using assms unfolding validateNode_def by (simp only: c option.case prod.case append_is_Nil_conv simp_thms)
  then show "validateInputs n (entries (dn_Inputs n)) (os_Inputs spec) (os_AllowExtraInputs spec) = []"
    and "dsl_validateOutputs n spec = []" and "\<forall>validate. os_ValidateConfig spec = Some validate \<longrightarrow> validate n = []"
    by (auto simp: c entries_def)
qed

lemma builtin_control:
  assumes "validateNode (BuiltinV1Contract ParseFile) n = []"
  shows "op_Type (dn_Operation n) = ''control.branch'' \<Longrightarrow> validateBranchConfig n = []"
    and "map_of (entries (dn_Outputs n)) name = Some t \<Longrightarrow> control_type (op_Type (dn_Operation n)) \<Longrightarrow>
      op_Type (dn_Operation n) = ''control.start'' \<and> name = ''workflow_input''"
proof -
  have version: "op_Version (dn_Operation n) = 1" if "control_type (op_Type (dn_Operation n))"
    using accepted_control [OF BuiltinV1Contract_standard assms] that by simp
  show "validateBranchConfig n = []" if "op_Type (dn_Operation n) = ''control.branch''"
    using validateNode_parts(3) [OF assms] that version
    by (simp add: BuiltinV1Contract_def builtin_specs_def Operation_Coordinate_def control_type_def)
  show "op_Type (dn_Operation n) = ''control.start'' \<and> name = ''workflow_input''"
    if out: "map_of (entries (dn_Outputs n)) name = Some t" and control: "control_type (op_Type (dn_Operation n))"
  proof -
    obtain spec where spec: "map_of (con_specs (BuiltinV1Contract ParseFile)) (Operation_Coordinate (dn_Operation n)) = Some spec"
      using validateNode_spec [OF assms] by auto
    have "map_of (os_Outputs spec) name \<noteq> None \<or> os_AllowExtraOutputs spec"
      using validateNode_parts(2) [OF assms spec] map_of_SomeD [OF out]
      by (force simp: dsl_validateOutputs_def concat_Nil_conv split: option.splits)
    then show ?thesis
      using spec version [OF control] control
      by (auto simp: BuiltinV1Contract_def builtin_specs_def Operation_Coordinate_def control_type_def split: if_splits)
  qed
qed

text \<open>Bindings have one of the two kinds, and a reference names its output.\<close>

lemma validateNode_binding:
  assumes "validateNode c n = []" and "(name, b) \<in> set (entries (dn_Inputs n))"
  shows "ib_Kind b = BindingLiteral \<or> ib_Kind b = BindingNodeOutput \<and> ib_Output b \<noteq> None"
proof -
  obtain spec where spec: "map_of (con_specs c) (Operation_Coordinate (dn_Operation n)) = Some spec"
    using validateNode_spec [OF assms(1)] by auto
  have "validate_binding n (os_Inputs spec) (os_AllowExtraInputs spec) (name, b) = []"
    using validateNode_parts(1) [OF assms(1) spec] assms(2) by (simp add: validateInputs_def concat_Nil_conv)
  then show ?thesis
    by (cases "ib_Kind b") (auto simp: validate_binding_def Let_def split: option.splits)
qed

section \<open>The flow of activation\<close>

definition edge_live :: "Engine \<Rightarrow> Edge \<Rightarrow> bool" where
  "edge_live e d \<longleftrightarrow> (\<exists>n. map_of (eng_nodes e) (edge_SourceNodeID d) = Some n \<and> node_state n = NodeSucceeded
     \<and> settled_state NodeSucceeded (node_selectedRoute n) d = EdgeActive)"

definition edge_done :: "Engine \<Rightarrow> Edge \<Rightarrow> bool" where
  "edge_done e d \<longleftrightarrow> (\<exists>n. map_of (eng_nodes e) (edge_SourceNodeID d) = Some n \<and> node_state n \<in> {NodeSucceeded, NodeSkipped})"

definition edges_into :: "Engine \<Rightarrow> NodeID \<Rightarrow> Edge set" where
  "edges_into e v = {d \<in> set (doc_Edges (eng_doc e)). edge_TargetNodeID d = v}"

definition node_flow :: "Engine \<Rightarrow> NodeID \<Rightarrow> NodeRun \<Rightarrow> bool" where
  "node_flow e v n \<longleftrightarrow> (\<forall>d \<in> edges_into e v. edge_done e d)
     \<and> (node_state n \<noteq> NodeSkipped \<longleftrightarrow> (\<exists>d \<in> edges_into e v. edge_live e d))"

definition flow_ok :: "Engine \<Rightarrow> bool" where
  "flow_ok e \<longleftrightarrow> (run_termination (eng_run e) = None \<longrightarrow>
     (\<forall>v n. map_of (eng_nodes e) v = Some n \<longrightarrow> v \<noteq> doc_EntryNodeID (eng_doc e) \<longrightarrow> node_state n \<noteq> NodePending \<longrightarrow> node_flow e v n))"

text \<open>The edges into a due node, seen through the invariant of the edges.\<close>

lemma edges_into_incoming: "static_ok e \<Longrightarrow> set (slice_at (eng_incoming e) v) = edges_into e v"
  by (simp add: static_ok_def edges_into_def)

lemma edge_source_node:
  assumes ok: "engine_ok e" and d: "d \<in> set (doc_Edges (eng_doc e))"
  obtains n where "map_of (eng_nodes e) (edge_SourceNodeID d) = Some n"
proof -
  have "edge_SourceNodeID d \<in> doc_ids (eng_doc e)"
    using engine_okD(1) [OF ok] d node_of_ids [of "eng_doc e"]
    unfolding static_ok_def wf_document_def doc_edges_ok_def by (metis option.distinct(1))
  then show thesis
    using engine_okD(2) [OF ok] that by (metis map_of_fst_iff nodes_ok_def set_map)
qed

lemma edge_active_live:
  assumes ok: "engine_ok e" and d: "d \<in> set (doc_Edges (eng_doc e))"
  shows "map_of (eng_edges e) (edge_ID d) = Some EdgeActive \<longleftrightarrow> edge_live e d"
proof -
  obtain n where n: "map_of (eng_nodes e) (edge_SourceNodeID d) = Some n"
    using edge_source_node [OF ok d] by blast
  then have "edge_fits n d (map_of (eng_edges e) (edge_ID d))"
    using engine_okD(6) [OF ok] d by (simp add: edges_ok_def)
  then show ?thesis
    using n by (auto simp: edge_live_def edge_fits_def split: NodeState.splits)
qed

lemma edge_settled_done:
  assumes ok: "engine_ok e" and "run_termination (eng_run e) = None" and d: "d \<in> set (doc_Edges (eng_doc e))"
    and "map_of (eng_edges e) (edge_ID d) \<noteq> Some EdgePending"
  shows "edge_done e d"
proof -
  obtain n where n: "map_of (eng_nodes e) (edge_SourceNodeID d) = Some n"
    using edge_source_node [OF ok d] by blast
  then have "edge_fits n d (map_of (eng_edges e) (edge_ID d))"
    using engine_okD(6) [OF ok] d by (simp add: edges_ok_def)
  moreover have "node_state n \<notin> {NodeFailed, NodeTimedOut, NodeCanceled}"
    using engine_okD(7) [OF ok] n assms(2) by (auto simp: outcome_ok_def)
  ultimately show ?thesis
    using n assms(4) by (cases "node_state n") (auto simp: edge_done_def edge_fits_def)
qed

lemma due_node_edges:
  assumes ok: "engine_ok e" and due: "due_node e v n"
  shows "\<forall>d \<in> edges_into e v. edge_done e d" and "anyIncomingActive e v \<longleftrightarrow> (\<exists>d \<in> edges_into e v. edge_live e d)"
proof -
  note into = edges_into_incoming [OF engine_okD(1) [OF ok], of v]
  show "\<forall>d \<in> edges_into e v. edge_done e d"
    using due edge_settled_done [OF ok] into by (auto simp: due_node_def allIncomingSettled_def list_all_iff edges_into_def)
  show "anyIncomingActive e v \<longleftrightarrow> (\<exists>d \<in> edges_into e v. edge_live e d)"
    using edge_active_live [OF ok] into by (auto simp: anyIncomingActive_def list_ex_iff edges_into_def)
qed

text \<open>How a node run leaves the pending state while the run goes on.\<close>

lemma advance_from_pending:
  assumes "advance e e'" and "map_of (eng_nodes e') v = Some n'" and "node_state n' \<noteq> NodePending"
    and "run_termination (eng_run e') = None"
  shows "(\<exists>n. map_of (eng_nodes e) v = Some n \<and> node_state n \<noteq> NodePending
        \<and> (node_state n = NodeSkipped \<longleftrightarrow> node_state n' = NodeSkipped))
      \<or> (\<exists>n. due_node e v n \<and> (node_state n' = NodeSkipped \<longleftrightarrow> \<not> anyIncomingActive e v))"
  using assms
proof (cases rule: advance.cases)
  case (adv_fail nid n f m run')
  then show ?thesis
    using requested_run [OF adv_fail(4)] assms(4) by simp
next
  case (adv_fail_completed nid n aid res target f m run')
  then show ?thesis
    using requested_run [OF adv_fail_completed(5)] assms(4) by simp
next
  case (adv_end nid n inputs run' m)
  then show ?thesis
    using assms(2,3) op_states(14) [OF adv_end(7)] by (auto split: if_splits)
qed (use assms(2-4) in \<open>auto simp: completed_node_def dest!: node_op_Inr split: if_splits\<close>)

text \<open>A source that has succeeded or was skipped is final, and so are the edges out of it.\<close>

lemma advance_edge_done: "advance e e' \<Longrightarrow> edge_done e d \<Longrightarrow> edge_done e' d"
  using advance_terminal_node by (fastforce simp: edge_done_def)

lemma advance_edge_live: "advance e e' \<Longrightarrow> edge_done e d \<Longrightarrow> edge_live e' d \<longleftrightarrow> edge_live e d"
  using advance_terminal_node [of e e' "edge_SourceNodeID d"] by (fastforce simp: edge_done_def edge_live_def)

lemma advance_node_flow:
  assumes step: "advance e e'" and "\<forall>d \<in> edges_into e v. edge_done e d"
    and "node_state n \<noteq> NodeSkipped \<longleftrightarrow> (\<exists>d \<in> edges_into e v. edge_live e d)"
  shows "node_flow e' v n"
proof -
  have "edges_into e' v = edges_into e v"
    using advance_doc [OF step] by (simp add: edges_into_def)
  then show ?thesis
    using assms advance_edge_done [OF step] advance_edge_live [OF step] by (auto simp: node_flow_def)
qed

lemma advance_flow_ok:
  assumes step: "advance e e'" and ok: "engine_ok e" and flow: "flow_ok e"
  shows "flow_ok e'"
  unfolding flow_ok_def
proof (intro impI allI)
  fix v n'
  assume going: "run_termination (eng_run e') = None" and n': "map_of (eng_nodes e') v = Some n'"
    and entry: "v \<noteq> doc_EntryNodeID (eng_doc e')" and left: "node_state n' \<noteq> NodePending"
  have before: "run_termination (eng_run e) = None"
    using advance_run_outcome(1) [OF step engine_okD(2) [OF ok]] going by simp
  consider n where "map_of (eng_nodes e) v = Some n" "node_state n \<noteq> NodePending"
      "node_state n = NodeSkipped \<longleftrightarrow> node_state n' = NodeSkipped"
    | n where "due_node e v n" "node_state n' = NodeSkipped \<longleftrightarrow> \<not> anyIncomingActive e v"
    using advance_from_pending [OF step n' left going] by blast
  then show "node_flow e' v n'"
  proof cases
    case 1
    have "node_flow e v n"
      using flow 1(1,2) before entry advance_doc [OF step] by (simp add: flow_ok_def)
    then show ?thesis
      using 1(3) by (intro advance_node_flow [OF step]) (auto simp: node_flow_def)
  next
    case 2
    then show ?thesis
      using due_node_edges [OF ok 2(1)] by (intro advance_node_flow [OF step]) auto
  qed
qed

lemma entering_flow_ok:
  assumes "entering f run n n'"
  shows "flow_ok (entered f run n')"
proof -
  have "fresh_nodes f"
    using assms by (simp add: entering_def unstarted_def)
  then show ?thesis
    using fresh_pending by (fastforce simp: flow_ok_def entered_nodes)
qed

section \<open>The routes a run has taken\<close>

definition routes_ok :: "Engine \<Rightarrow> bool" where
  "routes_ok e \<longleftrightarrow> (\<forall>v n. map_of (eng_nodes e) v = Some n \<longrightarrow> node_state n = NodeSucceeded \<longrightarrow> branch_node (node_def e v) \<longrightarrow>
     (\<exists>d \<in> set (doc_Edges (eng_doc e)). edge_SourceNodeID d = v \<and> act_Route (edge_Activation d) = node_selectedRoute n))"

text \<open>The documents an engine accepts: well formed, with nodes that the built-in contract accepts.\<close>

definition accepted :: "(string \<Rightarrow> py_Stmt list option) \<Rightarrow> Engine \<Rightarrow> bool" where
  "accepted ParseFile e \<longleftrightarrow> (\<forall>n \<in> set (doc_Nodes (eng_doc e)). validateNode (BuiltinV1Contract ParseFile) n = [])"

lemma evaluated_route_edge:
  assumes static: "static_ok e" and accepted: "accepted ParseFile e" and v: "v \<in> doc_ids (eng_doc e)"
    and branch: "branch_node (node_def e v)" and route: "evaluateBranch (node_def e v) raw = Inr route"
  shows "\<exists>d \<in> set (doc_Edges (eng_doc e)). edge_SourceNodeID d = v \<and> act_Route (edge_Activation d) = route"
proof -
  note n = node_def_of [OF static v]
  have "validateBranchConfig (node_def e v) = []"
    using builtin_control(1) n accepted branch by (auto simp: accepted_def branch_node_def)
  then have "route \<noteq> ''''" "route \<in> set (declared_routes (node_def e v))"
    using evaluateBranch_nonempty [OF route] evaluateBranch_declared [OF route] by simp_all
  moreover have "validateDSLBranchRoutes (node_def e v) (edges_from (eng_doc e) v) = []"
    using static n branch unfolding static_ok_def wf_document_def doc_graph_ok_def branch_node_def by metis
  ultimately show ?thesis
    by (auto simp: validateDSLBranchRoutes_def Let_def concat_Nil_conv edges_from_def)
qed

lemma advance_branch_route:
  assumes "advance e e'" and "map_of (eng_nodes e') v = Some n'" and "node_state n' = NodeSucceeded"
    and "branch_node (node_def e v)" and "definition_kind (node_def e v) = NodeControl" and "nodes_ok e"
  shows "map_of (eng_nodes e) v = Some n' \<or> (\<exists>raw. evaluateBranch (node_def e v) raw = Inr (node_selectedRoute n'))"
  using assms
proof (cases rule: advance.cases)
  case (adv_accept nid n aid res m)
  then have "map_of (eng_nodes e) nid = Some n"
    by (simp add: completed_node_def)
  then have "node_kind n = definition_kind (node_def e nid)"
    using assms(6) by (simp add: nodes_okD node_ok_def nodes_ok_def)
  then show ?thesis
    using assms(2,5) SucceedAttempt_Inr [OF adv_accept(5)] adv_accept(1) by (auto split: if_splits)
next
  case (adv_end nid n inputs run' m)
  then show ?thesis
    using assms(2,4) by (auto simp: branch_node_def split: if_splits)
next
  case (adv_branch nid n inputs route m)
  then show ?thesis
    using assms(2) op_states(4) [OF adv_branch(7)] by (auto split: if_splits)
qed (use assms(2,3) in \<open>auto dest: op_states split: if_splits\<close>)

lemma branch_is_control:
  assumes "static_ok e" and "v \<in> doc_ids (eng_doc e)" and "branch_node (node_def e v)"
  shows "definition_kind (node_def e v) = NodeControl"
  using node_def_of [OF assms(1,2)] assms(1,3) by (auto simp: static_ok_def branch_node_def control_type_def definition_kind_def)

lemma advance_routes_ok:
  assumes step: "advance e e'" and ok: "engine_ok e" and accepted: "accepted ParseFile e" and routes: "routes_ok e"
  shows "routes_ok e'"
  unfolding routes_ok_def
proof (intro allI impI)
  fix v n'
  assume n': "map_of (eng_nodes e') v = Some n'" "node_state n' = NodeSucceeded" and branch: "branch_node (node_def e' v)"
  note same = advance_doc [OF step]
  have v: "v \<in> doc_ids (eng_doc e)"
    using node_key [OF advance_nodes_ok [OF step engine_okD(2) [OF ok]] n'(1)] same by simp
  have branch: "branch_node (node_def e v)"
    using branch same by simp
  note control = branch_is_control [OF engine_okD(1) [OF ok] v branch]
  consider "map_of (eng_nodes e) v = Some n'" | raw where "evaluateBranch (node_def e v) raw = Inr (node_selectedRoute n')"
    using advance_branch_route [OF step n' branch control engine_okD(2) [OF ok]] by blast
  then show "\<exists>d \<in> set (doc_Edges (eng_doc e')). edge_SourceNodeID d = v \<and> act_Route (edge_Activation d) = node_selectedRoute n'"
  proof cases
    case 1
    then show ?thesis
      using routes n'(2) branch same by (simp add: routes_ok_def)
  next
    case 2
    then show ?thesis
      using evaluated_route_edge [OF engine_okD(1) [OF ok] accepted v branch] same by simp
  qed
qed

lemma entering_routes_ok:
  assumes "entering f run n n'"
  shows "routes_ok (entered f run n')"
  unfolding routes_ok_def
proof (intro allI impI)
  let ?e = "entered f run n'" and ?entry = "doc_EntryNodeID (eng_doc f)"
  fix v m
  assume m: "map_of (eng_nodes ?e) v = Some m" "node_state m = NodeSucceeded" and branch: "branch_node (node_def ?e v)"
  have static: "static_ok ?e" and fresh: "fresh_nodes f"
    using assms by (simp_all add: entering_def unstarted_def engine_ok_def)
  have "v = ?entry"
    using m fresh_pending [OF fresh] by (auto simp: entered_nodes split: if_splits)
  moreover have "op_Type (dn_Operation (node_def ?e ?entry)) = ''control.start''"
    using static unfolding static_ok_def wf_document_def doc_nodes_ok_def
    by (auto simp: entered_nodes node_def_def node_of_def Operation_Coordinate_def)
  ultimately show "\<exists>d \<in> set (doc_Edges (eng_doc ?e)). edge_SourceNodeID d = v \<and> act_Route (edge_Activation d) = node_selectedRoute m"
    using branch by (simp add: branch_node_def)
qed

text \<open>What a run keeps of the flow, whatever the bindings of its document.\<close>

definition following :: "(string \<Rightarrow> py_Stmt list option) \<Rightarrow> Engine \<Rightarrow> bool" where
  "following ParseFile e \<longleftrightarrow> engine_ok e \<and> flow_ok e \<and> routes_ok e \<and> accepted ParseFile e"

lemma advance_following: "advance e e' \<Longrightarrow> following ParseFile e \<Longrightarrow> following ParseFile e'"
  using advance_engine_ok advance_flow_ok advance_routes_ok advance_doc unfolding following_def accepted_def by metis

lemma advances_following: "advance\<^sup>*\<^sup>* e e' \<Longrightarrow> following ParseFile e \<Longrightarrow> following ParseFile e'"
  by (induction rule: rtranclp_induct) (auto intro: advance_following)

lemma entering_following:
  assumes "entering f run n n'" and "Validate (BuiltinV1Contract ParseFile) (eng_doc f) = []"
  shows "following ParseFile (entered f run n')"
  using assms(2) entering_flow_ok [OF assms(1)] entering_routes_ok [OF assms(1)] assms(1)
  by (simp add: following_def entering_def accepted_def entered_nodes Validate_empty)

lemma reachable_following:
  assumes "reachable_engine ParseFile s cmd e" and "small_budgets (snap_DSL s)"
  shows "following ParseFile e"
proof -
  obtain f run n n' where "entering f run n n'" "advance\<^sup>*\<^sup>* (entered f run n') e"
      "Validate (BuiltinV1Contract ParseFile) (eng_doc f) = []"
    using reachable_entered [OF assms] by metis
  then show ?thesis
    using advances_following entering_following by blast
qed

section \<open>A run follows a choice of routes\<close>

definition run_choice :: "Engine \<Rightarrow> NodeID \<Rightarrow> RouteName" where
  "run_choice e v = (case map_of (eng_nodes e) v of
     Some n \<Rightarrow> if node_state n = NodeSucceeded then node_selectedRoute n
       else act_Route (edge_Activation (hd (edges_from (eng_doc e) v)))
   | None \<Rightarrow> '''')"

lemma run_choice_choice:
  assumes ok: "engine_ok e" and routes: "routes_ok e"
  shows "doc_choice (eng_doc e) (run_choice e)"
  unfolding doc_choice_def
proof (intro ballI impI)
  fix n
  assume n: "n \<in> set (doc_Nodes (eng_doc e))" "branch_node n"
  note static = engine_okD(1) [OF ok]
  have v: "dn_ID n \<in> doc_ids (eng_doc e)"
    using n by (simp add: doc_ids_def)
  have node: "node_def e (dn_ID n) = n"
    using node_def_of [OF static v] n(1) static unfolding static_ok_def wf_document_def doc_nodes_ok_def distinct_map inj_on_def by blast
  obtain m where m: "map_of (eng_nodes e) (dn_ID n) = Some m"
    using engine_okD(2) [OF ok] v map_of_fst_iff [of "dn_ID n" "eng_nodes e"] by (auto simp: nodes_ok_def)
  show "\<exists>d \<in> set (doc_Edges (eng_doc e)). edge_SourceNodeID d = dn_ID n \<and> act_Route (edge_Activation d) = run_choice e (dn_ID n)"
  proof (cases "node_state m = NodeSucceeded")
    case True
    then show ?thesis
      using routes m n(2) node by (simp add: routes_ok_def run_choice_def)
  next
    case False
    have "op_Type (dn_Operation n) \<noteq> ''control.end''"
      using n(2) by (simp add: branch_node_def)
    then have "dn_ID n \<noteq> doc_ExitNodeID (eng_doc e)"
      using exit_definition(1) [OF static] node by metis
    then have "dn_ID n \<in> Domain (doc_rel (eng_doc e))"
      using static v unfolding static_ok_def wf_document_def doc_graph_ok_def by blast
    then have "edges_from (eng_doc e) (dn_ID n) \<noteq> []"
      by (auto simp: doc_rel_iff edges_from_def filter_empty_conv)
    then have "hd (edges_from (eng_doc e) (dn_ID n)) \<in> set (edges_from (eng_doc e) (dn_ID n))"
      by simp
    then show ?thesis
      using False m by (auto simp: run_choice_def edges_from_def)
  qed
qed

lemma edge_live_taken:
  assumes ok: "engine_ok e" and d: "d \<in> set (doc_Edges (eng_doc e))"
    and n: "map_of (eng_nodes e) (edge_SourceNodeID d) = Some n" "node_state n = NodeSucceeded"
  shows "edge_live e d \<longleftrightarrow> edge_taken (run_choice e) d"
proof -
  obtain s where "activation_issues s d = []"
    using engine_okD(1) [OF ok] d unfolding static_ok_def wf_document_def doc_edges_ok_def by blast
  then have "act_Kind (edge_Activation d) = ActivationAlways \<or> act_Kind (edge_Activation d) = ActivationRoute"
    by (auto simp: activation_issues_def Let_def split: if_splits)
  then show ?thesis
    using n by (auto simp: edge_live_def edge_taken_def settled_state_def Let_def run_choice_def split: if_splits)
qed

text \<open>The nodes above a node whose incoming edges are done are done themselves.\<close>

definition settled_above :: "Engine \<Rightarrow> NodeID \<Rightarrow> bool" where
  "settled_above e v \<longleftrightarrow> (\<forall>d \<in> edges_into e v. edge_done e d)"

lemma entry_unreferenced:
  assumes "static_ok e"
  shows "edges_into e (doc_EntryNodeID (eng_doc e)) = {}"
proof -
  have "doc_EntryNodeID (eng_doc e) \<in> doc_ids (eng_doc e)"
    using assms node_of_ids [of "eng_doc e"] unfolding static_ok_def wf_document_def doc_nodes_ok_def by (metis option.distinct(1))
  then have "doc_EntryNodeID (eng_doc e) \<notin> Range (doc_rel (eng_doc e))"
    using assms unfolding static_ok_def wf_document_def doc_graph_ok_def by blast
  then show ?thesis
    unfolding Range_iff doc_rel_iff edges_into_def by blast
qed

lemma flow_node:
  assumes ok: "engine_ok e" and flow: "flow_ok e" and going: "run_termination (eng_run e) = None"
    and n: "map_of (eng_nodes e) v = Some n" "node_state n \<noteq> NodePending"
  shows "settled_above e v"
    and "v \<noteq> doc_EntryNodeID (eng_doc e) \<Longrightarrow> node_state n \<noteq> NodeSkipped \<longleftrightarrow> (\<exists>d \<in> edges_into e v. edge_live e d)"
proof -
  show "settled_above e v"
    using flow going n entry_unreferenced [OF engine_okD(1) [OF ok]]
    by (cases "v = doc_EntryNodeID (eng_doc e)") (auto simp: flow_ok_def node_flow_def settled_above_def)
  show "node_state n \<noteq> NodeSkipped \<longleftrightarrow> (\<exists>d \<in> edges_into e v. edge_live e d)" if "v \<noteq> doc_EntryNodeID (eng_doc e)"
    using flow going n that by (simp add: flow_ok_def node_flow_def)
qed

lemma settled_ancestors:
  assumes ok: "engine_ok e" and flow: "flow_ok e" and going: "run_termination (eng_run e) = None"
    and above: "(u, v) \<in> (doc_rel (eng_doc e))\<^sup>+" and "settled_above e v"
  shows "\<exists>n. map_of (eng_nodes e) u = Some n \<and> node_state n \<in> {NodeSucceeded, NodeSkipped}"
  using above assms(5)
proof (induction rule: converse_trancl_induct)
  case (base u)
  then show ?case
    by (auto simp: settled_above_def edges_into_def edge_done_def doc_rel_iff)
next
  case (step u w)
  then obtain n where n: "map_of (eng_nodes e) w = Some n" "node_state n \<in> {NodeSucceeded, NodeSkipped}"
    by blast
  then have "settled_above e w"
    by (intro flow_node(1) [OF ok flow going]) auto
  then show ?case
    using step(1) by (auto simp: settled_above_def edges_into_def edge_done_def doc_rel_iff)
qed

lemma doc_rel_wf:
  assumes "static_ok e"
  shows "wf (doc_rel (eng_doc e))"
proof (rule finite_acyclic_wf)
  show "finite (doc_rel (eng_doc e))"
    by simp
  show "acyclic (doc_rel (eng_doc e))"
    using assms by (simp add: static_ok_def wf_document_def doc_graph_ok_def)
qed

text \<open>Activation in the document and in the run agree on what has left the pending state.\<close>

lemma run_activation:
  assumes ok: "engine_ok e" and flow: "flow_ok e" and going: "run_termination (eng_run e) = None"
    and "map_of (eng_nodes e) v = Some n" and "node_state n \<noteq> NodePending"
  shows "doc_active (eng_doc e) (run_choice e) v \<longleftrightarrow> node_state n \<noteq> NodeSkipped"
  using doc_rel_wf [OF engine_okD(1) [OF ok]] assms(4,5)
proof (induction v arbitrary: n rule: wf_induct_rule)
  case (less v)
  show ?case
  proof (cases "v = doc_EntryNodeID (eng_doc e)")
    case True
    then show ?thesis
      using engine_okD(8) [OF ok] less(2) by (auto simp: outputs_ok_def intro: doc_active_entry)
  next
    case False
    have "doc_active (eng_doc e) (run_choice e) (edge_SourceNodeID d) \<and> edge_taken (run_choice e) d \<longleftrightarrow> edge_live e d"
      if d: "d \<in> edges_into e v" for d
    proof -
      have edge: "d \<in> set (doc_Edges (eng_doc e))" "(edge_SourceNodeID d, v) \<in> doc_rel (eng_doc e)"
        using d by (auto simp: edges_into_def doc_rel_iff)
      obtain m where m: "map_of (eng_nodes e) (edge_SourceNodeID d) = Some m" "node_state m \<in> {NodeSucceeded, NodeSkipped}"
        using flow_node(1) [OF ok flow going less(2,3)] d by (auto simp: settled_above_def edge_done_def)
      have "doc_active (eng_doc e) (run_choice e) (edge_SourceNodeID d) \<longleftrightarrow> node_state m = NodeSucceeded"
        using less(1) [OF edge(2) m(1)] m(2) by auto
      then show ?thesis
        using edge_live_taken [OF ok edge(1) m(1)] m by (auto simp: edge_live_def)
    qed
    moreover have "doc_active (eng_doc e) (run_choice e) v \<longleftrightarrow>
        (\<exists>d \<in> edges_into e v. doc_active (eng_doc e) (run_choice e) (edge_SourceNodeID d) \<and> edge_taken (run_choice e) d)"
      using False by (subst doc_active_iff) (auto simp: edges_into_def)
    ultimately show ?thesis
      using flow_node(2) [OF ok flow going less(2,3) False] by blast
  qed
qed

section \<open>Inputs are there when a node is due\<close>

text \<open>A succeeded node has every output its definition declares.\<close>

lemma validate_output_fields_present:
  "validate_output_fields ports values = None \<Longrightarrow> map_of ports name = Some t \<Longrightarrow> map_of values name \<noteq> None"
  by (induction ports) (auto split: option.splits if_splits)

lemma succeeded_output:
  assumes ok: "engine_ok e" and accepted: "accepted ParseFile e"
    and n: "map_of (eng_nodes e) v = Some n" "node_state n = NodeSucceeded"
    and out: "map_of (entries (dn_Outputs (node_def e v))) name = Some t"
  shows "map_of (node_effectiveOutputs n) name \<noteq> None"
proof -
  note static = engine_okD(1) [OF ok]
  have v: "v \<in> doc_ids (eng_doc e)"
    by (rule node_key [OF engine_okD(2) [OF ok] n(1)])
  note node = node_def_of [OF static v]
  show ?thesis
  proof (cases "control_type (op_Type (dn_Operation (node_def e v)))")
    case True
    have "validateNode (BuiltinV1Contract ParseFile) (node_def e v) = []"
      using accepted node by (simp add: accepted_def)
    then have start: "op_Type (dn_Operation (node_def e v)) = ''control.start''" "name = ''workflow_input''"
      using builtin_control(2) [OF _ out True] by simp_all
    then have "v = doc_EntryNodeID (eng_doc e)"
      using static node unfolding static_ok_def by metis
    then show ?thesis
      using engine_okD(8) [OF ok] n start(2) by (auto simp: outputs_ok_def)
  next
    case False
    then have "dn_Kind (node_def e v) = KindTask"
      using static node by (simp add: static_ok_def)
    moreover have "node_kind n = definition_kind (node_def e v)"
      using nodes_okD [OF engine_okD(2) [OF ok] n(1)] by (simp add: node_ok_def)
    ultimately have "validateOutputs (node_def e v) (node_effectiveOutputs n) = None"
      using engine_okD(8) [OF ok] n by (simp add: outputs_ok_def definition_kind_def)
    then show ?thesis
      using validate_output_fields_present [OF _ out] by (simp add: validateOutputs_def split: if_splits)
  qed
qed

definition source_ready :: "Engine \<Rightarrow> OutputReference \<Rightarrow> bool" where
  "source_ready e out \<longleftrightarrow> (\<exists>n. map_of (eng_nodes e) (or_NodeID out) = Some n \<and> node_state n = NodeSucceeded
     \<and> map_of (node_effectiveOutputs n) (or_Name out) \<noteq> None)"

lemma resolve_bindings_ready:
  assumes "\<forall>(name, b) \<in> set bs. ib_Kind b = BindingLiteral
      \<or> ib_Kind b = BindingNodeOutput \<and> (\<exists>out. ib_Output b = Some out \<and> source_ready e out)"
  shows "\<exists>inputs. resolve_bindings e bs acc = Inr (Some inputs)"
  using assms
proof (induction bs arbitrary: acc)
  case (Cons a bs)
  then show ?case
    by (cases a) (auto simp: source_ready_def)
qed simp

lemma due_inputs:
  assumes ok: "engine_ok e" and flow: "flow_ok e" and routes: "routes_ok e" and accepted: "accepted ParseFile e"
    and safe: "bindings_safe (eng_doc e)" and due: "due_node e v n" and active: "anyIncomingActive e v"
  shows "\<exists>inputs. resolveInputs e (node_def e v) = Inr (Some inputs)"
proof -
  let ?doc = "eng_doc e" and ?c = "run_choice e"
  note static = engine_okD(1) [OF ok]
  have going: "run_termination (eng_run e) = None" and v: "v \<in> doc_ids ?doc"
    using due node_key [OF engine_okD(2) [OF ok]] by (auto simp: due_node_def)
  note node = node_def_of [OF static v]
  have above: "settled_above e v"
    using due_node_edges(1) [OF ok due] by (simp add: settled_above_def)
  obtain d m where d: "d \<in> edges_into e v" "edge_live e d" and m: "map_of (eng_nodes e) (edge_SourceNodeID d) = Some m"
      "node_state m = NodeSucceeded"
    using due_node_edges(2) [OF ok due] active by (auto simp: edge_live_def)
  have edge: "d \<in> set (doc_Edges ?doc)" "edge_TargetNodeID d = v"
    using d(1) by (simp_all add: edges_into_def)
  have "doc_active ?doc ?c (edge_SourceNodeID d)" "edge_taken ?c d"
    using run_activation [OF ok flow going m(1)] edge_live_taken [OF ok edge(1) m] d(2) m(2) by simp_all
  then have here: "doc_active ?doc ?c v"
    using doc_active_along [OF _ edge(1) refl edge(2)] by simp
  have "source_ready e out" if b: "(name, b) \<in> set (entries (dn_Inputs (node_def e v)))" "ib_Kind b = BindingNodeOutput"
      "ib_Output b = Some out" for name b out
  proof -
    have up: "(or_NodeID out, v) \<in> (doc_rel ?doc)\<^sup>+" and active: "doc_active ?doc ?c (or_NodeID out)"
      using safe node b run_choice_choice [OF ok routes] here unfolding bindings_safe_def by fastforce+
    obtain s where s: "map_of (eng_nodes e) (or_NodeID out) = Some s" "node_state s \<in> {NodeSucceeded, NodeSkipped}"
      using settled_ancestors [OF ok flow going up above] by blast
    then have succeeded: "node_state s = NodeSucceeded"
      using run_activation [OF ok flow going s(1)] active by auto
    obtain source t where source: "node_of ?doc (or_NodeID out) = Some source" "map_of (entries (dn_Outputs source)) (or_Name out) = Some t"
      using static node b unfolding static_ok_def wf_document_def doc_refs_ok_def by fastforce
    then have "node_def e (or_NodeID out) = source"
      using static by (simp add: static_ok_def node_def_def node_of_def)
    then show ?thesis
      using succeeded_output [OF ok accepted s(1) succeeded] source(2) s(1) succeeded by (auto simp: source_ready_def)
  qed
  then have "\<forall>(name, b) \<in> set (entries (dn_Inputs (node_def e v))). ib_Kind b = BindingLiteral
      \<or> ib_Kind b = BindingNodeOutput \<and> (\<exists>out. ib_Output b = Some out \<and> source_ready e out)"
    using validateNode_binding accepted node unfolding accepted_def by fast
  then show ?thesis
    unfolding resolveInputs_def by (rule resolve_bindings_ready)
qed

section \<open>No run fails for a missing input\<close>

definition inputs_found :: "Engine \<Rightarrow> bool" where
  "inputs_found e \<longleftrightarrow> (\<forall>v n f. map_of (eng_nodes e) v = Some n \<longrightarrow> node_failure n = Some f \<longrightarrow> fail_Phase f \<noteq> ''input_binding'')"

lemma advance_new_failure:
  assumes "advance e e'" and "map_of (eng_nodes e') v = Some n'" and "node_failure n' = Some f" and "fail_Phase f = ''input_binding''"
  shows "(\<exists>n. map_of (eng_nodes e) v = Some n \<and> node_failure n = Some f)
    \<or> (\<exists>n. due_node e v n \<and> anyIncomingActive e v \<and> isl (resolveInputs e (node_def e v)))"
  using assms
proof (cases rule: advance.cases)
  case (adv_fail nid n f' m run')
  then show ?thesis
    using assms(2-4) by (auto dest!: node_op_Inr split: if_splits)
next
  case (adv_end nid n inputs run' m)
  then show ?thesis
    using assms(2,3) CompleteWorkflowSuccess_Inr [OF adv_end(7)] by (auto simp: due_node_def split: if_splits)
qed (use assms(2-4) in \<open>auto simp: completed_node_def due_node_def dest!: node_op_Inr split: if_splits\<close>)

lemma advance_inputs_found:
  assumes step: "advance e e'" and follow: "following ParseFile e" and safe: "bindings_safe (eng_doc e)" and found: "inputs_found e"
  shows "inputs_found e'"
  unfolding inputs_found_def
proof (intro allI impI notI)
  fix v n' f
  assume "map_of (eng_nodes e') v = Some n'" "node_failure n' = Some f" "fail_Phase f = ''input_binding''"
  from advance_new_failure [OF step this] show False
    using found \<open>fail_Phase f = ''input_binding''\<close> due_inputs [OF _ _ _ _ safe] follow
    by (fastforce simp: inputs_found_def following_def)
qed

lemma advances_inputs_found:
  "advance\<^sup>*\<^sup>* e e' \<Longrightarrow> following ParseFile e \<Longrightarrow> bindings_safe (eng_doc e) \<Longrightarrow> inputs_found e \<Longrightarrow>
     eng_doc e' = eng_doc e \<and> inputs_found e'"
proof (induction rule: rtranclp_induct)
  case (step e1 e2)
  then show ?case
    using advance_inputs_found [OF step(2) advances_following [OF step(1,4)]] advance_doc [OF step(2)] by simp
qed simp

lemma entering_inputs_found:
  assumes "entering f run n n'"
  shows "inputs_found (entered f run n')"
proof -
  have fresh: "fresh_nodes f" and entry: "map_of (eng_nodes f) (doc_EntryNodeID (eng_doc f)) = Some n"
      and steps: "\<exists>m. NodeRun_Activate n = Inr m \<and> NodeRun_SucceedControl m '''' [(''workflow_input'', run_workflowInput run)] = Inr n'"
    using assms by (auto simp: entering_def unstarted_def)
  have none: "node_failure k = None" if k: "map_of (eng_nodes f) v = Some k" for v k
  proof -
    have "NewNodeRun (run_id (eng_run f)) v (definition_kind (node_def f v)) = Inr k"
      using fresh k unfolding fresh_nodes_def by blast
    then show ?thesis
      by (auto simp: NewNodeRun_def split: if_splits)
  qed
  have "node_failure n' = None"
    using steps none [OF entry] by (auto dest!: Activate_Inr SucceedControl_Inr split: if_splits)
  then show ?thesis
    using none by (auto simp: inputs_found_def entered_nodes split: if_splits)
qed

lemma reachable_inputs_found:
  assumes "reachable_engine ParseFile s cmd e" and "small_budgets (snap_DSL s)"
    and safe: "\<And>d. cloneDocument (snap_DSL s) = Inr d \<Longrightarrow> bindings_safe d"
  shows "inputs_found e"
proof -
  obtain f run n n' where entering: "entering f run n n'" and adv: "advance\<^sup>*\<^sup>* (entered f run n') e"
      and valid: "Validate (BuiltinV1Contract ParseFile) (eng_doc f) = []" and doc: "cloneDocument (snap_DSL s) = Inr (eng_doc f)"
    using reachable_entered [OF assms(1,2)] by metis
  show ?thesis
    using advances_inputs_found [OF adv entering_following [OF entering valid]] entering_inputs_found [OF entering] safe [OF doc]
    by (simp add: entered_nodes)
qed

end
