(* ===== verification/Engine_Properties.thy ===== *)
theory Engine_Properties
  imports Engine_Winddown Engine_Sample Engine_Flow
begin

text \<open>
  The properties of the engine: what holds of every engine that its operations reach from a new
  one, how a run ends, and what a restart keeps. The instances run the workflow of the sample
  theory: one that succeeds and one whose task fails. Throughout, the attempts and the recoveries that
  a task of the document allows are together below 2^32 (\<open>small_budgets\<close>), so that no counter wraps.
\<close>

section \<open>Reachable engines\<close>

text \<open>A product of 64-bit words is negative when its value modulo 2^64 has the highest bit. A duration in milliseconds
  survives the product with a million at 64 bits, signed, up to a bound.\<close>

lemma product_negative:
  "sint ((d :: 64 word) * 1000000) < 0 \<longleftrightarrow> 2 ^ 63 \<le> 1000000 * uint d mod 2 ^ 64"
proof -
  define u where "u = uint (d * 1000000)"
  have u: "u = 1000000 * uint d mod 2 ^ 64"
    by (simp add: u_def uint_word_ariths mult.commute)
  have range: "0 \<le> u" "u < 2 ^ 64"
    by (simp_all add: u)
  have "sint (d * 1000000) < 0 \<longleftrightarrow> bit (d * 1000000) 63"
    using bit_last_iff [of "d * 1000000"] by simp
  also have "\<dots> \<longleftrightarrow> bit u 63"
    by (simp add: u_def bit_uint_iff)
  also have "\<dots> \<longleftrightarrow> odd (u div 2 ^ 63)"
    by (rule bit_iff_odd)
  also have "\<dots> \<longleftrightarrow> 2 ^ 63 \<le> u"
  proof (cases "u < 2 ^ 63")
    case True
    then show ?thesis
      using range(1) by (simp add: div_pos_pos_trivial)
  next
    case False
    then have "u div 2 ^ 63 = 1"
      using range(2) by (intro int_div_pos_eq [where r = "u - 2 ^ 63"]) simp_all
    then show ?thesis
      using False by simp
  qed
  finally show ?thesis
    by (simp add: u)
qed

lemma duration_exact:
  "sint ((d :: 64 word) * 1000000) = 1000000 * uint d \<longleftrightarrow> uint d \<le> 9223372036854"
proof
  assume "sint (d * 1000000) = 1000000 * uint d"
  moreover have "sint (d * 1000000) < 2 ^ 63"
    using sint_lt [of "d * 1000000"] by simp
  ultimately show "uint d \<le> 9223372036854"
    by simp
next
  assume le: "uint d \<le> 9223372036854"
  have bound: "uint d * 1000000 < 2 ^ 63" "0 \<le> uint d * 1000000"
    using le by auto
  have low: "- (2 ^ 63) \<le> uint d * 1000000"
    by (rule order_trans [of _ 0]) (use bound(2) in simp_all)
  have "uint (d * 1000000) = uint d * 1000000"
    using bound by (simp add: uint_word_ariths)
  then have "sint (d * 1000000) = signed_take_bit 63 (uint d * 1000000)"
    by (simp add: sint_uint)
  also have "\<dots> = uint d * 1000000"
    using low bound(1) by (rule signed_take_bit_int_eq_self)
  finally show "sint (d * 1000000) = 1000000 * uint d"
    by simp
qed

text \<open>
  C2: Every engine reachable from \<^verbatim>\<open>NewBuiltinV1\<close> by the engine's operations keeps its invariant: the
  run, every node run and every attempt are well formed and agree with the definition and with each
  other, edges follow their source, budgets hold, and no state version has wrapped around.
\<close>

theorem engine_reachable_ok:
  assumes "reachable_engine ParseFile s cmd e" and "small_budgets (snap_DSL s)"
  shows "engine_ok e \<and> versions_ok e"
  using reachable_engine_ok [OF assms] reachable_versions_ok [OF assms] by simp

theorem engine_reachable_ok_witness:
  "engine_ok sample_finished \<and> versions_ok sample_finished \<and> run_state (eng_run sample_finished) = RunSucceeded"
  using engine_reachable_ok [OF sample_history(3) sample_small] sample_states by simp

text \<open>
  C3: A run has succeeded exactly when its end node has; then it has no termination intent, every
  node has succeeded or was skipped, and the workflow output is a JSON object.
\<close>

theorem engine_success:
  assumes "reachable_engine ParseFile s cmd e" and "small_budgets (snap_DSL s)"
  shows "(run_state (eng_run e) = RunSucceeded \<longleftrightarrow>
      (\<exists>n. map_of (eng_nodes e) (doc_ExitNodeID (eng_doc e)) = Some n \<and> node_state n = NodeSucceeded))
    \<and> (run_state (eng_run e) = RunSucceeded \<longrightarrow> run_termination (eng_run e) = None
      \<and> cloneJSONObject (run_workflowOutput (eng_run e)) = Inr (run_workflowOutput (eng_run e))
      \<and> (\<forall>nid n. map_of (eng_nodes e) nid = Some n \<longrightarrow> node_state n \<in> {NodeSucceeded, NodeSkipped}))"
proof (intro conjI impI allI)
  have ok: "engine_ok e" and exit: "exit_ok e"
    using reachable_engine_ok [OF assms] reachable_exit_ok [OF assms] by simp_all
  have "doc_ExitNodeID (eng_doc e) \<in> doc_ids (eng_doc e)"
    using engine_okD(1) [OF ok] node_of_ids
    unfolding static_ok_def wf_document_def doc_nodes_ok_def by (metis option.distinct(1))
  then have "\<exists>n. map_of (eng_nodes e) (doc_ExitNodeID (eng_doc e)) = Some n"
    using engine_okD(2) [OF ok] by (metis map_of_fst_iff nodes_ok_def set_map)
  then show "run_state (eng_run e) = RunSucceeded \<longleftrightarrow>
      (\<exists>n. map_of (eng_nodes e) (doc_ExitNodeID (eng_doc e)) = Some n \<and> node_state n = NodeSucceeded)"
    using exit by (auto simp: exit_ok_def)
  assume succeeded: "run_state (eng_run e) = RunSucceeded"
  then show run: "run_termination (eng_run e) = None"
      "cloneJSONObject (run_workflowOutput (eng_run e)) = Inr (run_workflowOutput (eng_run e))"
    using engine_okD(3) [OF ok] by (simp_all add: run_ok_def run_wf_def)
  show "node_state n \<in> {NodeSucceeded, NodeSkipped}" if "map_of (eng_nodes e) nid = Some n" for nid n
    using engine_okD(7) [OF ok] run(1) succeeded that
    by (cases "node_state n") (fastforce simp: outcome_ok_def)+
qed

theorem engine_success_witness:
  "run_termination (eng_run sample_finished) = None
     \<and> map_option node_state (map_of (eng_nodes sample_finished) sample_end) = Some NodeSucceeded"
proof -
  have "doc_ExitNodeID (eng_doc sample_finished) = sample_end"
    by code_simp
  then show ?thesis
    using engine_success [OF sample_history(3) sample_small] sample_states(1) by auto
qed

text \<open>
  C7: Fail fast: once a node has failed, timed out or was canceled, the run has a termination
  intent, no node is offered for execution, and queueing any attempt is refused without effect.
\<close>

theorem engine_fail_fast:
  assumes "reachable_engine ParseFile s cmd e" and "small_budgets (snap_DSL s)"
    and "map_of (eng_nodes e) nid = Some n" and "node_state n \<in> {NodeFailed, NodeTimedOut, NodeCanceled}"
  shows "run_termination (eng_run e) \<noteq> None \<and> ReadyNodeIDs e = []
    \<and> (\<forall>m aid. fst (QueueNode m aid e) = e \<and> isl (snd (QueueNode m aid e)))"
proof -
  have "run_termination (eng_run e) \<noteq> None"
    using engine_okD(7) [OF reachable_engine_ok [OF assms(1,2)]] assms(3,4) unfolding outcome_ok_def by blast
  then show ?thesis
    by (simp add: ReadyNodeIDs_def QueueNode_def)
qed

theorem engine_fail_fast_witness: "run_termination (eng_run sample_failed) \<noteq> None \<and> ReadyNodeIDs sample_failed = []"
proof -
  have "map_option node_state (map_of (eng_nodes sample_failed) sample_task) = Some NodeFailed"
    by code_simp
  then obtain n where "map_of (eng_nodes sample_failed) sample_task = Some n" "node_state n = NodeFailed"
    by auto
  then show ?thesis
    using engine_fail_fast [OF sample_history(5) sample_small] by simp
qed

text \<open>
  C8: Retry budgets: a task starts at most \<^verbatim>\<open>max_attempts\<close> business attempts and \<^verbatim>\<open>max_recoveries\<close>
  recoveries; its attempt sequence is their exact sum, and its state version is bounded by it.
\<close>

theorem engine_budget:
  assumes "reachable_engine ParseFile s cmd e" and "small_budgets (snap_DSL s)"
    and n: "map_of (eng_nodes e) nid = Some n" and "node_kind n = NodeTask"
  shows "node_businessAttemptCount n \<le> ep_MaxAttempts (dn_ExecutionPolicy (node_def e nid))
    \<and> node_recoveryCount n \<le> ep_MaxRecoveries (dn_ExecutionPolicy (node_def e nid))
    \<and> unat (node_nextAttemptSeq n) = unat (node_businessAttemptCount n) + unat (node_recoveryCount n)
    \<and> unat (node_stateVersion n) \<le> 4 * unat (node_nextAttemptSeq n) + 4"
proof -
  have ok: "engine_ok e" and v: "versions_ok e"
    using reachable_engine_ok [OF assms(1,2)] reachable_versions_ok [OF assms(1,2)] .
  let ?p = "dn_ExecutionPolicy (node_def e nid)"
  have fits: "node_businessAttemptCount n \<le> ep_MaxAttempts ?p" "node_recoveryCount n \<le> ep_MaxRecoveries ?p"
    using engine_okD(9) [OF ok] n assms(4) by (simp_all add: budget_ok_def budget_fits_def)
  have "node_def e nid \<in> set (doc_Nodes (eng_doc e))"
    using node_def_of [OF engine_okD(1) [OF ok]] node_key [OF engine_okD(2) [OF ok] n] by blast
  then have "unat (ep_MaxAttempts ?p) + unat (ep_MaxRecoveries ?p) < 2 ^ 32"
    using engine_okD(1) [OF ok] unfolding static_ok_def by blast
  then have "unat (node_businessAttemptCount n) + unat (node_recoveryCount n) < 2 ^ 32"
    using fits by (auto simp: word_le_nat_alt)
  moreover have "node_nextAttemptSeq n = node_businessAttemptCount n + node_recoveryCount n"
    using nodes_okD [OF engine_okD(2) [OF ok] n] by (simp add: node_ok_def node_counted_def)
  ultimately have "unat (node_nextAttemptSeq n) = unat (node_businessAttemptCount n) + unat (node_recoveryCount n)"
    by (simp add: unat_word_ariths)
  moreover have "state_phase st b \<le> 4" for st b
    by (cases st) auto
  then have "unat (node_stateVersion n) \<le> 4 * unat (node_nextAttemptSeq n) + 4"
    using v n unfolding versions_ok_def node_version_ok_def node_version_bound_def by (meson add_left_mono le_trans)
  ultimately show ?thesis
    using fits by simp
qed

theorem engine_budget_witness:
  "\<exists>n. map_of (eng_nodes sample_failed) sample_task = Some n \<and> unat (node_stateVersion n) \<le> 4 * unat (node_nextAttemptSeq n) + 4"
proof -
  have "map_option node_kind (map_of (eng_nodes sample_failed) sample_task) = Some NodeTask"
    by code_simp
  then obtain n where "map_of (eng_nodes sample_failed) sample_task = Some n" "node_kind n = NodeTask"
    by auto
  then show ?thesis
    using engine_budget [OF sample_history(5) sample_small] by blast
qed



text \<open>
  C6: Provenance of outputs: what a succeeded task exposes are the outputs that its own effective
  attempt recorded, that attempt has succeeded, and they meet the node's declared output contract.
\<close>

theorem engine_outputs:
  assumes "reachable_engine ParseFile s cmd e" and "small_budgets (snap_DSL s)"
    and n: "map_of (eng_nodes e) nid = Some n" and "node_kind n = NodeTask" and "node_state n = NodeSucceeded"
  shows "\<exists>a r. map_of (eng_attempts e) (node_effectiveAttemptID n) = Some a \<and> att_state a = AttemptSucceeded
    \<and> att_result a = Some r \<and> res_Outputs r = node_effectiveOutputs n
    \<and> map_of (eng_attemptNodes e) (node_effectiveAttemptID n) = Some nid
    \<and> validateOutputs (node_def e nid) (node_effectiveOutputs n) = None"
proof -
  have ok: "engine_ok e"
    using reachable_engine_ok [OF assms(1,2)] .
  have "node_effectiveAttemptID n = node_currentAttemptID n" "node_currentAttemptID n \<noteq> ''''"
    using nodes_okD [OF engine_okD(2) [OF ok] n] assms(4,5) unfolding node_ok_def node_wf_def by blast+
  moreover from this obtain a where "map_of (eng_attempts e) (node_currentAttemptID n) = Some a" "attempt_fits n a"
      "map_of (eng_attemptNodes e) (node_currentAttemptID n) = Some nid"
    using engine_okD(5) [OF ok] n unfolding current_ok_def by blast
  moreover have "validateOutputs (node_def e nid) (node_effectiveOutputs n) = None"
    using engine_okD(8) [OF ok] n assms(4,5) unfolding outputs_ok_def by blast
  ultimately show ?thesis
    using assms(5) by (auto simp: attempt_fits_def)
qed

theorem engine_outputs_witness:
  "\<exists>a r. map_of (eng_attempts sample_finished) ''a1'' = Some a \<and> att_result a = Some r
     \<and> res_Outputs r = [(''response'', ''{}'')]"
proof -
  have "map_option (\<lambda>n. (node_kind n, node_state n, node_effectiveAttemptID n, node_effectiveOutputs n))
      (map_of (eng_nodes sample_finished) sample_task) = Some (NodeTask, NodeSucceeded, ''a1'', [(''response'', ''{}'')])"
    by code_simp
  then obtain n where "map_of (eng_nodes sample_finished) sample_task = Some n" "node_kind n = NodeTask"
      "node_state n = NodeSucceeded" "node_effectiveAttemptID n = ''a1''" "node_effectiveOutputs n = [(''response'', ''{}'')]"
    by auto
  then show ?thesis
    using engine_outputs [OF sample_history(3) sample_small, of sample_task n] by auto
qed

section \<open>Restart, replay and the end of a run\<close>

text \<open>
  C5: Crash and restart: restoring the persisted state of a reachable engine succeeds and gives an
  engine with the same definition, run, node runs, attempts and attempt owners, which again satisfies
  the invariant. Its edges are the same with one exception: an edge whose source node failed, timed out
  or was canceled, which the running engine leaves pending, is inactive after the restart.
\<close>

theorem engine_restart:
  assumes "reachable_engine ParseFile s cmd e" and "small_budgets (snap_DSL s)"
  shows "\<exists>e'. RestoreBuiltinV1 ParseFile s (SnapshotState e) = Inr e' \<and> eng_run e' = eng_run e
    \<and> eng_doc e' = eng_doc e \<and> map_of (eng_nodes e') = map_of (eng_nodes e)
    \<and> map_of (eng_attempts e') = map_of (eng_attempts e) \<and> map_of (eng_attemptNodes e') = map_of (eng_attemptNodes e)
    \<and> engine_ok e' \<and> versions_ok e'
    \<and> (\<forall>d \<in> set (doc_Edges (eng_doc e)). map_of (eng_edges e') (edge_ID d) = map_of (eng_edges e) (edge_ID d)
         \<or> (\<exists>n. map_of (eng_nodes e) (edge_SourceNodeID d) = Some n
              \<and> node_state n \<in> {NodeFailed, NodeTimedOut, NodeCanceled} \<and> map_of (eng_edges e') (edge_ID d) = Some EdgeInactive))"
proof -
  have ok: "engine_ok e" and v: "versions_ok e"
    using reachable_engine_ok [OF assms] reachable_versions_ok [OF assms] .
  obtain e' where e': "RestoreBuiltinV1 ParseFile s (SnapshotState e) = Inr e'" and kept: "restored_from e e'"
    using reachable_restore [OF assms] .
  have "map_of (eng_edges e') (edge_ID d) = map_of (eng_edges e) (edge_ID d)
      \<or> (\<exists>n. map_of (eng_nodes e) (edge_SourceNodeID d) = Some n
           \<and> node_state n \<in> {NodeFailed, NodeTimedOut, NodeCanceled} \<and> map_of (eng_edges e') (edge_ID d) = Some EdgeInactive)"
    if d: "d \<in> set (doc_Edges (eng_doc e))" for d
  proof -
    obtain n where n: "map_of (eng_nodes e) (edge_SourceNodeID d) = Some n"
      using edge_source_node [OF ok d] .
    then have "edge_fits n d (map_of (eng_edges e) (edge_ID d))" "map_of (eng_edges e') (edge_ID d) = Some (restored_edge n d)"
      using engine_okD(6) [OF ok] kept d unfolding edges_ok_def restored_from_def by blast+
    then show ?thesis
      using n by (cases "node_state n") (auto simp: edge_fits_def restored_edge_def settled_state_def Let_def)
  qed
  then show ?thesis
    using e' kept restored_engine_ok [OF kept ok] restored_versions_ok [OF kept v]
    by (auto simp: restored_from_def static_def)
qed

theorem engine_restart_witness:
  "\<exists>e'. RestoreBuiltinV1 sample_parser sample_snapshot (SnapshotState sample_running) = Inr e'
     \<and> map_of (eng_nodes e') = map_of (eng_nodes sample_running) \<and> engine_ok e'"
  using engine_restart [OF sample_history(1) sample_small] by blast

text \<open>
  C11: The end of a run is final: once the run of a reachable engine is terminal, no sequence of
  operations, whatever their arguments, changes anything of the engine.
\<close>

theorem engine_final:
  assumes "reachable_engine ParseFile s cmd e" and "small_budgets (snap_DSL s)"
    and "RunState_Terminal (run_state (eng_run e))" and "engine_op\<^sup>*\<^sup>* e e'"
  shows "e' = e"
  using engine_terminal_final [OF reachable_engine_ok [OF assms(1,2)] assms(3,4)] .

theorem engine_final_witness: "fst (RequestCancel 30 ''late'' sample_finished) = sample_finished"
proof (rule engine_final [OF sample_history(3) sample_small])
  show "RunState_Terminal (run_state (eng_run sample_finished))"
    by (simp add: sample_states)
  show "engine_op\<^sup>*\<^sup>* sample_finished (fst (RequestCancel 30 ''late'' sample_finished))"
    by (intro r_into_rtranclp engine_op.intros)
qed

text \<open>
  C12: At-least-once delivery: a completion that was handled may be delivered again, at any time the
  engine accepts, and the second delivery succeeds without any effect.
\<close>

theorem engine_completion_idempotent:
  assumes "reachable_engine ParseFile s cmd e" and "small_budgets (snap_DSL s)"
    and "HandleAttemptCompleted aid ts e = (e1, Inr ())" and "ts' \<noteq> 0" and "run_createdAt (eng_run e) \<le> ts'"
  shows "HandleAttemptCompleted aid ts' e1 = (e1, Inr ())"
  using HandleAttemptCompleted_again [OF reachable_engine_ok [OF assms(1,2)] assms(3-5)] .

theorem engine_completion_idempotent_witness:
  "HandleAttemptCompleted ''a1'' 25 sample_finished = (sample_finished, Inr ())"
proof (rule engine_completion_idempotent [OF sample_history(2) sample_small])
  have "snd (HandleAttemptCompleted ''a1'' 20 sample_recorded) = Inr ()"
    by code_simp
  then show "HandleAttemptCompleted ''a1'' 20 sample_recorded = (sample_finished, Inr ())"
    by (simp add: sample_finished_def prod_eq_iff)
  show "run_createdAt (eng_run sample_recorded) \<le> 25"
    by code_simp
qed simp

text \<open>
  C4: Cancellation gets through: a cancel request on an active run is accepted, applies exactly
  when it is the first intent, leaves every node terminal or waiting for an attempt in flight, and
  once the cancellation of each attempt in flight is acknowledged, in any order, the run has ended in
  the state of its first intent.
\<close>

theorem engine_cancel:
  assumes "reachable_engine ParseFile s cmd e" and "small_budgets (snap_DSL s)"
    and "\<not> RunState_Terminal (run_state (eng_run e))" and "ts \<noteq> 0" and "run_createdAt (eng_run e) \<le> ts"
    and "distinct aids" and "set aids = live_attempts e"
  shows "\<exists>e'. RequestCancel ts cause e = (e', Inr (run_termination (eng_run e) = None))
    \<and> (\<forall>nid n. map_of (eng_nodes e') nid = Some n \<longrightarrow> NodeState_Terminal (node_state n) \<or> attempt_in_flight e' n)
    \<and> run_state (eng_run (fold (\<lambda>aid e. fst (CancelAttempt aid ts e)) aids e'))
        = (case run_termination (eng_run e) of None \<Rightarrow> RunCanceled | Some first \<Rightarrow> kind_state (ti_Kind first))"
proof -
  have ok: "engine_ok e"
    using reachable_engine_ok [OF assms(1,2)] .
  define cause' where "cause' = engine_failure e FailureRunCanceled ''run_control'' cause '''' '''' '''' False"
  have "fail_Code cause' \<noteq> ''''"
    by (simp add: cause'_def engine_failure_def FailureRunCanceled_def)
  then obtain e' intent where e': "request_and_drive TerminationCanceled cause' ts e
        = (e', Inr (run_termination (eng_run e) = None))" "winding e' intent" "eng_attempts e' = eng_attempts e"
      "advance\<^sup>*\<^sup>* e e'" and intent: "intent = (case run_termination (eng_run e) of
        None \<Rightarrow> \<lparr>ti_Kind = TerminationCanceled, ti_RequestedAt = ts, ti_Cause = cause'\<rparr> | Some first \<Rightarrow> first)"
    using request_and_drive_winding [OF ok, of TerminationCanceled ts cause'] assms(3-5) by blast
  have "set aids = live_attempts e'"
    using assms(7) e'(3) by (simp add: live_attempts_def)
  then have "run_state (eng_run (fold (\<lambda>aid e. fst (CancelAttempt aid ts e)) aids e')) = kind_state (ti_Kind intent)"
    using cancel_all [OF advances_engine_ok [OF e'(4) ok] e'(2) assms(6)] assms(4,5) advances_createdAt [OF e'(4)] by simp
  moreover have "kind_state (ti_Kind intent)
      = (case run_termination (eng_run e) of None \<Rightarrow> RunCanceled | Some first \<Rightarrow> kind_state (ti_Kind first))"
    using intent by (simp add: kind_state_def split: option.split)
  moreover have "RequestCancel ts cause e = (e', Inr (run_termination (eng_run e) = None))"
    using assms(3) e'(1) by (simp add: RequestCancel_def cause'_def)
  ultimately show ?thesis
    using e'(2) by (auto simp: winding_def left_alone_def)
qed

theorem engine_cancel_witness:
  "run_state (eng_run (fst (CancelAttempt ''a1'' 15 (fst (RequestCancel 15 ''stop'' sample_running))))) = RunCanceled"
proof -
  have "\<not> RunState_Terminal (run_state (eng_run sample_running))" "run_createdAt (eng_run sample_running) \<le> 15"
      "run_termination (eng_run sample_running) = None"
      "map (\<lambda>(aid, a). (aid, AttemptState_Terminal (att_state a))) (eng_attempts sample_running) = [(''a1'', False)]"
    by code_simp+
  moreover from this(4) have "live_attempts sample_running = {''a1''}"
    by (auto simp: live_attempts_def map_eq_Cons_conv split: prod.splits if_splits)
  ultimately obtain e' where "RequestCancel 15 ''stop'' sample_running = (e', Inr True)"
      "run_state (eng_run (fold (\<lambda>aid e. fst (CancelAttempt aid 15 e)) [''a1''] e')) = RunCanceled"
    using engine_cancel [OF sample_history(1) sample_small, of 15 "[''a1'']" "''stop''"] by fastforce
  then show ?thesis
    by (simp only: fst_conv fold_simps)
qed

text \<open>
  C13: Retry delays at 64 bits. The due time of a retry is the exact delay after the completion precisely for delays of at
  most 9223372036854 milliseconds; it lies before the completion precisely when the delay in nanoseconds, modulo 2^64, is
  at least 2^63, as it is for every delay from 9223372036855 to 18446744073709 milliseconds; and the checks of a task
  policy do not keep such delays out: a policy they accept stays accepted with any other positive delay.
\<close>

theorem engine_retry_delay:
  assumes "ep_RetryBackoff p = Some b" and "retryDueAt ts p = Some due"
  shows "(due = ts + 1000000 * uint (rb_DelayMS b) \<longleftrightarrow> uint (rb_DelayMS b) \<le> 9223372036854)
    \<and> (due < ts \<longleftrightarrow> 2 ^ 63 \<le> 1000000 * uint (rb_DelayMS b) mod 2 ^ 64)
    \<and> (9223372036855 \<le> uint (rb_DelayMS b) \<and> uint (rb_DelayMS b) \<le> 18446744073709 \<longrightarrow> due < ts)
    \<and> (validateTaskPolicy (node\<lparr>dn_ExecutionPolicy := p\<rparr>) = [] \<and> delay \<noteq> 0 \<longrightarrow>
         validateTaskPolicy (node\<lparr>dn_ExecutionPolicy := p\<lparr>ep_RetryBackoff := Some (b\<lparr>rb_DelayMS := delay\<rparr>)\<rparr>\<rparr>) = [])"
proof (intro conjI)
  let ?d = "uint (rb_DelayMS b)"
  have due: "due = ts + sint (rb_DelayMS b * 1000000)"
    using assms by (simp add: retryDueAt_def)
  show "due = ts + 1000000 * ?d \<longleftrightarrow> ?d \<le> 9223372036854"
    using duration_exact [of "rb_DelayMS b"] by (simp add: due)
  show before: "due < ts \<longleftrightarrow> 2 ^ 63 \<le> 1000000 * ?d mod 2 ^ 64"
    using product_negative [of "rb_DelayMS b"] by (simp add: due)
  show "9223372036855 \<le> ?d \<and> ?d \<le> 18446744073709 \<longrightarrow> due < ts"
  proof
    assume "9223372036855 \<le> ?d \<and> ?d \<le> 18446744073709"
    moreover from this have "1000000 * ?d mod 2 ^ 64 = 1000000 * ?d"
      by (intro mod_pos_pos_trivial) auto
    ultimately show "due < ts"
      unfolding before by simp
  qed
  show "validateTaskPolicy (node\<lparr>dn_ExecutionPolicy := p\<rparr>) = [] \<and> delay \<noteq> 0 \<longrightarrow>
      validateTaskPolicy (node\<lparr>dn_ExecutionPolicy := p\<lparr>ep_RetryBackoff := Some (b\<lparr>rb_DelayMS := delay\<rparr>)\<rparr>\<rparr>) = []"
    using assms(1) by (simp add: validateTaskPolicy_def Let_def split: if_splits)
qed

theorem engine_retry_delay_witness:
  "let p = sample_policy\<lparr>ep_RetryBackoff := Some \<lparr>rb_Kind = ''fixed'', rb_DelayMS = 9223372036855\<rparr>\<rparr> in
   \<exists>due. retryDueAt 7 p = Some due \<and> due < 7 \<and> validateTaskPolicy ((sample_nodes ! 1)\<lparr>dn_ExecutionPolicy := p\<rparr>) = []"
proof -
  let ?b = "\<lparr>rb_Kind = ''fixed'', rb_DelayMS = 5\<rparr>" and ?w = "\<lparr>rb_Kind = ''fixed'', rb_DelayMS = 9223372036855\<rparr>"
  let ?p = "sample_policy\<lparr>ep_RetryBackoff := Some ?w\<rparr>"
  obtain due where due: "retryDueAt 7 ?p = Some due"
    by (simp add: retryDueAt_def)
  have "due < 7"
    using engine_retry_delay [of ?p ?w 7 due] due by simp
  moreover have "validateTaskPolicy ((sample_nodes ! 1)\<lparr>dn_ExecutionPolicy := ?p\<rparr>) = []"
    using engine_retry_delay [of sample_policy ?b 7 5000007 "sample_nodes ! 1" 9223372036855]
    by (simp add: sample_policy_def retryDueAt_def validateTaskPolicy_def)
  ultimately show ?thesis
    using due by (simp add: Let_def)
qed

section \<open>Routes\<close>

text \<open>C9: While a run is not terminating it follows a choice of one outgoing route for every branch of its document: a
  node run that has left the pending state was skipped exactly when that choice does not activate the node, and the
  choice is the selected route at every branch that has succeeded. What the engine computes step by step, edge by edge,
  is the activation of the document as the compiler's analysis defines it.\<close>

theorem engine_follows_routes:
  assumes "reachable_engine ParseFile s cmd e" and "small_budgets (snap_DSL s)" and "run_termination (eng_run e) = None"
  shows "\<exists>c. doc_choice (eng_doc e) c \<and> (\<forall>v n. map_of (eng_nodes e) v = Some n \<longrightarrow>
     (node_state n \<noteq> NodePending \<longrightarrow> (node_state n = NodeSkipped \<longleftrightarrow> \<not> doc_active (eng_doc e) c v))
     \<and> (node_state n = NodeSucceeded \<longrightarrow> c v = node_selectedRoute n))"
proof -
  have follow: "engine_ok e" "flow_ok e" "routes_ok e"
    using reachable_following [OF assms(1,2)] by (simp_all add: following_def)
  then show ?thesis
    using run_choice_choice [OF follow(1,3)] run_activation [OF follow(1,2) assms(3)]
    by (intro exI [of _ "run_choice e"]) (auto simp: run_choice_def)
qed

theorem engine_follows_routes_witness:
  "run_termination (eng_run sample_running) = None
   \<and> (\<exists>c. doc_choice (eng_doc sample_running) c \<and> (\<forall>v n. map_of (eng_nodes sample_running) v = Some n \<longrightarrow>
     (node_state n \<noteq> NodePending \<longrightarrow> (node_state n = NodeSkipped \<longleftrightarrow> \<not> doc_active (eng_doc sample_running) c v))
     \<and> (node_state n = NodeSucceeded \<longrightarrow> c v = node_selectedRoute n)))"
proof -
  have "run_termination (eng_run sample_running) = None"
    by code_simp
  then show ?thesis
    using engine_follows_routes [OF sample_history(1) sample_small] by blast
qed

end
