(* ===== verification/Dsl_Properties.thy ===== *)
theory Dsl_Properties
  imports Engine_Sample
begin

text \<open>
  The properties of executable documents: what the contract validator accepts, the graph algorithms
  it runs, and the routing of branch nodes. The instances are the
  document of the sample theory and small graphs and values.
\<close>

section \<open>The validator\<close>

text \<open>
  C30: The validator reports no issue exactly for a document of the contract's version whose nodes
  each meet their operation's contract, whose identities are unique, whose control graph is acyclic
  with every node between its only entry and its only exit, whose branch routes match the edges, and
  whose references name a declared output of a compatible type.
\<close>

theorem dsl_validate_meaning:
  "Validate contract d = [] \<longleftrightarrow> doc_DSLVersion d = con_version contract
     \<and> doc_nodes_ok d \<and> doc_edges_ok d \<and> doc_graph_ok d \<and> doc_refs_ok d
     \<and> (\<forall>n \<in> set (doc_Nodes d). validateNode contract n = [])"
  unfolding Validate_empty wf_document_def by blast

theorem dsl_validate_meaning_witness:
  "acyclic (doc_rel sample_document) \<and> validateNode (BuiltinV1Contract sample_parser) (hd sample_nodes) = []"
proof -
  have "Validate (BuiltinV1Contract sample_parser) sample_document = []"
    by code_simp
  moreover have "hd sample_nodes \<in> set (doc_Nodes sample_document)"
    by (simp add: sample_document_def sample_nodes_def)
  ultimately show ?thesis
    using dsl_validate_meaning [of "BuiltinV1Contract sample_parser" sample_document]
    unfolding doc_graph_ok_def by blast
qed

text \<open>
  C31: The reachability loop terminates and computes the reflexive transitive closure of the
  adjacency lists it is given, with no assumption on these.
\<close>

theorem dsl_reachable:
  "reachableNodes start outgoing = {v. (start, v) \<in> {(u, w). w \<in> set (slice_at outgoing u)}\<^sup>*}"
  using reachableNodes_correct [of start outgoing] by (simp add: adjacency_rel_def)

text \<open>
  C32: The topological loop visits every node exactly when the control graph has no cycle.
\<close>

theorem dsl_acyclic:
  assumes "distinct ids" and "set es \<subseteq> set ids \<times> set ids"
    and "\<And>u. slice_at outgoing u = map snd (filter (\<lambda>(s, t). s = u) es)"
    and "\<And>u. slice_at incoming u = map fst (filter (\<lambda>(s, t). t = u) es)"
  shows "topological_visited ids incoming outgoing = length ids \<longleftrightarrow> acyclic (set es)"
  using topological_visited_correct [OF assms] .

theorem dsl_acyclic_witness: "\<not> acyclic (set [(''a'', ''b''), (''b'', ''a'')])"
proof -
  let ?es = "[(''a'', ''b''), (''b'', ''a'')]"
  let ?out = "[(''a'', [''b'']), (''b'', [''a''])]"
  have "slice_at ?out u = map snd (filter (\<lambda>(s, t). s = u) ?es)" for u
    by (auto simp: slice_at_def)
  moreover have "slice_at ?out u = map fst (filter (\<lambda>(s, t). t = u) ?es)" for u
    by (auto simp: slice_at_def)
  ultimately have "topological_visited [''a'', ''b''] ?out ?out = length [''a'', ''b''] \<longleftrightarrow> acyclic (set ?es)"
    by (intro dsl_acyclic) simp_all
  moreover have "topological_visited [''a'', ''b''] ?out ?out = 0"
    by code_simp
  ultimately show ?thesis
    by simp
qed

section \<open>Branches\<close>

text \<open>
  C33: A branch node routes to the first case that matches its input, every earlier case having been
  evaluated without error and not matched, or to the default route when no case matches; it selects
  no route when a case before that cannot be evaluated.
\<close>

theorem branch_first_match:
  "evaluateBranch node raw = Inr route \<longleftrightarrow>
     (\<exists>cases fallback v. unmarshal_cases (config_raw node ''cases'') = Some cases
        \<and> Option.bind (parse_text (config_raw node ''default_route'')) (\<lambda>v. unmarshal_string v '''') = Some fallback
        \<and> decodeJSON raw = Some v
        \<and> ((\<exists>before c after. cases = before @ c # after \<and> list_all (\<lambda>d. case_matches v d = Some False) before
               \<and> case_matches v c = Some True \<and> route = bc_Route c)
           \<or> (list_all (\<lambda>d. case_matches v d = Some False) cases \<and> route = fallback)))"
  unfolding evaluateBranch_def
  by (auto simp: evaluate_cases_Inr first_match_def list_all_iff split: option.splits)

text \<open>
  C34: Equality in branch conditions is equality of meaning. Between decoded values all of whose number
  literals are within the exponent range of exact rationals, the comparison never fails: numbers are
  compared as exact rationals, arrays in order and objects as maps. A literal beyond that range, such as
  \<^verbatim>\<open>1e1000001\<close>, can make the comparison fail with an error and is excluded here.
\<close>

theorem branch_equality:
  assumes "rational_literals l" and "rational_literals r"
  shows "equalJSON (to_any l) (to_any r) = Inr (meaning_of (to_any l) = meaning_of (to_any r))"
  using equalJSON_meaning_aux(1) [OF decoded_to_any [OF assms(1)] decoded_to_any [OF assms(2)]] .

theorem branch_equality_witness:
  "meaning_of (to_any (JObject [(''a'', JNumber ''1.0''), (''b'', JNull)]))
     = meaning_of (to_any (JObject [(''b'', JNull), (''a'', JNumber ''1'')]))"
proof -
  let ?l = "JObject [(''a'', JNumber ''1.0''), (''b'', JNull)]" and ?r = "JObject [(''b'', JNull), (''a'', JNumber ''1'')]"
  have "rational_literals ?l" "rational_literals ?r" "equalJSON (to_any ?l) (to_any ?r) = Inr True"
    by code_simp+
  then show ?thesis
    using branch_equality [of ?l ?r] by simp
qed

end
