(* ===== verification/Scheduling_Model.thy ===== *)
theory Scheduling_Model
  imports Dsl_Model
begin

text \<open>
  The data of \<^verbatim>\<open>internal/scheduling\<close> (\<^verbatim>\<open>model.go\<close>): candidates, plans and reservations, the checks
  on them, the dispatch windows and the assignment of projects to lanes.

  A Go \<^verbatim>\<open>int\<close> is an \<^typ>\<open>int\<close>; where a sum of windows could leave its 64 bits, \<open>wrap64\<close> wraps it around.
  The times to live and epochs are \<^verbatim>\<open>time.Duration\<close> and only compared.
\<close>

unbundle bit_operations_syntax

section \<open>Floating point\<close>

text \<open>
  A \<^verbatim>\<open>float64\<close>: a finite one is its exact value, the zeros being one. Products are rounded to nearest,
  ties to even, with 53 bits and gradual underflow.
\<close>

datatype float64 = Finite rat | PosInf | NegInf | NaN

fun float_less :: "float64 \<Rightarrow> float64 \<Rightarrow> bool" where
  "float_less NaN y = False"
| "float_less x NaN = False"
| "float_less (Finite a) (Finite b) = (a < b)"
| "float_less NegInf y = (y \<noteq> NegInf)"
| "float_less x PosInf = (x \<noteq> PosInf)"
| "float_less x y = False"

fun float_le :: "float64 \<Rightarrow> float64 \<Rightarrow> bool" where
  "float_le NaN y = False"
| "float_le x NaN = False"
| "float_le x y = (x = y \<or> float_less x y)"

definition power2 :: "int \<Rightarrow> rat" where
  "power2 k = (if 0 \<le> k then 2 ^ nat k else 1 / 2 ^ nat (- k))"

fun int_log2 :: "int \<Rightarrow> int" where
  "int_log2 n = (if n \<le> 1 then 0 else 1 + int_log2 (n div 2))"

declare int_log2.simps [simp del]

definition binary_exponent :: "rat \<Rightarrow> int" where
  "binary_exponent x =
     (let (n, d) = quotient_of x; k = int_log2 n - int_log2 d
      in if power2 k \<le> x then k else k - 1)"

definition round_even :: "rat \<Rightarrow> int" where
  "round_even x =
     (let f = \<lfloor>x\<rfloor>; r = x - of_int f in
      if r < 1 / 2 then f else if 1 / 2 < r then f + 1 else if even f then f else f + 1)"

definition float_round :: "rat \<Rightarrow> float64" where
  "float_round x =
     (if x = 0 then Finite 0
      else let u = power2 (max (binary_exponent \<bar>x\<bar> - 52) (- 1074)); y = of_int (round_even (x / u)) * u
        in if power2 1024 \<le> y then PosInf else if y \<le> - power2 1024 then NegInf else Finite y)"

fun float_sign :: "float64 \<Rightarrow> rat" where
  "float_sign (Finite a) = sgn a"
| "float_sign PosInf = 1"
| "float_sign NegInf = - 1"
| "float_sign NaN = 0"

definition float_mult :: "float64 \<Rightarrow> float64 \<Rightarrow> float64" where
  "float_mult x y =
     (case (x, y) of
        (Finite a, Finite b) \<Rightarrow> float_round (a * b)
      | _ \<Rightarrow> if float_sign x * float_sign y > 0 then PosInf
             else if float_sign x * float_sign y < 0 then NegInf else NaN)"

definition float_of_int :: "int \<Rightarrow> float64" where
  "float_of_int i = float_round (of_int i)"

text \<open>
  \<^verbatim>\<open>int(math.Ceil(x))\<close>. The conversion of a value that is not in the range of an \<^verbatim>\<open>int\<close> is left to the
  implementation: \<open>convert\<close>.
\<close>

definition int_ceil :: "(float64 \<Rightarrow> int) \<Rightarrow> float64 \<Rightarrow> int" where
  "int_ceil convert x =
     (case x of
        Finite a \<Rightarrow> if \<lceil>a\<rceil> < 2 ^ 63 \<and> - (2 ^ 63) \<le> \<lceil>a\<rceil> then \<lceil>a\<rceil> else convert x
      | _ \<Rightarrow> convert x)"

definition wrap64 :: "int \<Rightarrow> int" where
  "wrap64 i = signed_take_bit 63 i"

section \<open>Resource classes and routing\<close>

definition ErrAdmissionPaused :: go_error where
  "ErrAdmissionPaused = Sentinel ''scheduling admission is paused'' ''''"

definition ErrCandidateStale :: go_error where
  "ErrCandidateStale = Sentinel ''ready candidate is stale'' ''''"

definition ErrLeaseLost :: go_error where
  "ErrLeaseLost = Sentinel ''credit balancer lease is lost'' ''''"

fun errors_Is :: "go_error \<Rightarrow> go_error \<Rightarrow> bool" where
  "errors_Is (Sentinel message detail) (Sentinel message' detail') = (message = message')"
| "errors_Is e target = (e = target)"

datatype ResourceClass = ResourceBuiltin | ResourceSandbox | OtherResource string

fun ResourceClass_Valid :: "ResourceClass \<Rightarrow> bool" where
  "ResourceClass_Valid (OtherResource c) = False"
| "ResourceClass_Valid _ = True"

fun ResourceClass_text :: "ResourceClass \<Rightarrow> string" where
  "ResourceClass_text ResourceBuiltin = ''builtin''"
| "ResourceClass_text ResourceSandbox = ''sandbox''"
| "ResourceClass_text (OtherResource c) = c"

type_synonym StaticRouter = "(Coordinate, ResourceClass) gomap"

definition StaticRouter_Resolve :: "StaticRouter \<Rightarrow> Coordinate \<Rightarrow> ResourceClass option" where
  "StaticRouter_Resolve router coordinate = map_of router coordinate"

definition BuiltinV1Router :: StaticRouter where
  "BuiltinV1Router = [((''task.python'', 1), ResourceSandbox), ((''task.http'', 1), ResourceBuiltin),
     ((''task.rpc'', 1), ResourceBuiltin)]"

definition RequiredCapabilities :: "ResourceClass \<Rightarrow> Coordinate list" where
  "RequiredCapabilities resource =
     sort (map fst (filter (\<lambda>(coordinate, routed). routed = resource) BuiltinV1Router))"

section \<open>Candidates and plans\<close>

record Candidate =
  cand_ProjectID :: string
  cand_RunID :: string
  cand_NodeRunID :: string
  cand_ExecutionNodeID :: string
  cand_StateVersion :: "64 word"
  cand_Priority :: int
  cand_ReadyAt :: time
  cand_ResourceClass :: ResourceClass

definition Candidate_Validate :: "Candidate \<Rightarrow> go_error option" where
  "Candidate_Validate candidate =
     (if cand_ProjectID candidate = '''' \<or> cand_RunID candidate = '''' \<or> cand_NodeRunID candidate = ''''
         \<or> cand_ExecutionNodeID candidate = '''' \<or> cand_StateVersion candidate = 0
         \<or> IsZero (cand_ReadyAt candidate) \<or> \<not> ResourceClass_Valid (cand_ResourceClass candidate) then
        Some (Errorf ''ready candidate identity, version, time and resource class are required'')
      else None)"

record Inflight =
  infl_AttemptID :: string
  infl_ProjectID :: string
  infl_ResourceClass :: ResourceClass

record AuthoritySnapshot =
  as_Candidates :: "Candidate list"
  as_Inflight :: "Inflight list"

record PlannedAdmission =
  pa_ProjectID :: string
  pa_ResourceClass :: ResourceClass

record LanePlan =
  lp_Lane :: int
  lp_Candidates :: "Candidate list"
  lp_Inflight :: "Inflight list"
  lp_Admissions :: "PlannedAdmission list"

record Plan =
  plan_Epoch :: "64 word"
  plan_GlobalWindow :: int
  plan_PoolWindows :: "(ResourceClass, int) gomap"
  plan_Lanes :: "LanePlan list"
  plan_TotalAdmissions :: int

record Windows =
  win_Global :: int
  win_Pools :: "(ResourceClass, int) gomap option"

record Capacity =
  cap_Pools :: "(ResourceClass, int) gomap"

text \<open>
  \<^verbatim>\<open>sortCandidates\<close>: by project, then by falling priority, by time and by node run; candidates that
  agree in all of these keep their order here, where the source leaves it open.
\<close>

definition sortCandidates :: "Candidate list \<Rightarrow> Candidate list" where
  "sortCandidates values =
     sort_key (\<lambda>c. (cand_ProjectID c, - cand_Priority c, cand_ReadyAt c, cand_NodeRunID c)) values"

section \<open>Workers\<close>

record WorkerRegistration =
  wr_WorkerID :: string
  wr_ExecutorBuild :: string
  wr_ResourceClass :: ResourceClass
  wr_Slots :: int
  wr_Capabilities :: "Coordinate list"
  wr_TTL :: int

fun capability_error :: "ResourceClass \<Rightarrow> Coordinate list \<Rightarrow> go_error option" where
  "capability_error resource [] = None"
| "capability_error resource (coordinate # coordinates) =
     (if fst coordinate = '''' \<or> snd coordinate = 0 then Some (Errorf ''worker registration capability is invalid'')
      else if StaticRouter_Resolve BuiltinV1Router coordinate \<noteq> Some resource then
        Some (Errorf (''worker capability '' @ fst coordinate @ ''@'' @ show_nat (unat (snd coordinate))
          @ '' does not belong to '' @ ResourceClass_text resource))
      else capability_error resource coordinates)"

definition WorkerRegistration_Validate :: "WorkerRegistration \<Rightarrow> go_error option" where
  "WorkerRegistration_Validate registration =
     (let resource = wr_ResourceClass registration; coordinates = wr_Capabilities registration in
      if wr_WorkerID registration = '''' \<or> wr_ExecutorBuild registration = '''' \<or> \<not> ResourceClass_Valid resource
         \<or> wr_Slots registration < 1 \<or> wr_TTL registration \<le> 0 \<or> coordinates = [] then
        Some (Errorf ''worker registration identity, capabilities, slots and TTL are required'')
      else case capability_error resource coordinates of
          Some e \<Rightarrow> Some e
        | None \<Rightarrow>
            (let actual = remdups coordinates; required = RequiredCapabilities resource in
             if length actual \<noteq> length coordinates then Some (Errorf ''worker capabilities contain duplicates'')
             else if length actual \<noteq> length required then
               Some (Errorf (''worker must provide the complete '' @ ResourceClass_text resource @ '' capability set''))
             else (case find (\<lambda>coordinate. coordinate \<notin> set actual) required of
                 Some coordinate \<Rightarrow> Some (Errorf (''worker is missing required capability '' @ fst coordinate @ ''@''
                   @ show_nat (unat (snd coordinate))))
               | None \<Rightarrow> None)))"

section \<open>Settings and windows\<close>

record Settings =
  set_LaneCount :: int
  set_CreditGrantBatch :: int
  set_CandidateBatch :: int
  set_AdmissionConcurrency :: int
  set_Epoch :: int
  set_ActiveProjectTTL :: int
  set_BalancerLease :: int
  set_ReservationTTL :: int
  set_DispatchBufferFactor :: float64
  set_CapacityChangeLimit :: float64

definition power_of_two :: "int \<Rightarrow> bool" where
  "power_of_two n \<longleftrightarrow> \<not> n \<le> 0 \<and> n AND (n - 1) = 0"

definition Settings_Validate :: "Settings \<Rightarrow> go_error option" where
  "Settings_Validate settings =
     (if \<not> power_of_two (set_LaneCount settings) \<or> set_CreditGrantBatch settings \<le> 0
         \<or> set_CandidateBatch settings \<le> 0 \<or> set_AdmissionConcurrency settings \<le> 0 \<or> set_Epoch settings \<le> 0
         \<or> set_ActiveProjectTTL settings \<le> set_Epoch settings \<or> set_BalancerLease settings \<le> set_Epoch settings
         \<or> set_ReservationTTL settings \<le> 0 \<or> float_less (set_DispatchBufferFactor settings) (Finite 1)
         \<or> float_le (set_CapacityChangeLimit settings) (Finite 0)
         \<or> float_less (Finite 1) (set_CapacityChangeLimit settings) then
        Some (Errorf ''scheduler settings are invalid'')
      else None)"

definition boundWindow :: "(float64 \<Rightarrow> int) \<Rightarrow> int \<Rightarrow> int \<Rightarrow> float64 \<Rightarrow> int" where
  "boundWindow convert previous desired limit =
     (if previous \<le> 0 \<or> desired \<le> previous then desired
      else let delta = max 1 (int_ceil convert (float_mult (float_of_int previous) limit))
        in min desired (wrap64 (previous + delta)))"

definition int_at :: "('k, int) gomap \<Rightarrow> 'k \<Rightarrow> int" where
  "int_at m k = (case map_of m k of None \<Rightarrow> 0 | Some i \<Rightarrow> i)"

definition BoundWindows :: "(float64 \<Rightarrow> int) \<Rightarrow> Windows \<Rightarrow> Windows \<Rightarrow> float64 \<Rightarrow> Windows result" where
  "BoundWindows convert previous desired limit =
     (if win_Global desired < 0 \<or> float_le limit (Finite 0) \<or> float_less (Finite 1) limit then
        Inl (Errorf ''capacity windows and change limit are invalid'')
      else if list_ex (\<lambda>(resource, v). \<not> ResourceClass_Valid resource \<or> v < 0) (entries (win_Pools desired)) then
        Inl (Errorf ''pool dispatch window is invalid'')
      else case win_Pools previous of
          None \<Rightarrow> Inr \<lparr>win_Global = win_Global desired, win_Pools = Some (entries (win_Pools desired))\<rparr>
        | Some pools \<Rightarrow>
            (let bounded = map (\<lambda>(resource, v). (resource, boundWindow convert (int_at pools resource) v limit))
                   (entries (win_Pools desired));
                 total = foldl (\<lambda>total (resource, v). wrap64 (total + v)) 0 bounded
             in Inr \<lparr>win_Global = min (boundWindow convert (win_Global previous) (win_Global desired) limit) total,
                     win_Pools = Some bounded\<rparr>))"

fun pool_windows ::
    "(float64 \<Rightarrow> int) \<Rightarrow> float64 \<Rightarrow> (ResourceClass, int) gomap \<Rightarrow> (ResourceClass, int) gomap \<Rightarrow> int \<Rightarrow>
     ((ResourceClass, int) gomap \<times> int) result" where
  "pool_windows convert factor [] pools totalSlots = Inr (pools, totalSlots)"
| "pool_windows convert factor ((resource, slots) # rest) pools totalSlots =
     (if \<not> ResourceClass_Valid resource \<or> slots < 0 then Inl (Errorf ''healthy pool capacity is invalid'')
      else pool_windows convert factor rest
             (AList.update resource (int_ceil convert (float_mult (float_of_int slots) factor)) pools)
             (wrap64 (totalSlots + slots)))"

definition DispatchWindows ::
    "(float64 \<Rightarrow> int) \<Rightarrow> Capacity \<Rightarrow> float64 \<Rightarrow> (int \<times> (ResourceClass, int) gomap) result" where
  "DispatchWindows convert capacity factor =
     (if float_less factor (Finite 1) then Inl (Errorf ''dispatch buffer factor must be at least one'')
      else case pool_windows convert factor (cap_Pools capacity) [] 0 of
          Inl e \<Rightarrow> Inl e
        | Inr (pools, totalSlots) \<Rightarrow>
            Inr (int_ceil convert (float_mult (float_of_int totalSlots) factor), pools))"

section \<open>Lanes\<close>

text \<open>The 64-bit FNV-1a hash of the bytes of a project identity selects its lane.\<close>

definition fnv64a :: "string \<Rightarrow> 64 word" where
  "fnv64a text = foldl (\<lambda>h c. (h XOR of_nat (of_char c)) * 1099511628211) 14695981039346656037 text"

definition LaneFor :: "string \<Rightarrow> int \<Rightarrow> int result" where
  "LaneFor projectID laneCount =
     (if projectID = '''' \<or> \<not> power_of_two laneCount then
        Inl (Errorf ''project identity and power-of-two lane count are required'')
      else Inr (uint (fnv64a projectID AND word_of_int (laneCount - 1))))"

end
