(* ===== verification/Planner.thy ===== *)
theory Planner
  imports Scheduling_Model
begin

text \<open>
  \<^verbatim>\<open>internal/scheduling/planner.go\<close>: one epoch's plan by progressive filling, and the batches in which
  its admissions are granted. The counts are lengths of slices; no difference leaves the range of an
  \<^verbatim>\<open>int\<close> for windows that are not negative, which are the ones \<^verbatim>\<open>DispatchWindows\<close> computes.
\<close>

section \<open>The state of the planner\<close>

record filling =
  fl_queues :: "(string, Candidate list) gomap"
  fl_granted :: "(string, int) gomap"
  fl_remainingPool :: "(ResourceClass, int) gomap"
  fl_remainingGlobal :: int
  fl_planned :: "(int, PlannedAdmission list) gomap"

definition add_at :: "'k \<Rightarrow> int \<Rightarrow> ('k, int) gomap \<Rightarrow> ('k, int) gomap" where
  "add_at k d m = AList.update k (int_at m k + d) m"

lemma int_at_add_at [simp]: "int_at (add_at k d m) j = (if j = k then int_at m k + d else int_at m j)"
  by (simp add: int_at_def add_at_def)

lemma int_at_Nil [simp]: "int_at [] k = 0"
  by (simp add: int_at_def)

text \<open>The scan over what is in flight counts each attempt once, per project and per class.\<close>

record inflight_count =
  ic_seen :: "string list"
  ic_projects :: "(string, int) gomap"
  ic_pools :: "(ResourceClass, int) gomap"

fun count_inflight :: "Inflight list \<Rightarrow> inflight_count \<Rightarrow> inflight_count result" where
  "count_inflight [] counts = Inr counts"
| "count_inflight (v # vs) counts =
     (if infl_AttemptID v = '''' \<or> infl_ProjectID v = '''' \<or> \<not> ResourceClass_Valid (infl_ResourceClass v) then
        Inl (Errorf ''inflight reservation is invalid'')
      else if infl_AttemptID v \<in> set (ic_seen counts) then count_inflight vs counts
      else count_inflight vs \<lparr>ic_seen = infl_AttemptID v # ic_seen counts,
             ic_projects = add_at (infl_ProjectID v) 1 (ic_projects counts),
             ic_pools = add_at (infl_ResourceClass v) 1 (ic_pools counts)\<rparr>)"

definition rotate_projects :: "64 word \<Rightarrow> string list \<Rightarrow> string list" where
  "rotate_projects epoch projects =
     (if projects = [] then []
      else let offset = unat ((epoch - 1) mod of_nat (length projects))
        in drop offset projects @ take offset projects)"

section \<open>Progressive filling\<close>

definition eligible :: "filling \<Rightarrow> string \<Rightarrow> bool" where
  "eligible st projectID =
     (case slice_at (fl_queues st) projectID of
        [] \<Rightarrow> False
      | candidate # queue \<Rightarrow> int_at (fl_remainingPool st) (cand_ResourceClass candidate) \<noteq> 0)"

definition level :: "(string, int) gomap \<Rightarrow> filling \<Rightarrow> string \<Rightarrow> int" where
  "level projectInflight st projectID = int_at projectInflight projectID + int_at (fl_granted st) projectID"

fun select_project ::
    "(string, int) gomap \<Rightarrow> filling \<Rightarrow> string list \<Rightarrow> string \<Rightarrow> int \<Rightarrow> string" where
  "select_project projectInflight st [] selected selectedLevel = selected"
| "select_project projectInflight st (projectID # projects) selected selectedLevel =
     (if \<not> eligible st projectID then select_project projectInflight st projects selected selectedLevel
      else if selected = '''' \<or> level projectInflight st projectID < selectedLevel then
        select_project projectInflight st projects projectID (level projectInflight st projectID)
      else select_project projectInflight st projects selected selectedLevel)"

text \<open>The error of \<^verbatim>\<open>LaneFor\<close> is dropped where the lane of a planned admission is computed; the lane is then 0.\<close>

definition lane_of :: "int \<Rightarrow> string \<Rightarrow> int" where
  "lane_of laneCount projectID = (case LaneFor projectID laneCount of Inl e \<Rightarrow> 0 | Inr lane \<Rightarrow> lane)"

definition grant :: "int \<Rightarrow> string \<Rightarrow> Candidate \<Rightarrow> filling \<Rightarrow> filling" where
  "grant laneCount selected candidate st =
     st\<lparr>fl_queues := AList.update selected (tl (slice_at (fl_queues st) selected)) (fl_queues st),
        fl_planned := append_at (lane_of laneCount selected)
          \<lparr>pa_ProjectID = selected, pa_ResourceClass = cand_ResourceClass candidate\<rparr> (fl_planned st),
        fl_granted := add_at selected 1 (fl_granted st),
        fl_remainingPool := add_at (cand_ResourceClass candidate) (- 1) (fl_remainingPool st),
        fl_remainingGlobal := fl_remainingGlobal st - 1\<rparr>"

text \<open>An index into the empty queue of the selected project would panic; it is never empty.\<close>

function fill_plan :: "(string, int) gomap \<Rightarrow> int \<Rightarrow> string list \<Rightarrow> filling \<Rightarrow> filling result" where
  "fill_plan projectInflight laneCount projects st =
     (if fl_remainingGlobal st \<le> 0 then Inr st
      else let selected = select_project projectInflight st projects '''' 0 in
        if selected = '''' then Inr st
        else case slice_at (fl_queues st) selected of
            [] \<Rightarrow> Inl (Panic ''index out of range'')
          | candidate # queue \<Rightarrow> fill_plan projectInflight laneCount projects (grant laneCount selected candidate st))"
  by pat_completeness auto

termination
  by (relation "measure (\<lambda>(i, n, ps, st). nat (fl_remainingGlobal st))") (auto simp: grant_def)

declare fill_plan.simps [simp del]

section \<open>The plan\<close>

definition candidate_queues :: "Candidate list \<Rightarrow> (string, Candidate list) gomap" where
  "candidate_queues candidates = fold (\<lambda>c. append_at (cand_ProjectID c) c) candidates []"

definition lane_plan ::
    "int \<Rightarrow> (int, PlannedAdmission list) gomap \<Rightarrow> Candidate list \<Rightarrow> Inflight list \<Rightarrow> int \<Rightarrow> LanePlan" where
  "lane_plan laneCount planned candidates inflight lane =
     \<lparr>lp_Lane = lane,
      lp_Candidates = filter (\<lambda>c. lane_of laneCount (cand_ProjectID c) = lane) candidates,
      lp_Inflight = filter (\<lambda>v. lane_of laneCount (infl_ProjectID v) = lane) inflight,
      lp_Admissions = slice_at planned lane\<rparr>"

definition BuildPlan ::
    "AuthoritySnapshot \<Rightarrow> int \<Rightarrow> int \<Rightarrow> (ResourceClass, int) gomap \<Rightarrow> 64 word \<Rightarrow> Plan result" where
  "BuildPlan snapshot laneCount globalWindow poolWindows epoch =
     (if \<not> power_of_two laneCount \<or> globalWindow < 0 \<or> epoch = 0 then
        Inl (Errorf ''planner dimensions are invalid'')
      else case find (\<lambda>c. Candidate_Validate c \<noteq> None) (as_Candidates snapshot) of
          Some c \<Rightarrow> Inl (the (Candidate_Validate c))
        | None \<Rightarrow>
     (let candidates = sortCandidates (as_Candidates snapshot); queues = candidate_queues candidates in
      case count_inflight (as_Inflight snapshot) \<lparr>ic_seen = [], ic_projects = [], ic_pools = []\<rparr> of
        Inl e \<Rightarrow> Inl e
      | Inr counts \<Rightarrow>
          (let st = \<lparr>fl_queues = queues, fl_granted = [],
                 fl_remainingPool = map (\<lambda>(resource, w). (resource, max 0 (w - int_at (ic_pools counts) resource))) poolWindows,
                 fl_remainingGlobal = max 0 (globalWindow - int (length (ic_seen counts))), fl_planned = []\<rparr>;
               projects = rotate_projects epoch (sorted_keys queues)
           in case fill_plan (ic_projects counts) laneCount projects st of
                Inl e \<Rightarrow> Inl e
              | Inr filled \<Rightarrow>
                  (case find (\<lambda>v. isl (LaneFor (infl_ProjectID v) laneCount)) (as_Inflight snapshot) of
                     Some v \<Rightarrow> Inl (projl (LaneFor (infl_ProjectID v) laneCount))
                   | None \<Rightarrow>
                  (let lanes = map (\<lambda>lane. lane_plan laneCount (fl_planned filled) candidates (as_Inflight snapshot) (int lane))
                         [0 ..< nat laneCount]
                   in Inr \<lparr>plan_Epoch = epoch, plan_GlobalWindow = globalWindow, plan_PoolWindows = poolWindows,
                           plan_Lanes = lanes,
                           plan_TotalAdmissions = sum_list (map (\<lambda>l. int (length (lp_Admissions l))) lanes)\<rparr>)))))"

function credit_batches :: "int \<Rightarrow> 'a list \<Rightarrow> 'a list list" where
  "credit_batches batch admissions =
     (if admissions = [] \<or> batch \<le> 0 then []
      else let count = nat (min batch (int (length admissions)))
        in take count admissions # credit_batches batch (drop count admissions))"
  by pat_completeness auto

termination
  by (relation "measure (\<lambda>(batch, admissions). length admissions)") auto

declare credit_batches.simps [simp del]

definition CreditBatches :: "'a list \<Rightarrow> int \<Rightarrow> 'a list list result" where
  "CreditBatches admissions batch =
     (if batch \<le> 0 then Inl (Errorf ''credit batch size must be positive'')
      else Inr (credit_batches batch admissions))"

end
