(* ===== verification/Planner_Laws.thy ===== *)
theory Planner_Laws
  imports Planner
begin

text \<open>
  What the planner guarantees. The abstract specification is \<open>fill_step\<close>: some eligible project of
  least level receives one admission. The loop of the planner refines it, stops exactly when the
  global window is used up or nobody is eligible, and the invariants of the specification give the
  windows, the order fits_windows a project, and max-min fairness.
\<close>

section \<open>The specification of progressive filling\<close>

inductive fill_step :: "(string, int) gomap \<Rightarrow> int \<Rightarrow> string set \<Rightarrow> filling \<Rightarrow> filling \<Rightarrow> bool"
  for inflight laneCount projects where
  fill_grant: "p \<in> projects \<Longrightarrow> 0 < fl_remainingGlobal st \<Longrightarrow> slice_at (fl_queues st) p = c # queue \<Longrightarrow>
    int_at (fl_remainingPool st) (cand_ResourceClass c) \<noteq> 0 \<Longrightarrow>
    (\<And>q. q \<in> projects \<Longrightarrow> eligible st q \<Longrightarrow> level inflight st p \<le> level inflight st q) \<Longrightarrow>
    fill_step inflight laneCount projects st (grant laneCount p c st)"

lemma select_project_correct:
  assumes "'''' \<notin> set ps" and "sel \<noteq> '''' \<Longrightarrow> lvl = level i st sel"
  shows "select_project i st ps sel lvl = '''' \<longleftrightarrow> sel = '''' \<and> (\<forall>p \<in> set ps. \<not> eligible st p)"
    and "select_project i st ps sel lvl \<noteq> '''' \<Longrightarrow>
      (select_project i st ps sel lvl = sel \<or> select_project i st ps sel lvl \<in> set ps \<and> eligible st (select_project i st ps sel lvl))
      \<and> (sel \<noteq> '''' \<longrightarrow> level i st (select_project i st ps sel lvl) \<le> level i st sel)
      \<and> (\<forall>p \<in> set ps. eligible st p \<longrightarrow> level i st (select_project i st ps sel lvl) \<le> level i st p)"
  using assms
proof (induction ps arbitrary: sel lvl)
  case (Cons p ps)
  {
    case 1
    then show ?case
      using Cons.IH(1) [of p "level i st p"] Cons.IH(1) [of sel lvl] by auto
  next
    case 2
    show ?case
    proof (cases "eligible st p \<and> (sel = '''' \<or> level i st p < lvl)")
      case True
      then show ?thesis
        using Cons.IH(2) [of p "level i st p"] 2 by fastforce
    next
      case False
      then show ?thesis
        using Cons.IH(2) [of sel lvl] 2 by fastforce
    qed
  }
qed simp_all

lemma eligible_queue:
  assumes "eligible st p"
  obtains c queue where "slice_at (fl_queues st) p = c # queue"
    and "int_at (fl_remainingPool st) (cand_ResourceClass c) \<noteq> 0"
  using assms by (auto simp: eligible_def split: list.splits)

text \<open>The loop ends, without an error, in a state that the specification reaches.\<close>

lemma fill_plan_refines:
  assumes "'''' \<notin> set ps"
  shows "\<exists>st'. fill_plan i n ps st = Inr st' \<and> (fill_step i n (set ps))\<^sup>*\<^sup>* st st'
    \<and> (fl_remainingGlobal st' \<le> 0 \<or> (\<forall>p \<in> set ps. \<not> eligible st' p))"
  using assms
proof (induction i n ps st rule: fill_plan.induct)
  case (1 i n ps st)
  let ?s = "select_project i st ps '''' 0"
  show ?case
  proof (cases "fl_remainingGlobal st \<le> 0 \<or> ?s = ''''")
    case True
    then show ?thesis
      using select_project_correct(1) [OF "1.prems", of "''''" 0 i st] by (auto simp: fill_plan.simps Let_def)
  next
    case False
    then have s: "?s \<in> set ps" "eligible st ?s" "\<forall>q \<in> set ps. eligible st q \<longrightarrow> level i st ?s \<le> level i st q"
      using select_project_correct(2) [OF "1.prems", of "''''" 0 i st] by auto
    obtain c queue where c: "slice_at (fl_queues st) ?s = c # queue"
        "int_at (fl_remainingPool st) (cand_ResourceClass c) \<noteq> 0"
      using eligible_queue [OF s(2)] .
    have step: "fill_step i n (set ps) st (grant n ?s c st)"
      using s c False by (intro fill_grant) auto
    obtain st' where st': "fill_plan i n ps (grant n ?s c st) = Inr st'" "(fill_step i n (set ps))\<^sup>*\<^sup>* (grant n ?s c st) st'"
        "fl_remainingGlobal st' \<le> 0 \<or> (\<forall>p \<in> set ps. \<not> eligible st' p)"
      using "1.IH" [OF _ refl _ c(1)] False "1.prems" by auto
    have "fill_plan i n ps st = fill_plan i n ps (grant n ?s c st)"
      using False c(1) by (subst fill_plan.simps) (simp add: Let_def)
    then show ?thesis
      using st' converse_rtranclp_into_rtranclp [OF step st'(2)] by auto
  qed
qed

section \<open>Invariants of the specification\<close>

lemma slice_at_update: "slice_at (AList.update k vs m) j = (if j = k then vs else slice_at m j)"
  by (simp add: slice_at_def)

lemma grant_simps [simp]:
  "slice_at (fl_queues (grant n p c st)) q = (if q = p then tl (slice_at (fl_queues st) p) else slice_at (fl_queues st) q)"
  "int_at (fl_granted (grant n p c st)) q = (if q = p then int_at (fl_granted st) p + 1 else int_at (fl_granted st) q)"
  "int_at (fl_remainingPool (grant n p c st)) r = (if r = cand_ResourceClass c
     then int_at (fl_remainingPool st) r - 1 else int_at (fl_remainingPool st) r)"
  "fl_remainingGlobal (grant n p c st) = fl_remainingGlobal st - 1"
  "slice_at (fl_planned (grant n p c st)) lane = (if lane = lane_of n p
     then slice_at (fl_planned st) lane @ [\<lparr>pa_ProjectID = p, pa_ResourceClass = cand_ResourceClass c\<rparr>]
     else slice_at (fl_planned st) lane)"
  by (simp_all add: grant_def slice_at_update)

text \<open>Fairness: who was granted something is at most one ahead of whoever could still be served.\<close>

definition fair :: "(string, int) gomap \<Rightarrow> string set \<Rightarrow> filling \<Rightarrow> bool" where
  "fair inflight projects st \<longleftrightarrow> (\<forall>p q. 0 < int_at (fl_granted st) p \<longrightarrow> q \<in> projects \<longrightarrow> eligible st q \<longrightarrow>
     level inflight st p \<le> level inflight st q + 1)"

definition pools_nonneg :: "filling \<Rightarrow> bool" where
  "pools_nonneg st \<longleftrightarrow> (\<forall>r. 0 \<le> int_at (fl_remainingPool st) r)"

lemma fill_step_pools: "fill_step i n P st st' \<Longrightarrow> pools_nonneg st \<Longrightarrow> pools_nonneg st'"
proof (induction rule: fill_step.induct)
  case (fill_grant p st c queue)
  then have "0 \<le> int_at (fl_remainingPool st) r" for r
    by (simp add: pools_nonneg_def)
  with fill_grant.hyps(4) show ?case
    by (auto simp: pools_nonneg_def order_less_le)
qed

lemma eligible_before_grant:
  assumes "pools_nonneg st" and "slice_at (fl_queues st) p = c # queue"
    and "int_at (fl_remainingPool st) (cand_ResourceClass c) \<noteq> 0" and "eligible (grant n p c st) q"
  shows "eligible st q"
proof (cases "q = p")
  case False
  obtain d rest where d: "slice_at (fl_queues st) q = d # rest"
      "int_at (fl_remainingPool (grant n p c st)) (cand_ResourceClass d) \<noteq> 0"
    using eligible_queue [OF assms(4)] False by auto
  then have "int_at (fl_remainingPool st) (cand_ResourceClass d) \<noteq> 0"
    using assms(3) by (auto split: if_splits)
  then show ?thesis
    using d(1) by (simp add: eligible_def)
qed (use assms in \<open>simp add: eligible_def\<close>)

lemma fill_step_fair: "fill_step i n P st st' \<Longrightarrow> pools_nonneg st \<Longrightarrow> fair i P st \<Longrightarrow> fair i P st'"
proof (induction rule: fill_step.induct)
  case (fill_grant p st c queue)
  show ?case
    unfolding fair_def
  proof (intro allI impI)
    fix x q
    assume x: "0 < int_at (fl_granted (grant n p c st)) x" and q: "q \<in> P" "eligible (grant n p c st) q"
    then have "eligible st q"
      using eligible_before_grant [of st p c queue n q] fill_grant by blast
    then have "level i st p \<le> level i st q" "0 < int_at (fl_granted st) x \<longrightarrow> level i st x \<le> level i st q + 1"
      using fill_grant q(1) by (auto simp: fair_def)
    then show "level i (grant n p c st) x \<le> level i (grant n p c st) q + 1"
      using x by (auto simp: level_def split: if_splits)
  qed
qed

text \<open>
  The order fits_windows a project: its admissions are the head of its queue, all in its own lane.
\<close>

definition served :: "int \<Rightarrow> (string \<Rightarrow> Candidate list) \<Rightarrow> filling \<Rightarrow> bool" where
  "served n queue st \<longleftrightarrow> (\<forall>p. 0 \<le> int_at (fl_granted st) p \<and> int_at (fl_granted st) p \<le> int (length (queue p))
     \<and> slice_at (fl_queues st) p = drop (nat (int_at (fl_granted st) p)) (queue p)
     \<and> (\<forall>lane. filter (\<lambda>a. pa_ProjectID a = p) (slice_at (fl_planned st) lane) = (if lane = lane_of n p
          then map (\<lambda>c. \<lparr>pa_ProjectID = p, pa_ResourceClass = cand_ResourceClass c\<rparr>)
                 (take (nat (int_at (fl_granted st) p)) (queue p)) else [])))"

lemma fill_step_served: "fill_step i n P st st' \<Longrightarrow> served n queue st \<Longrightarrow> served n queue st'"
proof (induction rule: fill_step.induct)
  case (fill_grant p st c rest)
  define k where "k = nat (int_at (fl_granted st) p)"
  have p: "0 \<le> int_at (fl_granted st) p" "drop k (queue p) = c # rest"
    using fill_grant unfolding served_def k_def by auto
  then have k: "k < length (queue p)" "queue p ! k = c" "nat (int_at (fl_granted st) p + 1) = Suc k"
    unfolding k_def using nth_via_drop [OF p(2)] by (auto simp: k_def drop_Cons' intro: ccontr)
  have next_queue: "drop (Suc k) (queue p) = rest" "take (Suc k) (queue p) = take k (queue p) @ [c]"
    using p(2) k Cons_nth_drop_Suc [OF k(1)] by (simp_all add: take_Suc_conv_app_nth)
  show ?case
    using fill_grant.prems fill_grant.hyps(3) p k next_queue
    unfolding served_def by (auto simp: k_def [symmetric])
qed

section \<open>The windows\<close>

lemma lane_of_range:
  assumes "power_of_two n"
  shows "0 \<le> lane_of n p \<and> lane_of n p < n"
proof -
  have n: "0 < n"
    using assms by (simp add: power_of_two_def)
  have "uint (fnv64a p AND word_of_int (n - 1)) \<le> uint (word_of_int (n - 1) :: 64 word)"
    by (simp add: uint_and AND_upper2')
  also have "\<dots> \<le> n - 1"
    using n zmod_le_nonneg_dividend [of "n - 1" "2 ^ 64"] by (simp only: uint_word_of_int) simp
  finally show ?thesis
    using n by (simp add: lane_of_def LaneFor_def)
qed

definition all_admissions :: "int \<Rightarrow> filling \<Rightarrow> PlannedAdmission list" where
  "all_admissions n st = concat (map (\<lambda>lane. slice_at (fl_planned st) (int lane)) [0 ..< nat n])"

lemma count_concat_upt:
  "length (filter Q (concat (map f [0 ..< m]))) = (\<Sum>l \<in> {0 ..< m}. length (filter Q (f l)))"
  by (simp add: filter_concat length_concat o_def interv_sum_list_conv_sum_set_nat)

lemma admissions_grant:
  assumes "power_of_two n"
  shows "length (filter Q (all_admissions n (grant n p c st))) = length (filter Q (all_admissions n st))
    + (if Q \<lparr>pa_ProjectID = p, pa_ResourceClass = cand_ResourceClass c\<rparr> then 1 else 0)"
proof -
  let ?a = "\<lparr>pa_ProjectID = p, pa_ResourceClass = cand_ResourceClass c\<rparr>"
  have range: "nat (lane_of n p) \<in> {0 ..< nat n}" "0 \<le> lane_of n p"
    using lane_of_range [OF assms, of p] by auto
  have "length (filter Q (slice_at (fl_planned (grant n p c st)) (int l)))
      = length (filter Q (slice_at (fl_planned st) (int l))) + (if l = nat (lane_of n p) then (if Q ?a then 1 else 0) else 0)" for l
    using range(2) by auto
  then show ?thesis
    unfolding all_admissions_def count_concat_upt using range(1) by (simp add: sum.distrib)
qed

definition fits_windows :: "int \<Rightarrow> int \<Rightarrow> (ResourceClass \<Rightarrow> int) \<Rightarrow> filling \<Rightarrow> bool" where
  "fits_windows n room pool st \<longleftrightarrow> 0 \<le> fl_remainingGlobal st
     \<and> int (length (all_admissions n st)) + fl_remainingGlobal st = room
     \<and> (\<forall>r. int (length (filter (\<lambda>a. pa_ResourceClass a = r) (all_admissions n st))) + int_at (fl_remainingPool st) r = pool r)"

lemma fill_step_fits:
  "fill_step i n P st st' \<Longrightarrow> power_of_two n \<Longrightarrow> fits_windows n room pool st \<Longrightarrow> fits_windows n room pool st'"
proof (induction rule: fill_step.induct)
  case (fill_grant p st c queue)
  have "length (all_admissions n (grant n p c st)) = length (all_admissions n st) + 1"
    using admissions_grant [OF fill_grant.prems(1), of "\<lambda>a. True" p c st] by simp
  then show ?case
    using fill_grant.prems(2) fill_grant.hyps(2) admissions_grant [OF fill_grant.prems(1), of _ p c st]
    by (auto simp: fits_windows_def)
qed

lemma fill_steps_invariants:
  assumes "(fill_step i n P)\<^sup>*\<^sup>* st st'" and "power_of_two n" and "pools_nonneg st" and "fair i P st"
    and "served n queue st" and "fits_windows n room pool st"
  shows "pools_nonneg st' \<and> fair i P st' \<and> served n queue st' \<and> fits_windows n room pool st'"
  using assms(1)
  by (induction rule: rtranclp_induct)
    (use assms(2-) in \<open>auto intro: fill_step_pools fill_step_fair fill_step_served fill_step_fits\<close>)

section \<open>What is in flight\<close>

text \<open>The attempts in flight, each once: what \<^verbatim>\<open>seenInflight\<close> lets through.\<close>

fun unique_inflight :: "string set \<Rightarrow> Inflight list \<Rightarrow> Inflight list" where
  "unique_inflight seen [] = []"
| "unique_inflight seen (v # vs) =
     (if infl_AttemptID v \<in> seen then unique_inflight seen vs
      else v # unique_inflight (insert (infl_AttemptID v) seen) vs)"

lemma count_inflight_Inr:
  "count_inflight vs c = Inr c' \<Longrightarrow>
     length (ic_seen c') = length (ic_seen c) + length (unique_inflight (set (ic_seen c)) vs)
     \<and> (\<forall>p. int_at (ic_projects c') p = int_at (ic_projects c) p
          + int (length (filter (\<lambda>v. infl_ProjectID v = p) (unique_inflight (set (ic_seen c)) vs))))
     \<and> (\<forall>r. int_at (ic_pools c') r = int_at (ic_pools c) r
          + int (length (filter (\<lambda>v. infl_ResourceClass v = r) (unique_inflight (set (ic_seen c)) vs))))"
  by (induction vs c rule: count_inflight.induct) (auto split: if_splits)

definition inflight_of_project :: "AuthoritySnapshot \<Rightarrow> string \<Rightarrow> int" where
  "inflight_of_project snapshot p =
     int (length (filter (\<lambda>v. infl_ProjectID v = p) (unique_inflight {} (as_Inflight snapshot))))"

definition inflight_of_class :: "AuthoritySnapshot \<Rightarrow> ResourceClass \<Rightarrow> int" where
  "inflight_of_class snapshot r =
     int (length (filter (\<lambda>v. infl_ResourceClass v = r) (unique_inflight {} (as_Inflight snapshot))))"

section \<open>Plans\<close>

definition plan_admissions :: "Plan \<Rightarrow> PlannedAdmission list" where
  "plan_admissions plan = concat (map lp_Admissions (plan_Lanes plan))"

definition project_queue :: "AuthoritySnapshot \<Rightarrow> string \<Rightarrow> Candidate list" where
  "project_queue snapshot p = filter (\<lambda>c. cand_ProjectID c = p) (sortCandidates (as_Candidates snapshot))"

definition granted_to :: "Plan \<Rightarrow> string \<Rightarrow> nat" where
  "granted_to plan p = length (filter (\<lambda>a. pa_ProjectID a = p) (plan_admissions plan))"

text \<open>The room that the windows leave to this plan, in all and per class.\<close>

definition global_room :: "AuthoritySnapshot \<Rightarrow> int \<Rightarrow> int" where
  "global_room snapshot window = max 0 (window - int (length (unique_inflight {} (as_Inflight snapshot))))"

definition class_room :: "AuthoritySnapshot \<Rightarrow> (ResourceClass, int) gomap \<Rightarrow> ResourceClass \<Rightarrow> int" where
  "class_room snapshot windows r =
     (case map_of windows r of None \<Rightarrow> 0 | Some w \<Rightarrow> max 0 (w - inflight_of_class snapshot r))"

definition class_left :: "AuthoritySnapshot \<Rightarrow> Plan \<Rightarrow> ResourceClass \<Rightarrow> int" where
  "class_left snapshot plan r = class_room snapshot (plan_PoolWindows plan) r
     - int (length (filter (\<lambda>a. pa_ResourceClass a = r) (plan_admissions plan)))"

text \<open>A project waits when its queue has a next candidate whose class has room left.\<close>

definition waiting :: "AuthoritySnapshot \<Rightarrow> Plan \<Rightarrow> string \<Rightarrow> bool" where
  "waiting snapshot plan p =
     (case drop (granted_to plan p) (project_queue snapshot p) of
        [] \<Rightarrow> False
      | c # cs \<Rightarrow> 0 < class_left snapshot plan (cand_ResourceClass c))"

lemma slice_candidate_queues: "slice_at (candidate_queues cs) p = filter (\<lambda>c. cand_ProjectID c = p) cs"
  unfolding candidate_queues_def using slice_at_fold_append [of cand_ProjectID "\<lambda>c. c" cs "[]" p] by simp

lemma keys_append_at: "k \<in> set (map fst (append_at j v m)) \<longleftrightarrow> k = j \<or> k \<in> set (map fst m)"
  unfolding map_of_fst_iff append_at_def by auto

lemma candidate_queues_keys: "p \<in> set (map fst (candidate_queues cs)) \<longleftrightarrow> slice_at (candidate_queues cs) p \<noteq> []"
proof -
  have "p \<in> set (map fst (fold (\<lambda>c. append_at (cand_ProjectID c) c) cs m)) \<longleftrightarrow>
      p \<in> set (map fst m) \<or> p \<in> cand_ProjectID ` set cs" for m
  proof (induction cs arbitrary: m)
    case (Cons c cs)
    then show ?case
      by (auto simp only: fold_Cons o_apply keys_append_at list.set image_insert)
  qed simp
  then show ?thesis
    unfolding slice_candidate_queues by (auto simp: candidate_queues_def filter_empty_conv)
qed

lemma int_at_map_windows:
  "int_at (map (\<lambda>(r, w). (r, f r w)) ws) r = (case map_of ws r of None \<Rightarrow> 0 | Some w \<Rightarrow> f r w)"
  by (induction ws) (auto simp: int_at_def)

lemma set_rotate_projects [simp]: "set (rotate_projects e ps) = set ps"
  by (auto simp: rotate_projects_def Let_def dest: in_set_dropD in_set_takeD)
    (metis Un_iff append_take_drop_id set_append)

lemma BuildPlan_filled:
  assumes "BuildPlan snapshot n window pools epoch = Inr plan"
  obtains counts st where
    "power_of_two n" and "0 \<le> window" and "\<forall>c \<in> set (as_Candidates snapshot). Candidate_Validate c = None"
    and "count_inflight (as_Inflight snapshot) \<lparr>ic_seen = [], ic_projects = [], ic_pools = []\<rparr> = Inr counts"
    and "fill_plan (ic_projects counts) n (rotate_projects epoch (sorted_keys (candidate_queues (sortCandidates (as_Candidates snapshot)))))
      \<lparr>fl_queues = candidate_queues (sortCandidates (as_Candidates snapshot)), fl_granted = [],
       fl_remainingPool = map (\<lambda>(r, w). (r, max 0 (w - int_at (ic_pools counts) r))) pools,
       fl_remainingGlobal = max 0 (window - int (length (ic_seen counts))), fl_planned = []\<rparr> = Inr st"
    and "plan_admissions plan = all_admissions n st" and "plan_PoolWindows plan = pools"
    and "plan_TotalAdmissions plan = int (length (plan_admissions plan))"
    and "plan_Lanes plan = map (\<lambda>lane. lane_plan n (fl_planned st) (sortCandidates (as_Candidates snapshot))
      (as_Inflight snapshot) (int lane)) [0 ..< nat n]"
proof -
  have total: "(\<Sum>x\<leftarrow>xs. int (length (f x))) = int (length (concat (map f xs)))" for f :: "nat \<Rightarrow> 'x list" and xs
    by (induction xs) simp_all
  show thesis
    using assms that
    by (auto simp: BuildPlan_def Let_def find_None_iff plan_admissions_def all_admissions_def lane_plan_def o_def total
        split: if_splits option.splits sum.splits)
qed

definition planned_by :: "AuthoritySnapshot \<Rightarrow> int \<Rightarrow> int \<Rightarrow> Plan \<Rightarrow> filling \<Rightarrow> bool" where
  "planned_by snapshot n window plan st \<longleftrightarrow>
     plan_admissions plan = all_admissions n st \<and> pools_nonneg st
     \<and> served n (project_queue snapshot) st
     \<and> fits_windows n (global_room snapshot window) (class_room snapshot (plan_PoolWindows plan)) st
     \<and> (\<forall>p q. 0 < int_at (fl_granted st) p \<longrightarrow> project_queue snapshot q \<noteq> [] \<longrightarrow> eligible st q \<longrightarrow>
          inflight_of_project snapshot p + int_at (fl_granted st) p
          \<le> inflight_of_project snapshot q + int_at (fl_granted st) q + 1)
     \<and> (fl_remainingGlobal st = 0 \<or> (\<forall>p. project_queue snapshot p \<noteq> [] \<longrightarrow> \<not> eligible st p))"

lemma BuildPlan_planned:
  assumes "BuildPlan snapshot n window pools epoch = Inr plan"
  obtains st where "planned_by snapshot n window plan st" and "power_of_two n" and "plan_PoolWindows plan = pools"
    and "plan_TotalAdmissions plan = int (length (plan_admissions plan))"
    and "plan_Lanes plan = map (\<lambda>lane. lane_plan n (fl_planned st) (sortCandidates (as_Candidates snapshot))
      (as_Inflight snapshot) (int lane)) [0 ..< nat n]"
proof -
  let ?queues = "candidate_queues (sortCandidates (as_Candidates snapshot))"
  obtain counts st where valid: "power_of_two n" "0 \<le> window" "\<forall>c \<in> set (as_Candidates snapshot). Candidate_Validate c = None"
    and counts: "count_inflight (as_Inflight snapshot) \<lparr>ic_seen = [], ic_projects = [], ic_pools = []\<rparr> = Inr counts"
    and filled: "fill_plan (ic_projects counts) n (rotate_projects epoch (sorted_keys ?queues))
      \<lparr>fl_queues = ?queues, fl_granted = [],
       fl_remainingPool = map (\<lambda>(r, w). (r, max 0 (w - int_at (ic_pools counts) r))) pools,
       fl_remainingGlobal = max 0 (window - int (length (ic_seen counts))), fl_planned = []\<rparr> = Inr st"
    and plan: "plan_admissions plan = all_admissions n st" "plan_PoolWindows plan = pools"
      "plan_TotalAdmissions plan = int (length (plan_admissions plan))"
      "plan_Lanes plan = map (\<lambda>lane. lane_plan n (fl_planned st) (sortCandidates (as_Candidates snapshot))
        (as_Inflight snapshot) (int lane)) [0 ..< nat n]"
    using BuildPlan_filled [OF assms] .
  let ?P = "set (map fst ?queues)"
  define st0 where "st0 = \<lparr>fl_queues = ?queues, fl_granted = [],
       fl_remainingPool = map (\<lambda>(r, w). (r, max 0 (w - int_at (ic_pools counts) r))) pools,
       fl_remainingGlobal = max 0 (window - int (length (ic_seen counts))), fl_planned = []\<rparr>"
  have counted: "int_at (ic_projects counts) p = inflight_of_project snapshot p"
      "int_at (ic_pools counts) r = inflight_of_class snapshot r"
      "length (ic_seen counts) = length (unique_inflight {} (as_Inflight snapshot))" for p r
    using count_inflight_Inr [OF counts] by (simp_all add: inflight_of_project_def inflight_of_class_def)
  have queue: "slice_at ?queues p = project_queue snapshot p" for p
    by (simp add: slice_candidate_queues project_queue_def)
  have keys: "p \<in> ?P \<longleftrightarrow> project_queue snapshot p \<noteq> []" for p
    using candidate_queues_keys [of p "sortCandidates (as_Candidates snapshot)"] queue by simp
  have "'''' \<notin> ?P"
    unfolding keys project_queue_def using valid(3)
    by (auto simp: filter_empty_conv sortCandidates_def Candidate_Validate_def split: if_splits)
  then obtain steps: "(fill_step (ic_projects counts) n ?P)\<^sup>*\<^sup>* st0 st"
      and stop: "fl_remainingGlobal st \<le> 0 \<or> (\<forall>p \<in> ?P. \<not> eligible st p)"
    using fill_plan_refines [of "rotate_projects epoch (sorted_keys ?queues)" "ic_projects counts" n st0] filled
    by (auto simp: st0_def)
  have start: "pools_nonneg st0" "fair (ic_projects counts) ?P st0" "served n (project_queue snapshot) st0"
      "fits_windows n (global_room snapshot window) (class_room snapshot pools) st0"
    by (auto simp: st0_def pools_nonneg_def fair_def served_def fits_windows_def queue int_at_map_windows
        all_admissions_def global_room_def class_room_def counted split: option.split)
  have "pools_nonneg st" "fair (ic_projects counts) ?P st" "served n (project_queue snapshot) st"
      "fits_windows n (global_room snapshot window) (class_room snapshot pools) st"
    using fill_steps_invariants [OF steps valid(1) start] by auto
  moreover have "fl_remainingGlobal st \<le> 0 \<or> (\<forall>p. project_queue snapshot p \<noteq> [] \<longrightarrow> \<not> eligible st p)"
    using stop keys by blast
  ultimately have "planned_by snapshot n window plan st"
    using plan keys by (auto simp: planned_by_def fair_def level_def counted fits_windows_def)
  then show thesis
    using that plan valid(1) by blast
qed

lemma concat_single:
  "m \<le> k \<Longrightarrow> k < u \<Longrightarrow> concat (map (\<lambda>l. if l = k then xs else []) [m ..< u]) = xs"
proof (induction "u - m" arbitrary: m)
  case (Suc d)
  then show ?case
    by (cases "m = k") (auto simp: upt_conv_Cons concat_eq_Nil_conv)
qed simp

lemma planned_order:
  assumes "planned_by snapshot n window plan st" and "power_of_two n"
  shows "filter (\<lambda>a. pa_ProjectID a = p) (plan_admissions plan)
      = map (\<lambda>c. \<lparr>pa_ProjectID = p, pa_ResourceClass = cand_ResourceClass c\<rparr>)
          (take (nat (int_at (fl_granted st) p)) (project_queue snapshot p))"
proof -
  let ?xs = "map (\<lambda>c. \<lparr>pa_ProjectID = p, pa_ResourceClass = cand_ResourceClass c\<rparr>)
    (take (nat (int_at (fl_granted st) p)) (project_queue snapshot p))"
  have "filter (\<lambda>a. pa_ProjectID a = p) (slice_at (fl_planned st) (int l)) = (if l = nat (lane_of n p) then ?xs else [])" for l
    using assms(1) lane_of_range [OF assms(2), of p] unfolding planned_by_def served_def by auto
  then have "filter (\<lambda>a. pa_ProjectID a = p) (plan_admissions plan)
      = concat (map (\<lambda>l. if l = nat (lane_of n p) then ?xs else []) [0 ..< nat n])"
    using assms(1) by (simp add: planned_by_def all_admissions_def filter_concat o_def)
  then show ?thesis
    using lane_of_range [OF assms(2), of p] concat_single [of 0 "nat (lane_of n p)" "nat n" ?xs] by simp
qed

lemma planned_granted:
  assumes "planned_by snapshot n window plan st" and "power_of_two n"
  shows "int_at (fl_granted st) p = int (granted_to plan p)"
proof -
  have "0 \<le> int_at (fl_granted st) p" "int_at (fl_granted st) p \<le> int (length (project_queue snapshot p))"
    using assms(1) by (simp_all add: planned_by_def served_def)
  then show ?thesis
    by (simp add: granted_to_def planned_order [OF assms])
qed

lemma planned_waiting:
  assumes "planned_by snapshot n window plan st" and "power_of_two n"
  shows "waiting snapshot plan p \<longleftrightarrow> eligible st p"
proof -
  have left: "class_left snapshot plan r = int_at (fl_remainingPool st) r" "0 \<le> int_at (fl_remainingPool st) r" for r
    using assms(1) unfolding planned_by_def fits_windows_def pools_nonneg_def class_left_def by (auto simp: algebra_simps)
  have "slice_at (fl_queues st) p = drop (granted_to plan p) (project_queue snapshot p)"
    using assms(1) planned_granted [OF assms, of p] by (simp add: planned_by_def served_def)
  then show ?thesis
    using left(2) by (auto simp: waiting_def eligible_def left(1) order_less_le split: list.split)
qed

lemma waiting_queue: "waiting snapshot plan p \<Longrightarrow> project_queue snapshot p \<noteq> []"
  by (auto simp: waiting_def)

section \<open>Batches\<close>

lemma credit_batches_Nil: "xs = [] \<or> batch \<le> 0 \<Longrightarrow> credit_batches batch xs = []"
  by (subst credit_batches.simps) simp

lemma credit_batches_Cons:
  "xs \<noteq> [] \<Longrightarrow> 0 < batch \<Longrightarrow> credit_batches batch xs
     = take (nat (min batch (int (length xs)))) xs # credit_batches batch (drop (nat (min batch (int (length xs)))) xs)"
  by (subst credit_batches.simps) (simp add: Let_def)

lemma credit_batches_concat: "0 < batch \<Longrightarrow> concat (credit_batches batch xs) = xs"
proof (induction batch xs rule: credit_batches.induct)
  case (1 batch xs)
  show ?case
  proof (cases "xs = []")
    case False
    then show ?thesis
      using "1.IH" [OF _ refl] "1.prems" by (simp add: credit_batches_Cons)
  qed (simp add: credit_batches_Nil)
qed

lemma credit_batches_sizes:
  "b \<in> set (credit_batches batch xs) \<Longrightarrow> b \<noteq> [] \<and> int (length b) \<le> batch"
proof (induction batch xs rule: credit_batches.induct)
  case (1 batch xs)
  show ?case
  proof (cases "xs = [] \<or> batch \<le> 0")
    case False
    then consider "b = take (nat (min batch (int (length xs)))) xs"
      | "b \<in> set (credit_batches batch (drop (nat (min batch (int (length xs)))) xs))"
      using "1.prems" by (auto simp: credit_batches_Cons)
    then show ?thesis
    proof cases
      case 1
      then show ?thesis
        using False by (auto simp: min_def split: if_splits)
    next
      case 2
      then show ?thesis
        using "1.IH" [OF False refl] by simp
    qed
  qed (use "1.prems" in \<open>simp add: credit_batches_Nil\<close>)
qed

section \<open>Windows\<close>

lemma wrap64_id: "- (2 ^ 63) \<le> i \<Longrightarrow> i < 2 ^ 63 \<Longrightarrow> wrap64 i = i"
  unfolding wrap64_def by (rule signed_take_bit_int_eq_self)

text \<open>A window never exceeds what is desired and never shrinks below what it was while it grows.\<close>

lemma boundWindow_bounds:
  assumes "previous < desired" and "0 < previous" and "desired < 2 ^ 62"
    and "int_ceil convert (float_mult (float_of_int previous) limit) \<le> 2 ^ 62"
  shows "previous < boundWindow convert previous desired limit \<and> boundWindow convert previous desired limit \<le> desired"
proof -
  let ?d = "max 1 (int_ceil convert (float_mult (float_of_int previous) limit))"
  have "wrap64 (previous + ?d) = previous + ?d"
    using assms by (intro wrap64_id) (auto simp: max_def)
  then show ?thesis
    using assms by (auto simp: boundWindow_def Let_def)
qed

end
