(* ===== verification/Scheduler_Service.thy ===== *)
theory Scheduler_Service
  imports Planner_Laws
begin

text \<open>
  \<^verbatim>\<open>internal/scheduling/scheduler.go\<close>: how the reservations of the coordination store are merged into
  the authority's snapshot, one rebalance, and the admission of one lane.

  The authority, the coordination store, the capacity provider, the identity generator and the clock
  are interfaces; their operations are the components of a record over a state \<open>'w\<close> of the world
  that each call passes on. Lanes are handled in parallel by the source and touch nothing in common:
  here the lanes follow one another, in an order that is a parameter. The observer only counts.
\<close>

section \<open>Reservations\<close>

record Reservation =
  rsv_AttemptID :: string
  rsv_ProjectID :: string
  rsv_Lane :: int
  rsv_ResourceClass :: ResourceClass
  rsv_Candidate :: Candidate
  rsv_Confirmed :: bool
  rsv_Epoch :: string

record merge_state =
  ms_inflight :: "Inflight list"
  ms_keep :: "(int \<times> string) set"
  ms_reservedNodes :: "string set"
  ms_seenAttempts :: "string set"

text \<open>
  The maps \<^verbatim>\<open>keep\<close> and \<^verbatim>\<open>renew\<close> from lanes to sets of attempts are sets of pairs. What is in flight is
  kept and renewed in the lane of its project.
\<close>

definition inflight_lanes :: "int \<Rightarrow> Inflight list \<Rightarrow> (int \<times> string) set" where
  "inflight_lanes laneCount inflight = (\<lambda>v. (lane_of laneCount (infl_ProjectID v), infl_AttemptID v)) ` set inflight"

definition merge_reservation :: "Reservation \<Rightarrow> merge_state \<Rightarrow> merge_state" where
  "merge_reservation reservation st =
     (if rsv_Confirmed reservation \<and> rsv_AttemptID reservation \<notin> ms_seenAttempts st then st
      else let st1 = st\<lparr>ms_keep := insert (rsv_Lane reservation, rsv_AttemptID reservation) (ms_keep st),
                 ms_reservedNodes := insert (cand_NodeRunID (rsv_Candidate reservation)) (ms_reservedNodes st)\<rparr>
        in if rsv_AttemptID reservation \<in> ms_seenAttempts st then st1
           else st1\<lparr>ms_seenAttempts := insert (rsv_AttemptID reservation) (ms_seenAttempts st),
                  ms_inflight := ms_inflight st @ [\<lparr>infl_AttemptID = rsv_AttemptID reservation,
                    infl_ProjectID = rsv_ProjectID reservation, infl_ResourceClass = rsv_ResourceClass reservation\<rparr>]\<rparr>)"

definition mergeReservations ::
    "AuthoritySnapshot \<Rightarrow> Reservation list \<Rightarrow> int \<Rightarrow> AuthoritySnapshot \<times> (int \<times> string) set \<times> (int \<times> string) set" where
  "mergeReservations snapshot reservations laneCount =
     (let renew = inflight_lanes laneCount (as_Inflight snapshot);
          st = fold merge_reservation reservations \<lparr>ms_inflight = as_Inflight snapshot, ms_keep = renew,
            ms_reservedNodes = {}, ms_seenAttempts = infl_AttemptID ` set (as_Inflight snapshot)\<rparr>
      in (\<lparr>as_Candidates = filter (\<lambda>c. cand_NodeRunID c \<notin> ms_reservedNodes st) (as_Candidates snapshot),
           as_Inflight = ms_inflight st\<rparr>, ms_keep st, renew))"

section \<open>Rebalancing\<close>

record BalancerLease =
  lease_Owner :: string
  lease_Token :: string
  lease_FencingToken :: "64 word"
  lease_ExpiresAt :: time

record LaneState =
  ls_Lane :: int
  ls_Candidates :: "Candidate list"
  ls_Inflight :: "Inflight list"
  ls_KeepReservations :: "string set"
  ls_RenewReservations :: "string set"

record Task =
  task_MessageVersion :: int
  task_TaskID :: string
  task_ProjectID :: string
  task_RunID :: string
  task_NodeRunID :: string
  task_ExecutionNodeID :: string
  task_AttemptID :: string
  task_AttemptSequence :: "32 word"
  task_ResourceClass :: ResourceClass
  task_OccurredAt :: time
  task_TraceID :: string

record DispatchCommand =
  dc_Candidate :: Candidate
  dc_AttemptID :: string
  dc_TaskID :: string
  dc_TraceID :: string
  dc_Now :: time

type_synonym ('w, 'a) action = "'w \<Rightarrow> 'w \<times> 'a result"

record 'w CoordinationStore =
  AcquireBalancerLease :: "string \<Rightarrow> int \<Rightarrow> ('w, BalancerLease) action"
  Store_BoundWindows :: "BalancerLease \<Rightarrow> Windows \<Rightarrow> float64 \<Rightarrow> ('w, Windows) action"
  PauseAdmissions :: "BalancerLease \<Rightarrow> int \<Rightarrow> ('w, unit) action"
  ListReservations :: "int \<Rightarrow> ('w, Reservation list) action"
  RebuildLane :: "BalancerLease \<Rightarrow> LaneState \<Rightarrow> int \<Rightarrow> int \<Rightarrow> ('w, unit) action"
  Grant :: "BalancerLease \<Rightarrow> int \<Rightarrow> PlannedAdmission list \<Rightarrow> ('w, unit) action"
  Activate :: "BalancerLease \<Rightarrow> int \<Rightarrow> 64 word \<Rightarrow> ('w, unit) action"
  ReserveNext :: "int \<Rightarrow> string \<Rightarrow> int \<Rightarrow> ('w, Reservation option) action"
  ConfirmReservation :: "Reservation \<Rightarrow> int \<Rightarrow> ('w, unit) action"
  AbortReservation :: "Reservation \<Rightarrow> bool \<Rightarrow> ('w, unit) action"

record 'w Scheduler =
  sch_store :: "'w CoordinationStore"
  LoadSchedulingSnapshot :: "int \<Rightarrow> ('w, AuthoritySnapshot) action"
  DispatchReady :: "DispatchCommand \<Rightarrow> ('w, Task) action"
  HealthyCapacity :: "('w, Capacity) action"
  ids_New :: "('w, string) action"
  clock_Now :: "'w \<Rightarrow> time"
  sch_owner :: string
  sch_settings :: Settings

text \<open>The sequence of two calls, the second only after the first succeeded, and a call without effect.\<close>

definition and_then :: "('w, 'a) action \<Rightarrow> ('a \<Rightarrow> ('w, 'b) action) \<Rightarrow> ('w, 'b) action" where
  "and_then m f w = (case m w of (w', Inl e) \<Rightarrow> (w', Inl e) | (w', Inr x) \<Rightarrow> f x w')"

definition give :: "'a result \<Rightarrow> ('w, 'a) action" where
  "give r w = (w, r)"

text \<open>
  \<^verbatim>\<open>parallelLanes\<close>: every lane is handled even after an error, and some error is returned, here the
  first. A canceled context is not modelled.
\<close>

fun parallelLanes :: "int list \<Rightarrow> (int \<Rightarrow> ('w, unit) action) \<Rightarrow> ('w, unit) action" where
  "parallelLanes [] operation w = (w, Inr ())"
| "parallelLanes (lane # lanes) operation w =
     (case operation lane w of
        (w', Inl e) \<Rightarrow> (fst (parallelLanes lanes operation w'), Inl e)
      | (w', Inr u) \<Rightarrow> parallelLanes lanes operation w')"

fun list_lanes :: "int list \<Rightarrow> (int \<Rightarrow> ('w, 'a) action) \<Rightarrow> (int, 'a) gomap \<Rightarrow> ('w, (int, 'a) gomap) action" where
  "list_lanes [] operation found w = (w, Inr found)"
| "list_lanes (lane # lanes) operation found w =
     (case operation lane w of
        (w', Inl e) \<Rightarrow> (fst (list_lanes lanes operation found w'), Inl e)
      | (w', Inr x) \<Rightarrow> list_lanes lanes operation (AList.update lane x found) w')"

fun grant_batches :: "'w CoordinationStore \<Rightarrow> BalancerLease \<Rightarrow> int \<Rightarrow> PlannedAdmission list list \<Rightarrow> ('w, unit) action" where
  "grant_batches store lease lane [] = give (Inr ())"
| "grant_batches store lease lane (batch # batches) =
     and_then (Grant store lease lane batch) (\<lambda>u. grant_batches store lease lane batches)"

definition lane_attempts :: "(int \<times> string) set \<Rightarrow> int \<Rightarrow> string set" where
  "lane_attempts attempts lane = snd ` Set.filter (\<lambda>(l, a). l = lane) attempts"

definition rebuild_lane ::
    "'w Scheduler \<Rightarrow> BalancerLease \<Rightarrow> (int \<times> string) set \<Rightarrow> (int \<times> string) set \<Rightarrow> LanePlan \<Rightarrow> ('w, unit) action" where
  "rebuild_lane scheduler lease keep renew lane =
     and_then (RebuildLane (sch_store scheduler) lease
         \<lparr>ls_Lane = lp_Lane lane, ls_Candidates = lp_Candidates lane, ls_Inflight = lp_Inflight lane,
          ls_KeepReservations = lane_attempts keep (lp_Lane lane),
          ls_RenewReservations = lane_attempts renew (lp_Lane lane)\<rparr>
         (set_ActiveProjectTTL (sch_settings scheduler)) (set_ReservationTTL (sch_settings scheduler)))
       (\<lambda>u. and_then (give (CreditBatches (lp_Admissions lane) (set_CreditGrantBatch (sch_settings scheduler))))
         (\<lambda>batches. grant_batches (sch_store scheduler) lease (lp_Lane lane) batches))"

text \<open>\<open>order\<close> gives, for a number of lanes, the order in which they are handled.\<close>

definition Rebalance :: "(float64 \<Rightarrow> int) \<Rightarrow> (int \<Rightarrow> int list) \<Rightarrow> 'w Scheduler \<Rightarrow> ('w, Plan) action" where
  "Rebalance convert order scheduler =
     (let store = sch_store scheduler; settings = sch_settings scheduler; lanes = order (set_LaneCount settings) in
      and_then (AcquireBalancerLease store (sch_owner scheduler) (set_BalancerLease settings)) (\<lambda>lease.
      and_then (parallelLanes lanes (PauseAdmissions store lease)) (\<lambda>u.
      and_then (list_lanes lanes (ListReservations store) []) (\<lambda>found.
      let reservations = concat (map (\<lambda>lane. slice_at found (int lane)) [0 ..< nat (set_LaneCount settings)]) in
      and_then (HealthyCapacity scheduler) (\<lambda>capacity.
      and_then (give (DispatchWindows convert capacity (set_DispatchBufferFactor settings))) (\<lambda>(globalWindow, poolWindows).
      and_then (Store_BoundWindows store lease \<lparr>win_Global = globalWindow, win_Pools = Some poolWindows\<rparr>
                  (set_CapacityChangeLimit settings)) (\<lambda>windows.
      and_then (LoadSchedulingSnapshot scheduler (win_Global windows)) (\<lambda>loaded.
      let (snapshot, keep, renew) = mergeReservations loaded reservations (set_LaneCount settings) in
      and_then (give (BuildPlan snapshot (set_LaneCount settings) (win_Global windows) (entries (win_Pools windows))
                        (lease_FencingToken lease))) (\<lambda>plan.
      and_then (parallelLanes (order (int (length (plan_Lanes plan))))
                  (\<lambda>lane. rebuild_lane scheduler lease keep renew (plan_Lanes plan ! nat lane))) (\<lambda>u.
      and_then (parallelLanes (order (int (length (plan_Lanes plan))))
                  (\<lambda>lane. Activate store lease (lp_Lane (plan_Lanes plan ! nat lane)) (plan_Epoch plan))) (\<lambda>u.
      give (Inr plan))))))))))))"

section \<open>Admission\<close>

fun abort_each :: "'w CoordinationStore \<Rightarrow> (Reservation \<times> bool) list \<Rightarrow> 'w \<Rightarrow> 'w" where
  "abort_each store [] w = w"
| "abort_each store ((reservation, restore) # rest) w =
     abort_each store rest (fst (AbortReservation store reservation restore w))"

definition abortReservations :: "'w Scheduler \<Rightarrow> Reservation list \<Rightarrow> bool \<Rightarrow> 'w \<Rightarrow> 'w" where
  "abortReservations scheduler reservations restore w =
     abort_each (sch_store scheduler) (map (\<lambda>r. (r, restore)) (rev reservations)) w"

fun reserve_lane :: "'w Scheduler \<Rightarrow> int \<Rightarrow> nat \<Rightarrow> Reservation list \<Rightarrow> ('w, Reservation list) action" where
  "reserve_lane scheduler lane 0 reservations w = (w, Inr reservations)"
| "reserve_lane scheduler lane (Suc room) reservations w =
     (case ids_New scheduler w of
        (w1, Inl e) \<Rightarrow> (abortReservations scheduler reservations True w1, Inl e)
      | (w1, Inr attemptID) \<Rightarrow>
          (case ReserveNext (sch_store scheduler) lane attemptID (set_ReservationTTL (sch_settings scheduler)) w1 of
             (w2, Inl e) \<Rightarrow> (abortReservations scheduler reservations True w2, Inl e)
           | (w2, Inr None) \<Rightarrow> (w2, Inr reservations)
           | (w2, Inr (Some reservation)) \<Rightarrow> reserve_lane scheduler lane room (reservations @ [reservation]) w2))"

definition dispatchReservation :: "'w Scheduler \<Rightarrow> Reservation \<Rightarrow> string \<Rightarrow> ('w, Task) action" where
  "dispatchReservation scheduler reservation traceID =
     and_then (ids_New scheduler) (\<lambda>taskID.
     and_then (\<lambda>w. DispatchReady scheduler \<lparr>dc_Candidate = rsv_Candidate reservation,
         dc_AttemptID = rsv_AttemptID reservation, dc_TaskID = taskID, dc_TraceID = traceID, dc_Now = clock_Now scheduler w\<rparr> w)
       (\<lambda>task w. (fst (ConfirmReservation (sch_store scheduler) reservation
                          (set_ReservationTTL (sch_settings scheduler)) w), Inr task)))"

text \<open>The reservations of one project in order; the first error aborts it and all that follow, last first.\<close>

fun dispatch_batch :: "'w Scheduler \<Rightarrow> string \<Rightarrow> Reservation list \<Rightarrow> Task list \<Rightarrow> 'w \<Rightarrow> 'w \<times> Task list \<times> go_error option" where
  "dispatch_batch scheduler traceID [] tasks w = (w, tasks, None)"
| "dispatch_batch scheduler traceID (reservation # reservations) tasks w =
     (case dispatchReservation scheduler reservation traceID w of
        (w', Inl e) \<Rightarrow>
          (abort_each (sch_store scheduler)
             (rev ((reservation, \<not> errors_Is e ErrCandidateStale) # map (\<lambda>r. (r, True)) reservations)) w', tasks, Some e)
      | (w', Inr task) \<Rightarrow> dispatch_batch scheduler traceID reservations (tasks @ [task]) w')"

fun dispatch_projects ::
    "'w Scheduler \<Rightarrow> string \<Rightarrow> (string, Reservation list) gomap \<Rightarrow> string list \<Rightarrow> Task list \<Rightarrow> go_error option \<Rightarrow>
     'w \<Rightarrow> 'w \<times> Task list \<times> go_error option" where
  "dispatch_projects scheduler traceID byProject [] tasks firstErr w = (w, tasks, firstErr)"
| "dispatch_projects scheduler traceID byProject (project # projects) tasks firstErr w =
     (case dispatch_batch scheduler traceID (slice_at byProject project) [] w of
        (w', dispatched, err) \<Rightarrow>
          dispatch_projects scheduler traceID byProject projects (tasks @ dispatched)
            (if firstErr = None then err else firstErr) w')"

text \<open>\<open>order\<close> is the order in which the batches of the projects are finished.\<close>

definition AdmitLane ::
    "(string list \<Rightarrow> string list) \<Rightarrow> 'w Scheduler \<Rightarrow> int \<Rightarrow> int \<Rightarrow> string \<Rightarrow> 'w \<Rightarrow> 'w \<times> Task list \<times> go_error option" where
  "AdmitLane order scheduler lane limit traceID w =
     (if lane < 0 \<or> lane \<ge> set_LaneCount (sch_settings scheduler) \<or> limit \<le> 0
         \<or> limit > set_CandidateBatch (sch_settings scheduler) \<or> traceID = '''' then
        (w, [], Some (Errorf ''admission lane, bounded limit and trace are required''))
      else case reserve_lane scheduler lane (nat limit) [] w of
          (w', Inl e) \<Rightarrow> (w', [], Some e)
        | (w', Inr reservations) \<Rightarrow>
            (let byProject = fold (\<lambda>r. append_at (rsv_ProjectID r) r) reservations []
             in dispatch_projects scheduler traceID byProject (order (map fst byProject)) [] None w'))"

section \<open>The service\<close>

text \<open>
  \<^verbatim>\<open>New\<close> checks the owner and the settings; its dependencies are components of the record and never nil.
  One turn of \<^verbatim>\<open>Service.Run\<close>: a rebalance, then the admission of the lanes one after the other up to an
  error other than a pause; after a rebalance that failed, except for a lost lease, nothing is admitted.
\<close>

definition NewScheduler :: "'w Scheduler \<Rightarrow> 'w Scheduler result" where
  "NewScheduler scheduler =
     (if sch_owner scheduler = '''' then Inl (Errorf ''scheduler dependencies and owner are required'')
      else case Settings_Validate (sch_settings scheduler) of Some e \<Rightarrow> Inl e | None \<Rightarrow> Inr scheduler)"

fun admit_lanes :: "(string list \<Rightarrow> string list) \<Rightarrow> 'w Scheduler \<Rightarrow> string \<Rightarrow> int list \<Rightarrow> 'w \<Rightarrow> 'w" where
  "admit_lanes order scheduler traceID [] w = w"
| "admit_lanes order scheduler traceID (lane # lanes) w =
     (case AdmitLane order scheduler lane (set_CandidateBatch (sch_settings scheduler)) traceID w of
        (w', tasks, err) \<Rightarrow>
          if (case err of None \<Rightarrow> False | Some e \<Rightarrow> \<not> errors_Is e ErrAdmissionPaused) then w'
          else admit_lanes order scheduler traceID lanes w')"

definition service_turn ::
    "(float64 \<Rightarrow> int) \<Rightarrow> (int \<Rightarrow> int list) \<Rightarrow> (string list \<Rightarrow> string list) \<Rightarrow> 'w Scheduler \<Rightarrow> string \<Rightarrow> 'w \<Rightarrow> 'w" where
  "service_turn convert order finished scheduler traceID w =
     (case Rebalance convert order scheduler w of
        (w', r) \<Rightarrow>
          if (case r of Inl e \<Rightarrow> errors_Is e ErrLeaseLost | Inr plan \<Rightarrow> True) then
            admit_lanes finished scheduler traceID (map int [0 ..< nat (set_LaneCount (sch_settings scheduler))]) w'
          else w')"

end
