(* ===== verification/Scheduler_Laws.thy ===== *)
theory Scheduler_Laws
  imports Scheduler_Service
begin

text \<open>
  The laws of the scheduler: what merging reservations keeps, the order of the calls of a rebalance
  (no lane is opened before all lanes were paused and rebuilt), and that admission either dispatches
  or aborts what it reserved. To speak of calls, \<open>recording\<close> adds a log to the world of a scheduler.
\<close>

section \<open>Merging reservations\<close>

definition live_attempt_ids :: "Reservation list \<Rightarrow> string set" where
  "live_attempt_ids reservations = rsv_AttemptID ` {r \<in> set reservations. \<not> rsv_Confirmed r}"

definition merge_ok :: "merge_state \<Rightarrow> bool" where
  "merge_ok st \<longleftrightarrow> ms_seenAttempts st = infl_AttemptID ` set (ms_inflight st)"

lemma fold_merge_reservation:
  assumes "merge_ok st"
  shows "merge_ok (fold merge_reservation rs st)
    \<and> ms_seenAttempts (fold merge_reservation rs st) = ms_seenAttempts st \<union> live_attempt_ids rs
    \<and> (distinct (map infl_AttemptID (ms_inflight st)) \<longrightarrow> distinct (map infl_AttemptID (ms_inflight (fold merge_reservation rs st))))
    \<and> (\<exists>added. ms_inflight (fold merge_reservation rs st) = ms_inflight st @ added)
    \<and> ms_reservedNodes st \<union> {cand_NodeRunID (rsv_Candidate r) | r. r \<in> set rs \<and> \<not> rsv_Confirmed r}
        \<subseteq> ms_reservedNodes (fold merge_reservation rs st)"
  using assms
proof (induction rs arbitrary: st)
  case (Cons r rs)
  have "merge_ok (merge_reservation r st)"
      "ms_seenAttempts (merge_reservation r st) = ms_seenAttempts st \<union> live_attempt_ids [r]"
      "distinct (map infl_AttemptID (ms_inflight st)) \<longrightarrow> distinct (map infl_AttemptID (ms_inflight (merge_reservation r st)))"
      "\<exists>added. ms_inflight (merge_reservation r st) = ms_inflight st @ added"
      "ms_reservedNodes st \<union> {cand_NodeRunID (rsv_Candidate r') | r'. r' = r \<and> \<not> rsv_Confirmed r'}
        \<subseteq> ms_reservedNodes (merge_reservation r st)"
    using Cons.prems by (auto simp: merge_reservation_def merge_ok_def live_attempt_ids_def Let_def)
  moreover have "live_attempt_ids (r # rs) = live_attempt_ids [r] \<union> live_attempt_ids rs"
    by (auto simp: live_attempt_ids_def)
  ultimately show ?case
    using Cons.IH [of "merge_reservation r st"] by (auto 0 4)
qed (auto simp: live_attempt_ids_def)

section \<open>Recording the calls\<close>

datatype call =
    CallPause int bool
  | CallRebuild int bool
  | CallGrant int "PlannedAdmission list" bool
  | CallActivate int bool
  | CallReserve Reservation
  | CallDispatch string bool
  | CallAbort Reservation bool bool

type_synonym 'w logged = "'w \<times> call list"

definition logged :: "('a result \<Rightarrow> call list) \<Rightarrow> ('w, 'a) action \<Rightarrow> ('w logged, 'a) action" where
  "logged f m = (\<lambda>(w, lg). case m w of (w', r) \<Rightarrow> ((w', lg @ f r), r))"

abbreviation silent :: "('w, 'a) action \<Rightarrow> ('w logged, 'a) action" where
  "silent m \<equiv> logged (\<lambda>r. []) m"

definition succeeded :: "'a result \<Rightarrow> bool" where
  "succeeded r \<longleftrightarrow> \<not> isl r"

definition reserved :: "Reservation option result \<Rightarrow> call list" where
  "reserved r = (case r of Inr (Some reservation) \<Rightarrow> [CallReserve reservation] | _ \<Rightarrow> [])"

definition recording_store :: "'w CoordinationStore \<Rightarrow> 'w logged CoordinationStore" where
  "recording_store store = \<lparr>
     AcquireBalancerLease = (\<lambda>owner ttl. silent (AcquireBalancerLease store owner ttl)),
     Store_BoundWindows = (\<lambda>lease windows limit. silent (Store_BoundWindows store lease windows limit)),
     PauseAdmissions = (\<lambda>lease lane. logged (\<lambda>r. [CallPause lane (succeeded r)]) (PauseAdmissions store lease lane)),
     ListReservations = (\<lambda>lane. silent (ListReservations store lane)),
     RebuildLane = (\<lambda>lease state active ttl.
       logged (\<lambda>r. [CallRebuild (ls_Lane state) (succeeded r)]) (RebuildLane store lease state active ttl)),
     Grant = (\<lambda>lease lane batch. logged (\<lambda>r. [CallGrant lane batch (succeeded r)]) (Grant store lease lane batch)),
     Activate = (\<lambda>lease lane epoch. logged (\<lambda>r. [CallActivate lane (succeeded r)]) (Activate store lease lane epoch)),
     ReserveNext = (\<lambda>lane attempt ttl. logged reserved (ReserveNext store lane attempt ttl)),
     ConfirmReservation = (\<lambda>reservation ttl. silent (ConfirmReservation store reservation ttl)),
     AbortReservation = (\<lambda>reservation restore.
       logged (\<lambda>r. [CallAbort reservation restore (succeeded r)]) (AbortReservation store reservation restore))\<rparr>"

definition recording :: "'w Scheduler \<Rightarrow> 'w logged Scheduler" where
  "recording scheduler = \<lparr>
     sch_store = recording_store (sch_store scheduler),
     LoadSchedulingSnapshot = (\<lambda>window. silent (LoadSchedulingSnapshot scheduler window)),
     DispatchReady = (\<lambda>command. logged (\<lambda>r. [CallDispatch (dc_AttemptID command) (succeeded r)]) (DispatchReady scheduler command)),
     HealthyCapacity = silent (HealthyCapacity scheduler),
     ids_New = silent (ids_New scheduler),
     clock_Now = (\<lambda>(w, lg). clock_Now scheduler w),
     sch_owner = sch_owner scheduler,
     sch_settings = sch_settings scheduler\<rparr>"

text \<open>What a call adds to the log: entries that satisfy a predicate, or, on success, exactly given ones.\<close>

definition adds :: "(call \<Rightarrow> bool) \<Rightarrow> ('w logged, 'a) action \<Rightarrow> bool" where
  "adds Q m \<longleftrightarrow> (\<forall>w lg w' lg' r. m (w, lg) = ((w', lg'), r) \<longrightarrow> (\<exists>new. lg' = lg @ new \<and> list_all Q new))"

definition logs :: "('a \<Rightarrow> call list) \<Rightarrow> ('w logged, 'a) action \<Rightarrow> bool" where
  "logs f m \<longleftrightarrow> (\<forall>w lg w' lg' x. m (w, lg) = ((w', lg'), Inr x) \<longrightarrow> lg' = lg @ f x)"

lemma adds_logged: "(\<And>r. list_all Q (f r)) \<Longrightarrow> adds Q (logged f m)"
  by (auto simp: adds_def logged_def split: prod.splits)

lemma adds_give: "adds Q (give r)"
  by (auto simp: adds_def give_def)

lemma adds_and_then: "adds Q m \<Longrightarrow> (\<And>x. adds Q (f x)) \<Longrightarrow> adds Q (and_then m f)"
  unfolding adds_def and_then_def by (fastforce split: prod.splits sum.splits)

lemma adds_parallel:
  assumes "\<And>lane. adds Q (operation lane)"
  shows "adds Q (parallelLanes lanes operation)"
proof (induction lanes)
  case (Cons lane lanes)
  show ?case
    unfolding adds_def
  proof (intro allI impI)
    fix w lg w' lg' r
    assume step: "parallelLanes (lane # lanes) operation (w, lg) = ((w', lg'), r)"
    obtain w1 lg1 r1 where first: "operation lane (w, lg) = ((w1, lg1), r1)"
      by (metis prod.exhaust)
    then obtain new where new: "lg1 = lg @ new" "list_all Q new"
      using assms unfolding adds_def by blast
    have "fst (parallelLanes lanes operation (w1, lg1)) = (w', lg')"
      using step first by (cases r1) auto
    then obtain r2 where "parallelLanes lanes operation (w1, lg1) = ((w', lg'), r2)"
      by (metis prod.collapse)
    then obtain more where "lg' = lg1 @ more" "list_all Q more"
      using Cons.IH unfolding adds_def by blast
    then show "\<exists>new. lg' = lg @ new \<and> list_all Q new"
      using new by (intro exI [of _ "new @ more"]) simp
  qed
qed (simp add: adds_def)

lemma logsD: "logs f m \<Longrightarrow> m (w, lg) = ((w', lg'), Inr x) \<Longrightarrow> lg' = lg @ f x"
  by (auto simp: logs_def)

lemma logs_logged: "logs (\<lambda>x. f (Inr x)) (logged f m)"
  by (auto simp: logs_def logged_def split: prod.splits)

lemma logs_give: "logs (\<lambda>x. []) (give r)"
  by (auto simp: logs_def give_def)

lemma logs_and_then: "logs f m \<Longrightarrow> (\<And>x. logs (g x) (h x)) \<Longrightarrow> (\<And>x y. f x @ g x y = k y) \<Longrightarrow> logs k (and_then m h)"
  unfolding logs_def and_then_def by (fastforce split: prod.splits sum.splits)

lemma logs_parallel:
  assumes "\<And>lane. lane \<in> set lanes \<Longrightarrow> logs (\<lambda>u. f lane) (operation lane)"
  shows "logs (\<lambda>u. concat (map f lanes)) (parallelLanes lanes operation)"
  using assms
proof (induction lanes)
  case (Cons lane lanes)
  then show ?case
    unfolding logs_def by (fastforce split: prod.splits sum.splits dest!: logsD [OF Cons.prems, of lane])
qed (simp add: logs_def)

lemma logs_list_lanes:
  assumes "\<And>lane. logs (\<lambda>x. []) (operation lane)"
  shows "logs (\<lambda>x. []) (list_lanes lanes operation found)"
proof (induction lanes arbitrary: found)
  case (Cons lane lanes)
  show ?case
    unfolding logs_def by (auto split: prod.splits sum.splits dest!: logsD [OF Cons] logsD [OF assms])
qed (simp add: logs_def)

lemma adds_list_lanes:
  assumes "\<And>lane. adds Q (operation lane)"
  shows "adds Q (list_lanes lanes operation found)"
proof (induction lanes arbitrary: found)
  case (Cons lane lanes)
  show ?case
    unfolding adds_def
  proof (intro allI impI)
    fix w lg w' lg' r
    assume step: "list_lanes (lane # lanes) operation found (w, lg) = ((w', lg'), r)"
    obtain w1 lg1 r1 where first: "operation lane (w, lg) = ((w1, lg1), r1)"
      by (metis prod.exhaust)
    then obtain new where new: "lg1 = lg @ new" "list_all Q new"
      using assms unfolding adds_def by blast
    have "\<exists>found'. fst (list_lanes lanes operation found' (w1, lg1)) = (w', lg')"
    proof (cases r1)
      case (Inr b)
      then show ?thesis
        using step first by (intro exI [of _ "AList.update lane b found"]) simp
    qed (use step first in auto)
    then obtain found' r2 where "list_lanes lanes operation found' (w1, lg1) = ((w', lg'), r2)"
      by (metis prod.collapse)
    then obtain rest where "lg' = lg1 @ rest" "list_all Q rest"
      using Cons.IH unfolding adds_def by blast
    then show "\<exists>new. lg' = lg @ new \<and> list_all Q new"
      using new by (intro exI [of _ "new @ rest"]) simp
  qed
qed (simp add: adds_def)

section \<open>No lane is opened before the rebuild\<close>

fun is_activate :: "call \<Rightarrow> bool" where
  "is_activate (CallActivate lane ok) = True"
| "is_activate _ = False"

text \<open>Either nothing was opened, or what was logged satisfies \<open>R\<close>.\<close>

definition opens :: "(call list \<Rightarrow> bool) \<Rightarrow> ('w logged, 'a) action \<Rightarrow> bool" where
  "opens R m \<longleftrightarrow> (\<forall>w lg w' lg' r. m (w, lg) = ((w', lg'), r) \<longrightarrow>
     (\<exists>new. lg' = lg @ new \<and> (list_all (\<lambda>c. \<not> is_activate c) new \<or> R new)))"

lemma opens_and_then:
  assumes "adds (\<lambda>c. \<not> is_activate c) m" and "logs f m" and "\<And>x. opens (\<lambda>new. R (f x @ new)) (g x)"
  shows "opens R (and_then m g)"
  unfolding opens_def
proof (intro allI impI)
  fix w lg w' lg' r
  assume step: "and_then m g (w, lg) = ((w', lg'), r)"
  obtain w1 lg1 r1 where first: "m (w, lg) = ((w1, lg1), r1)"
    by (metis prod.exhaust)
  then obtain new where new: "lg1 = lg @ new" "list_all (\<lambda>c. \<not> is_activate c) new"
    using assms(1) unfolding adds_def by blast
  show "\<exists>new. lg' = lg @ new \<and> (list_all (\<lambda>c. \<not> is_activate c) new \<or> R new)"
  proof (cases r1)
    case (Inl e)
    then show ?thesis
      using step first new by (auto simp: and_then_def)
  next
    case (Inr x)
    then have "new = f x"
      using logsD [OF assms(2)] first new(1) by blast
    moreover obtain rest where "lg' = lg1 @ rest" "list_all (\<lambda>c. \<not> is_activate c) rest \<or> R (f x @ rest)"
    proof -
      have "g x (w1, lg1) = ((w', lg'), r)"
        using step first Inr by (simp add: and_then_def)
      then show thesis
        using assms(3) [of x] that unfolding opens_def by blast
    qed
    ultimately show ?thesis
      using new by (intro exI [of _ "new @ rest"]) auto
  qed
qed

lemma opens_silent: "(\<And>x. opens R (g x)) \<Longrightarrow> opens R (and_then (silent m) g)"
  using logs_logged [of "\<lambda>r. []" m] by (intro opens_and_then [where f = "\<lambda>x. []"]) (simp_all add: adds_logged)

lemma opens_give: "(\<And>x. r = Inr x \<Longrightarrow> opens R (g x)) \<Longrightarrow> opens R (and_then (give r) g)"
  by (cases r) (auto simp: opens_def and_then_def give_def)

lemma opens_adds: "adds Q m \<Longrightarrow> (\<And>new. list_all Q new \<Longrightarrow> R new) \<Longrightarrow> opens R m"
  unfolding adds_def opens_def by blast

definition lane_calls :: "int \<Rightarrow> LanePlan \<Rightarrow> call list" where
  "lane_calls batch lane = CallRebuild (lp_Lane lane) True
     # map (\<lambda>b. CallGrant (lp_Lane lane) b True) (credit_batches batch (lp_Admissions lane))"

lemma logs_grant_batches:
  "logs (\<lambda>u. map (\<lambda>b. CallGrant lane b True) batches) (grant_batches (recording_store store) lease lane batches)"
proof (induction batches)
  case (Cons b batches)
  have "logs (\<lambda>u. [CallGrant lane b True]) (Grant (recording_store store) lease lane b)"
    using logs_logged [of "\<lambda>r. [CallGrant lane b (succeeded r)]"] by (simp add: recording_store_def succeeded_def)
  then show ?case
    unfolding grant_batches.simps by (rule logs_and_then) (use Cons in simp_all)
qed (simp add: logs_give)

lemma adds_grant_batches: "adds (\<lambda>c. \<not> is_activate c) (grant_batches (recording_store store) lease lane batches)"
  by (induction batches)
    (auto simp: adds_give recording_store_def intro!: adds_and_then adds_logged)

lemma logs_rebuild_lane:
  "logs (\<lambda>u. lane_calls (set_CreditGrantBatch (sch_settings s)) lane) (rebuild_lane (recording s) lease keep renew lane)"
proof -
  have rebuild: "ls_Lane state = l \<Longrightarrow> logs (\<lambda>u. [CallRebuild l True]) (RebuildLane (recording_store store) lease state a b)"
    for store state a b l
    using logs_logged [of "\<lambda>r. [CallRebuild (ls_Lane state) (succeeded r)]"] by (simp add: recording_store_def succeeded_def)
  have grants: "logs (\<lambda>u. map (\<lambda>b. CallGrant (lp_Lane lane) b True) (credit_batches (set_CreditGrantBatch (sch_settings s)) (lp_Admissions lane)))
      (and_then (give (CreditBatches (lp_Admissions lane) (set_CreditGrantBatch (sch_settings s))))
        (grant_batches (recording_store (sch_store s)) lease (lp_Lane lane)))"
    using logs_grant_batches [of "lp_Lane lane" _ "sch_store s" lease]
    by (auto simp: logs_def and_then_def give_def CreditBatches_def)
  show ?thesis
    unfolding rebuild_lane_def lane_calls_def recording_def
    by (rule logs_and_then [where f = "\<lambda>u. [CallRebuild (lp_Lane lane) True]"]) (simp_all add: rebuild grants)
qed

lemma adds_rebuild_lane: "adds (\<lambda>c. \<not> is_activate c) (rebuild_lane (recording s) lease keep renew lane)"
proof -
  have "adds (\<lambda>c. \<not> is_activate c) (RebuildLane (recording_store store) lease state a b)" for store state a b
    by (auto simp: recording_store_def intro!: adds_logged)
  then show ?thesis
    unfolding rebuild_lane_def recording_def by (auto intro!: adds_and_then adds_give adds_grant_batches)
qed

lemma recording_simps:
  "sch_store (recording s) = recording_store (sch_store s)" "sch_settings (recording s) = sch_settings s"
  "HealthyCapacity (recording s) = silent (HealthyCapacity s)"
  "LoadSchedulingSnapshot (recording s) window = silent (LoadSchedulingSnapshot s window)"
  "ids_New (recording s) = silent (ids_New s)"
  "AcquireBalancerLease (recording_store store) owner ttl = silent (AcquireBalancerLease store owner ttl)"
  "Store_BoundWindows (recording_store store) lease windows limit = silent (Store_BoundWindows store lease windows limit)"
  "ListReservations (recording_store store) lane = silent (ListReservations store lane)"
  "PauseAdmissions (recording_store store) lease lane
     = logged (\<lambda>r. [CallPause lane (succeeded r)]) (PauseAdmissions store lease lane)"
  "Activate (recording_store store) lease lane epoch
     = logged (\<lambda>r. [CallActivate lane (succeeded r)]) (Activate store lease lane epoch)"
  "AbortReservation (recording_store store) reservation restore
     = logged (\<lambda>r. [CallAbort reservation restore (succeeded r)]) (AbortReservation store reservation restore)"
  "ReserveNext (recording_store store) lane attempt ttl = logged reserved (ReserveNext store lane attempt ttl)"
  "ConfirmReservation (recording_store store) reservation ttl = silent (ConfirmReservation store reservation ttl)"
  "DispatchReady (recording s) command
     = logged (\<lambda>r. [CallDispatch (dc_AttemptID command) (succeeded r)]) (DispatchReady s command)"
  by (simp_all add: recording_def recording_store_def)

text \<open>All lanes are paused; then each lane is rebuilt and granted its whole plan; only then lanes open.\<close>

definition opened_after_rebuild :: "(int \<Rightarrow> int list) \<Rightarrow> Settings \<Rightarrow> call list \<Rightarrow> bool" where
  "opened_after_rebuild order settings new \<longleftrightarrow> (\<exists>snapshot window pools epoch plan rest.
     BuildPlan snapshot (set_LaneCount settings) window pools epoch = Inr plan
     \<and> new = map (\<lambda>lane. CallPause lane True) (order (set_LaneCount settings))
         @ concat (map (\<lambda>lane. lane_calls (set_CreditGrantBatch settings) (plan_Lanes plan ! nat lane)) (order (set_LaneCount settings)))
         @ rest
     \<and> list_all is_activate rest)"

lemma BuildPlan_lane_count: "BuildPlan snapshot n window pools epoch = Inr plan \<Longrightarrow> int (length (plan_Lanes plan)) = n"
  by (erule BuildPlan_planned) (simp add: power_of_two_def)

lemma opened_after_rebuildI:
  assumes "BuildPlan snapshot (set_LaneCount settings) window pools epoch = Inr plan" and "list_all is_activate rest"
  shows "opened_after_rebuild order settings (map (\<lambda>lane. CallPause lane True) (order (set_LaneCount settings))
    @ concat (map (\<lambda>lane. lane_calls (set_CreditGrantBatch settings) (plan_Lanes plan ! nat lane))
        (order (int (length (plan_Lanes plan))))) @ rest)"
  unfolding opened_after_rebuild_def BuildPlan_lane_count [OF assms(1)] using assms by blast

lemma Rebalance_opens: "opens (opened_after_rebuild order (sch_settings s)) (Rebalance convert order (recording s))"
proof -
  have pause: "logs (\<lambda>u. map (\<lambda>lane. CallPause lane True) lanes) (parallelLanes lanes (PauseAdmissions (recording_store store) lease))"
    for lanes store lease
  proof -
    have "logs (\<lambda>u. [CallPause lane True]) (PauseAdmissions (recording_store store) lease lane)" for lane
      using logs_logged [of "\<lambda>r. [CallPause lane (succeeded r)]"] by (simp add: recording_simps succeeded_def)
    then show ?thesis
      using logs_parallel [of lanes "\<lambda>lane. [CallPause lane True]" "PauseAdmissions (recording_store store) lease"]
      by (simp add: concat_map_singleton)
  qed
  have quiet: "adds (\<lambda>c. \<not> is_activate c) (parallelLanes lanes (PauseAdmissions (recording_store store) lease))"
      "adds (\<lambda>c. \<not> is_activate c) (list_lanes lanes (ListReservations (recording_store store)) found)"
      "logs (\<lambda>x. []) (list_lanes lanes (ListReservations (recording_store store)) found)" for lanes store lease found
    using logs_logged [of "\<lambda>r. []"]
    by (auto intro!: adds_parallel adds_list_lanes adds_logged logs_list_lanes simp: recording_simps)
  have rebuild: "adds (\<lambda>c. \<not> is_activate c) (parallelLanes lanes (\<lambda>lane. rebuild_lane (recording s) lease keep renew (f lane)))"
      "logs (\<lambda>u. concat (map (\<lambda>lane. lane_calls (set_CreditGrantBatch (sch_settings s)) (f lane)) lanes))
         (parallelLanes lanes (\<lambda>lane. rebuild_lane (recording s) lease keep renew (f lane)))" for lanes lease keep renew f
    by (auto intro!: adds_parallel adds_rebuild_lane logs_parallel logs_rebuild_lane)
  have activate: "opens R (and_then (parallelLanes lanes (\<lambda>lane. Activate (recording_store store) lease (f lane) epoch)) (\<lambda>u. give r))"
    if "\<And>new. list_all is_activate new \<Longrightarrow> R new" for lanes store lease f epoch and r :: "Plan result" and R
    by (rule opens_adds [where Q = is_activate])
      (auto intro!: adds_and_then adds_parallel adds_logged adds_give that simp: recording_simps)
  show ?thesis
    unfolding Rebalance_def Let_def recording_simps(1-7) case_prod_beta
    apply (rule opens_silent)
    apply (rule opens_and_then [OF quiet(1) pause])
    apply (rule opens_and_then [OF quiet(2,3)])
    apply (rule opens_silent)
    apply (rule opens_give)
    apply (rule opens_silent)
    apply (rule opens_silent)
    apply (rule opens_give)
    apply (rule opens_and_then [OF rebuild])
    apply (rule activate)
    apply (simp add: opened_after_rebuildI)
    done
qed

section \<open>Admission settles every reservation\<close>

text \<open>\<open>handled r new\<close>: among the calls \<open>new\<close>, the reservation was dispatched, or giving it back was tried.\<close>

definition handled :: "Reservation \<Rightarrow> call list \<Rightarrow> bool" where
  "handled r new \<longleftrightarrow> CallDispatch (rsv_AttemptID r) True \<in> set new \<or> (\<exists>restore ok. CallAbort r restore ok \<in> set new)"

definition new_reservations :: "call list \<Rightarrow> Reservation list" where
  "new_reservations new = concat (map (\<lambda>c. case c of CallReserve r \<Rightarrow> [r] | _ \<Rightarrow> []) new)"

lemma handled_append [simp]: "handled r (xs @ ys) \<longleftrightarrow> handled r xs \<or> handled r ys"
  by (auto simp: handled_def)

lemma new_reservations_simps [simp]:
  "new_reservations [] = []" "new_reservations (xs @ ys) = new_reservations xs @ new_reservations ys"
  "new_reservations (CallReserve r # cs) = r # new_reservations cs"
  "new_reservations (CallDispatch a b # cs) = new_reservations cs"
  "new_reservations (CallAbort r restore ok # cs) = new_reservations cs"
  by (auto simp: new_reservations_def concat_eq_Nil_conv)

lemma abort_each_log:
  "\<exists>w' new. abort_each (recording_store store) rs (w, lg) = (w', lg @ new) \<and> new_reservations new = []
     \<and> (\<forall>(r, b) \<in> set rs. handled r new)"
proof (induction rs arbitrary: w lg)
  case (Cons a rs)
  obtain r b where a: "a = (r, b)"
    by (cases a)
  obtain w1 ok where first: "fst (AbortReservation (recording_store store) r b (w, lg)) = (w1, lg @ [CallAbort r b ok])"
    by (cases "AbortReservation store r b w") (auto simp: recording_simps logged_def)
  obtain w' new where "abort_each (recording_store store) rs (w1, lg @ [CallAbort r b ok]) = (w', (lg @ [CallAbort r b ok]) @ new)"
      "new_reservations new = []" "\<forall>(r, b) \<in> set rs. handled r new"
    using Cons.IH by blast
  then show ?case
    using a first by (intro exI [of _ w'] exI [of _ "CallAbort r b ok # new"]) (auto simp: handled_def)
qed simp

lemma reserve_lane_log:
  "reserve_lane (recording s) lane k rs (w, lg) = ((w', lg'), out) \<Longrightarrow>
     \<exists>new. lg' = lg @ new \<and> (case out of
        Inl e \<Rightarrow> \<forall>r \<in> set rs \<union> set (new_reservations new). handled r new
      | Inr rs' \<Rightarrow> rs' = rs @ new_reservations new)"
proof (induction k arbitrary: rs w lg)
  case (Suc k)
  have abort: "\<exists>w3 aborts. abortReservations (recording s) rs True (w2, lg) = (w3, lg @ aborts) \<and> new_reservations aborts = []
      \<and> (\<forall>r \<in> set rs. handled r aborts)" for w2
    using abort_each_log [of "sch_store s" "map (\<lambda>r. (r, True)) (rev rs)" w2 lg]
    by (auto simp: abortReservations_def recording_simps(1))
  obtain w1 r1 where ids: "ids_New (recording s) (w, lg) = ((w1, lg), r1)"
    by (cases "ids_New s w") (auto simp: recording_simps logged_def)
  show ?case
  proof (cases r1)
    case (Inl e)
    then show ?thesis
      using Suc.prems ids abort [of w1] by auto
  next
    case (Inr attempt)
    obtain w2 r2 where reserve: "ReserveNext (recording_store (sch_store s)) lane attempt
        (set_ReservationTTL (sch_settings s)) (w1, lg) = ((w2, lg @ reserved r2), r2)"
      by (cases "ReserveNext (sch_store s) lane attempt (set_ReservationTTL (sch_settings s)) w1")
        (auto simp: recording_simps logged_def)
    show ?thesis
    proof (cases r2)
      case Inl2: (Inl e)
      then show ?thesis
        using Suc.prems ids Inr reserve abort [of w2] by (auto simp: recording_simps(1,2) reserved_def)
    next
      case Inr2: (Inr found)
      show ?thesis
      proof (cases found)
        case None
        then show ?thesis
          using Suc.prems ids Inr reserve Inr2
          by (intro exI [of _ "[]"]) (auto simp: recording_simps(1,2) reserved_def)
      next
        case (Some r)
        then have "reserve_lane (recording s) lane k (rs @ [r]) (w2, lg @ [CallReserve r]) = ((w', lg'), out)"
          using Suc.prems ids Inr reserve Inr2 by (simp add: recording_simps(1,2) reserved_def)
        from Suc.IH [OF this] obtain new where "lg' = (lg @ [CallReserve r]) @ new" "case out of
            Inl e \<Rightarrow> \<forall>r \<in> set (rs @ [r]) \<union> set (new_reservations new). handled r new
          | Inr rs' \<Rightarrow> rs' = (rs @ [r]) @ new_reservations new"
          by blast
        then show ?thesis
          by (intro exI [of _ "CallReserve r # new"]) (auto simp: handled_def split: sum.splits)
      qed
    qed
  qed
qed auto

lemma dispatchReservation_log:
  "dispatchReservation (recording s) r traceID (w, lg) = ((w', lg'), out) \<Longrightarrow>
     \<exists>new. lg' = lg @ new \<and> new_reservations new = [] \<and> (\<not> isl out \<longrightarrow> handled r new)"
  by (auto simp: dispatchReservation_def and_then_def recording_simps logged_def handled_def succeeded_def
      split: prod.splits sum.splits)

lemma dispatch_batch_log:
  "dispatch_batch (recording s) traceID rs tasks (w, lg) = ((w', lg'), out) \<Longrightarrow>
     \<exists>new. lg' = lg @ new \<and> new_reservations new = [] \<and> (\<forall>r \<in> set rs. handled r new)"
proof (induction rs arbitrary: tasks w lg)
  case (Cons r rs)
  obtain w1 lg1 out1 where first: "dispatchReservation (recording s) r traceID (w, lg) = ((w1, lg1), out1)"
    by (metis prod.exhaust)
  obtain new where new: "lg1 = lg @ new" "new_reservations new = []" "\<not> isl out1 \<longrightarrow> handled r new"
    using dispatchReservation_log [OF first] by blast
  show ?case
  proof (cases out1)
    case (Inl e)
    let ?aborted = "rev ((r, \<not> errors_Is e ErrCandidateStale) # map (\<lambda>r. (r, True)) rs)"
    obtain w2 aborts where aborts: "abort_each (recording_store (sch_store s)) ?aborted (w1, lg1) = (w2, lg1 @ aborts)"
        "new_reservations aborts = []" "\<forall>(r, b) \<in> set ?aborted. handled r aborts"
      using abort_each_log [of "sch_store s" ?aborted w1 lg1] by blast
    then have "lg' = lg @ new @ aborts"
      using Cons.prems first Inl new(1) by (simp add: recording_simps(1))
    then show ?thesis
      using aborts(2,3) new(2) by (intro exI [of _ "new @ aborts"]) auto
  next
    case (Inr task)
    then obtain rest where "lg' = lg1 @ rest" "new_reservations rest = []" "\<forall>r \<in> set rs. handled r rest"
      using Cons.prems first Cons.IH by fastforce
    then show ?thesis
      using new Inr by (intro exI [of _ "new @ rest"]) auto
  qed
qed simp

lemma dispatch_projects_log:
  "dispatch_projects (recording s) traceID byProject ps tasks err (w, lg) = ((w', lg'), out) \<Longrightarrow>
     \<exists>new. lg' = lg @ new \<and> new_reservations new = [] \<and> (\<forall>p \<in> set ps. \<forall>r \<in> set (slice_at byProject p). handled r new)"
proof (induction ps arbitrary: tasks err w lg)
  case (Cons p ps)
  obtain w1 lg1 out1 where first: "dispatch_batch (recording s) traceID (slice_at byProject p) [] (w, lg) = ((w1, lg1), out1)"
    by (metis prod.exhaust)
  obtain new where new: "lg1 = lg @ new" "new_reservations new = []" "\<forall>r \<in> set (slice_at byProject p). handled r new"
    using dispatch_batch_log [OF first] by blast
  obtain rest where "lg' = lg1 @ rest" "new_reservations rest = []"
      "\<forall>p \<in> set ps. \<forall>r \<in> set (slice_at byProject p). handled r rest"
    using Cons.prems first Cons.IH by (cases out1) fastforce
  then show ?case
    using new by (intro exI [of _ "new @ rest"]) auto
qed simp

lemma AdmitLane_log:
  assumes "AdmitLane order (recording s) lane limit traceID (w, lg) = ((w', lg'), out)" and "\<And>ps. set (order ps) = set ps"
  shows "\<exists>new. lg' = lg @ new \<and> (\<forall>r \<in> set (new_reservations new). handled r new)"
proof (cases "lane < 0 \<or> lane \<ge> set_LaneCount (sch_settings s) \<or> limit \<le> 0
    \<or> limit > set_CandidateBatch (sch_settings s) \<or> traceID = ''''")
  case False
  obtain w1 lg1 r1 where reserve: "reserve_lane (recording s) lane (nat limit) [] (w, lg) = ((w1, lg1), r1)"
    by (metis prod.exhaust)
  obtain new where new: "lg1 = lg @ new" "case r1 of
      Inl e \<Rightarrow> \<forall>r \<in> set [] \<union> set (new_reservations new). handled r new | Inr rs' \<Rightarrow> rs' = [] @ new_reservations new"
    using reserve_lane_log [OF reserve] by blast
  show ?thesis
  proof (cases r1)
    case (Inl e)
    then show ?thesis
      using assms(1) False reserve new by (auto simp: AdmitLane_def recording_simps(2))
  next
    case (Inr rs)
    define byProject where "byProject = fold (\<lambda>r. append_at (rsv_ProjectID r) r) rs []"
    have "dispatch_projects (recording s) traceID byProject (order (map fst byProject)) [] None (w1, lg1) = ((w', lg'), out)"
      using assms(1) False reserve Inr by (simp add: AdmitLane_def recording_simps(2) byProject_def Let_def)
    from dispatch_projects_log [OF this] obtain rest where rest: "lg' = lg1 @ rest" "new_reservations rest = []"
        "\<forall>p \<in> set (map fst byProject). \<forall>r \<in> set (slice_at byProject p). handled r rest"
      using assms(2) by blast
    have slice: "slice_at byProject p = filter (\<lambda>r. rsv_ProjectID r = p) rs" for p
      unfolding byProject_def using slice_at_fold_append [of rsv_ProjectID "\<lambda>r. r" rs "[]" p] by simp
    have "handled r rest" if "r \<in> set rs" for r
    proof -
      have "r \<in> set (slice_at byProject (rsv_ProjectID r))"
        using that by (simp add: slice)
      moreover from this have "rsv_ProjectID r \<in> set (map fst byProject)"
        unfolding map_of_fst_iff slice_at_def by (cases "map_of byProject (rsv_ProjectID r)") auto
      ultimately show ?thesis
        using rest(3) by blast
    qed
    then show ?thesis
      using new Inr rest by (intro exI [of _ "new @ rest"]) auto
  qed
qed (use assms(1) in \<open>auto simp: AdmitLane_def recording_simps(2)\<close>)

end
