(* ===== verification/Scheduling_Properties.thy ===== *)
theory Scheduling_Properties
  imports Scheduler_Laws
begin

text \<open>
  The properties of project-fair scheduling: the windows and the fairness of a plan, the order within
  a project, what a blocked candidate holds up, the order of the calls of a rebalance, and what an admission
  does with its reservations. The instances are a
  plan for two projects that share one pool and a scheduler over a store that accepts every call.
\<close>

section \<open>An instance\<close>

definition sample_candidate :: "string \<Rightarrow> string \<Rightarrow> Candidate" where
  "sample_candidate p n = \<lparr>cand_ProjectID = p, cand_RunID = ''r'', cand_NodeRunID = n, cand_ExecutionNodeID = ''x'',
     cand_StateVersion = 1, cand_Priority = 0, cand_ReadyAt = 1, cand_ResourceClass = ResourceBuiltin\<rparr>"

definition sample_demand :: AuthoritySnapshot where
  "sample_demand = \<lparr>as_Candidates = [sample_candidate ''p'' ''1'', sample_candidate ''p'' ''2'', sample_candidate ''p'' ''3'',
     sample_candidate ''q'' ''4'', sample_candidate ''q'' ''5''],
     as_Inflight = [\<lparr>infl_AttemptID = ''a'', infl_ProjectID = ''q'', infl_ResourceClass = ResourceBuiltin\<rparr>]\<rparr>"

definition sample_admission :: "string \<Rightarrow> PlannedAdmission" where
  "sample_admission p = \<lparr>pa_ProjectID = p, pa_ResourceClass = ResourceBuiltin\<rparr>"

definition sample_plan :: Plan where
  "sample_plan = (case BuildPlan sample_demand 1 4 [(ResourceBuiltin, 9)] 1 of Inr plan \<Rightarrow> plan)"

lemma sample_plan: "BuildPlan sample_demand 1 4 [(ResourceBuiltin, 9)] 1 = Inr sample_plan"
proof -
  have "\<not> isl (BuildPlan sample_demand 1 4 [(ResourceBuiltin, 9)] 1)"
    by code_simp
  then show ?thesis
    by (auto simp: sample_plan_def split: sum.splits)
qed

lemma sample_plan_admissions:
  "plan_admissions sample_plan = [sample_admission ''p'', sample_admission ''p'', sample_admission ''q'']"
  by code_simp

section \<open>Plans\<close>

text \<open>
  C23: A plan never exceeds its windows: its admissions together with the distinct attempts in flight
  stay within the global window, those of a class within the window of its pool, and a class without
  a pool gets none; the total it reports is the number of admissions in its lanes.
\<close>

theorem planner_windows:
  assumes "BuildPlan snapshot n window pools epoch = Inr plan"
  shows "plan_TotalAdmissions plan = int (length (plan_admissions plan))
    \<and> int (length (plan_admissions plan)) \<le> max 0 (window - int (length (unique_inflight {} (as_Inflight snapshot))))
    \<and> int (length (filter (\<lambda>a. pa_ResourceClass a = r) (plan_admissions plan)))
        \<le> (case map_of pools r of None \<Rightarrow> 0 | Some w \<Rightarrow> max 0 (w - inflight_of_class snapshot r))"
proof -
  obtain st where st: "planned_by snapshot n window plan st" "plan_PoolWindows plan = pools"
      "plan_TotalAdmissions plan = int (length (plan_admissions plan))"
    using BuildPlan_planned [OF assms] by blast
  then have "0 \<le> fl_remainingGlobal st" "0 \<le> int_at (fl_remainingPool st) r"
      "int (length (plan_admissions plan)) + fl_remainingGlobal st = global_room snapshot window"
      "int (length (filter (\<lambda>a. pa_ResourceClass a = r) (plan_admissions plan))) + int_at (fl_remainingPool st) r
         = class_room snapshot pools r"
    by (simp_all add: planned_by_def fits_windows_def pools_nonneg_def)
  then show ?thesis
    using st(3) unfolding global_room_def class_room_def by linarith
qed

theorem planner_windows_witness:
  "plan_TotalAdmissions sample_plan = 3 \<and> (3 :: int) \<le> max 0 (4 - int (length (unique_inflight {} (as_Inflight sample_demand))))"
  using planner_windows [OF sample_plan] sample_plan_admissions by simp

text \<open>
  C24: Plans are max-min fair and work-conserving between the heads of the queues. A project waits when the class of
  its next candidate has room left; whoever received an admission has, with its attempts in flight, at most one more
  than any waiting project, and some project waits only if the global window is used up. A project whose next
  candidate has no room left does not wait in this sense, even if a later candidate of it has.
\<close>

theorem planner_fair:
  assumes "BuildPlan snapshot n window pools epoch = Inr plan"
  shows "(0 < granted_to plan p \<and> waiting snapshot plan q \<longrightarrow>
      inflight_of_project snapshot p + int (granted_to plan p)
      \<le> inflight_of_project snapshot q + int (granted_to plan q) + 1)
    \<and> (waiting snapshot plan q \<longrightarrow> int (length (plan_admissions plan)) = global_room snapshot window)"
proof -
  obtain st where st: "planned_by snapshot n window plan st" and n: "power_of_two n"
    using BuildPlan_planned [OF assms] by blast
  have "project_queue snapshot q \<noteq> []" "eligible st q" if "waiting snapshot plan q"
    using that waiting_queue planned_waiting [OF st n] by blast+
  then show ?thesis
    using st planned_granted [OF st n] by (auto simp: planned_by_def fits_windows_def)
qed

theorem planner_fair_witness:
  "inflight_of_project sample_demand ''p'' + 2 \<le> inflight_of_project sample_demand ''q'' + 1 + 1
     \<and> int (length (plan_admissions sample_plan)) = global_room sample_demand 4"
proof -
  have "granted_to sample_plan ''p'' = 2" "granted_to sample_plan ''q'' = 1"
    by (simp_all add: granted_to_def sample_plan_admissions sample_admission_def)
  moreover have "waiting sample_demand sample_plan ''q''"
    by code_simp
  ultimately show ?thesis
    using planner_fair [OF sample_plan, of "''p''" "''q''"] by simp
qed




text \<open>
  C26: Within a project the plan respects the queue: its admissions are those of its first candidates,
  by priority, then by the time they became ready, then by identity, all in the lane of the project.
\<close>

theorem planner_order:
  assumes "BuildPlan snapshot n window pools epoch = Inr plan"
  shows "filter (\<lambda>a. pa_ProjectID a = p) (plan_admissions plan)
      = map (\<lambda>c. \<lparr>pa_ProjectID = p, pa_ResourceClass = cand_ResourceClass c\<rparr>)
          (take (granted_to plan p) (filter (\<lambda>c. cand_ProjectID c = p) (sortCandidates (as_Candidates snapshot))))
    \<and> (lane \<in> set (plan_Lanes plan) \<and> a \<in> set (lp_Admissions lane) \<longrightarrow> lp_Lane lane = lane_of n (pa_ProjectID a))"
proof -
  obtain st where st: "planned_by snapshot n window plan st" and n: "power_of_two n"
      and lanes: "plan_Lanes plan = map (\<lambda>l. lane_plan n (fl_planned st) (sortCandidates (as_Candidates snapshot))
        (as_Inflight snapshot) (int l)) [0 ..< nat n]"
    using BuildPlan_planned [OF assms] by blast
  have "lp_Lane lane = lane_of n (pa_ProjectID a)" if in_plan: "lane \<in> set (plan_Lanes plan)" and admitted: "a \<in> set (lp_Admissions lane)"
  proof -
    obtain k where "lane = lane_plan n (fl_planned st) (sortCandidates (as_Candidates snapshot)) (as_Inflight snapshot) (int k)"
      using in_plan by (auto simp: lanes)
    then have l: "lp_Lane lane = int k" "a \<in> set (slice_at (fl_planned st) (int k))"
      using admitted by (simp_all add: lane_plan_def)
    then have "filter (\<lambda>b. pa_ProjectID b = pa_ProjectID a) (slice_at (fl_planned st) (int k)) \<noteq> []"
      by (auto simp: filter_empty_conv)
    then show ?thesis
      using st l(1) by (auto simp: planned_by_def served_def split: if_splits)
  qed
  then show ?thesis
    using planned_order [OF st n, of p] planned_granted [OF st n, of p] by (simp add: project_queue_def)
qed

theorem planner_order_witness:
  "filter (\<lambda>a. pa_ProjectID a = ''p'') (plan_admissions sample_plan)
     = map (\<lambda>c. \<lparr>pa_ProjectID = ''p'', pa_ResourceClass = cand_ResourceClass c\<rparr>)
         [sample_candidate ''p'' ''1'', sample_candidate ''p'' ''2'']"
proof -
  have "granted_to sample_plan ''p'' = 2"
    by (simp add: granted_to_def sample_plan_admissions sample_admission_def)
  moreover have "take 2 (filter (\<lambda>c. cand_ProjectID c = ''p'') (sortCandidates (as_Candidates sample_demand)))
      = [sample_candidate ''p'' ''1'', sample_candidate ''p'' ''2'']"
    by code_simp
  ultimately show ?thesis
    using planner_order [OF sample_plan, of "''p''"] by simp
qed

section \<open>Calls\<close>

text \<open>
  C27: A rebalance fails closed: if it opens any lane, then before that all lanes were paused and each
  lane was rebuilt and granted the whole of its plan, every one of these calls with success.
\<close>

theorem rebalance_fail_closed:
  assumes "Rebalance convert order (recording s) (w, []) = ((w', calls), r)" and "CallActivate lane ok \<in> set calls"
  shows "\<exists>snapshot window pools epoch plan rest.
    BuildPlan snapshot (set_LaneCount (sch_settings s)) window pools epoch = Inr plan
    \<and> calls = map (\<lambda>lane. CallPause lane True) (order (set_LaneCount (sch_settings s)))
        @ concat (map (\<lambda>lane. lane_calls (set_CreditGrantBatch (sch_settings s)) (plan_Lanes plan ! nat lane))
            (order (set_LaneCount (sch_settings s))))
        @ rest
    \<and> list_all is_activate rest"
proof -
  obtain new where "calls = [] @ new"
      "list_all (\<lambda>c. \<not> is_activate c) new \<or> opened_after_rebuild order (sch_settings s) new"
    using Rebalance_opens [of order s convert] assms(1) unfolding opens_def by blast
  moreover have "\<not> list_all (\<lambda>c. \<not> is_activate c) calls"
    using assms(2) by (auto simp: list_all_iff intro!: bexI [of _ "CallActivate lane ok"])
  ultimately show ?thesis
    by (simp add: opened_after_rebuild_def)
qed

definition accepting_store :: "unit CoordinationStore" where
  "accepting_store = \<lparr>
     AcquireBalancerLease = (\<lambda>owner ttl w. (w, Inr \<lparr>lease_Owner = owner, lease_Token = ''t'', lease_FencingToken = 1, lease_ExpiresAt = 1\<rparr>)),
     Store_BoundWindows = (\<lambda>lease windows limit w. (w, Inr \<lparr>win_Global = 4, win_Pools = Some [(ResourceBuiltin, 9)]\<rparr>)),
     PauseAdmissions = (\<lambda>lease lane w. (w, Inr ())), ListReservations = (\<lambda>lane w. (w, Inr [])),
     RebuildLane = (\<lambda>lease state active ttl w. (w, Inr ())), Grant = (\<lambda>lease lane batch w. (w, Inr ())),
     Activate = (\<lambda>lease lane epoch w. (w, Inr ())),
     ReserveNext = (\<lambda>lane attempt ttl w. (w, Inr (Some \<lparr>rsv_AttemptID = attempt, rsv_ProjectID = ''p'', rsv_Lane = lane,
       rsv_ResourceClass = ResourceBuiltin, rsv_Candidate = sample_candidate ''p'' ''1'', rsv_Confirmed = False, rsv_Epoch = ''e''\<rparr>))),
     ConfirmReservation = (\<lambda>reservation ttl w. (w, Inr ())), AbortReservation = (\<lambda>reservation restore w. (w, Inr ()))\<rparr>"

definition accepting_scheduler :: "unit Scheduler" where
  "accepting_scheduler = \<lparr>sch_store = accepting_store, LoadSchedulingSnapshot = (\<lambda>window w. (w, Inr sample_demand)),
     DispatchReady = (\<lambda>command w. (w, Inl ErrCandidateStale)),
     HealthyCapacity = (\<lambda>w. (w, Inr \<lparr>cap_Pools = []\<rparr>)), ids_New = (\<lambda>w. (w, Inr ''i'')), clock_Now = (\<lambda>w. 1),
     sch_owner = ''o'', sch_settings = \<lparr>set_LaneCount = 1, set_CreditGrantBatch = 2, set_CandidateBatch = 2,
       set_AdmissionConcurrency = 1, set_Epoch = 1, set_ActiveProjectTTL = 2, set_BalancerLease = 2, set_ReservationTTL = 1,
       set_DispatchBufferFactor = Finite 1, set_CapacityChangeLimit = Finite 1\<rparr>\<rparr>"

definition in_order :: "int \<Rightarrow> int list" where
  "in_order n = map int [0 ..< nat n]"

theorem rebalance_fail_closed_witness:
  "\<exists>calls. snd (fst (Rebalance (\<lambda>x. 0) in_order (recording accepting_scheduler) ((), []))) = CallPause 0 True # calls
     \<and> CallActivate 0 True \<in> set calls"
proof -
  obtain w calls r where run: "Rebalance (\<lambda>x. 0) in_order (recording accepting_scheduler) ((), []) = ((w, calls), r)"
    by (metis prod.exhaust)
  have "list_ex (\<lambda>c. c = CallActivate 0 True)
      (snd (fst (Rebalance (\<lambda>x. 0) in_order (recording accepting_scheduler) ((), []))))"
    by code_simp
  then have active: "CallActivate 0 True \<in> set calls"
    using run by (auto simp: list_ex_iff)
  have "set_LaneCount (sch_settings accepting_scheduler) = 1" "in_order 1 = [0]"
    by code_simp+
  then obtain rest where "calls = CallPause 0 True # rest"
    using rebalance_fail_closed [OF run active] by auto
  then show ?thesis
    using active run by auto
qed

text \<open>
  C28: Admission settles what it reserved: whatever fails on the way, for every reservation that a call made, the
  attempt was dispatched with success, or the store was asked to take the reservation back, before the call returns.
  The request to take it back may fail; the code drops that error, and the reservation then stays until it expires.
\<close>

theorem admit_settles:
  assumes "AdmitLane order (recording s) lane limit traceID (w, []) = ((w', calls), out)"
    and "\<And>ps. set (order ps) = set ps" and "CallReserve r \<in> set calls"
  shows "CallDispatch (rsv_AttemptID r) True \<in> set calls \<or> (\<exists>restore ok. CallAbort r restore ok \<in> set calls)"
proof -
  obtain new where "calls = [] @ new" "\<forall>r \<in> set (new_reservations new). handled r new"
    using AdmitLane_log [OF assms(1,2)] by blast
  moreover have "r \<in> set (new_reservations calls)"
    using assms(3) unfolding new_reservations_def by force
  ultimately have "handled r calls"
    by simp
  then show ?thesis
    unfolding handled_def by blast
qed

theorem admit_settles_witness:
  "\<exists>r restore ok. CallAbort r restore ok \<in> set (snd (fst (AdmitLane (\<lambda>ps. ps) (recording accepting_scheduler) 0 1 ''t'' ((), []))))"
proof -
  let ?r = "\<lparr>rsv_AttemptID = ''i'', rsv_ProjectID = ''p'', rsv_Lane = 0,
       rsv_ResourceClass = ResourceBuiltin, rsv_Candidate = sample_candidate ''p'' ''1'', rsv_Confirmed = False, rsv_Epoch = ''e''\<rparr>"
  obtain w calls out where run: "AdmitLane (\<lambda>ps. ps) (recording accepting_scheduler) 0 1 ''t'' ((), []) = ((w, calls), out)"
    by (metis prod.exhaust)
  have "list_ex (\<lambda>c. c = CallReserve ?r) (snd (fst (AdmitLane (\<lambda>ps. ps) (recording accepting_scheduler) 0 1 ''t'' ((), []))))"
      "\<not> list_ex (\<lambda>c. c = CallDispatch ''i'' True) (snd (fst (AdmitLane (\<lambda>ps. ps) (recording accepting_scheduler) 0 1 ''t'' ((), []))))"
    by code_simp+
  then show ?thesis
    using admit_settles [OF run, of ?r] run by (auto simp: list_ex_iff)
qed

section \<open>Settings\<close>

text \<open>
  C29: The checks on the dispatch factor and on the change limit let not-a-number through: valid
  settings stay valid when both are replaced by it.
\<close>

theorem settings_accept_nan:
  assumes "Settings_Validate settings = None"
  shows "Settings_Validate (settings\<lparr>set_DispatchBufferFactor := NaN, set_CapacityChangeLimit := NaN\<rparr>) = None"
  using assms by (simp add: Settings_Validate_def split: if_splits)

theorem settings_accept_nan_witness:
  "Settings_Validate ((sch_settings accepting_scheduler)\<lparr>set_DispatchBufferFactor := NaN, set_CapacityChangeLimit := NaN\<rparr>) = None"
proof (rule settings_accept_nan)
  show "Settings_Validate (sch_settings accepting_scheduler) = None"
    by code_simp
qed

end
