(* ===== verification/Ir_Model.thy ===== *)
theory Ir_Model
  imports Dsl_Validator
begin

text \<open>
  The author's representation of a workflow, \<^verbatim>\<open>internal/ir\<close>: the document (\<^verbatim>\<open>model.go\<close>), its
  identifiers (\<^verbatim>\<open>id.go\<close>), the paths into it (\<^verbatim>\<open>path.go\<close>), data types of literals (\<^verbatim>\<open>types.go\<close>), the
  diagnostics every check reports (\<^verbatim>\<open>diagnostic.go\<close>) and the validator (\<^verbatim>\<open>validator.go\<close>).

  A slice or map that may be nil is an option; \<open>entries\<close> reads it, nil being empty. The types
  \<^verbatim>\<open>ir.DataType\<close> and \<^verbatim>\<open>dsl.DataType\<close> have the same constants and are one datatype. The text of an error
  of the JSON decoder is a parameter, \<open>decode_error\<close>.
\<close>

section \<open>Documents\<close>

type_synonym LogicalID = string
type_synonym NodeType = string

datatype InputSource = SourceLiteral | SourceRef | OtherSource string

fun InputSource_Valid :: "InputSource \<Rightarrow> bool" where
  "InputSource_Valid (OtherSource s) = False"
| "InputSource_Valid _ = True"

record IrInput =
  iri_Name :: PortName
  iri_DataType :: DataType
  iri_Source :: InputSource
  iri_Value :: "raw_message option"
  iri_RefNode :: LogicalID
  iri_RefOutput :: PortName

definition HasValue :: "IrInput \<Rightarrow> bool" where
  "HasValue i = (iri_Value i \<noteq> None)"

record IrOutput =
  iro_Name :: PortName
  iro_DataType :: DataType

record IrNode =
  irn_ID :: LogicalID
  irn_Type :: NodeType
  irn_Title :: string
  irn_Inputs :: "IrInput list option"
  irn_Outputs :: "IrOutput list option"

record IrEdge =
  ire_ID :: LogicalID
  ire_Source :: LogicalID
  ire_Target :: LogicalID
  ire_Route :: RouteName

record Position =
  pos_X :: "string option"
  pos_Y :: "string option"

record IrDocument =
  ird_IRVersion :: string
  ird_Nodes :: "IrNode list"
  ird_Edges :: "IrEdge list"
  ird_Layout :: "(LogicalID, Position) gomap"

definition zero_IrNode :: IrNode where
  "zero_IrNode = \<lparr>irn_ID = '''', irn_Type = '''', irn_Title = '''', irn_Inputs = None, irn_Outputs = None\<rparr>"

definition inputs_of :: "IrNode \<Rightarrow> IrInput list" where
  "inputs_of node = (case irn_Inputs node of None \<Rightarrow> [] | Some xs \<Rightarrow> xs)"

definition outputs_of :: "IrNode \<Rightarrow> IrOutput list" where
  "outputs_of node = (case irn_Outputs node of None \<Rightarrow> [] | Some xs \<Rightarrow> xs)"

section \<open>Identifiers\<close>

text \<open>The anchored patterns of \<^verbatim>\<open>id.go\<close>: a first character, and up to \<open>n\<close> characters after it.\<close>

definition matches_id :: "(char \<Rightarrow> bool) \<Rightarrow> (char \<Rightarrow> bool) \<Rightarrow> nat \<Rightarrow> string \<Rightarrow> bool" where
  "matches_id first rest n s = (case s of [] \<Rightarrow> False | c # cs \<Rightarrow> first c \<and> list_all rest cs \<and> length cs \<le> n)"

definition is_lower :: "char \<Rightarrow> bool" where
  "is_lower c = (CHR ''a'' \<le> c \<and> c \<le> CHR ''z'')"

definition is_upper :: "char \<Rightarrow> bool" where
  "is_upper c = (CHR ''A'' \<le> c \<and> c \<le> CHR ''Z'')"

definition is_decimal :: "char \<Rightarrow> bool" where
  "is_decimal c = (CHR ''0'' \<le> c \<and> c \<le> CHR ''9'')"

definition is_alnum :: "char \<Rightarrow> bool" where
  "is_alnum c = (is_lower c \<or> is_upper c \<or> is_decimal c)"

definition ValidLogicalID :: "LogicalID \<Rightarrow> bool" where
  "ValidLogicalID = matches_id is_alnum (\<lambda>c. is_alnum c \<or> c = CHR ''_'' \<or> c = CHR ''-'') 127"

definition ValidPortName :: "PortName \<Rightarrow> bool" where
  "ValidPortName = matches_id (\<lambda>c. is_lower c \<or> is_upper c) (\<lambda>c. is_alnum c \<or> c = CHR ''_'') 63"

definition ValidRouteName :: "RouteName \<Rightarrow> bool" where
  "ValidRouteName = matches_id (\<lambda>c. is_lower c \<or> is_upper c) (\<lambda>c. is_alnum c \<or> c = CHR ''_'') 63"

definition ValidNodeType :: "NodeType \<Rightarrow> bool" where
  "ValidNodeType = matches_id is_lower (\<lambda>c. is_lower c \<or> is_decimal c \<or> c = CHR ''_'') 63"

section \<open>Paths\<close>

definition replace_char :: "char \<Rightarrow> string \<Rightarrow> string \<Rightarrow> string" where
  "replace_char old new s = concat (map (\<lambda>c. if c = old then new else [c]) s)"

definition pointerToken :: "string \<Rightarrow> string" where
  "pointerToken s = replace_char (CHR ''/'') ''~1'' (replace_char (CHR ''~'') ''~0'' s)"

definition NodePath :: "LogicalID \<Rightarrow> nat \<Rightarrow> string" where
  "NodePath v index = (if v = '''' then ''/nodes/'' @ show_nat index else ''/nodes/'' @ pointerToken v)"

definition InputPath :: "LogicalID \<Rightarrow> nat \<Rightarrow> PortName \<Rightarrow> nat \<Rightarrow> string" where
  "InputPath nodeID nodeIndex name inputIndex = NodePath nodeID nodeIndex @ ''/inputs/''
     @ (if name = '''' then show_nat inputIndex else pointerToken name)"

definition OutputPath :: "LogicalID \<Rightarrow> nat \<Rightarrow> PortName \<Rightarrow> nat \<Rightarrow> string" where
  "OutputPath nodeID nodeIndex name outputIndex = NodePath nodeID nodeIndex @ ''/outputs/''
     @ (if name = '''' then show_nat outputIndex else pointerToken name)"

definition EdgePath :: "LogicalID \<Rightarrow> nat \<Rightarrow> string" where
  "EdgePath v index = (if v = '''' then ''/edges/'' @ show_nat index else ''/edges/'' @ pointerToken v)"

section \<open>Diagnostics\<close>

datatype Severity = SeverityError | SeverityWarning | OtherSeverity string

datatype Phase =
    PhaseParse | PhaseStructure | PhaseCatalog | PhaseReference | PhaseGraph | PhaseBinding
  | PhaseResource | PhaseCompile | PhaseDSL | PhaseSourceMap | PhaseCanonical | OtherPhase string

record Location =
  loc_LogicalNodeID :: LogicalID
  loc_LogicalEdgeID :: LogicalID
  loc_IRPath :: string

datatype detail = Text string | Count nat

record Diagnostic =
  diag_Code :: string
  diag_Severity :: Severity
  diag_Phase :: Phase
  diag_Message :: string
  diag_Locations :: "Location list"
  diag_Details :: "(string, detail) gomap option"

definition zero_Location :: Location where
  "zero_Location = \<lparr>loc_LogicalNodeID = '''', loc_LogicalEdgeID = '''', loc_IRPath = ''''\<rparr>"

definition MaxDiagnostics :: nat where
  "MaxDiagnostics = 100"

definition ErrorDiagnostic :: "Phase \<Rightarrow> string \<Rightarrow> string \<Rightarrow> Location \<Rightarrow> Diagnostic" where
  "ErrorDiagnostic phase code message location =
     \<lparr>diag_Code = code, diag_Severity = SeverityError, diag_Phase = phase, diag_Message = message,
      diag_Locations = (if location = zero_Location then [] else [location]), diag_Details = None\<rparr>"

fun phaseSortKey :: "Phase \<Rightarrow> string" where
  "phaseSortKey PhaseParse = ''0''"
| "phaseSortKey PhaseStructure = ''1''"
| "phaseSortKey PhaseCatalog = ''2''"
| "phaseSortKey PhaseReference = ''3''"
| "phaseSortKey PhaseGraph = ''4''"
| "phaseSortKey PhaseBinding = ''5''"
| "phaseSortKey PhaseResource = ''6''"
| "phaseSortKey PhaseCompile = ''7''"
| "phaseSortKey PhaseDSL = ''8''"
| "phaseSortKey PhaseSourceMap = ''9''"
| "phaseSortKey PhaseCanonical = ''a''"
| "phaseSortKey (OtherPhase p) = ''z'' @ p"

definition diagnosticKey :: "Diagnostic \<Rightarrow> string" where
  "diagnosticKey d =
     (let severity = (if diag_Severity d = SeverityError then ''0'' else ''1'');
          location = (case diag_Locations d of [] \<Rightarrow> zero_Location | l # ls \<Rightarrow> l); nul = [CHR 0x00]
      in severity @ nul @ phaseSortKey (diag_Phase d) @ nul @ loc_IRPath location @ nul
         @ loc_LogicalNodeID location @ nul @ loc_LogicalEdgeID location @ nul @ diag_Code d)"

definition SortDiagnostics :: "Diagnostic list \<Rightarrow> Diagnostic list" where
  "SortDiagnostics ds = sort_key diagnosticKey ds"

definition HasErrors :: "Diagnostic list \<Rightarrow> bool" where
  "HasErrors ds = list_ex (\<lambda>d. diag_Severity d = SeverityError) ds"

definition LimitDiagnostics :: "Diagnostic list \<Rightarrow> Diagnostic list" where
  "LimitDiagnostics ds =
     (if length ds \<le> MaxDiagnostics then ds
      else take (MaxDiagnostics - 1) ds @
        [\<lparr>diag_Code = ''DIAGNOSTIC_LIMIT_REACHED'', diag_Severity = SeverityWarning, diag_Phase = PhaseStructure,
          diag_Message = ''additional diagnostics were omitted'', diag_Locations = [],
          diag_Details = Some [(''omitted'', Count (length ds - (MaxDiagnostics - 1)))]\<rparr>])"

text \<open>The location of a node, an edge, a field of one.\<close>

definition node_at :: "LogicalID \<Rightarrow> string \<Rightarrow> Location" where
  "node_at v path = \<lparr>loc_LogicalNodeID = v, loc_LogicalEdgeID = '''', loc_IRPath = path\<rparr>"

definition edge_at :: "LogicalID \<Rightarrow> string \<Rightarrow> Location" where
  "edge_at v path = \<lparr>loc_LogicalNodeID = '''', loc_LogicalEdgeID = v, loc_IRPath = path\<rparr>"

definition trim_slash :: "string \<Rightarrow> string" where
  "trim_slash s = (if s \<noteq> [] \<and> last s = CHR ''/'' then butlast s else s)"

definition withField :: "Location \<Rightarrow> string \<Rightarrow> Location" where
  "withField location field = location\<lparr>loc_IRPath := trim_slash (loc_IRPath location) @ ''/'' @ field\<rparr>"

definition diag_when :: "bool \<Rightarrow> Diagnostic \<Rightarrow> Diagnostic list" where
  "diag_when b d = (if b then [d] else [])"

lemma diag_when_empty [simp]: "diag_when b d = [] \<longleftrightarrow> \<not> b"
  by (simp add: diag_when_def)

text \<open>A report of errors keeps an error when it is sorted and cut off.\<close>

lemma HasErrors_append [simp]: "HasErrors (xs @ ys) = (HasErrors xs \<or> HasErrors ys)"
  by (simp add: HasErrors_def)

lemma HasErrors_simps [simp]: "\<not> HasErrors []" "HasErrors (d # ds) = (diag_Severity d = SeverityError \<or> HasErrors ds)"
  by (simp_all add: HasErrors_def)

lemma HasErrors_iff: "HasErrors ds \<longleftrightarrow> (\<exists>d \<in> set ds. diag_Severity d = SeverityError)"
  by (simp add: HasErrors_def list_ex_iff)

lemma HasErrors_concat: "HasErrors (concat (map f xs)) \<longleftrightarrow> (\<exists>x \<in> set xs. HasErrors (f x))"
  by (auto simp: HasErrors_iff)

lemma HasErrors_when [simp]: "HasErrors (diag_when b d) = (b \<and> diag_Severity d = SeverityError)"
  by (simp add: diag_when_def)

lemma severity_ErrorDiagnostic [simp]: "diag_Severity (ErrorDiagnostic phase code message location) = SeverityError"
  by (simp add: ErrorDiagnostic_def)

lemma error_key_less:
  assumes "diag_Severity d = SeverityError" and "diag_Severity e \<noteq> SeverityError"
  shows "diagnosticKey d < diagnosticKey e"
  using assms by (simp add: diagnosticKey_def Let_def)

lemma sorted_head_error:
  assumes "sorted (map diagnosticKey (e # es))" and "HasErrors (e # es)"
  shows "diag_Severity e = SeverityError"
proof (rule ccontr)
  assume e: "diag_Severity e \<noteq> SeverityError"
  then obtain d where d: "d \<in> set es" "diag_Severity d = SeverityError"
    using assms(2) by (auto simp: HasErrors_iff)
  then have "diagnosticKey e \<le> diagnosticKey d"
    using assms(1) by simp
  then show False
    using error_key_less [OF d(2) e] by simp
qed

lemma HasErrors_limit [simp]: "HasErrors (LimitDiagnostics (SortDiagnostics ds)) = HasErrors ds"
proof (cases "length ds \<le> MaxDiagnostics")
  case True
  then show ?thesis
    by (simp add: LimitDiagnostics_def SortDiagnostics_def HasErrors_iff)
next
  case False
  obtain e es where s: "sort_key diagnosticKey ds = e # es"
    using False by (cases "sort_key diagnosticKey ds") (auto simp: MaxDiagnostics_def dest: arg_cong [where f = length])
  have "sorted (map diagnosticKey (e # es))"
    using sorted_sort_key [of diagnosticKey ds] s by simp
  moreover have same: "HasErrors (e # es) = HasErrors ds"
    using set_sort [of diagnosticKey ds] s by (metis HasErrors_iff)
  ultimately have "HasErrors ds \<longleftrightarrow> diag_Severity e = SeverityError"
    using sorted_head_error by (auto simp: HasErrors_iff)
  moreover have "HasErrors (take 98 es) \<Longrightarrow> HasErrors es"
    by (meson HasErrors_iff in_set_takeD)
  ultimately show ?thesis
    using False same s by (auto simp: LimitDiagnostics_def SortDiagnostics_def MaxDiagnostics_def take_Cons')
qed

section \<open>Literals\<close>

definition SafeInteger :: "string \<Rightarrow> bool" where
  "SafeInteger raw = (case rat_of_literal raw of
     None \<Rightarrow> False | Some q \<Rightarrow> rat_is_int q \<and> - 9007199254740991 \<le> q \<and> q \<le> 9007199254740991)"

definition mathematicallyIntegral :: "string \<Rightarrow> bool" where
  "mathematicallyIntegral raw = (case rat_of_literal raw of None \<Rightarrow> False | Some q \<Rightarrow> rat_is_int q)"

text \<open>
  \<^verbatim>\<open>DecodeLiteral\<close>: a missing value, a text that does not start with a JSON value, a text that goes on after
  it, and null are errors.
\<close>

definition DecodeLiteral :: "(raw_message \<Rightarrow> string) \<Rightarrow> raw_message option \<Rightarrow> (json \<times> DataType) result" where
  "DecodeLiteral decode_error raw =
     (case raw of
        None \<Rightarrow> Inl (Errorf ''literal value is missing'')
      | Some text \<Rightarrow>
          if decode_first text = None then Inl (Errorf (decode_error text))
          else case parse_text text of
              None \<Rightarrow> Inl (Errorf ''literal contains trailing JSON'')
            | Some JNull \<Rightarrow> Inl (Errorf ''top-level null is not a supported IR type'')
            | Some (JString s) \<Rightarrow> Inr (JString s, TypeString)
            | Some (JBool b) \<Rightarrow> Inr (JBool b, TypeBoolean)
            | Some (JArray vs) \<Rightarrow> Inr (JArray vs, TypeArray)
            | Some (JObject ms) \<Rightarrow> Inr (JObject ms, TypeObject)
            | Some (JNumber n) \<Rightarrow> Inr (JNumber n, if mathematicallyIntegral n then TypeInteger else TypeNumber))"

section \<open>Validation\<close>

definition MaxNodesPerDocument :: int where
  "MaxNodesPerDocument = 10000"

definition MaxEdgesPerDocument :: int where
  "MaxEdgesPerDocument = 10000"

definition MaxPortsPerNode :: int where
  "MaxPortsPerNode = 128"

definition MaxNodeTitleBytes :: int where
  "MaxNodeTitleBytes = 256"

text \<open>The interface \<^verbatim>\<open>NodeContractValidator\<close> has one method; a nil validator is \<^term>\<open>None\<close>.\<close>

type_synonym NodeContractValidator = "IrNode \<Rightarrow> Diagnostic list"

record IrValidator =
  irv_nodeContracts :: "NodeContractValidator option"

definition NewStrictValidator :: "NodeContractValidator option \<Rightarrow> IrValidator result" where
  "NewStrictValidator nodeContracts =
     (if nodeContracts = None then Inl (Panic ''strict IR validator requires a node catalog'')
      else Inr \<lparr>irv_nodeContracts = nodeContracts\<rparr>)"

definition NewStructuralValidator :: IrValidator where
  "NewStructuralValidator = \<lparr>irv_nodeContracts = None\<rparr>"

definition structure_error :: "string \<Rightarrow> string \<Rightarrow> Location \<Rightarrow> Diagnostic" where
  "structure_error code message location = ErrorDiagnostic PhaseStructure code message location"

definition reference_error :: "string \<Rightarrow> string \<Rightarrow> Location \<Rightarrow> Diagnostic" where
  "reference_error code message location = ErrorDiagnostic PhaseReference code message location"

definition validateInputSource :: "IrInput \<Rightarrow> Location \<Rightarrow> Diagnostic list" where
  "validateInputSource i location =
     (if \<not> InputSource_Valid (iri_Source i) then
        [structure_error ''INPUT_SOURCE_INVALID'' ''input source must be literal or ref'' (withField location ''source'')]
      else if (iri_Source i = SourceLiteral \<and> HasValue i \<and> iri_RefNode i = '''' \<and> iri_RefOutput i = '''')
           \<or> (iri_Source i = SourceRef \<and> \<not> HasValue i \<and> iri_RefNode i \<noteq> '''' \<and> iri_RefOutput i \<noteq> '''') then
        diag_when (iri_Source i = SourceRef \<and> (\<not> ValidLogicalID (iri_RefNode i) \<or> \<not> ValidPortName (iri_RefOutput i)))
          (structure_error ''INPUT_REF_ID_INVALID'' ''ref_node and ref_output must be valid author identifiers'' location)
      else [structure_error ''INPUT_SOURCE_FIELDS_INVALID'' ''literal and ref fields are mutually exclusive'' location])"

definition validateLiteral :: "(raw_message \<Rightarrow> string) \<Rightarrow> IrInput \<Rightarrow> Location \<Rightarrow> Diagnostic list" where
  "validateLiteral decode_error i location =
     (case DecodeLiteral decode_error (iri_Value i) of
        Inl e \<Rightarrow> [structure_error ''LITERAL_INVALID'' (error_text e) (withField location ''value'')]
      | Inr (v, actual) \<Rightarrow>
          if iri_DataType i = TypeInteger \<and> actual = TypeInteger \<and> (case v of JNumber n \<Rightarrow> \<not> SafeInteger n | _ \<Rightarrow> False) then
            [structure_error ''INTEGER_OUT_OF_RANGE'' ''integer exceeds the JavaScript safe integer range'' (withField location ''value'')]
          else diag_when (\<not> compatible actual (iri_DataType i))
            ((structure_error ''LITERAL_TYPE_MISMATCH'' ''literal value does not match data_type'' (withField location ''value''))
              \<lparr>diag_Details := Some [(''expected'', Text (DataType_text (iri_DataType i))), (''actual'', Text (DataType_text actual))]\<rparr>))"

fun utf8_valid_fuel :: "nat \<Rightarrow> string \<Rightarrow> bool" where
  "utf8_valid_fuel 0 s = (s = [])"
| "utf8_valid_fuel (Suc fuel) s =
     (s = [] \<or> (let n = utf8_size (map of_char s) in n \<noteq> 0 \<and> utf8_valid_fuel fuel (drop n s)))"

definition utf8_ValidString :: "string \<Rightarrow> bool" where
  "utf8_ValidString s = utf8_valid_fuel (length s) s"

definition input_diagnostics :: "(raw_message \<Rightarrow> string) \<Rightarrow> IrNode \<Rightarrow> nat \<Rightarrow> nat \<times> IrInput \<Rightarrow> Diagnostic list" where
  "input_diagnostics decode_error node index = (\<lambda>(inputIndex, i).
     (let location = node_at (irn_ID node) (InputPath (irn_ID node) index (iri_Name i) inputIndex) in
      diag_when (\<not> ValidPortName (iri_Name i))
        (structure_error ''INPUT_NAME_INVALID'' ''input name must be a safe identifier up to 64 bytes'' location)
      @ diag_when (iri_Name i \<in> iri_Name ` set (take inputIndex (inputs_of node)))
          (structure_error ''INPUT_NAME_DUPLICATE'' ''input name must be unique within a node'' location)
      @ diag_when (\<not> DataType_Valid (iri_DataType i))
          (structure_error ''INPUT_DATA_TYPE_INVALID'' ''input data_type is unsupported'' (withField location ''data_type''))
      @ validateInputSource i location
      @ (if iri_Source i = SourceLiteral \<and> HasValue i \<and> DataType_Valid (iri_DataType i)
         then validateLiteral decode_error i location else [])))"

definition output_diagnostics :: "IrNode \<Rightarrow> nat \<Rightarrow> nat \<times> IrOutput \<Rightarrow> Diagnostic list" where
  "output_diagnostics node index = (\<lambda>(outputIndex, out).
     (let location = node_at (irn_ID node) (OutputPath (irn_ID node) index (iro_Name out) outputIndex) in
      diag_when (\<not> ValidPortName (iro_Name out))
        (structure_error ''OUTPUT_NAME_INVALID'' ''output name must be a safe identifier up to 64 bytes'' location)
      @ diag_when (iro_Name out \<in> iro_Name ` set (take outputIndex (outputs_of node)))
          (structure_error ''OUTPUT_NAME_DUPLICATE'' ''output name must be unique within a node'' location)
      @ diag_when (\<not> DataType_Valid (iro_DataType out))
          (structure_error ''OUTPUT_DATA_TYPE_INVALID'' ''output data_type is unsupported'' (withField location ''data_type''))))"

definition node_diagnostics ::
  "(raw_message \<Rightarrow> string) \<Rightarrow> IrValidator \<Rightarrow> IrDocument \<Rightarrow> nat \<times> IrNode \<Rightarrow> Diagnostic list" where
  "node_diagnostics decode_error v document = (\<lambda>(index, node).
     (let location = node_at (irn_ID node) (NodePath (irn_ID node) index) in
      diag_when (\<not> ValidLogicalID (irn_ID node))
        (structure_error ''LOGICAL_NODE_ID_INVALID'' ''node id must be 1-128 safe ASCII characters'' location)
      @ diag_when (irn_ID node \<in> irn_ID ` set (take index (ird_Nodes document)))
          (structure_error ''NODE_ID_DUPLICATE'' ''node id must be unique within the IR'' location)
      @ diag_when (\<not> ValidNodeType (irn_Type node))
          (structure_error ''NODE_TYPE_INVALID'' ''node type is invalid'' (withField location ''type''))
      @ diag_when (trim_space_left (irn_Title node) = '''' \<or> \<not> utf8_ValidString (irn_Title node)
            \<or> int (length (irn_Title node)) > MaxNodeTitleBytes)
          (structure_error ''NODE_TITLE_INVALID'' ''node title must be non-empty valid UTF-8 up to 256 bytes'' (withField location ''title''))
      @ diag_when (irn_Inputs node = None)
          (structure_error ''NODE_INPUTS_REQUIRED'' ''node inputs must be an array'' (withField location ''inputs''))
      @ diag_when (irn_Outputs node = None)
          (structure_error ''NODE_OUTPUTS_REQUIRED'' ''node outputs must be an array'' (withField location ''outputs''))
      @ diag_when (int (length (inputs_of node)) > MaxPortsPerNode)
          (structure_error ''INPUT_LIMIT_EXCEEDED'' ''node contains too many inputs'' (withField location ''inputs''))
      @ diag_when (int (length (outputs_of node)) > MaxPortsPerNode)
          (structure_error ''OUTPUT_LIMIT_EXCEEDED'' ''node contains too many outputs'' (withField location ''outputs''))
      @ concat (map (input_diagnostics decode_error node index) (enumerate 0 (inputs_of node)))
      @ concat (map (output_diagnostics node index) (enumerate 0 (outputs_of node)))
      @ (case irv_nodeContracts v of None \<Rightarrow> [] | Some ValidateNode \<Rightarrow> ValidateNode node)))"

text \<open>The map \<^verbatim>\<open>nodes\<close> keeps the first node of an identity; \<^verbatim>\<open>outputs\<close> keeps the last, as do its inner maps.\<close>

definition first_nodes :: "IrDocument \<Rightarrow> (LogicalID \<times> IrNode) list" where
  "first_nodes document = map (\<lambda>node. (irn_ID node, node)) (ird_Nodes document)"

definition output_types :: "IrDocument \<Rightarrow> LogicalID \<Rightarrow> (PortName \<rightharpoonup> DataType) option" where
  "output_types document v =
     map_option (\<lambda>node. map_of (rev (map (\<lambda>out. (iro_Name out, iro_DataType out)) (outputs_of node))))
       (map_of (rev (first_nodes document)) v)"

definition edge_diagnostics :: "IrDocument \<Rightarrow> nat \<times> IrEdge \<Rightarrow> Diagnostic list" where
  "edge_diagnostics document = (\<lambda>(index, edge).
     (let location = edge_at (ire_ID edge) (EdgePath (ire_ID edge) index);
          source = map_of (first_nodes document) (ire_Source edge) in
      diag_when (\<not> ValidLogicalID (ire_ID edge))
        (structure_error ''LOGICAL_EDGE_ID_INVALID'' ''edge id must be 1-128 safe ASCII characters'' location)
      @ diag_when (ire_ID edge \<in> ire_ID ` set (take index (ird_Edges document)))
          (structure_error ''EDGE_ID_DUPLICATE'' ''edge id must be unique within the IR'' location)
      @ diag_when (\<not> ValidLogicalID (ire_Source edge))
          (structure_error ''EDGE_SOURCE_ID_INVALID'' ''edge source must be a valid logical node id'' (withField location ''source''))
      @ diag_when (\<not> ValidLogicalID (ire_Target edge))
          (structure_error ''EDGE_TARGET_ID_INVALID'' ''edge target must be a valid logical node id'' (withField location ''target''))
      @ diag_when (source = None)
          (reference_error ''EDGE_SOURCE_NOT_FOUND'' ''edge source node does not exist'' (withField location ''source''))
      @ diag_when (map_of (first_nodes document) (ire_Target edge) = None)
          (reference_error ''EDGE_TARGET_NOT_FOUND'' ''edge target node does not exist'' (withField location ''target''))
      @ (if (case source of None \<Rightarrow> False | Some node \<Rightarrow> irn_Type node = ''branch'') then
           diag_when (\<not> ValidRouteName (ire_Route edge))
             (structure_error ''BRANCH_EDGE_ROUTE_REQUIRED'' ''branch edge must contain a valid route'' (withField location ''route''))
         else diag_when (ire_Route edge \<noteq> '''')
             (structure_error ''EDGE_ROUTE_FORBIDDEN'' ''route is only allowed on branch edges'' (withField location ''route'')))))"

definition layout_diagnostics :: "IrDocument \<Rightarrow> LogicalID \<times> Position \<Rightarrow> Diagnostic list" where
  "layout_diagnostics document = (\<lambda>(v, position).
     (let location = node_at v (''/layout/'' @ pointerToken v) in
      diag_when (\<not> ValidLogicalID v)
        (structure_error ''LAYOUT_NODE_ID_INVALID'' ''layout key must be a valid logical node id'' location)
      @ diag_when (map_of (first_nodes document) v = None)
          (reference_error ''LAYOUT_NODE_NOT_FOUND'' ''layout key does not reference an existing node'' location)
      @ diag_when (pos_X position = None \<or> pos_Y position = None)
          (structure_error ''LAYOUT_POSITION_INVALID'' ''layout position requires numeric x and y'' location)))"

definition missing_layout :: "IrDocument \<Rightarrow> nat \<times> IrNode \<Rightarrow> Diagnostic list" where
  "missing_layout document = (\<lambda>(index, node).
     diag_when (irn_ID node \<notin> irn_ID ` set (take index (ird_Nodes document)) \<and> map_of (ird_Layout document) (irn_ID node) = None)
       (reference_error ''LAYOUT_POSITION_MISSING'' ''every node requires a shared layout position''
          (node_at (irn_ID node) (NodePath (irn_ID node) index))))"

definition ref_diagnostics :: "IrDocument \<Rightarrow> nat \<Rightarrow> IrNode \<Rightarrow> nat \<times> IrInput \<Rightarrow> Diagnostic list" where
  "ref_diagnostics document nodeIndex node = (\<lambda>(inputIndex, i).
     (if iri_Source i \<noteq> SourceRef then []
      else let location = node_at (irn_ID node) (InputPath (irn_ID node) nodeIndex (iri_Name i) inputIndex) in
        case output_types document (iri_RefNode i) of
          None \<Rightarrow> [reference_error ''REF_NODE_NOT_FOUND'' ''referenced node does not exist'' (withField location ''ref_node'')]
        | Some outputs \<Rightarrow>
            (case outputs (iri_RefOutput i) of
               None \<Rightarrow> [reference_error ''REF_OUTPUT_NOT_FOUND'' ''referenced output does not exist'' (withField location ''ref_output'')]
             | Some sourceType \<Rightarrow>
                 diag_when (DataType_Valid (iri_DataType i) \<and> DataType_Valid sourceType \<and> \<not> compatible sourceType (iri_DataType i))
                   ((reference_error ''REF_TYPE_MISMATCH'' ''referenced output type is incompatible with input type'' (withField location ''data_type''))
                     \<lparr>diag_Details := Some [(''source'', Text (DataType_text sourceType)), (''target'', Text (DataType_text (iri_DataType i)))]\<rparr>))))"

definition Ir_Validate :: "(raw_message \<Rightarrow> string) \<Rightarrow> IrValidator \<Rightarrow> IrDocument \<Rightarrow> Diagnostic list" where
  "Ir_Validate decode_error v document = LimitDiagnostics (SortDiagnostics
     (diag_when (ird_IRVersion document \<noteq> ''1'')
        (structure_error ''IR_VERSION_UNSUPPORTED'' ''ir_version must be 1'' (node_at '''' ''/ir_version''))
      @ diag_when (ird_Nodes document = [])
          (structure_error ''IR_NODES_REQUIRED'' ''strict validation requires at least one node'' (node_at '''' ''/nodes''))
      @ diag_when (int (length (ird_Nodes document)) > MaxNodesPerDocument)
          (structure_error ''NODE_LIMIT_EXCEEDED'' ''IR contains too many nodes'' (node_at '''' ''/nodes''))
      @ diag_when (int (length (ird_Edges document)) > MaxEdgesPerDocument)
          (structure_error ''EDGE_LIMIT_EXCEEDED'' ''IR contains too many edges'' (node_at '''' ''/edges''))
      @ concat (map (node_diagnostics decode_error v document) (enumerate 0 (ird_Nodes document)))
      @ concat (map (edge_diagnostics document) (enumerate 0 (ird_Edges document)))
      @ concat (map (layout_diagnostics document) (ird_Layout document))
      @ concat (map (missing_layout document) (enumerate 0 (ird_Nodes document)))
      @ concat (map (\<lambda>(nodeIndex, node). concat (map (ref_diagnostics document nodeIndex node) (enumerate 0 (inputs_of node))))
          (enumerate 0 (ird_Nodes document)))))"

definition DiagnosticsError :: "Diagnostic list \<Rightarrow> go_error option" where
  "DiagnosticsError ds = (if HasErrors ds then
     Some (Errorf (''IR validation failed with '' @ show_nat (length ds) @ '' diagnostic(s)'')) else None)"

section \<open>Accepted documents\<close>

definition ir_ids :: "IrDocument \<Rightarrow> LogicalID set" where
  "ir_ids d = irn_ID ` set (ird_Nodes d)"

text \<open>What a document without errors satisfies: identities, edges and references are sound.\<close>

definition ir_wf :: "IrDocument \<Rightarrow> bool" where
  "ir_wf d \<longleftrightarrow> distinct (map irn_ID (ird_Nodes d)) \<and> distinct (map ire_ID (ird_Edges d))
     \<and> (\<forall>n \<in> set (ird_Nodes d). irn_ID n \<noteq> '''')
     \<and> (\<forall>e \<in> set (ird_Edges d). ire_Source e \<in> ir_ids d \<and> ire_Target e \<in> ir_ids d)
     \<and> (\<forall>n \<in> set (ird_Nodes d). \<forall>i \<in> set (inputs_of n). iri_Source i = SourceRef \<longrightarrow> iri_RefNode i \<in> ir_ids d)"

lemma distinct_by_take: "(\<forall>i < length xs. f (xs ! i) \<notin> f ` set (take i xs)) \<Longrightarrow> distinct (map f xs)"
  unfolding distinct_conv_nth
proof (intro allI impI)
  fix i j
  assume all: "\<forall>i < length xs. f (xs ! i) \<notin> f ` set (take i xs)" and ij: "i < length (map f xs)" "j < length (map f xs)" "i \<noteq> j"
  have "f (xs ! a) \<noteq> f (xs ! b)" if "a < b" "b < length xs" for a b
  proof -
    have "xs ! a \<in> set (take b xs)"
      using that by (auto simp: in_set_conv_nth)
    then have "f (xs ! a) \<in> f ` set (take b xs)"
      by (rule imageI)
    then show ?thesis
      using all that(2) by metis
  qed
  then show "map f xs ! i \<noteq> map f xs ! j"
    using ij by (metis length_map linorder_neqE_nat nth_map)
qed

lemma distinct_by_enumerate:
  "(\<forall>(i, x) \<in> set (enumerate 0 xs). f x \<notin> f ` set (take i xs)) \<Longrightarrow> distinct (map f xs)"
  by (rule distinct_by_take) (force simp: in_set_enumerate_eq)

lemma first_nodes_ids: "map_of (first_nodes d) v \<noteq> None \<longleftrightarrow> v \<in> ir_ids d"
  by (auto simp: first_nodes_def ir_ids_def map_of_eq_None_iff image_iff)

lemma output_types_ids: "output_types d v \<noteq> None \<longleftrightarrow> v \<in> ir_ids d"
  by (auto simp: output_types_def first_nodes_def ir_ids_def map_of_eq_None_iff image_iff)

lemma ValidLogicalID_nonempty: "ValidLogicalID v \<Longrightarrow> v \<noteq> ''''"
  by (auto simp: ValidLogicalID_def matches_id_def)

lemma severity_kinds [simp]:
  "diag_Severity (structure_error code message location) = SeverityError"
  "diag_Severity (reference_error code message location) = SeverityError"
  by (simp_all add: structure_error_def reference_error_def)

lemma enumerate_value: "(i, x) \<in> set (enumerate 0 xs) \<Longrightarrow> x \<in> set xs"
  by (auto simp: in_set_enumerate_eq)

lemma in_enumerate: "x \<in> set xs \<Longrightarrow> \<exists>i. (i, x) \<in> set (enumerate 0 xs)"
proof -
  assume "x \<in> set xs"
  then obtain i where "i < length xs" "xs ! i = x"
    by (auto simp: in_set_conv_nth)
  then show ?thesis
    by (intro exI [of _ i]) (simp add: in_set_enumerate_eq)
qed

lemma accepted_parts:
  assumes "\<not> HasErrors (Ir_Validate decode_error v d)"
  shows "\<forall>p \<in> set (enumerate 0 (ird_Nodes d)). \<not> HasErrors (node_diagnostics decode_error v d p)"
    and "\<forall>p \<in> set (enumerate 0 (ird_Edges d)). \<not> HasErrors (edge_diagnostics d p)"
    and "\<forall>(k, n) \<in> set (enumerate 0 (ird_Nodes d)). \<forall>p \<in> set (enumerate 0 (inputs_of n)). \<not> HasErrors (ref_diagnostics d k n p)"
  using assms by (auto simp: Ir_Validate_def HasErrors_concat)

lemma Ir_Validate_wf:
  assumes "\<not> HasErrors (Ir_Validate decode_error v d)"
  shows "ir_wf d"
proof -
  note parts = accepted_parts [OF assms]
  have node: "ValidLogicalID (irn_ID n) \<and> irn_ID n \<notin> irn_ID ` set (take k (ird_Nodes d))"
    if "(k, n) \<in> set (enumerate 0 (ird_Nodes d))" for k n
    using parts(1) that by (fastforce simp: node_diagnostics_def Let_def)
  have edge: "ire_ID e \<notin> ire_ID ` set (take k (ird_Edges d)) \<and> ire_Source e \<in> ir_ids d \<and> ire_Target e \<in> ir_ids d"
    if "(k, e) \<in> set (enumerate 0 (ird_Edges d))" for k e
    using parts(2) that first_nodes_ids [of d] by (fastforce simp: edge_diagnostics_def Let_def)
  have ref: "iri_RefNode i \<in> ir_ids d"
    if n: "n \<in> set (ird_Nodes d)" and i: "i \<in> set (inputs_of n)" and s: "iri_Source i = SourceRef" for n i
  proof -
    obtain k j where k: "(k, n) \<in> set (enumerate 0 (ird_Nodes d))" "(j, i) \<in> set (enumerate 0 (inputs_of n))"
      using in_enumerate [OF n] in_enumerate [OF i] by blast
    then have "\<not> HasErrors (ref_diagnostics d k n (j, i))"
      using parts(3) by fastforce
    then have "output_types d (iri_RefNode i) \<noteq> None"
      using s by (cases "output_types d (iri_RefNode i)") (auto simp: ref_diagnostics_def Let_def)
    then show ?thesis
      using output_types_ids [of d] by blast
  qed
  have "distinct (map irn_ID (ird_Nodes d))"
    by (rule distinct_by_enumerate) (use node in blast)
  moreover have "distinct (map ire_ID (ird_Edges d))"
    by (rule distinct_by_enumerate) (use edge in blast)
  moreover have "irn_ID n \<noteq> ''''" if "n \<in> set (ird_Nodes d)" for n
    using node in_enumerate [OF that] ValidLogicalID_nonempty by blast
  moreover have "ire_Source e \<in> ir_ids d \<and> ire_Target e \<in> ir_ids d" if "e \<in> set (ird_Edges d)" for e
    using edge in_enumerate [OF that] by blast
  ultimately show ?thesis
    using ref by (simp add: ir_wf_def)
qed

end
