(* ===== verification/Decision_Diagram.thy ===== *)
theory Decision_Diagram
  imports Dsl_Model
begin

text \<open>
  The decision manager of \<^verbatim>\<open>internal/compiler/activation.go\<close>: multi-valued decision diagrams over the
  routes of the branches of a workflow, hash-consed and reduced, with memoised conjunction,
  disjunction and negation.

  A \<^verbatim>\<open>decisionID\<close> is a natural number: at most 250000 nodes are ever allocated, so that the conversion
  to 32 bits never wraps. The string keys of the tables, numbers joined by colons, are the numbers
  themselves. The manager is not used after an error and is dropped with it. The recursions follow
  the variable order; they are bounded by fuel, one more than the number of variables suffices.
\<close>

section \<open>The manager\<close>

type_synonym decisionID = nat

definition maxActivationDecisionNodes :: int where
  "maxActivationDecisionNodes = 250000"

definition decisionFalse :: decisionID where
  "decisionFalse = 0"

definition decisionTrue :: decisionID where
  "decisionTrue = 1"

record decisionNode =
  dd_variable :: int
  dd_children :: "decisionID list"

record decisionManager =
  dm_domains :: "string list list"
  dm_nodes :: "decisionNode list"
  dm_unique :: "(int \<times> decisionID list, decisionID) gomap"
  dm_apply :: "(string \<times> decisionID \<times> decisionID, decisionID) gomap"
  dm_negation :: "(decisionID, decisionID) gomap"

type_synonym decision = "(decisionID \<times> decisionManager) result"

definition newDecisionManager :: "string list list \<Rightarrow> decisionManager" where
  "newDecisionManager domains = \<lparr>dm_domains = domains,
     dm_nodes = [\<lparr>dd_variable = - 1, dd_children = []\<rparr>, \<lparr>dd_variable = - 1, dd_children = []\<rparr>],
     dm_unique = [], dm_apply = [], dm_negation = []\<rparr>"

definition makeNode :: "decisionManager \<Rightarrow> int \<Rightarrow> decisionID list \<Rightarrow> decision" where
  "makeNode manager variable children =
     (case children of
        [] \<Rightarrow> Inl (Panic ''slice bounds out of range'')
      | first # rest \<Rightarrow>
          if list_all (\<lambda>child. child = first) rest then Inr (first, manager)
          else case map_of (dm_unique manager) (variable, children) of
              Some existing \<Rightarrow> Inr (existing, manager)
            | None \<Rightarrow>
                if int (length (dm_nodes manager)) \<ge> maxActivationDecisionNodes then
                  Inl (Errorf (''activation decision graph exceeds 250000 nodes''))
                else Inr (length (dm_nodes manager), manager\<lparr>
                  dm_nodes := dm_nodes manager @ [\<lparr>dd_variable = variable, dd_children = children\<rparr>],
                  dm_unique := AList.update (variable, children) (length (dm_nodes manager)) (dm_unique manager)\<rparr>))"

definition decision_equal :: "decisionManager \<Rightarrow> nat \<Rightarrow> string \<Rightarrow> decision" where
  "decision_equal manager variable route =
     (if variable < length (dm_domains manager) then
        makeNode manager (int variable)
          (map (\<lambda>candidate. if candidate = route then decisionTrue else decisionFalse) (dm_domains manager ! variable))
      else Inl (Panic ''index out of range''))"

definition variable_of :: "decisionManager \<Rightarrow> decisionID \<Rightarrow> int" where
  "variable_of manager d =
     (if d \<le> decisionTrue then int (length (dm_domains manager)) + 1 else dd_variable (dm_nodes manager ! d))"

definition child_of :: "decisionManager \<Rightarrow> decisionID \<Rightarrow> int \<Rightarrow> nat \<Rightarrow> decisionID" where
  "child_of manager d variable choice =
     (if d \<le> decisionTrue \<or> dd_variable (dm_nodes manager ! d) \<noteq> variable then d
      else dd_children (dm_nodes manager ! d) ! choice)"

text \<open>The cases of \<^verbatim>\<open>applyBinary\<close> that need no recursion; \<open>left\<close> is not above \<open>right\<close>.\<close>

definition apply_terminal :: "string \<Rightarrow> decisionID \<Rightarrow> decisionID \<Rightarrow> decisionID option" where
  "apply_terminal operation left right =
     (if operation = ''and'' \<and> (left = decisionFalse \<or> right = decisionFalse) then Some decisionFalse
      else if operation = ''and'' \<and> left = decisionTrue then Some right
      else if operation \<noteq> ''and'' \<and> (right = decisionTrue \<or> left = decisionTrue) then Some decisionTrue
      else if operation \<noteq> ''and'' \<and> left = decisionFalse then Some right
      else if left = right then Some left else None)"

function (sequential) applyBinary :: "nat \<Rightarrow> string \<Rightarrow> decisionManager \<Rightarrow> decisionID \<Rightarrow> decisionID \<Rightarrow> decision"
  and apply_choices :: "nat \<Rightarrow> string \<Rightarrow> decisionManager \<Rightarrow> decisionID \<Rightarrow> decisionID \<Rightarrow> int \<Rightarrow> nat list \<Rightarrow>
    (decisionID list \<times> decisionManager) result" where
  "applyBinary 0 operation manager left0 right0 = Inl (Panic ''out of fuel'')"
| "applyBinary (Suc fuel) operation manager left0 right0 =
     (let left = min left0 right0; right = max left0 right0 in
      case apply_terminal operation left right of
        Some d \<Rightarrow> Inr (d, manager)
      | None \<Rightarrow>
     (case map_of (dm_apply manager) (operation, left, right) of
        Some existing \<Rightarrow> Inr (existing, manager)
      | None \<Rightarrow>
          (let variable = min (variable_of manager left) (variable_of manager right) in
           case apply_choices fuel operation manager left right variable [0 ..< length (dm_domains manager ! nat variable)] of
             Inl e \<Rightarrow> Inl e
           | Inr (children, manager1) \<Rightarrow>
               (case makeNode manager1 variable children of
                  Inl e \<Rightarrow> Inl e
                | Inr (d, manager2) \<Rightarrow>
                    Inr (d, manager2\<lparr>dm_apply := AList.update (operation, left, right) d (dm_apply manager2)\<rparr>)))))"
| "apply_choices fuel operation manager left right variable [] = Inr ([], manager)"
| "apply_choices fuel operation manager left right variable (choice # choices) =
     (case applyBinary fuel operation manager (child_of manager left variable choice) (child_of manager right variable choice) of
        Inl e \<Rightarrow> Inl e
      | Inr (d, manager1) \<Rightarrow>
          (case apply_choices fuel operation manager1 left right variable choices of
             Inl e \<Rightarrow> Inl e
           | Inr (ds, manager2) \<Rightarrow> Inr (d # ds, manager2)))"
  by pat_completeness auto

termination
  by (relation "inv_image (less_than <*lex*> less_than)
      (\<lambda>x. case x of Inl (fuel, _) \<Rightarrow> (fuel, 0) | Inr (fuel, _, _, _, _, _, choices) \<Rightarrow> (fuel, Suc (length choices)))") auto

definition decision_and :: "decisionManager \<Rightarrow> decisionID \<Rightarrow> decisionID \<Rightarrow> decision" where
  "decision_and manager left right = applyBinary (length (dm_domains manager) + 2) ''and'' manager left right"

definition decision_or :: "decisionManager \<Rightarrow> decisionID \<Rightarrow> decisionID \<Rightarrow> decision" where
  "decision_or manager left right = applyBinary (length (dm_domains manager) + 2) ''or'' manager left right"

function (sequential) not_fuel :: "nat \<Rightarrow> decisionManager \<Rightarrow> decisionID \<Rightarrow> decision"
  and not_children :: "nat \<Rightarrow> decisionManager \<Rightarrow> decisionID list \<Rightarrow> (decisionID list \<times> decisionManager) result" where
  "not_fuel 0 manager d = Inl (Panic ''out of fuel'')"
| "not_fuel (Suc fuel) manager d =
     (if d = decisionFalse then Inr (decisionTrue, manager)
      else if d = decisionTrue then Inr (decisionFalse, manager)
      else case map_of (dm_negation manager) d of
          Some existing \<Rightarrow> Inr (existing, manager)
        | None \<Rightarrow>
            (let node = dm_nodes manager ! d in
             case not_children fuel manager (dd_children node) of
               Inl e \<Rightarrow> Inl e
             | Inr (children, manager1) \<Rightarrow>
                 (case makeNode manager1 (dd_variable node) children of
                    Inl e \<Rightarrow> Inl e
                  | Inr (r, manager2) \<Rightarrow>
                      Inr (r, manager2\<lparr>dm_negation := AList.update d r (dm_negation manager2)\<rparr>))))"
| "not_children fuel manager [] = Inr ([], manager)"
| "not_children fuel manager (child # children) =
     (case not_fuel fuel manager child of
        Inl e \<Rightarrow> Inl e
      | Inr (d, manager1) \<Rightarrow>
          (case not_children fuel manager1 children of
             Inl e \<Rightarrow> Inl e
           | Inr (ds, manager2) \<Rightarrow> Inr (d # ds, manager2)))"
  by pat_completeness auto

termination
  by (relation "inv_image (less_than <*lex*> less_than)
      (\<lambda>x. case x of Inl (fuel, _) \<Rightarrow> (fuel, 0) | Inr (fuel, _, children) \<Rightarrow> (fuel, Suc (length children)))") auto

definition decision_not :: "decisionManager \<Rightarrow> decisionID \<Rightarrow> decision" where
  "decision_not manager d = not_fuel (length (dm_domains manager) + 2) manager d"

end
