(* ===== verification/Control_Graph.thy ===== *)
theory Control_Graph
  imports Ir_Model Decision_Diagram
begin

unbundle bit_operations_syntax

text \<open>
  The analysis of the control graph, \<^verbatim>\<open>internal/compiler/controlgraph.go\<close>, and the check of data bindings
  over it, \<^verbatim>\<open>validateDataBindings\<close> of \<^verbatim>\<open>activation.go\<close>.

  The loops over the successors of a node are the ones of the DSL validator, over the targets (or the
  sources) of edges. \<^verbatim>\<open>sort.Slice\<close> may order edges of equal identity in any way; here the sort is stable,
  and identities are distinct in a document that strict validation accepted.
\<close>

section \<open>Analysis\<close>

record graphAnalysis =
  ga_nodes :: "(LogicalID, IrNode) gomap"
  ga_nodeIndexes :: "(LogicalID, nat) gomap"
  ga_edgeIndexes :: "(LogicalID, nat) gomap"
  ga_incoming :: "(LogicalID, IrEdge list) gomap"
  ga_outgoing :: "(LogicalID, IrEdge list) gomap"
  ga_topological :: "LogicalID list"
  ga_start :: LogicalID
  ga_end :: LogicalID
  ga_branchDomains :: "(LogicalID, RouteName list) gomap"
  ga_descendants :: "(LogicalID, 64 word list) gomap"
  ga_ordinal :: "(LogicalID, nat) gomap option"

definition index_of :: "(LogicalID, nat) gomap \<Rightarrow> LogicalID \<Rightarrow> nat" where
  "index_of m v = (case map_of m v of None \<Rightarrow> 0 | Some k \<Rightarrow> k)"

definition node_in :: "graphAnalysis \<Rightarrow> LogicalID \<Rightarrow> IrNode" where
  "node_in analysis v = (case map_of (ga_nodes analysis) v of None \<Rightarrow> zero_IrNode | Some node \<Rightarrow> node)"

definition graph_error :: "string \<Rightarrow> string \<Rightarrow> Location \<Rightarrow> Diagnostic" where
  "graph_error code message location = ErrorDiagnostic PhaseGraph code message location"

definition graphInternalDiagnostic :: "string \<Rightarrow> string \<Rightarrow> Diagnostic" where
  "graphInternalDiagnostic code message = graph_error code message (node_at '''' ''/edges'')"

text \<open>
  \<^verbatim>\<open>json.Unmarshal\<close> of the cases into a slice of structs with the one field \<^verbatim>\<open>route\<close>: a value of another
  JSON type anywhere is an error, and then no case is declared.
\<close>

fun strict_route :: "(string \<times> json) list \<Rightarrow> string \<Rightarrow> string option" where
  "strict_route [] route = Some route"
| "strict_route ((key, v) # ms) route =
     (if fold_name key = ''route'' then Option.bind (unmarshal_string v route) (strict_route ms) else strict_route ms route)"

fun strict_case :: "json \<Rightarrow> string option" where
  "strict_case (JObject ms) = strict_route ms ''''"
| "strict_case JNull = Some ''''"
| "strict_case _ = None"

definition input_text :: "IrInput \<Rightarrow> raw_message" where
  "input_text i = (case iri_Value i of None \<Rightarrow> '''' | Some text \<Rightarrow> text)"

definition input_routes :: "IrInput \<Rightarrow> RouteName list" where
  "input_routes i =
     (if iri_Name i = ''default_route'' then
        (case Option.bind (parse_text (input_text i)) (\<lambda>v. unmarshal_string v '''') of None \<Rightarrow> [] | Some route \<Rightarrow> [route])
      else if iri_Name i = ''cases'' then
        (case Option.bind (parse_text (input_text i)) (to_slice strict_case) of None \<Rightarrow> [] | Some routes \<Rightarrow> routes)
      else [])"

definition branch_domain :: "IrNode \<Rightarrow> RouteName list" where
  "branch_domain node = sort (remdups (concat (map input_routes (inputs_of node))))"

definition validateBranchRoutes :: "IrNode \<Rightarrow> graphAnalysis \<Rightarrow> Diagnostic list \<times> graphAnalysis" where
  "validateBranchRoutes node analysis =
     (let domain = branch_domain node; edges = slice_at (ga_outgoing analysis) (irn_ID node) in
      (concat (map (\<lambda>edge. diag_when (ire_Route edge \<notin> set domain)
          (graph_error ''BRANCH_EDGE_ROUTE_UNDECLARED'' ''branch edge route is not declared by cases or default_route''
             (edge_at (ire_ID edge) (EdgePath (ire_ID edge) (index_of (ga_edgeIndexes analysis) (ire_ID edge)) @ ''/route'')))) edges)
       @ concat (map (\<lambda>route. diag_when (route \<notin> set (map ire_Route edges))
          ((graph_error ''BRANCH_ROUTE_HAS_NO_EDGE'' ''every declared branch route requires at least one outgoing edge''
             (node_at (irn_ID node) (NodePath (irn_ID node) (index_of (ga_nodeIndexes analysis) (irn_ID node)) @ ''/inputs'')))
            \<lparr>diag_Details := Some [(''route'', Text route)]\<rparr>)) domain),
       analysis\<lparr>ga_branchDomains := AList.update (irn_ID node) domain (ga_branchDomains analysis)\<rparr>))"

text \<open>\<^verbatim>\<open>topologicalOrder\<close> and \<^verbatim>\<open>graphReachable\<close>.\<close>

function order_loop :: "(LogicalID, IrEdge list) gomap \<Rightarrow> (LogicalID, int) gomap \<Rightarrow> LogicalID list \<Rightarrow> LogicalID list \<Rightarrow> LogicalID list" where
  "order_loop outgoing indegree [] result = result"
| "order_loop outgoing indegree (v # queue) result =
     (let (indegree', queue') = relax (map ire_Target (slice_at outgoing v)) indegree queue
      in order_loop outgoing indegree' queue' (result @ [v]))"
  by pat_completeness auto
termination
proof (relation "measure (\<lambda>(outgoing, indegree, queue, result). length queue + positive_degrees indegree)")
  fix outgoing :: "(LogicalID, IrEdge list) gomap" and indegree v queue p indegree' and queue' result :: "LogicalID list"
  assume "p = relax (map ire_Target (slice_at outgoing v)) indegree queue" "(indegree', queue') = p"
  then have "relax (map ire_Target (slice_at outgoing v)) indegree queue = (indegree', queue')"
    by simp
  then show "((outgoing, indegree', queue', result @ [v]), outgoing, indegree, v # queue, result)
      \<in> measure (\<lambda>(outgoing, indegree, queue, result). length queue + positive_degrees indegree)"
    using relax_measure [of "map ire_Target (slice_at outgoing v)" indegree queue indegree' queue'] by simp
qed simp

definition topologicalOrder ::
  "(LogicalID, IrNode) gomap \<Rightarrow> (LogicalID, IrEdge list) gomap \<Rightarrow> (LogicalID, IrEdge list) gomap \<Rightarrow> LogicalID list" where
  "topologicalOrder nodes incoming outgoing =
     (let indegree = map (\<lambda>(v, node). (v, int (length (slice_at incoming v)))) nodes;
          queue = sort (map fst (filter (\<lambda>(v, d). d = 0) indegree))
      in order_loop outgoing indegree queue [])"

definition edge_next :: "bool \<Rightarrow> IrEdge \<Rightarrow> LogicalID" where
  "edge_next reverse edge = (if reverse then ire_Source edge else ire_Target edge)"

definition edge_targets :: "bool \<Rightarrow> (LogicalID, IrEdge list) gomap \<Rightarrow> LogicalID set" where
  "edge_targets reverse edges = \<Union> (set (map (\<lambda>(v, es). set (map (edge_next reverse) es)) edges))"

lemma edge_targets_slice: "set (map (edge_next reverse) (slice_at edges v)) \<subseteq> edge_targets reverse edges"
proof (cases "map_of edges v")
  case (Some es)
  then have "(v, es) \<in> set edges"
    by (rule map_of_SomeD)
  then show ?thesis
    using Some by (force simp: slice_at_def edge_targets_def)
qed (simp add: slice_at_def)

function graph_reach_loop :: "(LogicalID, IrEdge list) gomap \<Rightarrow> bool \<Rightarrow> LogicalID set \<Rightarrow> LogicalID list \<Rightarrow> LogicalID set" where
  "graph_reach_loop edges reverse result [] = result"
| "graph_reach_loop edges reverse result (v # stack) =
     (let (result', stack') = push_successors (map (edge_next reverse) (slice_at edges v)) result stack
      in graph_reach_loop edges reverse result' stack')"
  by pat_completeness auto
termination
proof (relation "measure (\<lambda>(edges, reverse, seen, stack). length stack + card (edge_targets reverse edges - seen))")
  fix edges :: "(LogicalID, IrEdge list) gomap" and reverse seen v stack p seen' and stack' :: "LogicalID list"
  assume "p = push_successors (map (edge_next reverse) (slice_at edges v)) seen stack" "(seen', stack') = p"
  then have "push_successors (map (edge_next reverse) (slice_at edges v)) seen stack = (seen', stack')"
    by simp
  moreover have "finite (edge_targets reverse edges)"
    by (auto simp: edge_targets_def)
  ultimately show "((edges, reverse, seen', stack'), edges, reverse, seen, v # stack)
      \<in> measure (\<lambda>(edges, reverse, seen, stack). length stack + card (edge_targets reverse edges - seen))"
    using push_successors_measure [OF _ edge_targets_slice] by fastforce
qed simp

definition graphReachable :: "LogicalID \<Rightarrow> (LogicalID, IrEdge list) gomap \<Rightarrow> bool \<Rightarrow> LogicalID set" where
  "graphReachable start edges reverse = graph_reach_loop edges reverse {start} [start]"

text \<open>
  \<^verbatim>\<open>buildDescendants\<close>: a bit set per node over the positions of the topological order, filled from
  the last node to the first. The bit set of a node is stored after its edges have been merged; a node is
  never its own successor when the order is complete.
\<close>

definition bits_of :: "(LogicalID, 64 word list) gomap \<Rightarrow> LogicalID \<Rightarrow> 64 word list" where
  "bits_of m v = slice_at m v"

definition set_bit_at :: "nat \<Rightarrow> 64 word list \<Rightarrow> 64 word list" where
  "set_bit_at k bits = bits[k div 64 := (bits ! (k div 64)) OR push_bit (k mod 64) 1]"

definition merge_edge ::
  "(LogicalID, nat) gomap \<Rightarrow> (LogicalID, 64 word list) gomap \<Rightarrow> IrEdge \<Rightarrow> 64 word list \<Rightarrow> 64 word list" where
  "merge_edge ordinal descendants edge bits =
     (let bits1 = set_bit_at (index_of ordinal (ire_Target edge)) bits; other = bits_of descendants (ire_Target edge)
      in map (\<lambda>word. if word < length other then (bits1 ! word) OR (other ! word) else bits1 ! word) [0 ..< length bits1])"

definition descendants_step ::
  "(LogicalID, nat) gomap \<Rightarrow> (LogicalID, IrEdge list) gomap \<Rightarrow> LogicalID \<Rightarrow> (LogicalID, 64 word list) gomap \<Rightarrow> (LogicalID, 64 word list) gomap" where
  "descendants_step ordinal outgoing v descendants =
     AList.update v (fold (merge_edge ordinal descendants) (slice_at outgoing v) (bits_of descendants v)) descendants"

definition buildDescendants :: "graphAnalysis \<Rightarrow> graphAnalysis" where
  "buildDescendants analysis =
     (let order = ga_topological analysis; words = (length order + 63) div 64;
          ordinal = map (\<lambda>(k, v). (v, k)) (enumerate 0 order);
          empty = map (\<lambda>v. (v, replicate words 0)) order
      in analysis\<lparr>ga_ordinal := Some ordinal,
                  ga_descendants := fold (descendants_step ordinal (ga_outgoing analysis)) (rev order) empty\<rparr>)"

definition isControlUpstream :: "graphAnalysis \<Rightarrow> LogicalID \<Rightarrow> LogicalID \<Rightarrow> bool" where
  "isControlUpstream analysis source target =
     (case Option.bind (ga_ordinal analysis) (\<lambda>ordinal. map_of ordinal target) of
        None \<Rightarrow> False
      | Some k \<Rightarrow> (let bits = bits_of (ga_descendants analysis) source in
          length bits > k div 64 \<and> (bits ! (k div 64)) AND push_bit (k mod 64) 1 \<noteq> 0))"

text \<open>\<^verbatim>\<open>analyzeControlGraph\<close>: the maps, the local checks of every node, then order and reachability.\<close>

definition nodes_of_type :: "NodeType \<Rightarrow> IrDocument \<Rightarrow> LogicalID list" where
  "nodes_of_type t document = map irn_ID (filter (\<lambda>node. irn_Type node = t) (ird_Nodes document))"

definition sort_known :: "(LogicalID, IrNode) gomap \<Rightarrow> (LogicalID, IrEdge list) gomap \<Rightarrow> (LogicalID, IrEdge list) gomap" where
  "sort_known nodes edges = map (\<lambda>(v, es). (v, if map_of nodes v = None then es else sort_key ire_ID es)) edges"

definition graph_maps :: "IrDocument \<Rightarrow> graphAnalysis" where
  "graph_maps document =
     (let nodes = fold (\<lambda>node. AList.update (irn_ID node) node) (ird_Nodes document) [];
          starts = nodes_of_type ''start'' document; ends = nodes_of_type ''end'' document
      in \<lparr>ga_nodes = nodes,
          ga_nodeIndexes = fold (\<lambda>(index, node). AList.update (irn_ID node) index) (enumerate 0 (ird_Nodes document)) [],
          ga_edgeIndexes = fold (\<lambda>(index, edge). AList.update (ire_ID edge) index) (enumerate 0 (ird_Edges document)) [],
          ga_incoming = sort_known nodes (fold (\<lambda>edge. append_at (ire_Target edge) edge) (ird_Edges document) []),
          ga_outgoing = sort_known nodes (fold (\<lambda>edge. append_at (ire_Source edge) edge) (ird_Edges document) []),
          ga_topological = [], ga_start = (if length starts = 1 then hd starts else ''''),
          ga_end = (if length ends = 1 then hd ends else ''''),
          ga_branchDomains = [], ga_descendants = [], ga_ordinal = None\<rparr>)"

definition degree_diagnostics :: "graphAnalysis \<Rightarrow> IrNode \<Rightarrow> Diagnostic list" where
  "degree_diagnostics analysis node =
     (let location = node_at (irn_ID node) (NodePath (irn_ID node) (index_of (ga_nodeIndexes analysis) (irn_ID node)));
          incoming = length (slice_at (ga_incoming analysis) (irn_ID node));
          outgoing = length (slice_at (ga_outgoing analysis) (irn_ID node))
      in if irn_Type node = ''start'' then
           diag_when (incoming \<noteq> 0) (graph_error ''START_INCOMING_EDGE_FORBIDDEN'' ''Start cannot have incoming control edges'' location)
           @ diag_when (outgoing = 0) (graph_error ''START_OUTGOING_EDGE_REQUIRED'' ''Start requires an outgoing control edge'' location)
         else if irn_Type node = ''end'' then
           diag_when (incoming = 0) (graph_error ''END_INCOMING_EDGE_REQUIRED'' ''End requires an incoming control edge'' location)
           @ diag_when (outgoing \<noteq> 0) (graph_error ''END_OUTGOING_EDGE_FORBIDDEN'' ''End cannot have outgoing control edges'' location)
         else
           diag_when (incoming = 0) (graph_error ''NODE_INCOMING_EDGE_REQUIRED'' ''non-Start node requires an incoming control edge'' location)
           @ diag_when (outgoing = 0) (graph_error ''NODE_OUTGOING_EDGE_REQUIRED'' ''non-End node requires an outgoing control edge'' location))"

definition graph_node_step :: "IrNode \<Rightarrow> Diagnostic list \<times> graphAnalysis \<Rightarrow> Diagnostic list \<times> graphAnalysis" where
  "graph_node_step node = (\<lambda>(diagnostics, analysis).
     (let local_diagnostics = diagnostics @ degree_diagnostics analysis node in
      if irn_Type node = ''branch'' then
        (let (values, analysis1) = validateBranchRoutes node analysis in (local_diagnostics @ values, analysis1))
      else (local_diagnostics, analysis)))"

definition unreached :: "graphAnalysis \<Rightarrow> IrDocument \<Rightarrow> LogicalID set \<Rightarrow> string \<Rightarrow> string \<Rightarrow> Diagnostic list" where
  "unreached analysis document reachable code message =
     concat (map (\<lambda>node. diag_when (irn_ID node \<notin> reachable)
       (graph_error code message (node_at (irn_ID node) (NodePath (irn_ID node) (index_of (ga_nodeIndexes analysis) (irn_ID node))))))
       (ird_Nodes document))"

definition analyzeControlGraph :: "IrDocument \<Rightarrow> graphAnalysis \<times> Diagnostic list" where
  "analyzeControlGraph document =
     (let counts = diag_when (length (nodes_of_type ''start'' document) \<noteq> 1)
              (graph_error ''CONTROL_START_COUNT_INVALID'' ''control graph requires exactly one Start node'' (node_at '''' ''/nodes''))
            @ diag_when (length (nodes_of_type ''end'' document) \<noteq> 1)
              (graph_error ''CONTROL_END_COUNT_INVALID'' ''control graph requires exactly one End node'' (node_at '''' ''/nodes''));
          (diagnostics, analysis1) = fold graph_node_step (ird_Nodes document) (counts, graph_maps document);
          order = topologicalOrder (ga_nodes analysis1) (ga_incoming analysis1) (ga_outgoing analysis1);
          analysis2 = analysis1\<lparr>ga_topological := order\<rparr>;
          all_diagnostics = diagnostics
            @ diag_when (length order \<noteq> length (ga_nodes analysis2))
                (graph_error ''CONTROL_GRAPH_CYCLE'' ''control graph must be a DAG'' (node_at '''' ''/edges''))
            @ (if ga_start analysis2 \<noteq> '''' then
                 unreached analysis2 document (graphReachable (ga_start analysis2) (ga_outgoing analysis2) False)
                   ''NODE_NOT_REACHABLE_FROM_START'' ''node is not reachable from Start'' else [])
            @ (if ga_end analysis2 \<noteq> '''' then
                 unreached analysis2 document (graphReachable (ga_end analysis2) (ga_incoming analysis2) True)
                   ''NODE_CANNOT_REACH_END'' ''node cannot reach End'' else [])
      in (if length order = length (ga_nodes analysis2) then buildDescendants analysis2 else analysis2,
          LimitDiagnostics (SortDiagnostics all_diagnostics)))"

section \<open>Data bindings\<close>

text \<open>
  \<^verbatim>\<open>validateDataBindings\<close>. The branches with routes are the variables, in topological order. The first loop
  computes for every node the decision under which it is active; the second asks of every reference whether
  its reader can be active without its source. An error ends the check with one internal diagnostic.
\<close>

definition branch_ids :: "graphAnalysis \<Rightarrow> LogicalID list" where
  "branch_ids analysis = filter (\<lambda>v. slice_at (ga_branchDomains analysis) v \<noteq> []) (ga_topological analysis)"

definition branch_variables :: "graphAnalysis \<Rightarrow> (LogicalID, nat) gomap" where
  "branch_variables analysis = map (\<lambda>(k, v). (v, k)) (enumerate 0 (branch_ids analysis))"

definition complexity_exceeded :: "go_error \<Rightarrow> Diagnostic list" where
  "complexity_exceeded e = [graphInternalDiagnostic ''CONTROL_GRAPH_COMPLEXITY_EXCEEDED'' (error_text e)]"

definition decision_at :: "(LogicalID, decisionID) gomap \<Rightarrow> LogicalID \<Rightarrow> decisionID" where
  "decision_at activation v = (case map_of activation v of None \<Rightarrow> decisionFalse | Some d \<Rightarrow> d)"

definition edge_formula ::
  "graphAnalysis \<Rightarrow> (LogicalID, decisionID) gomap \<Rightarrow> IrEdge \<Rightarrow> decisionManager \<Rightarrow> Diagnostic list + (decisionID \<times> decisionManager)" where
  "edge_formula analysis activation edge manager =
     (if irn_Type (node_in analysis (ire_Source edge)) = ''branch'' then
        (case map_of (branch_variables analysis) (ire_Source edge) of
           None \<Rightarrow> Inl [graphInternalDiagnostic ''ACTIVATION_ANALYSIS_FAILED'' ''branch route domain is unavailable'']
         | Some variable \<Rightarrow>
             (case decision_equal manager variable (ire_Route edge) of
                Inl e \<Rightarrow> Inl (complexity_exceeded e)
              | Inr (routeFormula, manager1) \<Rightarrow>
                  (case decision_and manager1 (decision_at activation (ire_Source edge)) routeFormula of
                     Inl e \<Rightarrow> Inl (complexity_exceeded e)
                   | Inr (d, manager2) \<Rightarrow> Inr (d, manager2))))
      else Inr (decision_at activation (ire_Source edge), manager))"

fun node_formula ::
  "graphAnalysis \<Rightarrow> (LogicalID, decisionID) gomap \<Rightarrow> IrEdge list \<Rightarrow> decisionID \<Rightarrow> decisionManager
    \<Rightarrow> Diagnostic list + (decisionID \<times> decisionManager)" where
  "node_formula analysis activation [] formula manager = Inr (formula, manager)"
| "node_formula analysis activation (edge # edges) formula manager =
     (case edge_formula analysis activation edge manager of
        Inl ds \<Rightarrow> Inl ds
      | Inr (edgeFormula, manager1) \<Rightarrow>
          (case decision_or manager1 formula edgeFormula of
             Inl e \<Rightarrow> Inl (complexity_exceeded e)
           | Inr (formula1, manager2) \<Rightarrow> node_formula analysis activation edges formula1 manager2))"

fun activation_loop ::
  "graphAnalysis \<Rightarrow> LogicalID list \<Rightarrow> (LogicalID, decisionID) gomap \<Rightarrow> decisionManager
    \<Rightarrow> Diagnostic list + ((LogicalID, decisionID) gomap \<times> decisionManager)" where
  "activation_loop analysis [] activation manager = Inr (activation, manager)"
| "activation_loop analysis (v # vs) activation manager =
     (if v = ga_start analysis then activation_loop analysis vs (AList.update v decisionTrue activation) manager
      else case node_formula analysis activation (slice_at (ga_incoming analysis) v) decisionFalse manager of
          Inl ds \<Rightarrow> Inl ds
        | Inr (formula, manager1) \<Rightarrow> activation_loop analysis vs (AList.update v formula activation) manager1)"

definition binding_details :: "IrInput \<Rightarrow> IrNode \<Rightarrow> (string, detail) gomap option" where
  "binding_details i node = Some [(''source_node_id'', Text (iri_RefNode i)), (''target_node_id'', Text (irn_ID node))]"

definition binding_error :: "string \<Rightarrow> string \<Rightarrow> IrNode \<Rightarrow> nat \<Rightarrow> IrInput \<Rightarrow> nat \<Rightarrow> Diagnostic" where
  "binding_error code message node nodeIndex i inputIndex =
     (ErrorDiagnostic PhaseBinding code message
        (node_at (irn_ID node) (InputPath (irn_ID node) nodeIndex (iri_Name i) inputIndex)))\<lparr>diag_Details := binding_details i node\<rparr>"

definition check_binding ::
  "graphAnalysis \<Rightarrow> (LogicalID, decisionID) gomap \<Rightarrow> (nat \<times> IrNode) \<times> (nat \<times> IrInput) \<Rightarrow> decisionManager
    \<Rightarrow> Diagnostic list + (Diagnostic list \<times> decisionManager)" where
  "check_binding analysis activation = (\<lambda>((nodeIndex, node), (inputIndex, i)) manager.
     (if iri_Source i \<noteq> SourceRef then Inr ([], manager)
      else if \<not> isControlUpstream analysis (iri_RefNode i) (irn_ID node) then
        Inr ([binding_error ''REF_SOURCE_NOT_CONTROL_UPSTREAM''
          ''referenced output must come from a control-flow upstream node'' node nodeIndex i inputIndex], manager)
      else case decision_not manager (decision_at activation (iri_RefNode i)) of
          Inl e \<Rightarrow> Inl (complexity_exceeded e)
        | Inr (notSource, manager1) \<Rightarrow>
            (case decision_and manager1 (decision_at activation (irn_ID node)) notSource of
               Inl e \<Rightarrow> Inl (complexity_exceeded e)
             | Inr (counterexample, manager2) \<Rightarrow>
                 Inr (diag_when (counterexample \<noteq> decisionFalse)
                   (binding_error ''UNSAFE_DATA_BINDING'' ''target can be active while referenced source is inactive''
                      node nodeIndex i inputIndex), manager2))))"

fun check_bindings ::
  "graphAnalysis \<Rightarrow> (LogicalID, decisionID) gomap \<Rightarrow> ((nat \<times> IrNode) \<times> (nat \<times> IrInput)) list \<Rightarrow> decisionManager
    \<Rightarrow> Diagnostic list \<Rightarrow> Diagnostic list + Diagnostic list" where
  "check_bindings analysis activation [] manager diagnostics = Inr diagnostics"
| "check_bindings analysis activation (p # ps) manager diagnostics =
     (case check_binding analysis activation p manager of
        Inl ds \<Rightarrow> Inl ds
      | Inr (ds, manager1) \<Rightarrow> check_bindings analysis activation ps manager1 (diagnostics @ ds))"

definition document_bindings :: "IrDocument \<Rightarrow> ((nat \<times> IrNode) \<times> (nat \<times> IrInput)) list" where
  "document_bindings document =
     concat (map (\<lambda>p. map (\<lambda>q. (p, q)) (enumerate 0 (inputs_of (snd p)))) (enumerate 0 (ird_Nodes document)))"

definition validateDataBindings :: "IrDocument \<Rightarrow> graphAnalysis \<Rightarrow> Diagnostic list" where
  "validateDataBindings document analysis =
     (let manager = newDecisionManager (map (slice_at (ga_branchDomains analysis)) (branch_ids analysis)) in
      case activation_loop analysis (ga_topological analysis) [] manager of
        Inl ds \<Rightarrow> ds
      | Inr (activation, manager1) \<Rightarrow>
          (case check_bindings analysis activation (document_bindings document) manager1 [] of
             Inl ds \<Rightarrow> ds
           | Inr ds \<Rightarrow> LimitDiagnostics (SortDiagnostics ds)))"

end
