(* ===== verification/Decision_Laws.thy ===== *)
theory Decision_Laws
  imports Decision_Diagram
begin

text \<open>
  The meaning of decision diagrams and the correctness of the manager: under an assignment of a choice
  to every variable a diagram is true or false; the operations compute the Boolean operations on
  meanings, they keep the diagrams they were given, and a diagram other than the false one is
  satisfiable. The only error an operation reports is that the manager is full.
\<close>

section \<open>Meaning\<close>

type_synonym assignment = "nat \<Rightarrow> nat"

function eval_decision :: "decisionNode list \<Rightarrow> assignment \<Rightarrow> decisionID \<Rightarrow> bool" where
  "eval_decision nodes \<sigma> d =
     (if d \<le> 1 then d = 1
      else let c = dd_children (nodes ! d) ! \<sigma> (nat (dd_variable (nodes ! d))) in if c < d then eval_decision nodes \<sigma> c else False)"
  by pat_completeness auto

termination
  by (relation "measure (\<lambda>(nodes, \<sigma>, d). d)") auto

declare eval_decision.simps [simp del]
declare applyBinary.simps(2) [simp del]
declare not_fuel.simps(2) [simp del]

definition admissible :: "string list list \<Rightarrow> assignment \<Rightarrow> bool" where
  "admissible domains \<sigma> \<longleftrightarrow> (\<forall>v < length domains. \<sigma> v < length (domains ! v))"

definition denotes :: "decisionManager \<Rightarrow> decisionID \<Rightarrow> (assignment \<Rightarrow> bool) \<Rightarrow> bool" where
  "denotes m d f \<longleftrightarrow> d < length (dm_nodes m)
     \<and> (\<forall>\<sigma>. admissible (dm_domains m) \<sigma> \<longrightarrow> eval_decision (dm_nodes m) \<sigma> d = f \<sigma>)"

section \<open>Well-formed managers\<close>

definition node_fits :: "decisionManager \<Rightarrow> decisionID \<Rightarrow> int \<Rightarrow> decisionID list \<Rightarrow> bool" where
  "node_fits m d v cs \<longleftrightarrow> 0 \<le> v \<and> v < int (length (dm_domains m)) \<and> length cs = length (dm_domains m ! nat v)
     \<and> (\<forall>c \<in> set cs. c < d \<and> v < variable_of m c)"

definition opf :: "string \<Rightarrow> bool \<Rightarrow> bool \<Rightarrow> bool" where
  "opf operation a b = (if operation = ''and'' then a \<and> b else a \<or> b)"

definition wf_manager :: "decisionManager \<Rightarrow> bool" where
  "wf_manager m \<longleftrightarrow> 2 \<le> length (dm_nodes m) \<and> [] \<notin> set (dm_domains m)
     \<and> (\<forall>d. 2 \<le> d \<longrightarrow> d < length (dm_nodes m) \<longrightarrow>
          node_fits m d (dd_variable (dm_nodes m ! d)) (dd_children (dm_nodes m ! d))
          \<and> (\<exists>c \<in> set (dd_children (dm_nodes m ! d)). c \<noteq> 0))
     \<and> (\<forall>v cs d. map_of (dm_unique m) (v, cs) = Some d \<longrightarrow> 2 \<le> d \<and> d < length (dm_nodes m)
          \<and> dm_nodes m ! d = \<lparr>dd_variable = v, dd_children = cs\<rparr>)
     \<and> (\<forall>operation l r d. map_of (dm_apply m) (operation, l, r) = Some d \<longrightarrow>
          l < length (dm_nodes m) \<and> r < length (dm_nodes m) \<and> min (variable_of m l) (variable_of m r) \<le> variable_of m d
          \<and> denotes m d (\<lambda>\<sigma>. opf operation (eval_decision (dm_nodes m) \<sigma> l) (eval_decision (dm_nodes m) \<sigma> r)))
     \<and> (\<forall>d r. map_of (dm_negation m) d = Some r \<longrightarrow> d < length (dm_nodes m) \<and> variable_of m d \<le> variable_of m r
          \<and> denotes m r (\<lambda>\<sigma>. \<not> eval_decision (dm_nodes m) \<sigma> d))"

definition extends_manager :: "decisionManager \<Rightarrow> decisionManager \<Rightarrow> bool" where
  "extends_manager m m' \<longleftrightarrow> dm_domains m' = dm_domains m \<and> (\<exists>new. dm_nodes m' = dm_nodes m @ new)"

lemma extends_refl [simp]: "extends_manager m m"
  by (simp add: extends_manager_def)

lemma extends_trans: "extends_manager m m' \<Longrightarrow> extends_manager m' m'' \<Longrightarrow> extends_manager m m''"
  by (auto simp: extends_manager_def)

lemma extends_length: "extends_manager m m' \<Longrightarrow> length (dm_nodes m) \<le> length (dm_nodes m')"
  by (auto simp: extends_manager_def)

lemma extends_nth: "extends_manager m m' \<Longrightarrow> d < length (dm_nodes m) \<Longrightarrow> dm_nodes m' ! d = dm_nodes m ! d"
  by (auto simp: extends_manager_def nth_append)

lemma extends_domains: "extends_manager m m' \<Longrightarrow> dm_domains m' = dm_domains m"
  by (simp add: extends_manager_def)

lemma extends_variable: "extends_manager m m' \<Longrightarrow> d < length (dm_nodes m) \<Longrightarrow> variable_of m' d = variable_of m d"
  by (simp add: extends_nth extends_domains variable_of_def)

lemma extends_child: "extends_manager m m' \<Longrightarrow> d < length (dm_nodes m) \<Longrightarrow> child_of m' d v k = child_of m d v k"
  by (simp add: extends_nth child_of_def)

lemma extends_eval:
  "extends_manager m m' \<Longrightarrow> d < length (dm_nodes m) \<Longrightarrow> eval_decision (dm_nodes m') \<sigma> d = eval_decision (dm_nodes m) \<sigma> d"
proof (induction d rule: less_induct)
  case (less d)
  have nth: "dm_nodes m' ! d = dm_nodes m ! d"
    using less.prems by (auto simp: extends_manager_def nth_append)
  show ?case
  proof (cases "d \<le> 1")
    case False
    let ?c = "dd_children (dm_nodes m ! d) ! \<sigma> (nat (dd_variable (dm_nodes m ! d)))"
    have "?c < d \<Longrightarrow> eval_decision (dm_nodes m') \<sigma> ?c = eval_decision (dm_nodes m) \<sigma> ?c"
      using less by auto
    then show ?thesis
      using False nth by (auto simp: eval_decision.simps [of _ _ d] Let_def)
  qed (simp add: eval_decision.simps)
qed

lemma extends_denotes: "extends_manager m m' \<Longrightarrow> denotes m d f \<Longrightarrow> denotes m' d f"
  using extends_length [of m m'] extends_eval [of m m' d] by (auto simp: denotes_def extends_manager_def)

lemma extends_fits: "extends_manager m m' \<Longrightarrow> d \<le> length (dm_nodes m) \<Longrightarrow> node_fits m d v cs \<Longrightarrow> node_fits m' d v cs"
  using extends_variable [of m m'] by (fastforce simp: node_fits_def extends_manager_def)

lemma wf_nodeD:
  assumes "wf_manager m" and "2 \<le> d" and "d < length (dm_nodes m)"
  shows "node_fits m d (dd_variable (dm_nodes m ! d)) (dd_children (dm_nodes m ! d))"
    and "\<exists>c \<in> set (dd_children (dm_nodes m ! d)). c \<noteq> 0"
  using assms unfolding wf_manager_def by blast+

lemma wf_new: "[] \<notin> set domains \<Longrightarrow> wf_manager (newDecisionManager domains)"
  by (auto simp: wf_manager_def newDecisionManager_def)

lemma denotes_terminal:
  "wf_manager m \<Longrightarrow> denotes m 0 (\<lambda>\<sigma>. False)" "wf_manager m \<Longrightarrow> denotes m 1 (\<lambda>\<sigma>. True)"
  by (auto simp: denotes_def wf_manager_def eval_decision.simps)

lemma variable_bounds:
  assumes "wf_manager m" and "d < length (dm_nodes m)"
  shows "0 \<le> variable_of m d \<and> variable_of m d \<le> int (length (dm_domains m)) + 1
    \<and> (2 \<le> d \<longrightarrow> variable_of m d < int (length (dm_domains m)))"
  using wf_nodeD(1) [OF assms(1), of d] assms(2) by (auto simp: variable_of_def decisionTrue_def node_fits_def)

text \<open>The step of a diagram: under an assignment it means what its child for the choice means.\<close>

lemma eval_child:
  assumes wf: "wf_manager m" and d: "d < length (dm_nodes m)" and v: "v \<le> variable_of m d" "0 \<le> v" "v < int (length (dm_domains m))"
    and \<sigma>: "admissible (dm_domains m) \<sigma>"
  shows "child_of m d v (\<sigma> (nat v)) < length (dm_nodes m) \<and> v < variable_of m (child_of m d v (\<sigma> (nat v)))
    \<and> eval_decision (dm_nodes m) \<sigma> (child_of m d v (\<sigma> (nat v))) = eval_decision (dm_nodes m) \<sigma> d"
proof (cases "d \<le> 1 \<or> dd_variable (dm_nodes m ! d) \<noteq> v")
  case True
  then show ?thesis
    using d v by (auto simp: child_of_def variable_of_def decisionTrue_def)
next
  case False
  then have fits: "node_fits m d v (dd_children (dm_nodes m ! d))"
    using wf_nodeD(1) [OF wf, of d] d by auto
  let ?c = "dd_children (dm_nodes m ! d) ! \<sigma> (nat v)"
  have "\<sigma> (nat v) < length (dm_domains m ! nat v)"
    using \<sigma> v by (auto simp: admissible_def)
  then have "?c \<in> set (dd_children (dm_nodes m ! d))"
    using fits by (auto simp: node_fits_def)
  then have "?c < d" "v < variable_of m ?c"
    using fits by (auto simp: node_fits_def)
  moreover have "child_of m d v (\<sigma> (nat v)) = ?c"
    using False by (simp add: child_of_def decisionTrue_def)
  ultimately show ?thesis
    using False d by (auto simp: eval_decision.simps [of _ _ d] Let_def)
qed

section \<open>Allocation\<close>

definition too_many :: go_error where
  "too_many = Errorf ''activation decision graph exceeds 250000 nodes''"

definition yields :: "decisionManager \<Rightarrow> int \<Rightarrow> (assignment \<Rightarrow> bool) \<Rightarrow> decision \<Rightarrow> bool" where
  "yields m low f r = (case r of
     Inl e \<Rightarrow> e = too_many
   | Inr (d, m') \<Rightarrow> wf_manager m' \<and> extends_manager m m' \<and> denotes m' d f \<and> low \<le> variable_of m' d)"

lemma tables_irrelevant [simp]:
  "variable_of (m\<lparr>dm_apply := a\<rparr>) = variable_of m" "variable_of (m\<lparr>dm_negation := n\<rparr>) = variable_of m"
  "denotes (m\<lparr>dm_apply := a\<rparr>) = denotes m" "denotes (m\<lparr>dm_negation := n\<rparr>) = denotes m"
  "node_fits (m\<lparr>dm_apply := a\<rparr>) = node_fits m" "node_fits (m\<lparr>dm_negation := n\<rparr>) = node_fits m"
  "extends_manager m' (m\<lparr>dm_apply := a\<rparr>) = extends_manager m' m"
  "extends_manager m' (m\<lparr>dm_negation := n\<rparr>) = extends_manager m' m"
  by (simp_all add: fun_eq_iff variable_of_def denotes_def node_fits_def extends_manager_def)

lemma wf_set_apply:
  assumes "wf_manager m" and "l < length (dm_nodes m)" and "r < length (dm_nodes m)"
    and "min (variable_of m l) (variable_of m r) \<le> variable_of m d"
    and "denotes m d (\<lambda>\<sigma>. opf operation (eval_decision (dm_nodes m) \<sigma> l) (eval_decision (dm_nodes m) \<sigma> r))"
  shows "wf_manager (m\<lparr>dm_apply := AList.update (operation, l, r) d (dm_apply m)\<rparr>)"
  using assms unfolding wf_manager_def by simp

lemma wf_set_negation:
  assumes "wf_manager m" and "d < length (dm_nodes m)" and "variable_of m d \<le> variable_of m r"
    and "denotes m r (\<lambda>\<sigma>. \<not> eval_decision (dm_nodes m) \<sigma> d)"
  shows "wf_manager (m\<lparr>dm_negation := AList.update d r (dm_negation m)\<rparr>)"
  using assms unfolding wf_manager_def by simp

text \<open>One new node at the end keeps a manager well formed.\<close>

lemma wf_add_node:
  assumes wf: "wf_manager m" and fits: "node_fits m (length (dm_nodes m)) v cs" and some: "\<exists>c \<in> set cs. c \<noteq> 0"
    and m': "m' = m\<lparr>dm_nodes := dm_nodes m @ [\<lparr>dd_variable = v, dd_children = cs\<rparr>],
      dm_unique := AList.update (v, cs) (length (dm_nodes m)) (dm_unique m)\<rparr>"
  shows "wf_manager m' \<and> extends_manager m m'"
proof -
  have ext: "extends_manager m m'"
    using m' by (simp add: extends_manager_def)
  have len: "length (dm_nodes m') = Suc (length (dm_nodes m))" "2 \<le> length (dm_nodes m)"
    using m' wf by (simp_all add: wf_manager_def)
  have "node_fits m' d (dd_variable (dm_nodes m' ! d)) (dd_children (dm_nodes m' ! d))
      \<and> (\<exists>c \<in> set (dd_children (dm_nodes m' ! d)). c \<noteq> 0)" if "2 \<le> d" "d < length (dm_nodes m')" for d
  proof (cases "d = length (dm_nodes m)")
    case True
    then show ?thesis
      using extends_fits [OF ext _ fits] some m' by simp
  next
    case False
    then have "d < length (dm_nodes m)"
      using that len by simp
    then show ?thesis
      using wf_nodeD [OF wf that(1)] extends_fits [OF ext] extends_nth [OF ext] by simp
  qed
  moreover have "2 \<le> d \<and> d < length (dm_nodes m') \<and> dm_nodes m' ! d = \<lparr>dd_variable = w, dd_children = ds\<rparr>"
    if "map_of (dm_unique m') (w, ds) = Some d" for w ds d
  proof (cases "(w, ds) = (v, cs)")
    case False
    then have "map_of (dm_unique m) (w, ds) = Some d"
      using that m' by auto
    then have "2 \<le> d" "d < length (dm_nodes m)" "dm_nodes m ! d = \<lparr>dd_variable = w, dd_children = ds\<rparr>"
      using wf unfolding wf_manager_def by blast+
    then show ?thesis
      using extends_nth [OF ext] len by simp
  qed (use that m' len in auto)
  moreover have "l < length (dm_nodes m') \<and> r < length (dm_nodes m') \<and> min (variable_of m' l) (variable_of m' r) \<le> variable_of m' d
      \<and> denotes m' d (\<lambda>\<sigma>. opf operation (eval_decision (dm_nodes m') \<sigma> l) (eval_decision (dm_nodes m') \<sigma> r))"
    if "map_of (dm_apply m') (operation, l, r) = Some d" for operation l r d
  proof -
    have "map_of (dm_apply m) (operation, l, r) = Some d"
      using that m' by simp
    then have *: "l < length (dm_nodes m)" "r < length (dm_nodes m)" "min (variable_of m l) (variable_of m r) \<le> variable_of m d"
        "denotes m d (\<lambda>\<sigma>. opf operation (eval_decision (dm_nodes m) \<sigma> l) (eval_decision (dm_nodes m) \<sigma> r))"
      using wf unfolding wf_manager_def by blast+
    moreover from *(4) have "d < length (dm_nodes m)"
      by (simp add: denotes_def)
    ultimately show ?thesis
      using extends_denotes [OF ext *(4)] extends_variable [OF ext] extends_eval [OF ext] len by simp
  qed
  moreover have "d < length (dm_nodes m') \<and> variable_of m' d \<le> variable_of m' r
      \<and> denotes m' r (\<lambda>\<sigma>. \<not> eval_decision (dm_nodes m') \<sigma> d)"
    if "map_of (dm_negation m') d = Some r" for d r
  proof -
    have "map_of (dm_negation m) d = Some r"
      using that m' by simp
    then have *: "d < length (dm_nodes m)" "variable_of m d \<le> variable_of m r"
        "denotes m r (\<lambda>\<sigma>. \<not> eval_decision (dm_nodes m) \<sigma> d)"
      using wf unfolding wf_manager_def by blast+
    moreover from *(3) have "r < length (dm_nodes m)"
      by (simp add: denotes_def)
    ultimately show ?thesis
      using extends_denotes [OF ext *(3)] extends_variable [OF ext] extends_eval [OF ext] len by simp
  qed
  moreover have "[] \<notin> set (dm_domains m')" "2 \<le> length (dm_nodes m')"
    using wf m' len by (simp_all add: wf_manager_def)
  ultimately show ?thesis
    using ext unfolding wf_manager_def by blast
qed

lemma stored_denotes:
  assumes wf: "wf_manager m" and d: "2 \<le> d" "d < length (dm_nodes m)" "dm_nodes m ! d = \<lparr>dd_variable = v, dd_children = cs\<rparr>"
    and fs: "list_all2 (denotes m) cs fs"
  shows "denotes m d (\<lambda>\<sigma>. (fs ! \<sigma> (nat v)) \<sigma>) \<and> variable_of m d = v"
proof -
  have fits: "node_fits m d v cs"
    using wf_nodeD(1) [OF wf d(1,2)] d(3) by simp
  have "eval_decision (dm_nodes m) \<sigma> d = (fs ! \<sigma> (nat v)) \<sigma>" if \<sigma>: "admissible (dm_domains m) \<sigma>" for \<sigma>
  proof -
    have k: "\<sigma> (nat v) < length cs"
      using fits \<sigma> by (auto simp: node_fits_def admissible_def)
    then have "cs ! \<sigma> (nat v) < d"
      using fits by (auto simp: node_fits_def)
    then have "eval_decision (dm_nodes m) \<sigma> d = eval_decision (dm_nodes m) \<sigma> (cs ! \<sigma> (nat v))"
      using d by (simp add: eval_decision.simps [of _ _ d] Let_def)
    then show ?thesis
      using list_all2_nthD [OF fs k] \<sigma> by (simp add: denotes_def)
  qed
  then show ?thesis
    using d by (simp add: denotes_def variable_of_def decisionTrue_def)
qed

lemma makeNode_yields:
  assumes wf: "wf_manager m" and fits: "node_fits m (length (dm_nodes m)) v cs" and fs: "list_all2 (denotes m) cs fs"
  shows "yields m v (\<lambda>\<sigma>. (fs ! \<sigma> (nat v)) \<sigma>) (makeNode m v cs)"
proof -
  have len: "length cs = length (dm_domains m ! nat v)" "nat v < length (dm_domains m)" "2 \<le> length (dm_nodes m)"
    using fits wf by (auto simp: node_fits_def wf_manager_def)
  have "[] \<notin> set (dm_domains m)"
    using wf by (simp add: wf_manager_def)
  then have "dm_domains m ! nat v \<noteq> []"
    using nth_mem [OF len(2)] by metis
  then obtain c rest where cs: "cs = c # rest"
    using len(1) by (cases cs) auto
  show ?thesis
  proof (cases "list_all (\<lambda>d. d = c) rest")
    case True
    have "eval_decision (dm_nodes m) \<sigma> c = (fs ! \<sigma> (nat v)) \<sigma>" if \<sigma>: "admissible (dm_domains m) \<sigma>" for \<sigma>
    proof -
      have k: "\<sigma> (nat v) < length cs"
        using len \<sigma> by (simp add: admissible_def)
      moreover have "cs ! \<sigma> (nat v) = c"
        using True k by (cases "\<sigma> (nat v)") (auto simp: cs list_all_length)
      ultimately show ?thesis
        using list_all2_nthD [OF fs k] \<sigma> by (simp add: denotes_def)
    qed
    then show ?thesis
      using True fits wf by (auto simp: makeNode_def cs yields_def denotes_def node_fits_def)
  next
    case False
    then have some: "\<exists>d \<in> set cs. d \<noteq> 0"
      by (auto simp: cs list_all_iff)
    show ?thesis
    proof (cases "map_of (dm_unique m) (v, cs)")
      case (Some d)
      then have "2 \<le> d" "d < length (dm_nodes m)" "dm_nodes m ! d = \<lparr>dd_variable = v, dd_children = cs\<rparr>"
        using wf unfolding wf_manager_def by blast+
      then show ?thesis
        using stored_denotes [OF wf _ _ _ fs] wf False Some by (simp add: makeNode_def cs yields_def)
    next
      case None
      define m' where "m' = m\<lparr>dm_nodes := dm_nodes m @ [\<lparr>dd_variable = v, dd_children = cs\<rparr>],
        dm_unique := AList.update (v, cs) (length (dm_nodes m)) (dm_unique m)\<rparr>"
      have m': "wf_manager m'" "extends_manager m m'"
        using wf_add_node [OF wf fits some m'_def] by auto
      have "list_all2 (denotes m') cs fs"
        using fs by (rule list_all2_mono) (rule extends_denotes [OF m'(2)])
      then have "denotes m' (length (dm_nodes m)) (\<lambda>\<sigma>. (fs ! \<sigma> (nat v)) \<sigma>) \<and> variable_of m' (length (dm_nodes m)) = v"
        using len(3) by (intro stored_denotes [OF m'(1)]) (simp_all add: m'_def)
      then show ?thesis
        using m' None False by (simp add: makeNode_def cs yields_def too_many_def m'_def)
    qed
  qed
qed

lemma decision_equal_yields:
  assumes wf: "wf_manager m" and v: "v < length (dm_domains m)"
  shows "yields m (int v) (\<lambda>\<sigma>. dm_domains m ! v ! \<sigma> v = route) (decision_equal m v route)"
proof -
  let ?cs = "map (\<lambda>candidate. if candidate = route then decisionTrue else decisionFalse) (dm_domains m ! v)"
  let ?fs = "map (\<lambda>candidate \<sigma>. candidate = route) (dm_domains m ! v)"
  have "node_fits m (length (dm_nodes m)) (int v) ?cs"
    using wf v by (auto simp: node_fits_def variable_of_def wf_manager_def decisionTrue_def decisionFalse_def)
  moreover have "list_all2 (denotes m) ?cs ?fs"
    using denotes_terminal [OF wf] by (auto simp: list_all2_conv_all_nth decisionTrue_def decisionFalse_def)
  ultimately have "yields m (int v) (\<lambda>\<sigma>. (?fs ! \<sigma> (nat (int v))) \<sigma>) (makeNode m (int v) ?cs)"
    by (rule makeNode_yields [OF wf])
  moreover have "denotes m' d (\<lambda>\<sigma>. (?fs ! \<sigma> v) \<sigma>) \<longleftrightarrow> denotes m' d (\<lambda>\<sigma>. dm_domains m ! v ! \<sigma> v = route)"
    if "extends_manager m m'" for m' d
    using v extends_domains [OF that] by (simp add: denotes_def admissible_def)
  ultimately show ?thesis
    using v by (auto simp: decision_equal_def yields_def split: sum.splits)
qed

section \<open>Conjunction and disjunction\<close>

lemma yields_terminal: "wf_manager m \<Longrightarrow> denotes m d f \<Longrightarrow> low \<le> variable_of m d \<Longrightarrow> yields m low f (Inr (d, m))"
  by (simp add: yields_def)

lemma denotes_cong:
  "denotes m d f \<Longrightarrow> (\<And>\<sigma>. admissible (dm_domains m) \<sigma> \<Longrightarrow> f \<sigma> = g \<sigma>) \<Longrightarrow> denotes m d g"
  by (auto simp: denotes_def)

lemma yields_cong:
  "yields m low f r \<Longrightarrow> (\<And>\<sigma>. admissible (dm_domains m) \<sigma> \<Longrightarrow> f \<sigma> = g \<sigma>) \<Longrightarrow> yields m low g r"
  by (auto simp: yields_def denotes_def extends_domains split: sum.splits)

lemma eval_terminal [simp]: "\<not> eval_decision nodes \<sigma> 0" "eval_decision nodes \<sigma> (Suc 0)"
  by (simp_all add: eval_decision.simps)

lemma opf_commute: "opf operation a b = opf operation b a"
  by (auto simp: opf_def)

text \<open>The cases without a recursive call.\<close>

lemma apply_terminal_denotes:
  assumes wf: "wf_manager m" and l: "l < length (dm_nodes m)" and r: "r < length (dm_nodes m)" and le: "l \<le> r"
    and d: "apply_terminal operation l r = Some d"
  shows "denotes m d (\<lambda>\<sigma>. opf operation (eval_decision (dm_nodes m) \<sigma> l) (eval_decision (dm_nodes m) \<sigma> r))
    \<and> min (variable_of m l) (variable_of m r) \<le> variable_of m d"
proof -
  have "d = l \<or> d = r \<or> d \<le> 1"
    using d by (auto simp: apply_terminal_def decisionTrue_def decisionFalse_def split: if_splits)
  then have "min (variable_of m l) (variable_of m r) \<le> variable_of m d"
    using variable_bounds [OF wf l] by (auto simp: variable_of_def decisionTrue_def)
  moreover have "d < length (dm_nodes m)"
    using wf l r \<open>d = l \<or> d = r \<or> d \<le> 1\<close> by (auto simp: wf_manager_def)
  moreover have "eval_decision (dm_nodes m) \<sigma> d = opf operation (eval_decision (dm_nodes m) \<sigma> l) (eval_decision (dm_nodes m) \<sigma> r)" for \<sigma>
    using d by (auto simp: apply_terminal_def decisionTrue_def decisionFalse_def opf_def split: if_splits)
  ultimately show ?thesis
    by (simp add: denotes_def)
qed

lemma apply_terminal_None:
  "apply_terminal operation l r = None \<Longrightarrow> l \<le> r \<Longrightarrow> 2 \<le> l \<and> 2 \<le> r"
  by (auto simp: apply_terminal_def decisionTrue_def decisionFalse_def split: if_splits)

definition yields_all :: "decisionManager \<Rightarrow> int \<Rightarrow> (assignment \<Rightarrow> bool) list \<Rightarrow> (decisionID list \<times> decisionManager) result \<Rightarrow> bool" where
  "yields_all m low fs r = (case r of
     Inl e \<Rightarrow> e = too_many
   | Inr (ds, m') \<Rightarrow> wf_manager m' \<and> extends_manager m m' \<and> list_all2 (denotes m') ds fs \<and> (\<forall>d \<in> set ds. low \<le> variable_of m' d))"

lemma yields_all_Cons:
  assumes head: "yields m low f (Inr (d, m1))" and rest: "yields_all m1 low fs (Inr (ds, m2))"
  shows "yields_all m low (f # fs) (Inr (d # ds, m2))"
proof -
  have "extends_manager m m1" "extends_manager m1 m2" "denotes m1 d f" "low \<le> variable_of m1 d"
    using head rest by (auto simp: yields_def yields_all_def)
  moreover have "d < length (dm_nodes m1)"
    using \<open>denotes m1 d f\<close> by (simp add: denotes_def)
  ultimately show ?thesis
    using rest extends_trans extends_denotes [of m1 m2] extends_variable [of m1 m2 d] by (auto simp: yields_all_def)
qed

text \<open>A node over computed children.\<close>

lemma makeNode_over:
  assumes v: "0 \<le> v" "v < int (length (dm_domains m))" and fs: "length fs = length (dm_domains m ! nat v)"
    and cs: "yields_all m (v + 1) fs (Inr (cs, m1))"
  shows "yields m v (\<lambda>\<sigma>. (fs ! \<sigma> (nat v)) \<sigma>) (makeNode m1 v cs)"
proof -
  have m1: "wf_manager m1" "extends_manager m m1" "list_all2 (denotes m1) cs fs" "\<forall>c \<in> set cs. v + 1 \<le> variable_of m1 c"
    using cs by (auto simp: yields_all_def)
  have "\<forall>c \<in> set cs. c < length (dm_nodes m1)"
    using m1(3) by (auto simp: list_all2_conv_all_nth in_set_conv_nth denotes_def)
  then have "node_fits m1 (length (dm_nodes m1)) v cs"
    using v fs m1(4) list_all2_lengthD [OF m1(3)] extends_domains [OF m1(2)] by (auto simp: node_fits_def)
  then have "yields m1 v (\<lambda>\<sigma>. (fs ! \<sigma> (nat v)) \<sigma>) (makeNode m1 v cs)"
    by (rule makeNode_yields [OF m1(1) _ m1(3)])
  then show ?thesis
    using extends_trans [OF m1(2)] by (auto simp: yields_def split: sum.splits)
qed

lemma child_bounds:
  assumes wf: "wf_manager m" and d: "d < length (dm_nodes m)" and v: "v \<le> variable_of m d" "0 \<le> v" "v < int (length (dm_domains m))"
    and k: "k < length (dm_domains m ! nat v)"
  shows "child_of m d v k < length (dm_nodes m) \<and> v < variable_of m (child_of m d v k)"
proof (cases "d \<le> 1 \<or> dd_variable (dm_nodes m ! d) \<noteq> v")
  case True
  then show ?thesis
    using d v by (auto simp: child_of_def variable_of_def decisionTrue_def)
next
  case False
  then have fits: "node_fits m d v (dd_children (dm_nodes m ! d))"
    using wf_nodeD(1) [OF wf, of d] d by auto
  then have "dd_children (dm_nodes m ! d) ! k \<in> set (dd_children (dm_nodes m ! d))"
    using k by (auto simp: node_fits_def)
  then show ?thesis
    using False fits d by (auto simp: node_fits_def child_of_def decisionTrue_def)
qed

definition applies :: "string \<Rightarrow> nat \<Rightarrow> bool" where
  "applies operation fuel \<longleftrightarrow> (\<forall>m l r. wf_manager m \<longrightarrow> l < length (dm_nodes m) \<longrightarrow> r < length (dm_nodes m) \<longrightarrow>
     int (length (dm_domains m)) + 1 - min (variable_of m l) (variable_of m r) < int fuel \<longrightarrow>
     yields m (min (variable_of m l) (variable_of m r))
       (\<lambda>\<sigma>. opf operation (eval_decision (dm_nodes m) \<sigma> l) (eval_decision (dm_nodes m) \<sigma> r)) (applyBinary fuel operation m l r))"

lemma appliesD:
  "applies operation fuel \<Longrightarrow> wf_manager m \<Longrightarrow> l < length (dm_nodes m) \<Longrightarrow> r < length (dm_nodes m) \<Longrightarrow>
   int (length (dm_domains m)) + 1 - min (variable_of m l) (variable_of m r) < int fuel \<Longrightarrow>
   yields m (min (variable_of m l) (variable_of m r))
     (\<lambda>\<sigma>. opf operation (eval_decision (dm_nodes m) \<sigma> l) (eval_decision (dm_nodes m) \<sigma> r)) (applyBinary fuel operation m l r)"
  by (simp add: applies_def)

lemma yields_lower: "yields m low f r \<Longrightarrow> low' \<le> low \<Longrightarrow> yields m low' f r"
  by (auto simp: yields_def split: sum.splits)

lemma apply_choices_yields:
  assumes IH: "applies operation fuel" and "wf_manager m" and "l < length (dm_nodes m)" and "r < length (dm_nodes m)"
    and v: "0 \<le> v" and "v < int (length (dm_domains m))" and "v \<le> variable_of m l" and "v \<le> variable_of m r"
    and "int (length (dm_domains m)) - v < int fuel" and "\<forall>k \<in> set ks. k < length (dm_domains m ! nat v)"
  shows "yields_all m (v + 1) (map (\<lambda>k \<sigma>. opf operation (eval_decision (dm_nodes m) \<sigma> (child_of m l v k))
      (eval_decision (dm_nodes m) \<sigma> (child_of m r v k))) ks) (apply_choices fuel operation m l r v ks)"
  using assms(2-)
proof (induction ks arbitrary: m)
  case (Cons k ks)
  note prems = Cons.prems
  let ?f = "\<lambda>m k \<sigma>. opf operation (eval_decision (dm_nodes m) \<sigma> (child_of m l v k)) (eval_decision (dm_nodes m) \<sigma> (child_of m r v k))"
  have cl: "child_of m l v k < length (dm_nodes m)" "v < variable_of m (child_of m l v k)"
    and cr: "child_of m r v k < length (dm_nodes m)" "v < variable_of m (child_of m r v k)"
    using child_bounds [OF prems(1,2)] child_bounds [OF prems(1,3)] prems by auto
  have head: "yields m (v + 1) (?f m k) (applyBinary fuel operation m (child_of m l v k) (child_of m r v k))"
    using prems(8) cl cr by (intro yields_lower [OF appliesD [OF IH prems(1)]]) auto
  show ?case
  proof (cases "applyBinary fuel operation m (child_of m l v k) (child_of m r v k)")
    case (Inl e)
    then show ?thesis
      using head by (simp add: yields_def yields_all_def)
  next
    case (Inr p)
    then obtain d m1 where p: "applyBinary fuel operation m (child_of m l v k) (child_of m r v k) = Inr (d, m1)"
      by (cases p) auto
    then have m1: "wf_manager m1" "extends_manager m m1"
      using head by (auto simp: yields_def)
    have len: "length (dm_nodes m) \<le> length (dm_nodes m1)"
      using extends_length [OF m1(2)] .
    have same: "?f m1 j = ?f m j" if "j < length (dm_domains m ! nat v)" for j
      using child_bounds [OF prems(1,2,6,4,5) that] child_bounds [OF prems(1,3,7,4,5) that]
        extends_child [OF m1(2)] extends_eval [OF m1(2)] prems(2,3) by (simp add: fun_eq_iff)
    have "yields_all m1 (v + 1) (map (?f m1) ks) (apply_choices fuel operation m1 l r v ks)"
      using prems len extends_domains [OF m1(2)] extends_variable [OF m1(2)] by (intro Cons.IH [OF m1(1)]) auto
    moreover have "map (?f m1) ks = map (?f m) ks"
      using same prems(9) by auto
    ultimately have rest: "yields_all m1 (v + 1) (map (?f m) ks) (apply_choices fuel operation m1 l r v ks)"
      by simp
    show ?thesis
    proof (cases "apply_choices fuel operation m1 l r v ks")
      case (Inl e)
      then show ?thesis
        using p rest by (simp add: yields_all_def)
    next
      case (Inr q)
      then show ?thesis
        using p rest yields_all_Cons [of m "v + 1" "?f m k" d m1] head by (cases q) simp
    qed
  qed
qed (simp add: yields_all_def)

text \<open>The step of \<^verbatim>\<open>applyBinary\<close> past the tables: the choices, the node and the memo.\<close>

lemma apply_node_yields:
  assumes IH: "applies operation fuel" and wf: "wf_manager m" and l: "l < length (dm_nodes m)" "2 \<le> l"
    and r: "r < length (dm_nodes m)" "2 \<le> r" and v: "v = min (variable_of m l) (variable_of m r)"
    and fuel: "int (length (dm_domains m)) - v < int fuel"
    and cs: "apply_choices fuel operation m l r v [0 ..< length (dm_domains m ! nat v)] = Inr (cs, m1)"
  shows "yields m v (\<lambda>\<sigma>. opf operation (eval_decision (dm_nodes m) \<sigma> l) (eval_decision (dm_nodes m) \<sigma> r)) (makeNode m1 v cs)"
proof -
  have bounds: "0 \<le> v" "v < int (length (dm_domains m))" "v \<le> variable_of m l" "v \<le> variable_of m r"
    using variable_bounds [OF wf l(1)] variable_bounds [OF wf r(1)] l r v by auto
  let ?fs = "map (\<lambda>k \<sigma>. opf operation (eval_decision (dm_nodes m) \<sigma> (child_of m l v k))
      (eval_decision (dm_nodes m) \<sigma> (child_of m r v k))) [0 ..< length (dm_domains m ! nat v)]"
  have "yields_all m (v + 1) ?fs (Inr (cs, m1))"
    using apply_choices_yields [OF IH wf l(1) r(1) bounds fuel, of "[0 ..< length (dm_domains m ! nat v)]"] cs by simp
  then have node: "yields m v (\<lambda>\<sigma>. (?fs ! \<sigma> (nat v)) \<sigma>) (makeNode m1 v cs)"
    by (intro makeNode_over) (use bounds in simp_all)
  have mean: "(?fs ! \<sigma> (nat v)) \<sigma> = opf operation (eval_decision (dm_nodes m) \<sigma> l) (eval_decision (dm_nodes m) \<sigma> r)"
    if \<sigma>: "admissible (dm_domains m) \<sigma>" for \<sigma>
  proof -
    have "\<sigma> (nat v) < length (dm_domains m ! nat v)"
      using \<sigma> bounds by (auto simp: admissible_def)
    then show ?thesis
      using eval_child [OF wf l(1) bounds(3,1,2) \<sigma>] eval_child [OF wf r(1) bounds(4,1,2) \<sigma>] by simp
  qed
  show ?thesis
    using node mean by (rule yields_cong)
qed

lemma memo_apply_yields:
  assumes r: "yields m v (\<lambda>\<sigma>. opf operation (eval_decision (dm_nodes m) \<sigma> l) (eval_decision (dm_nodes m) \<sigma> r)) (Inr (d, m2))"
    and v: "v = min (variable_of m l) (variable_of m r)" and l: "l < length (dm_nodes m)" "r < length (dm_nodes m)"
  shows "yields m v (\<lambda>\<sigma>. opf operation (eval_decision (dm_nodes m) \<sigma> l) (eval_decision (dm_nodes m) \<sigma> r))
    (Inr (d, m2\<lparr>dm_apply := AList.update (operation, l, r) d (dm_apply m2)\<rparr>))"
proof -
  have m2: "wf_manager m2" "extends_manager m m2" "v \<le> variable_of m2 d"
      "denotes m2 d (\<lambda>\<sigma>. opf operation (eval_decision (dm_nodes m) \<sigma> l) (eval_decision (dm_nodes m) \<sigma> r))"
    using r by (auto simp: yields_def)
  then have "wf_manager (m2\<lparr>dm_apply := AList.update (operation, l, r) d (dm_apply m2)\<rparr>)"
    using extends_length [OF m2(2)] extends_variable [OF m2(2)] extends_eval [OF m2(2)] l v by (intro wf_set_apply) auto
  then show ?thesis
    using m2 by (simp add: yields_def)
qed

lemma applies_Suc:
  assumes IH: "applies operation fuel"
  shows "applies operation (Suc fuel)"
  unfolding applies_def
proof (intro allI impI)
  fix m l0 r0
  assume wf: "wf_manager m" and l0: "l0 < length (dm_nodes m)" and r0: "r0 < length (dm_nodes m)"
    and fuel: "int (length (dm_domains m)) + 1 - min (variable_of m l0) (variable_of m r0) < int (Suc fuel)"
  define l r v where "l = min l0 r0" and "r = max l0 r0" and "v = min (variable_of m l) (variable_of m r)"
  let ?f = "\<lambda>\<sigma>. opf operation (eval_decision (dm_nodes m) \<sigma> l) (eval_decision (dm_nodes m) \<sigma> r)"
  have lr: "l < length (dm_nodes m)" "r < length (dm_nodes m)" "l \<le> r" and v: "v = min (variable_of m l0) (variable_of m r0)"
    and f: "?f = (\<lambda>\<sigma>. opf operation (eval_decision (dm_nodes m) \<sigma> l0) (eval_decision (dm_nodes m) \<sigma> r0))"
    using l0 r0 by (auto simp: l_def r_def v_def min_def max_def opf_commute)
  have unfold: "applyBinary (Suc fuel) operation m l0 r0 = (case apply_terminal operation l r of Some d \<Rightarrow> Inr (d, m)
      | None \<Rightarrow> (case map_of (dm_apply m) (operation, l, r) of Some d \<Rightarrow> Inr (d, m)
      | None \<Rightarrow> (case apply_choices fuel operation m l r v [0 ..< length (dm_domains m ! nat v)] of Inl e \<Rightarrow> Inl e
      | Inr (cs, m1) \<Rightarrow> (case makeNode m1 v cs of Inl e \<Rightarrow> Inl e
      | Inr (d, m2) \<Rightarrow> Inr (d, m2\<lparr>dm_apply := AList.update (operation, l, r) d (dm_apply m2)\<rparr>)))))"
    by (simp only: applyBinary.simps Let_def l_def r_def v_def)
  have "yields m v ?f (applyBinary (Suc fuel) operation m l0 r0)"
  proof (cases "apply_terminal operation l r")
    case (Some d)
    then show ?thesis
      using apply_terminal_denotes [OF wf lr] wf by (simp add: unfold yields_def v_def)
  next
    case None
    note big = apply_terminal_None [OF None lr(3)]
    show ?thesis
    proof (cases "map_of (dm_apply m) (operation, l, r)")
      case (Some d)
      then have "min (variable_of m l) (variable_of m r) \<le> variable_of m d" "denotes m d ?f"
        using wf unfolding wf_manager_def by blast+
      then show ?thesis
        using Some None wf by (simp add: unfold yields_def v_def)
    next
      case unknown: None
      note step = apply_node_yields [OF IH wf lr(1) _ lr(2) _ v_def]
      show ?thesis
      proof (cases "apply_choices fuel operation m l r v [0 ..< length (dm_domains m ! nat v)]")
        case (Inl e)
        have "yields_all m (v + 1) (map (\<lambda>k \<sigma>. opf operation (eval_decision (dm_nodes m) \<sigma> (child_of m l v k))
            (eval_decision (dm_nodes m) \<sigma> (child_of m r v k))) [0 ..< length (dm_domains m ! nat v)])
            (apply_choices fuel operation m l r v [0 ..< length (dm_domains m ! nat v)])"
          using variable_bounds [OF wf lr(1)] variable_bounds [OF wf lr(2)] big fuel v
          by (intro apply_choices_yields [OF IH wf lr(1,2)]) (auto simp: v_def)
        then show ?thesis
          using Inl None unknown by (simp add: unfold yields_def yields_all_def)
      next
        case (Inr p)
        obtain cs m1 where p: "p = (cs, m1)"
          by (cases p)
        then have node: "yields m v ?f (makeNode m1 v cs)"
          using step [of cs m1] Inr big fuel v by simp
        show ?thesis
        proof (cases "makeNode m1 v cs")
          case e: (Inl e)
          then show ?thesis
            using Inr p None unknown node by (simp add: unfold yields_def)
        next
          case q: (Inr q)
          obtain d m2 where "q = (d, m2)"
            by (cases q)
          then show ?thesis
            using memo_apply_yields [of m v operation l r d m2] Inr p q None unknown node v_def lr by (simp add: unfold)
        qed
      qed
    qed
  qed
  then show "yields m (min (variable_of m l0) (variable_of m r0))
      (\<lambda>\<sigma>. opf operation (eval_decision (dm_nodes m) \<sigma> l0) (eval_decision (dm_nodes m) \<sigma> r0)) (applyBinary (Suc fuel) operation m l0 r0)"
    using v f by simp
qed

lemma applies_all: "applies operation fuel"
proof (induction fuel)
  case 0
  show ?case
    using variable_bounds by (fastforce simp: applies_def)
qed (rule applies_Suc)

lemma binary_yields:
  assumes "wf_manager m" and "l < length (dm_nodes m)" and "r < length (dm_nodes m)"
  shows "yields m 0 (\<lambda>\<sigma>. opf operation (eval_decision (dm_nodes m) \<sigma> l) (eval_decision (dm_nodes m) \<sigma> r))
    (applyBinary (length (dm_domains m) + 2) operation m l r)"
  using variable_bounds [OF assms(1,2)] variable_bounds [OF assms(1,3)]
  by (intro yields_lower [OF appliesD [OF applies_all assms]]) auto

section \<open>Negation\<close>

definition negates :: "nat \<Rightarrow> bool" where
  "negates fuel \<longleftrightarrow> (\<forall>m d. wf_manager m \<longrightarrow> d < length (dm_nodes m) \<longrightarrow>
     int (length (dm_domains m)) + 1 - variable_of m d < int fuel \<longrightarrow>
     yields m (variable_of m d) (\<lambda>\<sigma>. \<not> eval_decision (dm_nodes m) \<sigma> d) (not_fuel fuel m d))"

lemma negatesD:
  "negates fuel \<Longrightarrow> wf_manager m \<Longrightarrow> d < length (dm_nodes m) \<Longrightarrow> int (length (dm_domains m)) + 1 - variable_of m d < int fuel \<Longrightarrow>
   yields m (variable_of m d) (\<lambda>\<sigma>. \<not> eval_decision (dm_nodes m) \<sigma> d) (not_fuel fuel m d)"
  by (simp add: negates_def)

lemma not_children_yields:
  assumes IH: "negates fuel" and "wf_manager m" and "\<forall>c \<in> set cs. c < length (dm_nodes m) \<and> v < variable_of m c"
    and "int (length (dm_domains m)) - v < int fuel"
  shows "yields_all m (v + 1) (map (\<lambda>c \<sigma>. \<not> eval_decision (dm_nodes m) \<sigma> c) cs) (not_children fuel m cs)"
  using assms(2-)
proof (induction cs arbitrary: m)
  case (Cons c cs)
  note prems = Cons.prems
  let ?f = "\<lambda>m c \<sigma>. \<not> eval_decision (dm_nodes m) \<sigma> c"
  have head: "yields m (v + 1) (?f m c) (not_fuel fuel m c)"
    using prems by (intro yields_lower [OF negatesD [OF IH prems(1)]]) auto
  show ?case
  proof (cases "not_fuel fuel m c")
    case (Inl e)
    then show ?thesis
      using head by (simp add: yields_def yields_all_def)
  next
    case (Inr p)
    then obtain d m1 where p: "not_fuel fuel m c = Inr (d, m1)"
      by (cases p) auto
    then have m1: "wf_manager m1" "extends_manager m m1"
      using head by (auto simp: yields_def)
    have "yields_all m1 (v + 1) (map (?f m1) cs) (not_children fuel m1 cs)"
      using prems extends_length [OF m1(2)] extends_domains [OF m1(2)] extends_variable [OF m1(2)]
      by (intro Cons.IH [OF m1(1)]) auto
    moreover have "map (?f m1) cs = map (?f m) cs"
      using prems(2) extends_eval [OF m1(2)] by auto
    ultimately have rest: "yields_all m1 (v + 1) (map (?f m) cs) (not_children fuel m1 cs)"
      by simp
    show ?thesis
    proof (cases "not_children fuel m1 cs")
      case (Inl e)
      then show ?thesis
        using p rest by (simp add: yields_all_def)
    next
      case (Inr q)
      then show ?thesis
        using p rest yields_all_Cons [of m "v + 1" "?f m c" d m1] head by (cases q) simp
    qed
  qed
qed (simp add: yields_all_def)

lemma memo_negation_yields:
  assumes r: "yields m (variable_of m d) (\<lambda>\<sigma>. \<not> eval_decision (dm_nodes m) \<sigma> d) (Inr (e, m2))" and d: "d < length (dm_nodes m)"
  shows "yields m (variable_of m d) (\<lambda>\<sigma>. \<not> eval_decision (dm_nodes m) \<sigma> d)
    (Inr (e, m2\<lparr>dm_negation := AList.update d e (dm_negation m2)\<rparr>))"
proof -
  have m2: "wf_manager m2" "extends_manager m m2" "variable_of m d \<le> variable_of m2 e"
      "denotes m2 e (\<lambda>\<sigma>. \<not> eval_decision (dm_nodes m) \<sigma> d)"
    using r by (auto simp: yields_def)
  then have "wf_manager (m2\<lparr>dm_negation := AList.update d e (dm_negation m2)\<rparr>)"
    using extends_length [OF m2(2)] extends_variable [OF m2(2)] extends_eval [OF m2(2)] d by (intro wf_set_negation) auto
  then show ?thesis
    using m2 by (simp add: yields_def)
qed

lemma not_node_yields:
  assumes wf: "wf_manager m" and d: "d < length (dm_nodes m)" "2 \<le> d"
    and cs: "yields_all m (variable_of m d + 1) (map (\<lambda>c \<sigma>. \<not> eval_decision (dm_nodes m) \<sigma> c) (dd_children (dm_nodes m ! d))) (Inr (cs, m1))"
  shows "yields m (variable_of m d) (\<lambda>\<sigma>. \<not> eval_decision (dm_nodes m) \<sigma> d) (makeNode m1 (variable_of m d) cs)"
proof -
  let ?v = "variable_of m d"
  let ?fs = "map (\<lambda>c \<sigma>. \<not> eval_decision (dm_nodes m) \<sigma> c) (dd_children (dm_nodes m ! d))"
  have v: "dd_variable (dm_nodes m ! d) = ?v"
    using d by (simp add: variable_of_def decisionTrue_def)
  have bounds: "0 \<le> ?v" "?v < int (length (dm_domains m))" "length (dd_children (dm_nodes m ! d)) = length (dm_domains m ! nat ?v)"
    using wf_nodeD(1) [OF wf d(2,1)] by (simp_all add: node_fits_def v)
  have node: "yields m ?v (\<lambda>\<sigma>. (?fs ! \<sigma> (nat ?v)) \<sigma>) (makeNode m1 ?v cs)"
    using bounds by (intro makeNode_over [OF _ _ _ cs]) simp_all
  have mean: "(?fs ! \<sigma> (nat ?v)) \<sigma> = (\<not> eval_decision (dm_nodes m) \<sigma> d)" if \<sigma>: "admissible (dm_domains m) \<sigma>" for \<sigma>
  proof -
    have "\<sigma> (nat ?v) < length (dd_children (dm_nodes m ! d))"
      using \<sigma> bounds by (auto simp: admissible_def)
    then show ?thesis
      using eval_child [OF wf d(1) _ bounds(1,2) \<sigma>] d v by (simp add: child_of_def decisionTrue_def)
  qed
  show ?thesis
    using node mean by (rule yields_cong)
qed

lemma negates_Suc:
  assumes IH: "negates fuel"
  shows "negates (Suc fuel)"
  unfolding negates_def
proof (intro allI impI)
  fix m d
  assume wf: "wf_manager m" and d: "d < length (dm_nodes m)" and fuel: "int (length (dm_domains m)) + 1 - variable_of m d < int (Suc fuel)"
  let ?f = "\<lambda>\<sigma>. \<not> eval_decision (dm_nodes m) \<sigma> d"
  show "yields m (variable_of m d) ?f (not_fuel (Suc fuel) m d)"
  proof (cases "d \<le> 1")
    case True
    then have "d = 0 \<or> d = 1"
      by auto
    then show ?thesis
      using denotes_terminal [OF wf] wf
      by (auto simp: not_fuel.simps decisionTrue_def decisionFalse_def yields_def variable_of_def)
  next
    case False
    let ?v = "variable_of m d"
    have v: "dd_variable (dm_nodes m ! d) = ?v"
      using False by (simp add: variable_of_def decisionTrue_def)
    have unfold: "not_fuel (Suc fuel) m d = (case map_of (dm_negation m) d of Some e \<Rightarrow> Inr (e, m)
        | None \<Rightarrow> (case not_children fuel m (dd_children (dm_nodes m ! d)) of Inl e \<Rightarrow> Inl e
        | Inr (cs, m1) \<Rightarrow> (case makeNode m1 ?v cs of Inl e \<Rightarrow> Inl e
        | Inr (r, m2) \<Rightarrow> Inr (r, m2\<lparr>dm_negation := AList.update d r (dm_negation m2)\<rparr>))))"
      using False by (simp only: not_fuel.simps Let_def v) (simp add: decisionTrue_def decisionFalse_def)
    have "\<forall>c \<in> set (dd_children (dm_nodes m ! d)). c < length (dm_nodes m) \<and> ?v < variable_of m c"
      using wf_nodeD(1) [OF wf _ d] False d by (auto simp: node_fits_def v)
    then have children: "yields_all m (?v + 1) (map (\<lambda>c \<sigma>. \<not> eval_decision (dm_nodes m) \<sigma> c) (dd_children (dm_nodes m ! d)))
        (not_children fuel m (dd_children (dm_nodes m ! d)))"
      using fuel by (intro not_children_yields [OF IH wf]) auto
    show ?thesis
    proof (cases "map_of (dm_negation m) d")
      case (Some e)
      then have "variable_of m d \<le> variable_of m e" "denotes m e ?f"
        using wf unfolding wf_manager_def by blast+
      then show ?thesis
        using Some wf by (simp add: unfold yields_def)
    next
      case None
      show ?thesis
      proof (cases "not_children fuel m (dd_children (dm_nodes m ! d))")
        case (Inl e)
        then show ?thesis
          using children None by (simp add: unfold yields_def yields_all_def)
      next
        case (Inr p)
        obtain cs m1 where p: "p = (cs, m1)"
          by (cases p)
        then have node: "yields m ?v ?f (makeNode m1 ?v cs)"
          using not_node_yields [OF wf d] children Inr False by simp
        show ?thesis
        proof (cases "makeNode m1 ?v cs")
          case e: (Inl e)
          then show ?thesis
            using None Inr p node by (simp add: unfold yields_def)
        next
          case q: (Inr q)
          obtain e m2 where "q = (e, m2)"
            by (cases q)
          then show ?thesis
            using memo_negation_yields [of m d e m2] None Inr p q node d by (simp add: unfold)
        qed
      qed
    qed
  qed
qed

lemma negates_all: "negates fuel"
proof (induction fuel)
  case 0
  show ?case
    using variable_bounds by (fastforce simp: negates_def)
qed (rule negates_Suc)

lemma not_yields:
  assumes "wf_manager m" and "d < length (dm_nodes m)"
  shows "yields m 0 (\<lambda>\<sigma>. \<not> eval_decision (dm_nodes m) \<sigma> d) (decision_not m d)"
  using variable_bounds [OF assms] unfolding decision_not_def
  by (intro yields_lower [OF negatesD [OF negates_all assms]]) auto

section \<open>Satisfiability\<close>

lemma eval_agree:
  assumes "wf_manager m" and "d < length (dm_nodes m)" and "\<forall>v. variable_of m d \<le> int v \<longrightarrow> \<sigma> v = \<tau> v"
    and "admissible (dm_domains m) \<sigma>"
  shows "eval_decision (dm_nodes m) \<sigma> d = eval_decision (dm_nodes m) \<tau> d"
  using assms(2,3)
proof (induction d rule: less_induct)
  case (less d)
  show ?case
  proof (cases "d \<le> 1")
    case False
    then have fits: "node_fits m d (dd_variable (dm_nodes m ! d)) (dd_children (dm_nodes m ! d))"
      using wf_nodeD(1) [OF assms(1), of d] less.prems by simp
    let ?v = "dd_variable (dm_nodes m ! d)"
    let ?c = "dd_children (dm_nodes m ! d) ! \<sigma> (nat ?v)"
    have v: "0 \<le> ?v" "?v < int (length (dm_domains m))" "variable_of m d = ?v"
      using fits False by (auto simp: node_fits_def variable_of_def decisionTrue_def)
    then have same: "\<sigma> (nat ?v) = \<tau> (nat ?v)"
      using less.prems by simp
    have "?c \<in> set (dd_children (dm_nodes m ! d))"
      using fits v assms(4) by (auto simp: node_fits_def admissible_def)
    then have c: "?c < d" "?v < variable_of m ?c"
      using fits by (auto simp: node_fits_def)
    then have "eval_decision (dm_nodes m) \<sigma> ?c = eval_decision (dm_nodes m) \<tau> ?c"
      using less v(3) by auto
    then show ?thesis
      using False same c by (simp add: eval_decision.simps [of _ _ d] Let_def)
  qed (simp add: eval_decision.simps)
qed

lemma admissible_zero: "wf_manager m \<Longrightarrow> admissible (dm_domains m) (\<lambda>_. 0)"
  by (auto simp: admissible_def wf_manager_def) (metis nth_mem)

text \<open>Every diagram but the false one is true under some assignment.\<close>

lemma satisfiable:
  assumes wf: "wf_manager m" and d: "d < length (dm_nodes m)" "d \<noteq> 0"
  shows "\<exists>\<sigma>. admissible (dm_domains m) \<sigma> \<and> eval_decision (dm_nodes m) \<sigma> d"
  using d
proof (induction d rule: less_induct)
  case (less d)
  show ?case
  proof (cases "d = 1")
    case True
    then show ?thesis
      using admissible_zero [OF wf] by auto
  next
    case False
    let ?v = "dd_variable (dm_nodes m ! d)"
    let ?cs = "dd_children (dm_nodes m ! d)"
    have d: "2 \<le> d"
      using False less.prems by simp
    have fits: "node_fits m d ?v ?cs" and "\<exists>c \<in> set ?cs. c \<noteq> 0"
      using wf_nodeD [OF wf d less.prems(1)] by auto
    then obtain k where k: "k < length ?cs" "?cs ! k \<noteq> 0"
      by (auto simp: in_set_conv_nth)
    then have c: "?cs ! k < d" "?v < variable_of m (?cs ! k)" and v: "0 \<le> ?v" "k < length (dm_domains m ! nat ?v)"
      using fits by (auto simp: node_fits_def)
    then obtain \<sigma> where \<sigma>: "admissible (dm_domains m) \<sigma>" "eval_decision (dm_nodes m) \<sigma> (?cs ! k)"
      using less k by fastforce
    let ?\<tau> = "\<sigma>(nat ?v := k)"
    have \<tau>: "admissible (dm_domains m) ?\<tau>"
      using \<sigma>(1) v by (simp add: admissible_def)
    have "eval_decision (dm_nodes m) \<sigma> (?cs ! k) = eval_decision (dm_nodes m) ?\<tau> (?cs ! k)"
      using c v less.prems by (intro eval_agree [OF wf _ _ \<sigma>(1)]) auto
    then have "eval_decision (dm_nodes m) ?\<tau> d"
      using \<sigma>(2) d c by (simp add: eval_decision.simps [of _ _ d] Let_def)
    then show ?thesis
      using \<tau> by blast
  qed
qed

lemma false_iff:
  assumes "wf_manager m" and "denotes m d f"
  shows "d = decisionFalse \<longleftrightarrow> (\<forall>\<sigma>. admissible (dm_domains m) \<sigma> \<longrightarrow> \<not> f \<sigma>)"
  using satisfiable [OF assms(1), of d] assms(2) by (auto simp: denotes_def decisionFalse_def)

end
