(* ===== verification/Control_Laws.thy ===== *)
theory Control_Laws
  imports Control_Graph Decision_Laws Dsl_Graph
begin

text \<open>
  What the analysis of the control graph computes for a document whose identities, edges and references
  are sound: the order is topological and complete exactly when the graph has no cycle, the reachability
  loops compute reachability, and the bit sets of descendants are the transitive closure of the edges.
\<close>

section \<open>The maps\<close>

definition sorted_edges :: "IrDocument \<Rightarrow> IrEdge list" where
  "sorted_edges d = sort_key ire_ID (ird_Edges d)"

definition ir_pairs :: "IrDocument \<Rightarrow> (LogicalID \<times> LogicalID) list" where
  "ir_pairs d = map (\<lambda>e. (ire_Source e, ire_Target e)) (sorted_edges d)"

abbreviation ir_rel :: "IrDocument \<Rightarrow> (LogicalID \<times> LogicalID) set" where
  "ir_rel d \<equiv> set (ir_pairs d)"

lemma set_sorted_edges [simp]: "set (sorted_edges d) = set (ird_Edges d)"
  by (simp add: sorted_edges_def)

lemma ir_rel_iff: "(u, v) \<in> ir_rel d \<longleftrightarrow> (\<exists>e \<in> set (ird_Edges d). ire_Source e = u \<and> ire_Target e = v)"
  by (auto simp: ir_pairs_def)

lemma fold_update_fresh:
  "distinct (map key xs) \<Longrightarrow> \<forall>x \<in> set xs. key x \<notin> fst ` set m \<Longrightarrow>
     fold (\<lambda>x. AList.update (key x) (val x)) xs m = m @ map (\<lambda>x. (key x, val x)) xs"
proof (induction xs arbitrary: m)
  case (Cons x xs)
  have "key y \<noteq> key x" if "y \<in> set xs" for y
    using Cons.prems(1) that by (metis distinct.simps(2) image_eqI list.set_map list.simps(9))
  then show ?case
    using Cons by (simp add: update_new)
qed simp

lemma slice_at_sort_known:
  "slice_at (sort_known nodes m) v = (if map_of nodes v = None then slice_at m v else sort_key ire_ID (slice_at m v))"
  by (induction m) (auto simp: slice_at_def sort_known_def)

lemma graph_maps_nodes:
  assumes "ir_wf d"
  shows "ga_nodes (graph_maps d) = map (\<lambda>n. (irn_ID n, n)) (ird_Nodes d)"
  using assms fold_update_fresh [of irn_ID "ird_Nodes d" "[]" "\<lambda>n. n"] by (simp add: graph_maps_def Let_def ir_wf_def)

lemma graph_maps_slices:
  assumes wf: "ir_wf d"
  shows "slice_at (ga_incoming (graph_maps d)) v = filter (\<lambda>e. ire_Target e = v) (sorted_edges d)"
    and "slice_at (ga_outgoing (graph_maps d)) v = filter (\<lambda>e. ire_Source e = v) (sorted_edges d)"
proof -
  have ends: "\<forall>e \<in> set (ird_Edges d). ire_Source e \<in> ir_ids d \<and> ire_Target e \<in> ir_ids d"
    using wf by (simp add: ir_wf_def)
  have none: "filter (\<lambda>e. ire_Target e = v) (ird_Edges d) = []" "filter (\<lambda>e. ire_Source e = v) (ird_Edges d) = []"
    if "map_of (map (\<lambda>n. (irn_ID n, n)) (ird_Nodes d)) v = None"
  proof -
    have "v \<notin> ir_ids d"
      using first_nodes_ids [of d v] that by (simp add: first_nodes_def)
    then show "filter (\<lambda>e. ire_Target e = v) (ird_Edges d) = []" "filter (\<lambda>e. ire_Source e = v) (ird_Edges d) = []"
      using ends by (auto simp: filter_empty_conv)
  qed
  have nodes: "fold (\<lambda>n. AList.update (irn_ID n) n) (ird_Nodes d) [] = map (\<lambda>n. (irn_ID n, n)) (ird_Nodes d)"
    using graph_maps_nodes [OF wf] by (simp add: graph_maps_def Let_def)
  show "slice_at (ga_incoming (graph_maps d)) v = filter (\<lambda>e. ire_Target e = v) (sorted_edges d)"
    using none by (simp add: graph_maps_def Let_def nodes slice_at_sort_known slice_at_fold_append sorted_edges_def filter_sort)
  show "slice_at (ga_outgoing (graph_maps d)) v = filter (\<lambda>e. ire_Source e = v) (sorted_edges d)"
    using none by (simp add: graph_maps_def Let_def nodes slice_at_sort_known slice_at_fold_append sorted_edges_def filter_sort)
qed

section \<open>The loop over the nodes\<close>

lemma degree_diagnostics_domains [simp]:
  "degree_diagnostics (a\<lparr>ga_branchDomains := m\<rparr>) n = degree_diagnostics a n"
  by (simp add: degree_diagnostics_def)

definition node_reports :: "graphAnalysis \<Rightarrow> IrNode \<Rightarrow> Diagnostic list" where
  "node_reports a n = degree_diagnostics a n @ (if irn_Type n = ''branch'' then fst (validateBranchRoutes n a) else [])"

lemma node_reports_domains [simp]: "node_reports (a\<lparr>ga_branchDomains := m\<rparr>) = node_reports a"
  by (simp add: fun_eq_iff node_reports_def validateBranchRoutes_def Let_def)

lemma graph_node_step_eq:
  "graph_node_step n (ds, a) = (ds @ node_reports a n,
     if irn_Type n = ''branch''
     then a\<lparr>ga_branchDomains := AList.update (irn_ID n) (branch_domain n) (ga_branchDomains a)\<rparr> else a)"
  by (simp add: graph_node_step_def node_reports_def validateBranchRoutes_def Let_def)

lemma graph_node_fold:
  "fold graph_node_step ns (ds, a) =
     (ds @ concat (map (node_reports a) ns),
      a\<lparr>ga_branchDomains := fold (\<lambda>n. AList.update (irn_ID n) (branch_domain n))
          (filter (\<lambda>n. irn_Type n = ''branch'') ns) (ga_branchDomains a)\<rparr>)"
  by (induction ns arbitrary: ds a) (simp_all add: graph_node_step_eq)

definition local_analysis :: "IrDocument \<Rightarrow> graphAnalysis" where
  "local_analysis d = (graph_maps d)\<lparr>ga_branchDomains := fold (\<lambda>n. AList.update (irn_ID n) (branch_domain n))
     (filter (\<lambda>n. irn_Type n = ''branch'') (ird_Nodes d)) []\<rparr>"

lemma local_analysis_fields [simp]:
  "ga_nodes (local_analysis d) = ga_nodes (graph_maps d)" "ga_incoming (local_analysis d) = ga_incoming (graph_maps d)"
  "ga_outgoing (local_analysis d) = ga_outgoing (graph_maps d)" "ga_start (local_analysis d) = ga_start (graph_maps d)"
  "ga_end (local_analysis d) = ga_end (graph_maps d)"
  by (simp_all add: local_analysis_def)

definition order_of :: "IrDocument \<Rightarrow> LogicalID list" where
  "order_of d = topologicalOrder (ga_nodes (graph_maps d)) (ga_incoming (graph_maps d)) (ga_outgoing (graph_maps d))"

definition graph_reports :: "IrDocument \<Rightarrow> Diagnostic list" where
  "graph_reports d = snd (analyzeControlGraph d)"

lemma graph_maps_plain [simp]: "ga_branchDomains (graph_maps d) = []"
  by (simp add: graph_maps_def Let_def)

lemma analyze_fst:
  "fst (analyzeControlGraph d) = (if length (order_of d) = length (ga_nodes (graph_maps d))
     then buildDescendants ((local_analysis d)\<lparr>ga_topological := order_of d\<rparr>)
     else (local_analysis d)\<lparr>ga_topological := order_of d\<rparr>)"
  by (simp add: analyzeControlGraph_def Let_def graph_node_fold order_of_def local_analysis_def)

lemma unreached_errors:
  "HasErrors (unreached a d reachable code message) \<longleftrightarrow> (\<exists>n \<in> set (ird_Nodes d). irn_ID n \<notin> reachable)"
  by (auto simp: unreached_def HasErrors_concat graph_error_def)

lemma analyze_accepted:
  assumes "\<not> HasErrors (snd (analyzeControlGraph d))"
  shows "length (nodes_of_type ''start'' d) = 1" and "length (nodes_of_type ''end'' d) = 1"
    and "\<forall>n \<in> set (ird_Nodes d). \<not> HasErrors (node_reports (graph_maps d) n)"
    and "length (order_of d) = length (ga_nodes (graph_maps d))"
    and "ga_start (graph_maps d) \<noteq> '''' \<Longrightarrow>
      \<forall>n \<in> set (ird_Nodes d). irn_ID n \<in> graphReachable (ga_start (graph_maps d)) (ga_outgoing (graph_maps d)) False"
    and "ga_end (graph_maps d) \<noteq> '''' \<Longrightarrow>
      \<forall>n \<in> set (ird_Nodes d). irn_ID n \<in> graphReachable (ga_end (graph_maps d)) (ga_incoming (graph_maps d)) True"
  using assms
  by (auto simp: analyzeControlGraph_def Let_def graph_node_fold order_of_def HasErrors_concat graph_error_def unreached_errors
      split: if_splits)

section \<open>Order and reachability\<close>

interpretation compiler_sweep: topological_sweep "order_loop outgoing" "\<lambda>v. map ire_Target (slice_at outgoing v)" "\<lambda>ds. ds"
  for outgoing
  by unfold_locales (simp_all split: prod.split)

interpretation compiler_search: stack_search "graph_reach_loop edges reverse"
    "\<lambda>v. map (edge_next reverse) (slice_at edges v)" "edge_targets reverse edges"
  for edges reverse
  by unfold_locales (use edge_targets_slice in \<open>auto simp: edge_targets_def split: prod.split\<close>)

lemma order_correct:
  assumes wf: "ir_wf d"
  shows "distinct (order_of d) \<and> set (order_of d) \<subseteq> ir_ids d \<and> topo (ir_rel d) (order_of d)
    \<and> (length (order_of d) = length (ird_Nodes d) \<longleftrightarrow> acyclic (ir_rel d))"
proof -
  let ?ids = "map irn_ID (ird_Nodes d)"
  let ?m = "map (\<lambda>v. (v, int (length (slice_at (ga_incoming (graph_maps d)) v)))) ?ids"
  have pairs: "map snd (filter (\<lambda>(s, t). s = u) (ir_pairs d)) = map ire_Target (filter (\<lambda>e. ire_Source e = u) (sorted_edges d))" for u
    by (simp add: ir_pairs_def filter_map o_def)
  have "\<exists>ds. order_loop (ga_outgoing (graph_maps d)) ?m (sort (map fst (filter (\<lambda>(v, d). d = 0) ?m))) [] = ds \<and> distinct ds
      \<and> set ds \<subseteq> set ?ids \<and> topo (ir_rel d) ds \<and> (length ds = length ?ids \<longleftrightarrow> acyclic (ir_rel d))"
  proof (rule compiler_sweep.sweep_all [where inc = "\<lambda>v. length (slice_at (ga_incoming (graph_maps d)) v)"])
    show "distinct ?ids"
      using wf by (simp add: ir_wf_def)
    show "ir_rel d \<subseteq> set ?ids \<times> set ?ids"
      using wf by (auto simp: ir_rel_iff ir_wf_def ir_ids_def)
    show "map ire_Target (slice_at (ga_outgoing (graph_maps d)) u) = map snd (filter (\<lambda>(s, t). s = u) (ir_pairs d))" for u
      by (simp add: graph_maps_slices [OF wf] pairs)
    show "length (slice_at (ga_incoming (graph_maps d)) x) = length (filter (\<lambda>(s, t). t = x) (ir_pairs d))" for x
      by (simp add: graph_maps_slices [OF wf] ir_pairs_def filter_map o_def)
  qed simp
  moreover have "order_of d = order_loop (ga_outgoing (graph_maps d)) ?m (sort (map fst (filter (\<lambda>(v, d). d = 0) ?m))) []"
    by (simp add: order_of_def topologicalOrder_def graph_maps_nodes [OF wf] Let_def o_def)
  ultimately show ?thesis
    by (simp add: ir_ids_def)
qed

lemma reachable_correct:
  assumes wf: "ir_wf d"
  shows "graphReachable v (ga_outgoing (graph_maps d)) False = {w. (v, w) \<in> (ir_rel d)\<^sup>*}"
    and "graphReachable v (ga_incoming (graph_maps d)) True = {w. (w, v) \<in> (ir_rel d)\<^sup>*}"
proof -
  have "compiler_search.edge_rel False (ga_outgoing (graph_maps d)) = ir_rel d"
    unfolding compiler_search.edge_rel_def by (auto simp: graph_maps_slices [OF wf] edge_next_def ir_rel_iff)
  then show "graphReachable v (ga_outgoing (graph_maps d)) False = {w. (v, w) \<in> (ir_rel d)\<^sup>*}"
    using compiler_search.search_from [of _ _ v] by (simp add: graphReachable_def)
  have "compiler_search.edge_rel True (ga_incoming (graph_maps d)) = (ir_rel d)\<inverse>"
    unfolding compiler_search.edge_rel_def by (auto simp: graph_maps_slices [OF wf] edge_next_def ir_rel_iff)
  then show "graphReachable v (ga_incoming (graph_maps d)) True = {w. (w, v) \<in> (ir_rel d)\<^sup>*}"
    using compiler_search.search_from [of _ _ v] by (simp add: graphReachable_def rtrancl_converse)
qed

section \<open>Descendants\<close>

text \<open>A slice of words as a set of numbers.\<close>

definition bit_set :: "64 word list \<Rightarrow> nat set" where
  "bit_set bits = {k. k div 64 < length bits \<and> bit (bits ! (k div 64)) (k mod 64)}"

lemma bit_set_zero [simp]: "bit_set (replicate n 0) = {}"
  by (auto simp: bit_set_def)

lemma set_bit_at_set:
  assumes "k div 64 < length bits"
  shows "bit_set (set_bit_at k bits) = insert k (bit_set bits)" and "length (set_bit_at k bits) = length bits"
proof -
  have same: "j mod 64 = k mod 64 \<longleftrightarrow> j = k" if "j div 64 = k div 64" for j
    using that by (metis div_mult_mod_eq)
  have one: "bit (push_bit (k mod 64) (1 :: 64 word)) (j mod 64) \<longleftrightarrow> j mod 64 = k mod 64" for j
    by (auto simp: bit_exp_iff possible_bit_def)
  have "j \<in> bit_set (set_bit_at k bits) \<longleftrightarrow> j = k \<or> j \<in> bit_set bits" for j
    using assms same [of j] one [of j]
    by (cases "j div 64 = k div 64") (auto simp: bit_set_def set_bit_at_def bit_or_iff)
  then show "bit_set (set_bit_at k bits) = insert k (bit_set bits)"
    by blast
  show "length (set_bit_at k bits) = length bits"
    by (simp add: set_bit_at_def)
qed

lemma merge_edge_set:
  assumes "index_of ordinal (ire_Target e) div 64 < length bits" and "length (bits_of desc (ire_Target e)) = length bits"
  shows "bit_set (merge_edge ordinal desc e bits) =
      insert (index_of ordinal (ire_Target e)) (bit_set bits \<union> bit_set (bits_of desc (ire_Target e)))"
    and "length (merge_edge ordinal desc e bits) = length bits"
proof -
  let ?b = "set_bit_at (index_of ordinal (ire_Target e)) bits"
  have "bit_set (merge_edge ordinal desc e bits) = bit_set ?b \<union> bit_set (bits_of desc (ire_Target e))"
    using assms set_bit_at_set(2) [OF assms(1)] by (auto simp: merge_edge_def bit_set_def Let_def bit_or_iff)
  then show "bit_set (merge_edge ordinal desc e bits) =
      insert (index_of ordinal (ire_Target e)) (bit_set bits \<union> bit_set (bits_of desc (ire_Target e)))"
    using set_bit_at_set(1) [OF assms(1)] by simp
  show "length (merge_edge ordinal desc e bits) = length bits"
    using set_bit_at_set(2) [OF assms(1)] by (simp add: merge_edge_def Let_def)
qed

lemma merge_edges_set:
  assumes "\<forall>e \<in> set es. index_of ordinal (ire_Target e) div 64 < length bits \<and> length (bits_of desc (ire_Target e)) = length bits"
  shows "bit_set (fold (merge_edge ordinal desc) es bits) = bit_set bits
      \<union> (\<Union>e \<in> set es. insert (index_of ordinal (ire_Target e)) (bit_set (bits_of desc (ire_Target e))))
    \<and> length (fold (merge_edge ordinal desc) es bits) = length bits"
  using assms
proof (induction es arbitrary: bits)
  case (Cons e es)
  then show ?case
    using merge_edge_set [of ordinal e bits desc] by auto
qed simp

lemma topo_suffix:
  assumes "topo E (pre @ v # suf)" and "distinct (pre @ v # suf)" and "(v, w) \<in> E" and "w \<in> set (pre @ v # suf)"
  shows "w \<in> set suf"
proof (rule ccontr)
  assume "w \<notin> set suf"
  then have "w \<in> set (pre @ [v])"
    using assms(4) by auto
  then obtain j where "j < length (pre @ [v])" "(pre @ [v]) ! j = w"
    unfolding in_set_conv_nth by blast
  then have j: "j \<le> length pre" "(pre @ v # suf) ! j = w" "j < length (pre @ v # suf)"
    by (auto simp: nth_append)
  then have "v \<in> set (take j (pre @ v # suf))"
    using assms(1,3) unfolding topo_def by metis
  then have "v \<in> set pre"
    using j(1) by (auto dest: in_set_takeD)
  then show False
    using assms(2) by auto
qed

lemma trancl_step: "(u, x) \<in> r\<^sup>+ \<longleftrightarrow> (\<exists>w. (u, w) \<in> r \<and> (w = x \<or> (w, x) \<in> r\<^sup>+))"
  by (metis r_into_trancl' trancl.trancl_into_trancl trancl_into_trancl2 tranclD rtranclD)

abbreviation positions :: "LogicalID list \<Rightarrow> (LogicalID, nat) gomap" where
  "positions order \<equiv> map (\<lambda>(k, v). (v, k)) (enumerate 0 order)"

lemma positions_map_of:
  assumes "distinct order"
  shows "map_of (positions order) v = Some k \<longleftrightarrow> k < length order \<and> order ! k = v"
proof -
  have "map fst (positions order) = order"
    by (rule nth_equalityI) (simp_all add: nth_enumerate_eq)
  then have "map_of (positions order) v = Some k \<longleftrightarrow> (v, k) \<in> set (positions order)"
    using assms by (intro map_of_eq_Some_iff) simp
  also have "\<dots> \<longleftrightarrow> (k, v) \<in> set (enumerate 0 order)"
    by auto
  also have "\<dots> \<longleftrightarrow> k < length order \<and> order ! k = v"
    by (auto simp: in_set_enumerate_eq)
  finally show ?thesis .
qed

lemma positions_index:
  assumes "distinct order" and "v \<in> set order"
  shows "index_of (positions order) v < length order" and "order ! index_of (positions order) v = v"
    and "map_of (positions order) v = Some (index_of (positions order) v)"
proof -
  obtain k where "k < length order" "order ! k = v"
    using assms(2) by (auto simp: in_set_conv_nth)
  then have "map_of (positions order) v = Some k"
    using positions_map_of [OF assms(1)] by blast
  then show "index_of (positions order) v < length order" "order ! index_of (positions order) v = v"
      "map_of (positions order) v = Some (index_of (positions order) v)"
    using \<open>k < length order\<close> \<open>order ! k = v\<close> by (auto simp: index_of_def)
qed

text \<open>From the last node to the first, the bit sets of the nodes done are their proper descendants.\<close>

lemma descendants_suffix:
  assumes dist: "distinct order" and topo: "topo E order" and words: "words = (length order + 63) div 64"
    and out: "\<And>u w. (u, w) \<in> E \<longleftrightarrow> w \<in> ire_Target ` set (slice_at outgoing u)" and ran: "E \<subseteq> UNIV \<times> set order"
  shows "order = pre @ suf \<Longrightarrow> desc = fold (descendants_step (positions order) outgoing) (rev suf) (map (\<lambda>v. (v, replicate words 0)) order) \<Longrightarrow>
    (\<forall>v \<in> set order. length (bits_of desc v) = words) \<and> (\<forall>v \<in> set pre. bit_set (bits_of desc v) = {})
    \<and> (\<forall>v \<in> set suf. bit_set (bits_of desc v) = index_of (positions order) ` {w. (v, w) \<in> E\<^sup>+})"
proof (induction suf arbitrary: pre desc)
  case Nil
  have "bits_of (map (\<lambda>v. (v, replicate words 0)) vs) v = (if v \<in> set vs then replicate words 0 else [])" for v and vs :: "LogicalID list"
    by (induction vs) (auto simp: bits_of_def slice_at_def)
  then show ?case
    using Nil by simp
next
  case (Cons v suf)
  let ?pos = "index_of (positions order)"
  define desc0 where "desc0 = fold (descendants_step (positions order) outgoing) (rev suf) (map (\<lambda>v. (v, replicate words 0)) order)"
  have len: "\<forall>u \<in> set order. length (bits_of desc0 u) = words" and pre: "\<forall>u \<in> set (pre @ [v]). bit_set (bits_of desc0 u) = {}"
    and suf: "\<forall>u \<in> set suf. bit_set (bits_of desc0 u) = ?pos ` {w. (u, w) \<in> E\<^sup>+}"
    using Cons.IH [of "pre @ [v]" desc0] Cons.prems(1) by (auto simp: desc0_def)
  have v: "v \<in> set order"
    using Cons.prems(1) by simp
  have targets: "w \<in> set suf" if "(v, w) \<in> E" for w
    using topo_suffix [of E pre v suf w] topo dist ran that Cons.prems(1) by auto
  have fits: "\<forall>e \<in> set (slice_at outgoing v). ?pos (ire_Target e) div 64 < length (bits_of desc0 v)
      \<and> length (bits_of desc0 (ire_Target e)) = length (bits_of desc0 v)"
  proof
    fix e assume "e \<in> set (slice_at outgoing v)"
    then have e: "(v, ire_Target e) \<in> E"
      by (auto simp: out)
    then have t: "ire_Target e \<in> set order"
      using ran by auto
    have "?pos (ire_Target e) < length order"
      using positions_index(1) [OF dist t] .
    then show "?pos (ire_Target e) div 64 < length (bits_of desc0 v) \<and> length (bits_of desc0 (ire_Target e)) = length (bits_of desc0 v)"
      using len v t words by (simp add: div_less_iff_less_mult)
  qed
  have step: "desc = AList.update v (fold (merge_edge (positions order) desc0) (slice_at outgoing v) (bits_of desc0 v)) desc0"
    using Cons.prems(2) by (simp add: desc0_def descendants_step_def [of "positions order" outgoing v])
  then have at: "bits_of desc u = (if u = v then fold (merge_edge (positions order) desc0) (slice_at outgoing v) (bits_of desc0 v) else bits_of desc0 u)" for u
    by (simp add: bits_of_def slice_at_def)
  have "bit_set (bits_of desc v) = ?pos ` {w. (v, w) \<in> E\<^sup>+}"
  proof -
    have "bit_set (bits_of desc v) = (\<Union>e \<in> set (slice_at outgoing v). insert (?pos (ire_Target e)) (?pos ` {w. (ire_Target e, w) \<in> E\<^sup>+}))"
      using merge_edges_set [OF fits] pre suf targets by (auto simp: at out)
    also have "\<dots> = ?pos ` {x. \<exists>w. (v, w) \<in> E \<and> (w = x \<or> (w, x) \<in> E\<^sup>+)}"
      by (auto simp: out)
    finally show ?thesis
      using trancl_step [of v _ E] by simp
  qed
  moreover have "length (bits_of desc v) = words"
    using merge_edges_set [OF fits] len v by (simp add: at)
  moreover have "v \<notin> set pre" "v \<notin> set suf"
    using dist Cons.prems(1) by auto
  ultimately show ?case
    using len pre suf by (auto simp: at)
qed

lemma isControlUpstream_iff:
  assumes dist: "distinct (ga_topological a)" and topo: "topo E (ga_topological a)"
    and out: "\<And>u w. (u, w) \<in> E \<longleftrightarrow> w \<in> ire_Target ` set (slice_at (ga_outgoing a) u)" and ran: "E \<subseteq> UNIV \<times> set (ga_topological a)"
    and s: "s \<in> set (ga_topological a)" and t: "t \<in> set (ga_topological a)"
  shows "isControlUpstream (buildDescendants a) s t \<longleftrightarrow> (s, t) \<in> E\<^sup>+"
proof -
  let ?order = "ga_topological a"
  let ?pos = "index_of (positions ?order)"
  let ?desc = "fold (descendants_step (positions ?order) (ga_outgoing a)) (rev ?order)
      (map (\<lambda>v. (v, replicate ((length ?order + 63) div 64) 0)) ?order)"
  have bits: "bit_set (bits_of ?desc s) = ?pos ` {w. (s, w) \<in> E\<^sup>+}"
    using descendants_suffix [OF dist topo refl out ran, of "[]" ?order ?desc] s by simp
  have "isControlUpstream (buildDescendants a) s t \<longleftrightarrow> ?pos t \<in> bit_set (bits_of ?desc s)"
    using positions_index(3) [OF dist t]
    by (simp add: isControlUpstream_def buildDescendants_def Let_def bit_set_def bit_iff_and_push_bit_not_eq_0)
  also have "\<dots> \<longleftrightarrow> (s, t) \<in> E\<^sup>+"
  proof
    assume "?pos t \<in> bit_set (bits_of ?desc s)"
    then obtain w where w: "(s, w) \<in> E\<^sup>+" "?pos t = ?pos w"
      using bits by auto
    moreover have "w \<in> set ?order"
      using w(1) ran by (cases rule: tranclE) auto
    ultimately have "w = t"
      using positions_index(2) [OF dist] t by metis
    then show "(s, t) \<in> E\<^sup>+"
      using w by simp
  qed (simp add: bits)
  finally show ?thesis .
qed

end
