(* ===== verification/Activation_Laws.thy ===== *)
theory Activation_Laws
  imports Control_Laws
begin

text \<open>
  The check of data bindings against its meaning. A choice of a route for every branch activates a set of
  nodes: Start, and the target of every edge whose source is active and, at a branch, whose route is the
  chosen one. The decision computed for a node is true under exactly the choices that activate it, so
  the check reports a reference exactly when some choice activates the reader and not the source.
\<close>

section \<open>The analysis of an accepted document\<close>

definition analyzed :: "IrDocument \<Rightarrow> graphAnalysis \<Rightarrow> bool" where
  "analyzed d a \<longleftrightarrow> distinct (ga_topological a) \<and> set (ga_topological a) = ir_ids d \<and> topo (ir_rel d) (ga_topological a)
     \<and> (\<forall>v. slice_at (ga_incoming a) v = filter (\<lambda>e. ire_Target e = v) (sorted_edges d))
     \<and> ga_nodes a = map (\<lambda>n. (irn_ID n, n)) (ird_Nodes d)
     \<and> (\<exists>n \<in> set (ird_Nodes d). irn_Type n = ''start'' \<and> ga_start a = irn_ID n)
     \<and> (\<forall>n \<in> set (ird_Nodes d). irn_Type n = ''start'' \<longrightarrow> irn_ID n = ga_start a)
     \<and> (\<forall>e \<in> set (ird_Edges d). ire_Target e \<noteq> ga_start a)
     \<and> (\<forall>n \<in> set (ird_Nodes d). slice_at (ga_branchDomains a) (irn_ID n) = (if irn_Type n = ''branch'' then branch_domain n else []))
     \<and> (\<forall>n \<in> set (ird_Nodes d). irn_Type n = ''branch'' \<longrightarrow> branch_domain n \<noteq> [])
     \<and> (\<forall>s \<in> ir_ids d. \<forall>t \<in> ir_ids d. isControlUpstream a s t \<longleftrightarrow> (s, t) \<in> (ir_rel d)\<^sup>+)"

lemma unique_of_type:
  assumes "length (nodes_of_type t d) = 1"
  shows "(\<exists>n \<in> set (ird_Nodes d). irn_Type n = t \<and> hd (nodes_of_type t d) = irn_ID n)
    \<and> (\<forall>n \<in> set (ird_Nodes d). irn_Type n = t \<longrightarrow> irn_ID n = hd (nodes_of_type t d))"
proof -
  obtain v where v: "nodes_of_type t d = [v]"
    using assms by (auto simp: length_Suc_conv)
  have "set (nodes_of_type t d) = irn_ID ` {n \<in> set (ird_Nodes d). irn_Type n = t}"
    by (auto simp: nodes_of_type_def)
  then show ?thesis
    using v by auto
qed

lemma domains_lookup:
  assumes wf: "ir_wf d" and n: "n \<in> set (ird_Nodes d)"
  shows "slice_at (ga_branchDomains (local_analysis d)) (irn_ID n) = (if irn_Type n = ''branch'' then branch_domain n else [])"
proof -
  let ?bs = "filter (\<lambda>n. irn_Type n = ''branch'') (ird_Nodes d)"
  have dist: "distinct (map irn_ID (ird_Nodes d))"
    using wf by (simp add: ir_wf_def)
  have "distinct (map irn_ID ?bs)"
    by (rule distinct_map_filter [OF dist])
  then have fold: "ga_branchDomains (local_analysis d) = map (\<lambda>n. (irn_ID n, branch_domain n)) ?bs"
    using fold_update_fresh [of irn_ID ?bs "[]" branch_domain] by (simp add: local_analysis_def)
  have inj: "m = n" if "m \<in> set (ird_Nodes d)" "irn_ID m = irn_ID n" for m
    using dist n that by (simp add: distinct_map inj_on_def)
  show ?thesis
  proof (cases "irn_Type n = ''branch''")
    case True
    then have "map_of (map (\<lambda>n. (irn_ID n, branch_domain n)) ?bs) (irn_ID n) = Some (branch_domain n)"
      using n \<open>distinct (map irn_ID ?bs)\<close> by (intro map_of_is_SomeI) (auto simp: o_def)
    then show ?thesis
      using True by (simp add: fold slice_at_def)
  next
    case False
    then have "map_of (map (\<lambda>n. (irn_ID n, branch_domain n)) ?bs) (irn_ID n) = None"
      using inj by (auto simp: map_of_eq_None_iff)
    then show ?thesis
      using False by (simp add: fold slice_at_def)
  qed
qed

lemma branch_has_routes:
  assumes wf: "ir_wf d" and n: "irn_Type n = ''branch''" "\<not> HasErrors (node_reports (graph_maps d) n)"
  shows "branch_domain n \<noteq> []"
proof -
  have "slice_at (ga_outgoing (graph_maps d)) (irn_ID n) \<noteq> []"
    using n by (auto simp: node_reports_def degree_diagnostics_def Let_def graph_error_def)
  then obtain e where "e \<in> set (slice_at (ga_outgoing (graph_maps d)) (irn_ID n))"
    by (meson last_in_set)
  then have "ire_Route e \<in> set (branch_domain n)"
    using n by (auto simp: node_reports_def validateBranchRoutes_def Let_def HasErrors_concat graph_error_def)
  then show ?thesis
    by auto
qed

lemma start_no_incoming:
  assumes wf: "ir_wf d" and n: "irn_Type n = ''start''" "\<not> HasErrors (node_reports (graph_maps d) n)" and e: "e \<in> set (ird_Edges d)"
  shows "ire_Target e \<noteq> irn_ID n"
proof -
  have "slice_at (ga_incoming (graph_maps d)) (irn_ID n) = []"
    using n by (auto simp: node_reports_def degree_diagnostics_def Let_def graph_error_def)
  then show ?thesis
    using e by (auto simp: graph_maps_slices [OF wf] filter_empty_conv)
qed

lemma buildDescendants_fields [simp]:
  "ga_topological (buildDescendants a) = ga_topological a" "ga_incoming (buildDescendants a) = ga_incoming a"
  "ga_nodes (buildDescendants a) = ga_nodes a" "ga_start (buildDescendants a) = ga_start a"
  "ga_branchDomains (buildDescendants a) = ga_branchDomains a" "ga_end (buildDescendants a) = ga_end a"
  by (simp_all add: buildDescendants_def Let_def)

lemma analyze_analyzed:
  assumes wf: "ir_wf d" and ok: "\<not> HasErrors (snd (analyzeControlGraph d))"
  shows "analyzed d (fst (analyzeControlGraph d))"
proof -
  note acc = analyze_accepted [OF ok]
  let ?b = "(local_analysis d)\<lparr>ga_topological := order_of d\<rparr>"
  have a: "fst (analyzeControlGraph d) = buildDescendants ?b"
    using acc(4) by (simp add: analyze_fst)
  have full: "length (order_of d) = length (ird_Nodes d)"
    using acc(4) by (simp add: graph_maps_nodes [OF wf])
  have order: "distinct (order_of d)" "set (order_of d) \<subseteq> ir_ids d" "topo (ir_rel d) (order_of d)"
    using order_correct [OF wf] by auto
  have "card (ir_ids d) = length (ird_Nodes d)"
    using wf distinct_card [of "map irn_ID (ird_Nodes d)"] by (simp add: ir_wf_def ir_ids_def)
  then have all: "set (order_of d) = ir_ids d"
    using order(1,2) full by (intro card_subset_eq) (auto simp: ir_ids_def distinct_card)
  have start: "ga_start (graph_maps d) = hd (nodes_of_type ''start'' d)"
    using acc(1) by (simp add: graph_maps_def Let_def)
  note unique = unique_of_type [OF acc(1)]
  have up: "isControlUpstream (buildDescendants ?b) s t \<longleftrightarrow> (s, t) \<in> (ir_rel d)\<^sup>+" if "s \<in> ir_ids d" "t \<in> ir_ids d" for s t
  proof (rule isControlUpstream_iff)
    show "(u, w) \<in> ir_rel d \<longleftrightarrow> w \<in> ire_Target ` set (slice_at (ga_outgoing ?b) u)" for u w
      by (auto simp: ir_rel_iff graph_maps_slices [OF wf])
    show "ir_rel d \<subseteq> UNIV \<times> set (ga_topological ?b)"
      using wf all by (auto simp: ir_rel_iff ir_wf_def)
  qed (use order all that in simp_all)
  have target: "\<forall>e \<in> set (ird_Edges d). ire_Target e \<noteq> ga_start (graph_maps d)"
  proof
    fix e assume e: "e \<in> set (ird_Edges d)"
    obtain n where "n \<in> set (ird_Nodes d)" "irn_Type n = ''start''" "ga_start (graph_maps d) = irn_ID n"
      using unique start by auto
    then show "ire_Target e \<noteq> ga_start (graph_maps d)"
      using start_no_incoming [OF wf _ _ e] acc(3) by simp
  qed
  have routes: "\<forall>n \<in> set (ird_Nodes d). irn_Type n = ''branch'' \<longrightarrow> branch_domain n \<noteq> []"
    using branch_has_routes [OF wf] acc(3) by blast
  show ?thesis
    unfolding analyzed_def a
    using order all unique start up target routes domains_lookup [OF wf]
    by (simp add: graph_maps_slices [OF wf] graph_maps_nodes [OF wf])
qed

section \<open>Activation\<close>

inductive active :: "IrDocument \<Rightarrow> (LogicalID \<Rightarrow> RouteName) \<Rightarrow> LogicalID \<Rightarrow> bool" for d \<rho> where
  active_start: "n \<in> set (ird_Nodes d) \<Longrightarrow> irn_Type n = ''start'' \<Longrightarrow> active d \<rho> (irn_ID n)"
| active_edge: "active d \<rho> (ire_Source e) \<Longrightarrow> e \<in> set (ird_Edges d) \<Longrightarrow>
    (\<And>n. n \<in> set (ird_Nodes d) \<Longrightarrow> irn_ID n = ire_Source e \<Longrightarrow> irn_Type n = ''branch'' \<Longrightarrow> \<rho> (irn_ID n) = ire_Route e) \<Longrightarrow>
    active d \<rho> (ire_Target e)"

lemma active_along:
  "active d \<rho> u \<Longrightarrow> e \<in> set (ird_Edges d) \<Longrightarrow> ire_Source e = u \<Longrightarrow> ire_Target e = v \<Longrightarrow>
   (\<forall>n \<in> set (ird_Nodes d). irn_ID n = u \<longrightarrow> irn_Type n = ''branch'' \<longrightarrow> \<rho> u = ire_Route e) \<Longrightarrow> active d \<rho> v"
  using active_edge [of d \<rho> e] by auto

definition choice :: "IrDocument \<Rightarrow> (LogicalID \<Rightarrow> RouteName) \<Rightarrow> bool" where
  "choice d \<rho> \<longleftrightarrow> (\<forall>n \<in> set (ird_Nodes d). irn_Type n = ''branch'' \<longrightarrow> \<rho> (irn_ID n) \<in> set (branch_domain n))"

definition takes :: "graphAnalysis \<Rightarrow> (LogicalID \<Rightarrow> RouteName) \<Rightarrow> IrEdge \<Rightarrow> bool" where
  "takes a \<rho> e \<longleftrightarrow> (irn_Type (node_in a (ire_Source e)) = ''branch'' \<longrightarrow> \<rho> (ire_Source e) = ire_Route e)"

lemma analyzed_node_in:
  assumes "ir_wf d" and "analyzed d a" and "n \<in> set (ird_Nodes d)"
  shows "node_in a (irn_ID n) = n"
proof -
  have "map_of (map (\<lambda>n. (irn_ID n, n)) (ird_Nodes d)) (irn_ID n) = Some n"
    using assms(1,3) by (intro map_of_is_SomeI) (auto simp: ir_wf_def o_def)
  then show ?thesis
    using assms(2) by (simp add: node_in_def analyzed_def)
qed

lemma takes_iff:
  assumes wf: "ir_wf d" and an: "analyzed d a" and e: "e \<in> set (ird_Edges d)"
  shows "takes a \<rho> e \<longleftrightarrow> (\<forall>n \<in> set (ird_Nodes d). irn_ID n = ire_Source e \<longrightarrow> irn_Type n = ''branch'' \<longrightarrow> \<rho> (irn_ID n) = ire_Route e)"
proof -
  obtain n where n: "n \<in> set (ird_Nodes d)" "irn_ID n = ire_Source e"
    using wf e by (auto simp: ir_wf_def ir_ids_def)
  have inj: "m = n" if "m \<in> set (ird_Nodes d)" "irn_ID m = ire_Source e" for m
    using wf n that by (simp add: ir_wf_def distinct_map inj_on_def)
  have "node_in a (ire_Source e) = n"
    using analyzed_node_in [OF wf an n(1)] n(2) by simp
  then have "takes a \<rho> e \<longleftrightarrow> (irn_Type n = ''branch'' \<longrightarrow> \<rho> (irn_ID n) = ire_Route e)"
    using n(2) by (simp add: takes_def)
  then show ?thesis
    using inj n by metis
qed

lemma active_start_node:
  assumes "analyzed d a"
  shows "active d \<rho> (ga_start a)"
proof -
  obtain n where "n \<in> set (ird_Nodes d)" "irn_Type n = ''start''" "ga_start a = irn_ID n"
    using assms by (auto simp: analyzed_def)
  then show ?thesis
    by (simp add: active_start)
qed

lemma active_step:
  assumes wf: "ir_wf d" and an: "analyzed d a" and v: "v \<noteq> ga_start a"
  shows "active d \<rho> v \<longleftrightarrow> (\<exists>e \<in> set (slice_at (ga_incoming a) v). active d \<rho> (ire_Source e) \<and> takes a \<rho> e)"
proof -
  have slice: "slice_at (ga_incoming a) v = filter (\<lambda>e. ire_Target e = v) (sorted_edges d)"
    using an by (simp add: analyzed_def)
  have start: "\<forall>n \<in> set (ird_Nodes d). irn_Type n = ''start'' \<longrightarrow> irn_ID n = ga_start a"
    using an by (simp add: analyzed_def)
  show ?thesis
  proof
    assume "active d \<rho> v"
    then show "\<exists>e \<in> set (slice_at (ga_incoming a) v). active d \<rho> (ire_Source e) \<and> takes a \<rho> e"
    proof cases
      case (active_start n)
      then show ?thesis
        using start v by simp
    next
      case (active_edge e)
      then show ?thesis
        using takes_iff [OF wf an] slice by auto
    qed
  next
    assume "\<exists>e \<in> set (slice_at (ga_incoming a) v). active d \<rho> (ire_Source e) \<and> takes a \<rho> e"
    then obtain e where e: "e \<in> set (ird_Edges d)" "ire_Target e = v" "active d \<rho> (ire_Source e)" "takes a \<rho> e"
      by (auto simp: slice)
    then show "active d \<rho> v"
      using active_edge [OF e(3,1)] takes_iff [OF wf an e(1)] by auto
  qed
qed

section \<open>Choices and assignments\<close>

definition domains_of :: "graphAnalysis \<Rightarrow> RouteName list list" where
  "domains_of a = map (slice_at (ga_branchDomains a)) (branch_ids a)"

definition route_of :: "graphAnalysis \<Rightarrow> assignment \<Rightarrow> LogicalID \<Rightarrow> RouteName" where
  "route_of a \<sigma> v = (case map_of (branch_variables a) v of None \<Rightarrow> '''' | Some k \<Rightarrow> domains_of a ! k ! \<sigma> k)"

lemma branch_ids_distinct: "analyzed d a \<Longrightarrow> distinct (branch_ids a)"
  by (simp add: branch_ids_def analyzed_def)

lemma branch_variable:
  assumes an: "analyzed d a" and n: "n \<in> set (ird_Nodes d)" "irn_Type n = ''branch''"
  shows "\<exists>k. map_of (branch_variables a) (irn_ID n) = Some k \<and> k < length (domains_of a) \<and> domains_of a ! k = branch_domain n"
proof -
  have dom: "slice_at (ga_branchDomains a) (irn_ID n) = branch_domain n" "branch_domain n \<noteq> []" "irn_ID n \<in> set (ga_topological a)"
    using an n by (auto simp: analyzed_def ir_ids_def)
  then have "irn_ID n \<in> set (branch_ids a)"
    by (simp add: branch_ids_def)
  then have "map_of (branch_variables a) (irn_ID n) = Some (index_of (positions (branch_ids a)) (irn_ID n))"
      "index_of (positions (branch_ids a)) (irn_ID n) < length (branch_ids a)"
      "branch_ids a ! index_of (positions (branch_ids a)) (irn_ID n) = irn_ID n"
    using positions_index [OF branch_ids_distinct [OF an]] by (simp_all add: branch_variables_def)
  then show ?thesis
    using dom(1) by (auto simp: domains_of_def)
qed

lemma domains_nonempty: "[] \<notin> set (domains_of a)"
  by (auto simp: domains_of_def branch_ids_def)

lemma route_of_choice:
  assumes an: "analyzed d a" and \<sigma>: "admissible (domains_of a) \<sigma>"
  shows "choice d (route_of a \<sigma>)"
  unfolding choice_def
proof (intro ballI impI)
  fix n assume n: "n \<in> set (ird_Nodes d)" "irn_Type n = ''branch''"
  obtain k where k: "map_of (branch_variables a) (irn_ID n) = Some k" "k < length (domains_of a)" "domains_of a ! k = branch_domain n"
    using branch_variable [OF an n] by blast
  then have "\<sigma> k < length (branch_domain n)"
    using \<sigma> by (auto simp: admissible_def)
  then show "route_of a \<sigma> (irn_ID n) \<in> set (branch_domain n)"
    using k by (simp add: route_of_def)
qed

lemma choice_route_of:
  assumes an: "analyzed d a" and \<rho>: "choice d \<rho>"
  shows "\<exists>\<sigma>. admissible (domains_of a) \<sigma> \<and> (\<forall>n \<in> set (ird_Nodes d). irn_Type n = ''branch'' \<longrightarrow> route_of a \<sigma> (irn_ID n) = \<rho> (irn_ID n))"
proof -
  define P where "P k i \<longleftrightarrow> i < length (domains_of a ! k) \<and> (\<rho> (branch_ids a ! k) \<in> set (domains_of a ! k) \<longrightarrow> domains_of a ! k ! i = \<rho> (branch_ids a ! k))" for k i
  have "\<exists>i. P k i" if "k < length (domains_of a)" for k
  proof (cases "\<rho> (branch_ids a ! k) \<in> set (domains_of a ! k)")
    case True
    then show ?thesis
      by (auto simp: P_def in_set_conv_nth)
  next
    case False
    have "domains_of a ! k \<noteq> []"
      using domains_nonempty [of a] nth_mem [OF that] by metis
    then show ?thesis
      using False by (auto simp: P_def)
  qed
  then obtain \<sigma> where \<sigma>: "\<And>k. k < length (domains_of a) \<Longrightarrow> P k (\<sigma> k)"
    by metis
  have "route_of a \<sigma> (irn_ID n) = \<rho> (irn_ID n)" if n: "n \<in> set (ird_Nodes d)" "irn_Type n = ''branch''" for n
  proof -
    obtain k where k: "map_of (branch_variables a) (irn_ID n) = Some k" "k < length (domains_of a)" "domains_of a ! k = branch_domain n"
      using branch_variable [OF an n] by blast
    then have "branch_ids a ! k = irn_ID n"
      using positions_map_of [OF branch_ids_distinct [OF an]] by (simp add: branch_variables_def)
    then show ?thesis
      using \<sigma> [OF k(2)] k \<rho> n by (auto simp: P_def route_of_def choice_def)
  qed
  moreover have "admissible (domains_of a) \<sigma>"
    using \<sigma> by (simp add: admissible_def P_def)
  ultimately show ?thesis
    by blast
qed

lemma active_cong:
  assumes "active d \<rho> v" and "\<And>n. n \<in> set (ird_Nodes d) \<Longrightarrow> irn_Type n = ''branch'' \<Longrightarrow> \<rho> (irn_ID n) = \<rho>' (irn_ID n)"
  shows "active d \<rho>' v"
  using assms(1)
proof induction
  case (active_edge e)
  have "\<rho>' (irn_ID n) = ire_Route e" if "n \<in> set (ird_Nodes d)" "irn_ID n = ire_Source e" "irn_Type n = ''branch''" for n
    using active_edge.hyps(3) [OF that] assms(2) [OF that(1,3)] by simp
  with active_edge.IH active_edge.hyps(2) show ?case
    by (rule active.active_edge)
qed (rule active.active_start)

section \<open>The formulas\<close>

definition gives :: "decisionManager \<Rightarrow> (assignment \<Rightarrow> bool) \<Rightarrow> Diagnostic list + (decisionID \<times> decisionManager) \<Rightarrow> bool" where
  "gives m f r = (case r of
     Inl ds \<Rightarrow> ds = complexity_exceeded too_many
   | Inr (d, m') \<Rightarrow> wf_manager m' \<and> extends_manager m m' \<and> denotes m' d f)"

lemma and_denotes:
  assumes wf: "wf_manager m" and l: "denotes m l f" and r: "denotes m r g"
  shows "yields m 0 (\<lambda>\<sigma>. f \<sigma> \<and> g \<sigma>) (decision_and m l r)"
  unfolding decision_and_def
  by (rule yields_cong [OF binary_yields [OF wf]]) (use l r in \<open>auto simp: denotes_def opf_def\<close>)

lemma or_denotes:
  assumes wf: "wf_manager m" and l: "denotes m l f" and r: "denotes m r g"
  shows "yields m 0 (\<lambda>\<sigma>. f \<sigma> \<or> g \<sigma>) (decision_or m l r)"
  unfolding decision_or_def
  by (rule yields_cong [OF binary_yields [OF wf]]) (use l r in \<open>auto simp: denotes_def opf_def\<close>)

lemma not_denotes:
  assumes wf: "wf_manager m" and d: "denotes m d f"
  shows "yields m 0 (\<lambda>\<sigma>. \<not> f \<sigma>) (decision_not m d)"
  by (rule yields_cong [OF not_yields [OF wf]]) (use d in \<open>auto simp: denotes_def\<close>)

lemma yieldsE:
  assumes "yields m low f r"
  obtains "r = Inl too_many" | d m' where "r = Inr (d, m')" "wf_manager m'" "extends_manager m m'" "denotes m' d f"
  using assms by (cases r) (auto simp: yields_def)

lemma givesE:
  assumes "gives m f r"
  obtains "r = Inl (complexity_exceeded too_many)" | d m' where "r = Inr (d, m')" "wf_manager m'" "extends_manager m m'" "denotes m' d f"
  using assms by (cases r) (auto simp: gives_def)

lemma edge_formula_gives:
  assumes wfd: "ir_wf d" and an: "analyzed d a" and wf: "wf_manager m" and dom: "dm_domains m = domains_of a"
    and e: "e \<in> set (ird_Edges d)" and src: "denotes m (decision_at act (ire_Source e)) f"
  shows "gives m (\<lambda>\<sigma>. f \<sigma> \<and> takes a (route_of a \<sigma>) e) (edge_formula a act e m)"
proof (cases "irn_Type (node_in a (ire_Source e)) = ''branch''")
  case False
  then show ?thesis
    using src wf by (simp add: edge_formula_def gives_def takes_def)
next
  case True
  obtain n where n: "n \<in> set (ird_Nodes d)" "irn_ID n = ire_Source e"
    using wfd e by (auto simp: ir_wf_def ir_ids_def)
  then have "irn_Type n = ''branch''"
    using True analyzed_node_in [OF wfd an n(1)] by simp
  then obtain k where k: "map_of (branch_variables a) (ire_Source e) = Some k" "k < length (domains_of a)"
    using branch_variable [OF an n(1)] n(2) by auto
  have eq: "yields m (int k) (\<lambda>\<sigma>. dm_domains m ! k ! \<sigma> k = ire_Route e) (decision_equal m k (ire_Route e))"
    by (rule decision_equal_yields [OF wf]) (simp add: dom k)
  show ?thesis
    using eq
  proof (cases rule: yieldsE)
    case 1
    then show ?thesis
      using True k by (simp add: edge_formula_def gives_def)
  next
    case (2 r m1)
    have "yields m1 0 (\<lambda>\<sigma>. f \<sigma> \<and> dm_domains m ! k ! \<sigma> k = ire_Route e) (decision_and m1 (decision_at act (ire_Source e)) r)"
      by (rule and_denotes [OF 2(2) extends_denotes [OF 2(3) src] 2(4)])
    then show ?thesis
    proof (cases rule: yieldsE)
      case 1
      then show ?thesis
        using True k 2(1) by (simp add: edge_formula_def gives_def)
    next
      case conj: (2 r2 m2)
      have "(\<lambda>\<sigma>. f \<sigma> \<and> takes a (route_of a \<sigma>) e) = (\<lambda>\<sigma>. f \<sigma> \<and> dm_domains m ! k ! \<sigma> k = ire_Route e)"
        using True k dom by (simp add: takes_def route_of_def)
      then show ?thesis
        using True k 2(1) conj extends_trans [OF 2(3) conj(3)] by (simp add: edge_formula_def gives_def)
    qed
  qed
qed

lemma node_formula_gives:
  assumes wfd: "ir_wf d" and an: "analyzed d a" and "wf_manager m" and "dm_domains m = domains_of a"
    and "set es \<subseteq> set (ird_Edges d)" and "\<forall>e \<in> set es. denotes m (decision_at act (ire_Source e)) (f (ire_Source e))" and "denotes m r g"
  shows "gives m (\<lambda>\<sigma>. g \<sigma> \<or> (\<exists>e \<in> set es. f (ire_Source e) \<sigma> \<and> takes a (route_of a \<sigma>) e)) (node_formula a act es r m)"
  using assms(3-)
proof (induction es arbitrary: m r g)
  case (Cons e es)
  have "gives m (\<lambda>\<sigma>. f (ire_Source e) \<sigma> \<and> takes a (route_of a \<sigma>) e) (edge_formula a act e m)"
    using Cons.prems by (intro edge_formula_gives [OF wfd an]) auto
  then show ?case
  proof (cases rule: givesE)
    case 1
    then show ?thesis
      by (simp add: gives_def)
  next
    case (2 r1 m1)
    have "yields m1 0 (\<lambda>\<sigma>. g \<sigma> \<or> f (ire_Source e) \<sigma> \<and> takes a (route_of a \<sigma>) e) (decision_or m1 r r1)"
      by (rule or_denotes [OF 2(2) extends_denotes [OF 2(3) Cons.prems(5)] 2(4)])
    then show ?thesis
    proof (cases rule: yieldsE)
      case 1
      then show ?thesis
        using 2(1) by (simp add: gives_def)
    next
      case or: (2 r2 m2)
      have ext: "extends_manager m m2"
        using extends_trans [OF 2(3) or(3)] .
      have "gives m2 (\<lambda>\<sigma>. (g \<sigma> \<or> f (ire_Source e) \<sigma> \<and> takes a (route_of a \<sigma>) e)
          \<or> (\<exists>e \<in> set es. f (ire_Source e) \<sigma> \<and> takes a (route_of a \<sigma>) e)) (node_formula a act es r2 m2)"
        using Cons.prems extends_domains [OF ext] extends_denotes [OF ext] or by (intro Cons.IH) auto
      then show ?thesis
        using 2(1) or(1) extends_trans [OF ext] by (auto simp: gives_def disj_assoc split: sum.splits)
    qed
  qed
qed (simp add: gives_def)

definition decides :: "IrDocument \<Rightarrow> graphAnalysis \<Rightarrow> (LogicalID, decisionID) gomap \<Rightarrow> decisionManager \<Rightarrow> LogicalID set \<Rightarrow> bool" where
  "decides d a act m V \<longleftrightarrow> wf_manager m \<and> dm_domains m = domains_of a
     \<and> (\<forall>v \<in> V. denotes m (decision_at act v) (\<lambda>\<sigma>. active d (route_of a \<sigma>) v))"

lemma decides_extends: "decides d a act m V \<Longrightarrow> wf_manager m' \<Longrightarrow> extends_manager m m' \<Longrightarrow> decides d a act m' V"
  by (auto simp: decides_def extends_domains extends_denotes)

lemma decision_at_update [simp]: "decision_at (AList.update v r act) u = (if u = v then r else decision_at act u)"
  by (simp add: decision_at_def)

lemma decides_insert:
  "decides d a act m V \<Longrightarrow> denotes m r (\<lambda>\<sigma>. active d (route_of a \<sigma>) v) \<Longrightarrow> decides d a (AList.update v r act) m (insert v V)"
  by (auto simp: decides_def)

lemma activation_step:
  assumes wfd: "ir_wf d" and an: "analyzed d a" and dec: "decides d a act m (set pre)" and v: "ga_topological a = pre @ v # vs" "v \<noteq> ga_start a"
  shows "gives m (\<lambda>\<sigma>. active d (route_of a \<sigma>) v) (node_formula a act (slice_at (ga_incoming a) v) decisionFalse m)"
proof -
  let ?es = "slice_at (ga_incoming a) v"
  have es: "?es = filter (\<lambda>e. ire_Target e = v) (sorted_edges d)"
    using an by (simp add: analyzed_def)
  have "topo (ir_rel d) (pre @ v # vs)"
    using an v(1) by (simp add: analyzed_def)
  then have topo: "u \<in> set pre" if "(u, v) \<in> ir_rel d" for u
    using that unfolding topo_def by (auto dest!: spec [of _ "length pre"])
  have "ire_Source e \<in> set pre" if "e \<in> set ?es" for e
    using that by (intro topo) (auto simp: es ir_rel_iff)
  then have src: "\<forall>e \<in> set ?es. denotes m (decision_at act (ire_Source e)) (\<lambda>\<sigma>. active d (route_of a \<sigma>) (ire_Source e))"
    using dec by (simp add: decides_def)
  have m: "wf_manager m" "dm_domains m = domains_of a"
    using dec by (simp_all add: decides_def)
  have "gives m (\<lambda>\<sigma>. False \<or> (\<exists>e \<in> set ?es. active d (route_of a \<sigma>) (ire_Source e) \<and> takes a (route_of a \<sigma>) e))
      (node_formula a act ?es decisionFalse m)"
    using denotes_terminal(1) [OF m(1)] es
    by (intro node_formula_gives [OF wfd an m _ src]) (auto simp: decisionFalse_def)
  then show ?thesis
    using active_step [OF wfd an v(2)] by simp
qed

lemma activation_loop_decides:
  assumes wfd: "ir_wf d" and an: "analyzed d a"
  shows "ga_topological a = pre @ vs \<Longrightarrow> decides d a act m (set pre) \<Longrightarrow>
    (case activation_loop a vs act m of
       Inl ds \<Rightarrow> ds = complexity_exceeded too_many
     | Inr (act', m') \<Rightarrow> decides d a act' m' (ir_ids d))"
proof (induction vs arbitrary: pre act m)
  case Nil
  then show ?case
    using an by (simp add: analyzed_def)
next
  case (Cons v vs)
  have order: "ga_topological a = (pre @ [v]) @ vs"
    using Cons.prems(1) by simp
  show ?case
  proof (cases "v = ga_start a")
    case True
    have "wf_manager m"
      using Cons.prems(2) by (simp add: decides_def)
    then have "denotes m decisionTrue (\<lambda>\<sigma>. active d (route_of a \<sigma>) v)"
      using denotes_terminal(2) active_start_node [OF an] True by (simp add: decisionTrue_def)
    then show ?thesis
      using Cons.IH [OF order, of "AList.update v decisionTrue act" m] decides_insert [OF Cons.prems(2)] True by simp
  next
    case False
    have "gives m (\<lambda>\<sigma>. active d (route_of a \<sigma>) v) (node_formula a act (slice_at (ga_incoming a) v) decisionFalse m)"
      by (rule activation_step [OF wfd an Cons.prems(2,1) False])
    then show ?thesis
    proof (cases rule: givesE)
      case 1
      then show ?thesis
        using False by simp
    next
      case (2 r m1)
      then have "decides d a (AList.update v r act) m1 (insert v (set pre))"
        using decides_insert [OF decides_extends [OF Cons.prems(2)]] by blast
      then show ?thesis
        using Cons.IH [OF order, of "AList.update v r act" m1] 2(1) False by simp
    qed
  qed
qed

section \<open>The bindings\<close>

text \<open>A reader of an output is unsafe when some choice activates it and not the node that produces the output.\<close>

definition unsafe_binding :: "IrDocument \<Rightarrow> LogicalID \<Rightarrow> LogicalID \<Rightarrow> bool" where
  "unsafe_binding d source target \<longleftrightarrow> (\<exists>\<rho>. choice d \<rho> \<and> active d \<rho> target \<and> \<not> active d \<rho> source)"

definition binding_report :: "IrDocument \<Rightarrow> (nat \<times> IrNode) \<times> (nat \<times> IrInput) \<Rightarrow> Diagnostic list" where
  "binding_report d = (\<lambda>((nodeIndex, node), (inputIndex, i)).
     (if iri_Source i \<noteq> SourceRef then []
      else if (iri_RefNode i, irn_ID node) \<notin> (ir_rel d)\<^sup>+ then
        [binding_error ''REF_SOURCE_NOT_CONTROL_UPSTREAM'' ''referenced output must come from a control-flow upstream node''
          node nodeIndex i inputIndex]
      else if unsafe_binding d (iri_RefNode i) (irn_ID node) then
        [binding_error ''UNSAFE_DATA_BINDING'' ''target can be active while referenced source is inactive'' node nodeIndex i inputIndex]
      else []))"

lemma unsafe_binding_iff:
  assumes an: "analyzed d a"
  shows "unsafe_binding d s t \<longleftrightarrow> (\<exists>\<sigma>. admissible (domains_of a) \<sigma> \<and> active d (route_of a \<sigma>) t \<and> \<not> active d (route_of a \<sigma>) s)"
proof
  assume "unsafe_binding d s t"
  then obtain \<rho> where \<rho>: "choice d \<rho>" "active d \<rho> t" "\<not> active d \<rho> s"
    by (auto simp: unsafe_binding_def)
  obtain \<sigma> where \<sigma>: "admissible (domains_of a) \<sigma>"
      "\<forall>n \<in> set (ird_Nodes d). irn_Type n = ''branch'' \<longrightarrow> route_of a \<sigma> (irn_ID n) = \<rho> (irn_ID n)"
    using choice_route_of [OF an \<rho>(1)] by blast
  then show "\<exists>\<sigma>. admissible (domains_of a) \<sigma> \<and> active d (route_of a \<sigma>) t \<and> \<not> active d (route_of a \<sigma>) s"
    using \<rho>(2,3) active_cong [of d \<rho> t "route_of a \<sigma>"] active_cong [of d "route_of a \<sigma>" s \<rho>] by (intro exI [of _ \<sigma>]) auto
qed (use route_of_choice [OF an] in \<open>auto simp: unsafe_binding_def\<close>)

lemma check_binding_report:
  assumes wfd: "ir_wf d" and an: "analyzed d a" and dec: "decides d a act m (ir_ids d)"
    and p: "node \<in> set (ird_Nodes d)" "i \<in> set (inputs_of node)"
  shows "(case check_binding a act ((nodeIndex, node), (inputIndex, i)) m of
       Inl ds \<Rightarrow> ds = complexity_exceeded too_many
     | Inr (ds, m') \<Rightarrow> ds = binding_report d ((nodeIndex, node), (inputIndex, i)) \<and> decides d a act m' (ir_ids d))"
proof (cases "iri_Source i = SourceRef")
  case False
  then show ?thesis
    using dec by (simp add: check_binding_def binding_report_def)
next
  case ref: True
  let ?s = "iri_RefNode i" and ?t = "irn_ID node"
  have ids: "?s \<in> ir_ids d" "?t \<in> ir_ids d"
    using wfd p ref by (auto simp: ir_wf_def ir_ids_def)
  then have up: "isControlUpstream a ?s ?t \<longleftrightarrow> (?s, ?t) \<in> (ir_rel d)\<^sup>+"
    using an by (simp add: analyzed_def)
  have s: "denotes m (decision_at act ?s) (\<lambda>\<sigma>. active d (route_of a \<sigma>) ?s)" "denotes m (decision_at act ?t) (\<lambda>\<sigma>. active d (route_of a \<sigma>) ?t)"
    and m: "wf_manager m" "dm_domains m = domains_of a"
    using dec ids by (auto simp: decides_def)
  show ?thesis
  proof (cases "(?s, ?t) \<in> (ir_rel d)\<^sup>+")
    case False
    then show ?thesis
      using ref up dec by (simp add: check_binding_def binding_report_def)
  next
    case True
    have "yields m 0 (\<lambda>\<sigma>. \<not> active d (route_of a \<sigma>) ?s) (decision_not m (decision_at act ?s))"
      by (rule not_denotes [OF m(1) s(1)])
    then show ?thesis
    proof (cases rule: yieldsE)
      case 1
      then show ?thesis
        using ref up True by (simp add: check_binding_def)
    next
      case neg: (2 r m1)
      have "yields m1 0 (\<lambda>\<sigma>. active d (route_of a \<sigma>) ?t \<and> \<not> active d (route_of a \<sigma>) ?s) (decision_and m1 (decision_at act ?t) r)"
        by (rule and_denotes [OF neg(2) extends_denotes [OF neg(3) s(2)] neg(4)])
      then show ?thesis
      proof (cases rule: yieldsE)
        case 1
        then show ?thesis
          using ref up True neg(1) by (simp add: check_binding_def)
      next
        case conj: (2 c m2)
        have ext: "extends_manager m m2"
          using extends_trans [OF neg(3) conj(3)] .
        have "c \<noteq> decisionFalse \<longleftrightarrow> unsafe_binding d ?s ?t"
          using false_iff [OF conj(2,4)] unsafe_binding_iff [OF an] extends_domains [OF ext] m(2) by auto
        then show ?thesis
          using ref up True neg(1) conj(1) decides_extends [OF dec conj(2) ext]
          by (simp add: check_binding_def binding_report_def diag_when_def)
      qed
    qed
  qed
qed

lemma check_bindings_report:
  assumes wfd: "ir_wf d" and an: "analyzed d a"
  shows "decides d a act m (ir_ids d) \<Longrightarrow> \<forall>((k, n), (j, i)) \<in> set ps. n \<in> set (ird_Nodes d) \<and> i \<in> set (inputs_of n) \<Longrightarrow>
    (case check_bindings a act ps m acc of
       Inl ds \<Rightarrow> ds = complexity_exceeded too_many
     | Inr ds \<Rightarrow> ds = acc @ concat (map (binding_report d) ps))"
proof (induction ps arbitrary: m acc)
  case (Cons p ps)
  obtain k n j i where p: "p = ((k, n), (j, i))"
    by (metis surj_pair)
  have "n \<in> set (ird_Nodes d)" "i \<in> set (inputs_of n)"
    using Cons.prems(2) p by auto
  note step = check_binding_report [OF wfd an Cons.prems(1) this, of k j]
  show ?case
  proof (cases "check_binding a act p m")
    case (Inl ds)
    then show ?thesis
      using step p by simp
  next
    case (Inr q)
    obtain ds m1 where q: "q = (ds, m1)"
      by (cases q)
    have rep: "ds = binding_report d p" "decides d a act m1 (ir_ids d)"
      using step p Inr q by auto
    then show ?thesis
      using Cons.IH [OF rep(2), of "acc @ ds"] Cons.prems(2) Inr q by (simp split: sum.splits)
  qed
qed simp

lemma document_bindings_in:
  "\<forall>((k, n), (j, i)) \<in> set (document_bindings d). n \<in> set (ird_Nodes d) \<and> i \<in> set (inputs_of n)"
  by (auto simp: document_bindings_def dest: enumerate_value)

lemma validateDataBindings_report:
  assumes wfd: "ir_wf d" and an: "analyzed d a"
  shows "validateDataBindings d a = complexity_exceeded too_many
    \<or> validateDataBindings d a = LimitDiagnostics (SortDiagnostics (concat (map (binding_report d) (document_bindings d))))"
proof -
  let ?m = "newDecisionManager (domains_of a)"
  have "decides d a [] ?m (set [])"
    using wf_new [OF domains_nonempty] by (simp add: decides_def) (simp add: newDecisionManager_def)
  then have loop: "case activation_loop a (ga_topological a) [] ?m of Inl ds \<Rightarrow> ds = complexity_exceeded too_many
      | Inr (act', m') \<Rightarrow> decides d a act' m' (ir_ids d)"
    by (intro activation_loop_decides [OF wfd an, of "[]"]) simp_all
  show ?thesis
  proof (cases "activation_loop a (ga_topological a) [] ?m")
    case (Inl ds)
    then show ?thesis
      using loop by (simp add: validateDataBindings_def domains_of_def Let_def)
  next
    case (Inr q)
    obtain act m where q: "q = (act, m)"
      by (cases q)
    then have "case check_bindings a act (document_bindings d) m [] of Inl ds \<Rightarrow> ds = complexity_exceeded too_many
        | Inr ds \<Rightarrow> ds = [] @ concat (map (binding_report d) (document_bindings d))"
      using loop Inr by (intro check_bindings_report [OF wfd an _ document_bindings_in]) simp
    then show ?thesis
      using Inr q by (auto simp: validateDataBindings_def domains_of_def Let_def split: sum.splits)
  qed
qed

lemma binding_report_errors:
  "HasErrors (binding_report d ((k, n), (j, i))) \<longleftrightarrow> iri_Source i = SourceRef
     \<and> ((iri_RefNode i, irn_ID n) \<notin> (ir_rel d)\<^sup>+ \<or> unsafe_binding d (iri_RefNode i) (irn_ID n))"
  by (auto simp: binding_report_def binding_error_def)

lemma accepted_bindings_safe:
  assumes wf: "ir_wf d" and graph: "\<not> HasErrors (snd (analyzeControlGraph d))"
    and ok: "\<not> HasErrors (validateDataBindings d (fst (analyzeControlGraph d)))"
    and n: "n \<in> set (ird_Nodes d)" "i \<in> set (inputs_of n)" "iri_Source i = SourceRef"
  shows "\<not> unsafe_binding d (iri_RefNode i) (irn_ID n) \<and> (iri_RefNode i, irn_ID n) \<in> (ir_rel d)\<^sup>+"
proof -
  obtain k j where "(k, n) \<in> set (enumerate 0 (ird_Nodes d))" "(j, i) \<in> set (enumerate 0 (inputs_of n))"
    using in_enumerate [OF n(1)] in_enumerate [OF n(2)] by blast
  then have "((k, n), (j, i)) \<in> set (document_bindings d)"
    by (force simp: document_bindings_def)
  moreover have "HasErrors (complexity_exceeded too_many)"
    by (simp add: complexity_exceeded_def graphInternalDiagnostic_def graph_error_def)
  ultimately show ?thesis
    using validateDataBindings_report [OF wf analyze_analyzed [OF wf graph]] ok n(3)
    by (metis HasErrors_concat HasErrors_limit binding_report_errors)
qed

end
