(* ===== verification/Control_Accept.thy ===== *)
theory Control_Accept
  imports Activation_Laws
begin

text \<open>
  Which control graphs the compiler's analysis accepts: one start and one end, no cycle, every node on a way
  from start to end, and at every branch exactly its declared routes.
\<close>

section \<open>Accepted control graphs\<close>

definition control_graph_ok :: "IrDocument \<Rightarrow> bool" where
  "control_graph_ok d \<longleftrightarrow> length (nodes_of_type ''start'' d) = 1 \<and> length (nodes_of_type ''end'' d) = 1
     \<and> acyclic (ir_rel d)
     \<and> (\<forall>n \<in> set (ird_Nodes d).
          (irn_Type n = ''start'' \<longleftrightarrow> irn_ID n \<notin> Range (ir_rel d)) \<and> (irn_Type n = ''end'' \<longleftrightarrow> irn_ID n \<notin> Domain (ir_rel d))
          \<and> (\<forall>v \<in> set (nodes_of_type ''start'' d). (v, irn_ID n) \<in> (ir_rel d)\<^sup>*)
          \<and> (\<forall>v \<in> set (nodes_of_type ''end'' d). (irn_ID n, v) \<in> (ir_rel d)\<^sup>*)
          \<and> (irn_Type n = ''branch'' \<longrightarrow> set (branch_domain n) = ire_Route ` {e \<in> set (ird_Edges d). ire_Source e = irn_ID n}))"

lemma degree_diagnostics_errors:
  assumes wf: "ir_wf d" and n: "n \<in> set (ird_Nodes d)"
  shows "HasErrors (degree_diagnostics (graph_maps d) n) \<longleftrightarrow>
    \<not> ((irn_Type n = ''start'' \<longleftrightarrow> irn_ID n \<notin> Range (ir_rel d)) \<and> (irn_Type n = ''end'' \<longleftrightarrow> irn_ID n \<notin> Domain (ir_rel d)))"
proof -
  have "slice_at (ga_incoming (graph_maps d)) (irn_ID n) = [] \<longleftrightarrow> irn_ID n \<notin> Range (ir_rel d)"
    "slice_at (ga_outgoing (graph_maps d)) (irn_ID n) = [] \<longleftrightarrow> irn_ID n \<notin> Domain (ir_rel d)"
    by (auto simp: graph_maps_slices [OF wf] filter_empty_conv Range_iff Domain_iff ir_rel_iff)
  then show ?thesis
    by (auto simp: degree_diagnostics_def Let_def graph_error_def)
qed

lemma branch_routes_errors:
  assumes wf: "ir_wf d"
  shows "HasErrors (fst (validateBranchRoutes n (graph_maps d))) \<longleftrightarrow>
    set (branch_domain n) \<noteq> ire_Route ` {e \<in> set (ird_Edges d). ire_Source e = irn_ID n}"
proof -
  have "set (slice_at (ga_outgoing (graph_maps d)) (irn_ID n)) = {e \<in> set (ird_Edges d). ire_Source e = irn_ID n}"
    by (auto simp: graph_maps_slices [OF wf])
  then show ?thesis
    by (auto simp: validateBranchRoutes_def Let_def HasErrors_concat graph_error_def)
qed

lemma single_type:
  assumes "ir_wf d" and "length (nodes_of_type t d) = 1"
  shows "nodes_of_type t d = [hd (nodes_of_type t d)] \<and> hd (nodes_of_type t d) \<noteq> ''''"
proof -
  obtain n where "n \<in> set (ird_Nodes d)" "hd (nodes_of_type t d) = irn_ID n"
    using unique_of_type [OF assms(2)] by blast
  then show ?thesis
    using assms by (cases "nodes_of_type t d") (auto simp: ir_wf_def)
qed

lemma analyze_errors:
  assumes wf: "ir_wf d"
  shows "HasErrors (snd (analyzeControlGraph d)) \<longleftrightarrow> \<not> control_graph_ok d"
proof (cases "length (nodes_of_type ''start'' d) = 1 \<and> length (nodes_of_type ''end'' d) = 1")
  case False
  then show ?thesis
    using analyze_accepted(1,2) [of d] by (auto simp: control_graph_ok_def)
next
  case True
  define s t where "s = hd (nodes_of_type ''start'' d)" and "t = hd (nodes_of_type ''end'' d)"
  have ends: "nodes_of_type ''start'' d = [s]" "nodes_of_type ''end'' d = [t]" "s \<noteq> ''''" "t \<noteq> ''''"
    using single_type [OF wf] True by (simp_all add: s_def t_def)
  then have start: "ga_start (graph_maps d) = s" "ga_end (graph_maps d) = t"
    by (simp_all add: graph_maps_def Let_def)
  have reports: "HasErrors (node_reports (graph_maps d) n) \<longleftrightarrow>
      HasErrors (degree_diagnostics (graph_maps d) n) \<or> (irn_Type n = ''branch'' \<and> HasErrors (fst (validateBranchRoutes n (graph_maps d))))" for n
    by (auto simp: node_reports_def)
  have "HasErrors (snd (analyzeControlGraph d)) \<longleftrightarrow>
      (\<exists>n \<in> set (ird_Nodes d). HasErrors (node_reports (graph_maps d) n)) \<or> length (order_of d) \<noteq> length (ird_Nodes d)
      \<or> (\<exists>n \<in> set (ird_Nodes d). irn_ID n \<notin> graphReachable s (ga_outgoing (graph_maps d)) False)
      \<or> (\<exists>n \<in> set (ird_Nodes d). irn_ID n \<notin> graphReachable t (ga_incoming (graph_maps d)) True)"
    using ends start
    by (simp add: analyzeControlGraph_def Let_def graph_node_fold order_of_def HasErrors_concat graph_error_def unreached_errors
        graph_maps_nodes [OF wf] del: One_nat_def)
  then show ?thesis
    using ends order_correct [OF wf]
    by (auto simp: control_graph_ok_def reports degree_diagnostics_errors [OF wf] branch_routes_errors [OF wf] reachable_correct [OF wf])
qed

end
