(* ===== verification/Source_Map.thy ===== *)
theory Source_Map
  imports Ir_Model
begin

text \<open>
  The bridge from execution coordinates back to the author's document, \<^verbatim>\<open>internal/sourcemap\<close>: the
  document, its validation against an executable document, and resolution. The issues of this package
  have the fields of those of \<^verbatim>\<open>internal/dsl\<close> and are the same record here.
\<close>

section \<open>Documents\<close>

record SourceMap =
  sm_SourceMapVersion :: string
  sm_Nodes :: "(NodeID, string) gomap"
  sm_Edges :: "(EdgeID, string) gomap"
  sm_Fields :: "(NodeID, (string, string) gomap) gomap"

type_synonym RequiredFields = "(NodeID, string list) gomap"

definition SourceMapVersionV1 :: string where
  "SourceMapVersionV1 = ''1''"

record SourceLocation =
  sl_LogicalNodeID :: string
  sl_LogicalEdgeID :: string
  sl_IRField :: string

definition text_at :: "('k, string) gomap \<Rightarrow> 'k \<Rightarrow> string" where
  "text_at m k = (case map_of m k of None \<Rightarrow> '''' | Some t \<Rightarrow> t)"

definition fields_at :: "SourceMap \<Rightarrow> NodeID \<Rightarrow> (string, string) gomap" where
  "fields_at m v = (case map_of (sm_Fields m) v of None \<Rightarrow> [] | Some fs \<Rightarrow> fs)"

definition Resolve :: "SourceMap \<Rightarrow> NodeID \<Rightarrow> EdgeID \<Rightarrow> string \<Rightarrow> SourceLocation" where
  "Resolve document nodeID edgeID dslField =
     \<lparr>sl_LogicalNodeID = text_at (sm_Nodes document) nodeID,
      sl_LogicalEdgeID = text_at (sm_Edges document) edgeID,
      sl_IRField = text_at (fields_at document nodeID) dslField\<rparr>"

section \<open>Validation\<close>

definition node_mapping_issues :: "SourceMap \<Rightarrow> Node \<Rightarrow> Issue list" where
  "node_mapping_issues document node =
     (case map_of (sm_Nodes document) (dn_ID node) of
        None \<Rightarrow> [issue ''SOURCE_MAP_NODE_MISSING'' ''execution node has no IR node mapping'' (dn_ID node) '''' '''']
      | Some logicalID \<Rightarrow> issue_when (\<not> ValidLogicalID logicalID)
          (issue ''SOURCE_MAP_LOGICAL_NODE_INVALID'' ''mapped IR node id is invalid'' (dn_ID node) '''' ''''))
     @ issue_when (map_of (sm_Fields document) (dn_ID node) = None)
         (issue ''SOURCE_MAP_FIELDS_MISSING'' ''execution node has no field mapping object'' (dn_ID node) '''' '''')"

definition edge_mapping_issues :: "SourceMap \<Rightarrow> Edge \<Rightarrow> Issue list" where
  "edge_mapping_issues document edge =
     (case map_of (sm_Edges document) (edge_ID edge) of
        None \<Rightarrow> [issue ''SOURCE_MAP_EDGE_MISSING'' ''execution edge has no IR edge mapping'' '''' (edge_ID edge) '''']
      | Some logicalID \<Rightarrow> issue_when (\<not> ValidLogicalID logicalID)
          (issue ''SOURCE_MAP_LOGICAL_EDGE_INVALID'' ''mapped IR edge id is invalid'' '''' (edge_ID edge) ''''))"

definition field_mapping_issues :: "NodeID set \<Rightarrow> NodeID \<times> (string, string) gomap \<Rightarrow> Issue list" where
  "field_mapping_issues nodes = (\<lambda>(nodeID, mapping).
     issue_when (nodeID \<notin> nodes) (issue ''SOURCE_MAP_FIELDS_ORPHAN'' ''field mapping has no DSL node'' nodeID '''' '''')
     @ concat (map (\<lambda>(dslField, irField). issue_when (dslField = '''' \<or> irField = '''')
         (issue ''SOURCE_MAP_FIELD_INVALID'' ''field mapping paths must be non-empty'' nodeID '''' dslField)) mapping))"

definition required_field_issues :: "SourceMap \<Rightarrow> NodeID \<times> string list \<Rightarrow> Issue list" where
  "required_field_issues document = (\<lambda>(nodeID, required).
     concat (map (\<lambda>field. issue_when (map_of (fields_at document nodeID) field = None)
       (issue ''SOURCE_MAP_FIELD_MISSING'' ''reportable DSL field has no IR field mapping'' nodeID '''' field)) required))"

definition SourceMap_Validate :: "SourceMap \<Rightarrow> Document \<Rightarrow> RequiredFields \<Rightarrow> Issue list" where
  "SourceMap_Validate document runtime required =
     (let nodes = dn_ID ` set (doc_Nodes runtime); edges = edge_ID ` set (doc_Edges runtime) in
      sortIssues
       (issue_when (sm_SourceMapVersion document \<noteq> SourceMapVersionV1)
          (issue ''SOURCE_MAP_VERSION_UNSUPPORTED'' ''source_map_version must be 1'' '''' '''' '''')
        @ concat (map (node_mapping_issues document) (doc_Nodes runtime))
        @ concat (map (\<lambda>(nodeID, logicalID). issue_when (nodeID \<notin> nodes)
            (issue ''SOURCE_MAP_NODE_ORPHAN'' ''node mapping has no DSL node'' nodeID '''' '''')) (sm_Nodes document))
        @ concat (map (edge_mapping_issues document) (doc_Edges runtime))
        @ concat (map (\<lambda>(edgeID, logicalID). issue_when (edgeID \<notin> edges)
            (issue ''SOURCE_MAP_EDGE_ORPHAN'' ''edge mapping has no DSL edge'' '''' edgeID '''')) (sm_Edges document))
        @ concat (map (field_mapping_issues nodes) (sm_Fields document))
        @ concat (map (required_field_issues document) required)))"

section \<open>What validation guarantees\<close>

definition complete_map :: "SourceMap \<Rightarrow> Document \<Rightarrow> RequiredFields \<Rightarrow> bool" where
  "complete_map document runtime required \<longleftrightarrow>
     sm_SourceMapVersion document = SourceMapVersionV1
     \<and> fst ` set (sm_Nodes document) = dn_ID ` set (doc_Nodes runtime)
     \<and> fst ` set (sm_Edges document) = edge_ID ` set (doc_Edges runtime)
     \<and> fst ` set (sm_Fields document) = dn_ID ` set (doc_Nodes runtime)
     \<and> (\<forall>v \<in> dn_ID ` set (doc_Nodes runtime). ValidLogicalID (text_at (sm_Nodes document) v))
     \<and> (\<forall>e \<in> edge_ID ` set (doc_Edges runtime). ValidLogicalID (text_at (sm_Edges document) e))
     \<and> (\<forall>(v, mapping) \<in> set (sm_Fields document). \<forall>(dslField, irField) \<in> set mapping. dslField \<noteq> '''' \<and> irField \<noteq> '''')
     \<and> (\<forall>(v, fs) \<in> set required. \<forall>field \<in> set fs. map_of (fields_at document v) field \<noteq> None)"

lemma issue_when_empty [simp]: "issue_when b i = [] \<longleftrightarrow> \<not> b"
  by (simp add: issue_when_def)

lemma mapped_iff: "map_of m k \<noteq> None \<longleftrightarrow> k \<in> fst ` set m"
  by (simp add: map_of_eq_None_iff)

lemma node_mapping_issues_empty:
  "node_mapping_issues document node = [] \<longleftrightarrow>
     dn_ID node \<in> fst ` set (sm_Nodes document) \<and> ValidLogicalID (text_at (sm_Nodes document) (dn_ID node))
     \<and> dn_ID node \<in> fst ` set (sm_Fields document)"
  unfolding node_mapping_issues_def mapped_iff [symmetric]
  by (auto simp: text_at_def split: option.split)

lemma edge_mapping_issues_empty:
  "edge_mapping_issues document edge = [] \<longleftrightarrow>
     edge_ID edge \<in> fst ` set (sm_Edges document) \<and> ValidLogicalID (text_at (sm_Edges document) (edge_ID edge))"
  unfolding edge_mapping_issues_def mapped_iff [symmetric]
  by (auto simp: text_at_def split: option.split)

lemma SourceMap_Validate_iff:
  "SourceMap_Validate document runtime required = [] \<longleftrightarrow> complete_map document runtime required"
  unfolding SourceMap_Validate_def complete_map_def Let_def sortIssues_nil field_mapping_issues_def
    required_field_issues_def case_prod_unfold set_eq_subset image_subset_iff ball_simps
  by (simp add: node_mapping_issues_empty edge_mapping_issues_empty image_subset_iff) blast

end
