(* ===== verification/Canonical.thy ===== *)
theory Canonical
  imports Ir_Model
begin

text \<open>
  The safe envelope and the canonical form of JSON texts: the inspection of \<^verbatim>\<open>internal/ir/parser.go\<close>
  (size, UTF-8, surrogate escapes, nesting, repeated keys, oversized strings, numbers and collections) and
  \<^verbatim>\<open>internal/ir/canonical.go\<close> (sorted keys, minimal escapes, one literal for each number).

  The scanner of the source reads tokens from a streaming decoder; \<open>scan_value\<close>, \<open>scan_items\<close> and
  \<open>scan_members\<close> are its recursion and its two loops, over the text that is left. They recurse on
  fuel, of which \<open>text_fuel\<close> is enough. What the source takes from the text of a syntax error or
  from \<^verbatim>\<open>%q\<close>, whose Unicode tables are not modelled, are the two functions of \<open>JsonTexts\<close>.
\<close>

section \<open>Limits\<close>

record ParseLimits =
  pl_MaxDocumentBytes :: int
  pl_MaxDepth :: int
  pl_MaxStringBytes :: int
  pl_MaxNumberBytes :: int
  pl_MaxCollectionItems :: int

definition DefaultParseLimits :: ParseLimits where
  "DefaultParseLimits = \<lparr>pl_MaxDocumentBytes = 1048576, pl_MaxDepth = 64, pl_MaxStringBytes = 262144,
     pl_MaxNumberBytes = 256, pl_MaxCollectionItems = 10000\<rparr>"

definition normalizeLimits :: "ParseLimits \<Rightarrow> ParseLimits" where
  "normalizeLimits limits =
     (let or_default = (\<lambda>field. if field limits \<le> 0 then field DefaultParseLimits else field limits) in
      \<lparr>pl_MaxDocumentBytes = or_default pl_MaxDocumentBytes, pl_MaxDepth = or_default pl_MaxDepth,
       pl_MaxStringBytes = or_default pl_MaxStringBytes, pl_MaxNumberBytes = or_default pl_MaxNumberBytes,
       pl_MaxCollectionItems = or_default pl_MaxCollectionItems\<rparr>)"

record parseIssue =
  issue_code :: string
  issue_message :: string

definition parse_issue :: "string \<Rightarrow> string \<Rightarrow> parseIssue" where
  "parse_issue code message = \<lparr>issue_code = code, issue_message = message\<rparr>"

definition parseIssue_diagnostic :: "parseIssue \<Rightarrow> Diagnostic" where
  "parseIssue_diagnostic p = ErrorDiagnostic PhaseParse (issue_code p) (issue_message p) zero_Location"

record JsonTexts =
  jt_syntax :: "raw_message \<Rightarrow> string"
  jt_quote :: "string \<Rightarrow> string"

section \<open>Numbers\<close>

definition MaxDecimalExponent :: int where
  "MaxDecimalExponent = 10000"

text \<open>\<^verbatim>\<open>strconv.Atoi\<close>: an optional sign and decimal digits, within 64 bits.\<close>

definition atoi_parts :: "string \<Rightarrow> bool \<times> string" where
  "atoi_parts s = (case s of
     c # r \<Rightarrow> if c = CHR ''-'' then (True, r) else if c = CHR ''+'' then (False, r) else (False, s)
   | [] \<Rightarrow> (False, []))"

definition Atoi :: "string \<Rightarrow> int result" where
  "Atoi s =
     (let (negative, ds) = atoi_parts s; n = (if negative then - digits_value 0 ds else digits_value 0 ds) in
      if ds = [] \<or> \<not> list_all is_digit ds then
        Inl (Errorf (''strconv.Atoi: parsing '' @ quoted s @ '': invalid syntax''))
      else if n < - (2 ^ 63) \<or> 2 ^ 63 \<le> n then
        Inl (Errorf (''strconv.Atoi: parsing '' @ quoted s @ '': value out of range''))
      else Inr n)"

definition Itoa :: "int \<Rightarrow> string" where
  "Itoa n = (if n < 0 then CHR ''-'' # show_nat (nat (- n)) else show_nat (nat n))"

definition is_exponent_mark :: "char \<Rightarrow> bool" where
  "is_exponent_mark c = (c = CHR ''e'' \<or> c = CHR ''E'')"

definition number_exponent :: "string \<Rightarrow> int result" where
  "number_exponent text =
     (case dropWhile (\<lambda>c. \<not> is_exponent_mark c) text of
        [] \<Rightarrow> Inr 0
      | mark # rest \<Rightarrow>
          (case Atoi rest of
             Inl e \<Rightarrow> Inl (Errorf (''invalid JSON number exponent: '' @ error_text e))
           | Inr parsed \<Rightarrow>
               if parsed < - MaxDecimalExponent \<or> parsed > MaxDecimalExponent
               then Inl (Errorf (''JSON number exponent exceeds '' @ Itoa MaxDecimalExponent))
               else Inr parsed))"

text \<open>The layout of significant digits with a decimal scale.\<close>

definition layout_digits :: "string \<Rightarrow> int \<Rightarrow> string" where
  "layout_digits digits scale =
     (let adjusted = int (length digits) + scale in
      if scale = 0 then digits
      else if 0 < adjusted \<and> adjusted \<le> 21 then
        (if int (length digits) \<le> adjusted
         then digits @ replicate (nat (adjusted - int (length digits))) (CHR ''0'')
         else take (nat adjusted) digits @ ''.'' @ drop (nat adjusted) digits)
      else if adjusted \<le> 0 \<and> - 5 \<le> adjusted then ''0.'' @ replicate (nat (- adjusted)) (CHR ''0'') @ digits
      else take 1 digits @ (if 1 < length digits then ''.'' @ drop 1 digits else [])
           @ ''e'' @ Itoa (adjusted - 1))"

definition trim_zeros :: "string \<Rightarrow> string" where
  "trim_zeros ds = rev (dropWhile (\<lambda>c. c = CHR ''0'') (rev ds))"

definition normalizeJSONNumber :: "string \<Rightarrow> string result" where
  "normalizeJSONNumber text =
     (if text = [] then Inl (Errorf ''empty JSON number'')
      else let negative = (hd text = CHR ''-''); unsigned = (if negative then tl text else text) in
        case number_exponent unsigned of
          Inl e \<Rightarrow> Inl e
        | Inr exponent \<Rightarrow>
            (let mantissa = takeWhile (\<lambda>c. \<not> is_exponent_mark c) unsigned;
                 fraction = dropWhile (\<lambda>c. c \<noteq> CHR ''.'') mantissa;
                 fractionDigits = length fraction - 1;
                 joined = takeWhile (\<lambda>c. c \<noteq> CHR ''.'') mantissa @ tl fraction;
                 digits = dropWhile (\<lambda>c. c = CHR ''0'') joined;
                 trimmed = trim_zeros digits;
                 scale = exponent - int fractionDigits + int (length digits - length trimmed)
             in if digits = [] then Inr ''0''
                else Inr ((if negative then ''-'' else []) @ layout_digits trimmed scale)))"

section \<open>Inspection\<close>

text \<open>Evaluation of the validity of ASCII texts does not look ahead.\<close>

lemma utf8_size_ascii: "c < CHR 0x80 \<Longrightarrow> utf8_size (map of_char (c # r)) = 1"
  by (simp add: utf8_size_def flip: char_below)

lemma utf8_valid_ascii [code]:
  "utf8_valid_fuel 0 s = (s = [])"
  "utf8_valid_fuel (Suc fuel) s =
     (case s of [] \<Rightarrow> True
      | c # r \<Rightarrow> if c < CHR 0x80 then utf8_valid_fuel fuel r
                else (let n = utf8_size (map of_char s) in n \<noteq> 0 \<and> utf8_valid_fuel fuel (drop n s)))"
proof -
  show "utf8_valid_fuel (Suc fuel) s =
     (case s of [] \<Rightarrow> True
      | c # r \<Rightarrow> if c < CHR 0x80 then utf8_valid_fuel fuel r
                else (let n = utf8_size (map of_char s) in n \<noteq> 0 \<and> utf8_valid_fuel fuel (drop n s)))"
  proof (cases s)
    case (Cons c r)
    then show ?thesis
      using utf8_size_ascii [of c r] by (cases "c < CHR 0x80") (simp_all del: list.map)
  qed simp
qed simp

text \<open>The loop of \<^verbatim>\<open>validUnicodeEscapes\<close> over the bytes that are left, and whether they are inside a string.\<close>

function unicode_escapes_valid :: "bool \<Rightarrow> string \<Rightarrow> bool" where
  "unicode_escapes_valid inString [] = True"
| "unicode_escapes_valid inString (c # rest) =
     (if c = CHR 0x22 then unicode_escapes_valid (\<not> inString) rest
      else if c = CHR 0x5C \<and> inString then
        (case rest of
           [] \<Rightarrow> True
         | d # text \<Rightarrow>
             if d \<noteq> CHR ''u'' then unicode_escapes_valid inString text
             else if length text < 4 then False
             else case hex4 text of
                 None \<Rightarrow> unicode_escapes_valid inString text
               | Some (code, after) \<Rightarrow>
                   if 55296 \<le> code \<and> code \<le> 56319 then
                     (case after of
                        a # b # low_text \<Rightarrow>
                          (case hex4 low_text of
                             None \<Rightarrow> False
                           | Some (low, after_low) \<Rightarrow>
                               a = CHR 0x5C \<and> b = CHR ''u'' \<and> 56320 \<le> low \<and> low \<le> 57343
                               \<and> unicode_escapes_valid inString after_low)
                      | _ \<Rightarrow> False)
                   else if 56320 \<le> code \<and> code \<le> 57343 then False
                   else unicode_escapes_valid inString after)
      else unicode_escapes_valid inString rest)"
  by pat_completeness auto
termination
  by (relation "measure (\<lambda>(inString, s). length s)") (auto dest!: hex4_length)

definition validUnicodeEscapes :: "raw_message \<Rightarrow> bool" where
  "validUnicodeEscapes data = unicode_escapes_valid False data"

text \<open>What stops a scan: a limit of the envelope, or the decoder's own error.\<close>

datatype scan_stop = Limit parseIssue | Syntax string

definition stop_limit :: "string \<Rightarrow> string \<Rightarrow> scan_stop + 'a" where
  "stop_limit code message = Inl (Limit (parse_issue code message))"

definition stop_syntax :: "string \<Rightarrow> scan_stop + 'a" where
  "stop_syntax text = Inl (Syntax text)"

text \<open>The string and number tokens, \<^verbatim>\<open>null\<close>, \<^verbatim>\<open>true\<close> and \<^verbatim>\<open>false\<close>, with the checks on them.\<close>

definition scan_scalar :: "ParseLimits \<Rightarrow> string \<Rightarrow> scan_stop + string" where
  "scan_scalar limits text =
     (case parse_value 1 0 text of
        None \<Rightarrow> stop_syntax text
      | Some (v, rest) \<Rightarrow>
          (case v of
             JString s \<Rightarrow>
               if int (length s) > pl_MaxStringBytes limits
               then stop_limit ''JSON_STRING_TOO_LARGE'' ''IR contains an oversized string'' else Inr rest
           | JNumber n \<Rightarrow>
               if int (length n) > pl_MaxNumberBytes limits
               then stop_limit ''JSON_NUMBER_TOO_LARGE'' ''IR contains an oversized number''
               else (case normalizeJSONNumber n of
                   Inl e \<Rightarrow> stop_limit ''JSON_NUMBER_UNSUPPORTED'' ''IR contains a number outside canonicalization limits''
                 | Inr _ \<Rightarrow> Inr rest)
           | _ \<Rightarrow> Inr rest))"

text \<open>The key of the next member: the comma that precedes every member but the first, then a string.\<close>

definition scan_comma :: "bool \<Rightarrow> string \<Rightarrow> scan_stop + string" where
  "scan_comma first text =
     (if first then Inr text
      else case text of c # rest \<Rightarrow> if c = CHR '','' then Inr rest else stop_syntax text | [] \<Rightarrow> stop_syntax text)"

definition scan_key :: "string \<Rightarrow> scan_stop + (string \<times> string)" where
  "scan_key text =
     (case skip_ws text of
        c # rest \<Rightarrow> (if c = CHR 0x22 then (case parse_string rest of None \<Rightarrow> stop_syntax text | Some k \<Rightarrow> Inr k) else stop_syntax text)
      | [] \<Rightarrow> stop_syntax text)"

definition scan_colon :: "string \<Rightarrow> scan_stop + string" where
  "scan_colon text =
     (case skip_ws text of c # rest \<Rightarrow> if c = CHR '':'' then Inr rest else stop_syntax text | [] \<Rightarrow> stop_syntax text)"

definition bind_scan :: "'e + 'a \<Rightarrow> ('a \<Rightarrow> 'e + 'b) \<Rightarrow> 'e + 'b" where
  "bind_scan r f = (case r of Inl e \<Rightarrow> Inl e | Inr x \<Rightarrow> f x)"

lemma bind_scan_simps [simp]: "bind_scan (Inl e) f = Inl e" "bind_scan (Inr x) f = f x"
  by (simp_all add: bind_scan_def)

lemma bind_scan_Inr: "bind_scan r f = Inr y \<longleftrightarrow> (\<exists>x. r = Inr x \<and> f x = Inr y)"
  by (cases r) simp_all

lemma bind_scan_cong [fundef_cong]:
  "r = r' \<Longrightarrow> (\<And>x. r' = Inr x \<Longrightarrow> f x = g x) \<Longrightarrow> bind_scan r f = bind_scan r' g"
  by (cases r') (simp_all add: bind_scan_def)

text \<open>
  \<open>first\<close> tells the first turn of a loop; \<open>items\<close> and \<open>seen\<close> are the elements and the keys read so far.
  Where the source asks \<^verbatim>\<open>decoder.More()\<close>, a closing bracket of either kind ends the loop, and only the
  one that fits closes the collection.
\<close>

function (sequential) scan_value :: "JsonTexts \<Rightarrow> ParseLimits \<Rightarrow> nat \<Rightarrow> int \<Rightarrow> string \<Rightarrow> scan_stop + string"
  and scan_items :: "JsonTexts \<Rightarrow> ParseLimits \<Rightarrow> nat \<Rightarrow> int \<Rightarrow> int \<Rightarrow> string \<Rightarrow> scan_stop + string"
  and scan_members :: "JsonTexts \<Rightarrow> ParseLimits \<Rightarrow> nat \<Rightarrow> int \<Rightarrow> string list \<Rightarrow> string \<Rightarrow> scan_stop + string"
where
  "scan_value texts limits 0 depth s = stop_syntax s"
| "scan_value texts limits (Suc fuel) depth s =
     (case skip_ws s of
        [] \<Rightarrow> stop_syntax s
      | c # r \<Rightarrow>
          if c = CHR ''{'' \<or> c = CHR ''['' then
            (if depth + 1 > pl_MaxDepth limits
             then stop_limit ''JSON_TOO_DEEP'' ''IR exceeds the JSON nesting depth limit''
             else if c = CHR ''{'' then scan_members texts limits fuel depth [] r
             else scan_items texts limits fuel depth 0 r)
          else scan_scalar limits s)"
| "scan_items texts limits 0 depth items s = stop_syntax s"
| "scan_items texts limits (Suc fuel) depth items s =
     (case skip_ws s of
        [] \<Rightarrow> stop_syntax s
      | c # r \<Rightarrow>
          if c = CHR '']'' then Inr r
          else if c = CHR ''}'' then stop_syntax s
          else if items + 1 > pl_MaxCollectionItems limits
          then stop_limit ''JSON_COLLECTION_TOO_LARGE'' ''IR contains an oversized array''
          else bind_scan (scan_comma (items = 0) (c # r)) (\<lambda>text.
               bind_scan (scan_value texts limits fuel (depth + 1) text) (\<lambda>rest.
                 scan_items texts limits fuel depth (items + 1) rest)))"
| "scan_members texts limits 0 depth seen s = stop_syntax s"
| "scan_members texts limits (Suc fuel) depth seen s =
     (case skip_ws s of
        [] \<Rightarrow> stop_syntax s
      | c # r \<Rightarrow>
          if c = CHR ''}'' then Inr r
          else if c = CHR '']'' then stop_syntax s
          else bind_scan (scan_comma (seen = []) (c # r)) (\<lambda>text.
               bind_scan (scan_key text) (\<lambda>(key, after).
                 if int (length key) > pl_MaxStringBytes limits
                 then stop_limit ''JSON_STRING_TOO_LARGE'' ''IR contains an oversized object key''
                 else if key \<in> set seen
                 then stop_limit ''JSON_DUPLICATE_KEY'' (''duplicate JSON object key '' @ jt_quote texts key)
                 else if int (length seen) + 1 > pl_MaxCollectionItems limits
                 then stop_limit ''JSON_COLLECTION_TOO_LARGE'' ''IR contains an oversized object''
                 else bind_scan (scan_colon after) (\<lambda>value_text.
                      bind_scan (scan_value texts limits fuel (depth + 1) value_text) (\<lambda>rest.
                        scan_members texts limits fuel depth (key # seen) rest)))))"
  by pat_completeness auto

termination
  by (relation "measure (case_sum (\<lambda>(texts, limits, fuel, rest). fuel)
    (case_sum (\<lambda>(texts, limits, fuel, rest). fuel) (\<lambda>(texts, limits, fuel, rest). fuel)))") simp_all

declare scan_value.simps [simp del] scan_items.simps [simp del] scan_members.simps [simp del]

definition scanJSONValue :: "JsonTexts \<Rightarrow> ParseLimits \<Rightarrow> raw_message \<Rightarrow> scan_stop + string" where
  "scanJSONValue texts limits data = scan_value texts limits (text_fuel data) 0 data"

definition requireEOF :: "JsonTexts \<Rightarrow> string \<Rightarrow> string option" where
  "requireEOF texts rest =
     (if skip_ws rest = [] then None
      else if decode_first rest \<noteq> None then Some ''JSON contains more than one top-level value''
      else Some (jt_syntax texts rest))"

definition inspectJSON :: "JsonTexts \<Rightarrow> ParseLimits \<Rightarrow> raw_message \<Rightarrow> parseIssue option" where
  "inspectJSON texts limits data =
     (if int (length data) > pl_MaxDocumentBytes limits
      then Some (parse_issue ''DOCUMENT_TOO_LARGE'' ''IR exceeds the document size limit'')
      else if \<not> utf8_ValidString data then Some (parse_issue ''INVALID_UTF8'' ''IR must contain valid UTF-8'')
      else if \<not> validUnicodeEscapes data
      then Some (parse_issue ''INVALID_UNICODE'' ''IR contains an unpaired Unicode surrogate escape'')
      else case scanJSONValue texts limits data of
          Inl (Limit i) \<Rightarrow> Some i
        | Inl (Syntax text) \<Rightarrow> Some (parse_issue ''JSON_SYNTAX_ERROR'' (jt_syntax texts text))
        | Inr rest \<Rightarrow> map_option (parse_issue ''JSON_SYNTAX_ERROR'') (requireEOF texts rest))"

section \<open>Canonical form\<close>

definition hex_char :: "nat \<Rightarrow> char" where
  "hex_char n = char_of (if n < 10 then 48 + n else 87 + n)"

definition hex_byte :: "char \<Rightarrow> string" where
  "hex_byte c = [hex_char (of_char c div 16), hex_char (of_char c mod 16)]"

text \<open>For evaluation, a digit is read off four bits.\<close>

definition hex_nibble :: "bool \<Rightarrow> bool \<Rightarrow> bool \<Rightarrow> bool \<Rightarrow> char" where
  "hex_nibble b0 b1 b2 b3 =
     (if b3 then
        (if b2 then (if b1 then (if b0 then CHR ''f'' else CHR ''e'') else (if b0 then CHR ''d'' else CHR ''c''))
         else (if b1 then (if b0 then CHR ''b'' else CHR ''a'') else (if b0 then CHR ''9'' else CHR ''8'')))
      else
        (if b2 then (if b1 then (if b0 then CHR ''7'' else CHR ''6'') else (if b0 then CHR ''5'' else CHR ''4''))
         else (if b1 then (if b0 then CHR ''3'' else CHR ''2'') else (if b0 then CHR ''1'' else CHR ''0''))))"

lemma hex_char_bits:
  "hex_char (of_bool b0 + 2 * of_bool b1 + 4 * of_bool b2 + 8 * of_bool b3) = hex_nibble b0 b1 b2 b3"
  by (cases b0; cases b1; cases b2; cases b3) (simp_all add: hex_char_def hex_nibble_def, code_simp+)

lemma hex_byte_code [code]:
  "hex_byte (Char b0 b1 b2 b3 b4 b5 b6 b7) = [hex_nibble b4 b5 b6 b7, hex_nibble b0 b1 b2 b3]"
proof -
  have "of_char (Char b0 b1 b2 b3 b4 b5 b6 b7) =
      (of_bool b0 + 2 * of_bool b1 + 4 * of_bool b2 + 8 * of_bool b3)
      + 16 * (of_bool b4 + 2 * of_bool b5 + 4 * of_bool b6 + 8 * of_bool b7 :: nat)"
    by (simp add: of_char_def)
  moreover have "of_bool b0 + 2 * of_bool b1 + 4 * of_bool b2 + 8 * of_bool b3 < (16 :: nat)"
    by (cases b0; cases b1; cases b2; cases b3) simp_all
  ultimately have "of_char (Char b0 b1 b2 b3 b4 b5 b6 b7) div 16 = (of_bool b4 + 2 * of_bool b5 + 4 * of_bool b6 + 8 * of_bool b7 :: nat)"
      "of_char (Char b0 b1 b2 b3 b4 b5 b6 b7) mod 16 = (of_bool b0 + 2 * of_bool b1 + 4 * of_bool b2 + 8 * of_bool b3 :: nat)"
    by simp_all
  then show ?thesis
    unfolding hex_byte_def by (simp only: hex_char_bits)
qed

definition escape_char :: "char \<Rightarrow> string" where
  "escape_char c =
     (if c = CHR 0x22 then [CHR 0x5C, CHR 0x22]
      else if c = CHR 0x5C then [CHR 0x5C, CHR 0x5C]
      else if c = CHR 0x08 then [CHR 0x5C, CHR ''b'']
      else if c = CHR 0x0C then [CHR 0x5C, CHR ''f'']
      else if c = CHR 0x0A then [CHR 0x5C, CHR ''n'']
      else if c = CHR 0x0D then [CHR 0x5C, CHR ''r'']
      else if c = CHR 0x09 then [CHR 0x5C, CHR ''t'']
      else if of_char c < (32::nat) then [CHR 0x5C] @ ''u00'' @ hex_byte c
      else [c])"

fun escape_runes :: "nat \<Rightarrow> string \<Rightarrow> string" where
  "escape_runes 0 s = []"
| "escape_runes (Suc fuel) s =
     (case s of
        [] \<Rightarrow> []
      | c # r \<Rightarrow>
          if of_char c < (128::nat) then escape_char c @ escape_runes fuel r
          else (let n = utf8_size (map of_char s) in
                if n = 0 then replacement_char @ escape_runes fuel r
                else take n s @ escape_runes fuel (drop n s)))"

lemma escape_char_code [code]:
  "escape_char c =
     (if c = CHR 0x22 then [CHR 0x5C, CHR 0x22]
      else if c = CHR 0x5C then [CHR 0x5C, CHR 0x5C]
      else if CHR 0x20 \<le> c then [c]
      else if c = CHR 0x08 then [CHR 0x5C, CHR ''b'']
      else if c = CHR 0x0C then [CHR 0x5C, CHR ''f'']
      else if c = CHR 0x0A then [CHR 0x5C, CHR ''n'']
      else if c = CHR 0x0D then [CHR 0x5C, CHR ''r'']
      else if c = CHR 0x09 then [CHR 0x5C, CHR ''t'']
      else [CHR 0x5C] @ ''u00'' @ hex_byte c)"
  by (auto simp: escape_char_def char_below)

lemma escape_runes_code [code]:
  "escape_runes 0 s = []"
  "escape_runes (Suc fuel) s =
     (case s of
        [] \<Rightarrow> []
      | c # r \<Rightarrow>
          if c < CHR 0x80 then escape_char c @ escape_runes fuel r
          else (let n = utf8_size (map of_char s) in
                if n = 0 then replacement_char @ escape_runes fuel r
                else take n s @ escape_runes fuel (drop n s)))"
  by (simp_all only: escape_runes.simps char_below)

definition marshalJSONString :: "string \<Rightarrow> string" where
  "marshalJSONString s = [CHR 0x22] @ escape_runes (length s) s @ [CHR 0x22]"

fun join_texts :: "string list \<Rightarrow> string" where
  "join_texts [] = []"
| "join_texts [t] = t"
| "join_texts (t # u # ts) = t @ '','' @ join_texts (u # ts)"

text \<open>A value decoded into \<^verbatim>\<open>any\<close> is written; its objects have distinct keys. The first error, in the
  order of writing, is the result.\<close>

fun first_error :: "'a result list \<Rightarrow> 'a list result" where
  "first_error [] = Inr []"
| "first_error (r # rs) =
     (case r of
        Inl e \<Rightarrow> Inl e
      | Inr x \<Rightarrow> (case first_error rs of Inl e \<Rightarrow> Inl e | Inr xs \<Rightarrow> Inr (x # xs)))"

definition canonical_member :: "string \<Rightarrow> string result \<Rightarrow> string result" where
  "canonical_member key r = (case r of Inl e \<Rightarrow> Inl e | Inr t \<Rightarrow> Inr (marshalJSONString key @ '':'' @ t))"

fun appendCanonical :: "json \<Rightarrow> string result" where
  "appendCanonical JNull = Inr ''null''"
| "appendCanonical (JBool b) = Inr (if b then ''true'' else ''false'')"
| "appendCanonical (JString s) = Inr (marshalJSONString s)"
| "appendCanonical (JNumber n) = normalizeJSONNumber n"
| "appendCanonical (JArray vs) =
     (case first_error (map appendCanonical vs) of
        Inl e \<Rightarrow> Inl e
      | Inr ts \<Rightarrow> Inr (''['' @ join_texts ts @ '']''))"
| "appendCanonical (JObject ms) =
     (case first_error (map (\<lambda>(k, r). canonical_member k r)
         (sort_key fst (map (\<lambda>(k, v). (k, appendCanonical v)) ms))) of
        Inl e \<Rightarrow> Inl e
      | Inr ts \<Rightarrow> Inr (''{'' @ join_texts ts @ ''}''))"

definition CanonicalizeJSON :: "JsonTexts \<Rightarrow> raw_message \<Rightarrow> ParseLimits \<Rightarrow> raw_message result" where
  "CanonicalizeJSON texts data limits =
     (case inspectJSON texts (normalizeLimits limits) data of
        Some i \<Rightarrow> Inl (Errorf (issue_message i))
      | None \<Rightarrow>
          (case decode_first data of
             None \<Rightarrow> Inl (Errorf (jt_syntax texts data))
           | Some v \<Rightarrow> appendCanonical (to_any v)))"

text \<open>\<^verbatim>\<open>hex.EncodeToString\<close>, and the hash of a canonical text; the hash function is a parameter.\<close>

definition EncodeToString :: "string \<Rightarrow> string" where
  "EncodeToString bytes = concat (map hex_byte bytes)"

definition HashCanonical :: "(string \<Rightarrow> string) \<Rightarrow> raw_message \<Rightarrow> string" where
  "HashCanonical sha256 canonical = EncodeToString (sha256 canonical)"

end
