(* ===== verification/Compiler_Model.thy ===== *)
theory Compiler_Model
  imports Source_Map Canonical
begin

text \<open>
  The compiler's inputs and outputs, \<^verbatim>\<open>internal/compiler/model.go\<close>, its registry of handlers
  (\<^verbatim>\<open>registry.go\<close>), the resolved resources (\<^verbatim>\<open>resources.go\<close>) and the project's execution policy
  (\<^verbatim>\<open>policy.go\<close>), with the part of \<^verbatim>\<open>internal/catalog/model.go\<close> they use. The interfaces \<^verbatim>\<open>NodeCatalog\<close>
  and \<^verbatim>\<open>Handler\<close> are records of their methods.
\<close>

section \<open>Runtime contracts of the catalog\<close>

datatype CatalogKind = CatalogControl | CatalogTask | OtherCatalogKind string

record ExecutionPolicyDefaults =
  epd_MaxAttempts :: "32 word"
  epd_MaxRecoveries :: "32 word"
  epd_AttemptTimeoutMS :: "64 word"
  epd_RetryBackoffMS :: "64 word"
  epd_RetryableErrorCodes :: "string list"

record RuntimeContract =
  rc_Kind :: CatalogKind
  rc_OperationType :: string
  rc_OperationVersion :: "32 word"
  rc_DefaultExecutionPolicy :: ExecutionPolicyDefaults

record NodeCatalog =
  nc_Revision :: string
  nc_ValidateNode :: "IrNode \<Rightarrow> Diagnostic list"
  nc_RuntimeContract :: "NodeType \<Rightarrow> RuntimeContract option"

section \<open>Execution policy\<close>

record CompilerPolicy =
  cp_revision :: string
  cp_overrides :: "(NodeType, ExecutionPolicy) gomap"

definition validatePolicy :: "ExecutionPolicy \<Rightarrow> unit result" where
  "validatePolicy policy =
     (if ep_MaxAttempts policy = 0 \<or> ep_AttemptTimeoutMS policy = 0 \<or> ep_RetryBackoff policy = None then
        Inl (Errorf ''max_attempts, attempt_timeout_ms, and retry_backoff are required'')
      else if (case ep_RetryBackoff policy of Some b \<Rightarrow> rb_Kind b \<noteq> ''fixed'' \<or> rb_DelayMS b = 0 | None \<Rightarrow> False) then
        Inl (Errorf ''only a positive fixed retry backoff is supported in DSL v1'')
      else if '''' \<in> set (ep_RetryableErrorCodes policy) then
        Inl (Errorf ''retryable error codes cannot be empty'')
      else Inr ())"

fun policy_overrides :: "(NodeType, ExecutionPolicy) gomap \<Rightarrow> (NodeType, ExecutionPolicy) gomap \<Rightarrow> (NodeType, ExecutionPolicy) gomap result" where
  "policy_overrides [] acc = Inr acc"
| "policy_overrides ((nodeType, policy) # rest) acc =
     (if \<not> ValidNodeType nodeType then Inl (Errorf (''policy node type '' @ quoted nodeType @ '' is invalid''))
      else case validatePolicy policy of
          Inl e \<Rightarrow> Inl (Errorf (''policy for '' @ nodeType @ '': '' @ error_text e))
        | Inr _ \<Rightarrow> policy_overrides rest (AList.update nodeType policy acc))"

definition NewPolicy :: "string \<Rightarrow> (NodeType, ExecutionPolicy) gomap \<Rightarrow> CompilerPolicy result" where
  "NewPolicy revision overrides =
     (if revision = '''' then Inl (Errorf ''policy revision is required'')
      else case policy_overrides overrides [] of
          Inl e \<Rightarrow> Inl e
        | Inr result \<Rightarrow> Inr \<lparr>cp_revision = revision, cp_overrides = result\<rparr>)"

definition DefaultPolicyV1 :: "CompilerPolicy result" where
  "DefaultPolicyV1 = NewPolicy ''policy-v1'' []"

definition uniqueStrings :: "string list \<Rightarrow> string list" where
  "uniqueStrings values = remdups_adj values"

text \<open>\<^verbatim>\<open>Policy.resolve\<close>: a control node has no policy; a task has the project's, or else the catalog's.\<close>

definition resolve_policy :: "CompilerPolicy \<Rightarrow> NodeType \<Rightarrow> ExecutionPolicyDefaults \<Rightarrow> CatalogKind \<Rightarrow> ExecutionPolicy result" where
  "resolve_policy policy nodeType defaults kind =
     (if kind = CatalogControl then Inr zero_policy
      else let base = (case map_of (cp_overrides policy) nodeType of
             Some override \<Rightarrow> override
           | None \<Rightarrow> \<lparr>ep_MaxAttempts = epd_MaxAttempts defaults, ep_MaxRecoveries = epd_MaxRecoveries defaults,
                     ep_AttemptTimeoutMS = epd_AttemptTimeoutMS defaults,
                     ep_RetryBackoff = Some \<lparr>rb_Kind = ''fixed'', rb_DelayMS = epd_RetryBackoffMS defaults\<rparr>,
                     ep_RetryableErrorCodes = epd_RetryableErrorCodes defaults\<rparr>);
           resolved = base\<lparr>ep_RetryableErrorCodes := uniqueStrings (sort (ep_RetryableErrorCodes base))\<rparr>
         in case validatePolicy resolved of Inl e \<Rightarrow> Inl e | Inr _ \<Rightarrow> Inr resolved)"

section \<open>Resources\<close>

record ConnectionBinding =
  cb_ConnectionID :: string

record ServiceOperationBinding =
  sob_ServiceID :: string
  sob_ContractRevision :: string
  sob_Idempotent :: bool

record ModelBinding =
  mb_ArtifactID :: string
  mb_Digest :: string

record ResourceBindings =
  res_connections :: "string \<rightharpoonup> ConnectionBinding"
  res_services :: "string \<times> string \<rightharpoonup> ServiceOperationBinding"
  res_models :: "string \<rightharpoonup> ModelBinding"

definition NewResourceBindings ::
  "(string, ConnectionBinding) gomap \<Rightarrow> (string \<times> string, ServiceOperationBinding) gomap \<Rightarrow> (string, ModelBinding) gomap
    \<Rightarrow> ResourceBindings result" where
  "NewResourceBindings connections services models =
     (if list_ex (\<lambda>(reference, b). reference = '''' \<or> cb_ConnectionID b = '''') connections then
        Inl (Errorf ''connection binding requires reference and stable id'')
      else if list_ex (\<lambda>((serviceRef, operation), b). serviceRef = '''' \<or> operation = '''' \<or> sob_ServiceID b = ''''
             \<or> sob_ContractRevision b = '''') services then
        Inl (Errorf ''service binding requires reference, operation, stable id, and contract revision'')
      else if list_ex (\<lambda>(reference, b). reference = '''' \<or> mb_ArtifactID b = '''' \<or> mb_Digest b = '''') models then
        Inl (Errorf ''model binding requires reference, artifact id, and digest'')
      else Inr \<lparr>res_connections = map_of connections, res_services = map_of services, res_models = map_of models\<rparr>)"

definition EmptyResourceBindings :: "ResourceBindings result" where
  "EmptyResourceBindings = NewResourceBindings [] [] []"

section \<open>Requests and results\<close>

record Request =
  req_IR :: IrDocument
  req_Catalog :: "NodeCatalog option"
  req_Policy :: CompilerPolicy
  req_Resources :: ResourceBindings

record Manifest =
  man_CompilerVersion :: string
  man_CatalogRevision :: string
  man_PolicyRevision :: string

record Hashes =
  hash_IR :: string
  hash_DSL :: string
  hash_SourceMap :: string
  hash_Definition :: string

record CompileResult =
  cr_DSL :: Document
  cr_SourceMap :: SourceMap
  cr_Manifest :: Manifest
  cr_Hashes :: Hashes
  cr_CanonicalIR :: raw_message
  cr_CanonicalDSL :: raw_message
  cr_CanonicalSourceMap :: raw_message

record NodeProduct =
  np_Config :: "(string, raw_message) gomap option"
  np_Inputs :: "(PortName, InputBinding) gomap option"
  np_Outputs :: "(PortName, DataType) gomap option"
  np_FieldMappings :: "(string, string) gomap option"

record Context =
  ctx_executionNodeID :: NodeID
  ctx_executionIDs :: "(LogicalID, NodeID) gomap"
  ctx_policy :: ExecutionPolicy
  ctx_resources :: ResourceBindings
  ctx_nodeIndex :: nat

record Handler =
  h_NodeType :: NodeType
  h_Kind :: DslNodeKind
  h_Coordinate :: Coordinate
  h_Compile :: "Context \<Rightarrow> IrNode \<Rightarrow> NodeProduct \<times> Diagnostic list"

section \<open>Registry\<close>

type_synonym Registry = "(NodeType, Handler) gomap"

text \<open>A nil handler is \<^term>\<open>None\<close>.\<close>

fun register_handlers :: "Handler option list \<Rightarrow> Registry \<Rightarrow> Registry result" where
  "register_handlers [] registry = Inr registry"
| "register_handlers (h # rest) registry =
     (case h of
        None \<Rightarrow> Inl (Errorf ''compiler handler has an invalid node type'')
      | Some handler \<Rightarrow>
          if \<not> ValidNodeType (h_NodeType handler) then Inl (Errorf ''compiler handler has an invalid node type'')
          else if fst (h_Coordinate handler) = '''' \<or> snd (h_Coordinate handler) = 0 then
            Inl (Errorf (''compiler handler '' @ h_NodeType handler @ '' has an invalid operation coordinate''))
          else if map_of registry (h_NodeType handler) \<noteq> None then
            Inl (Errorf (''compiler handler '' @ h_NodeType handler @ '' is registered twice''))
          else register_handlers rest (AList.update (h_NodeType handler) handler registry))"

definition NewRegistry :: "Handler option list \<Rightarrow> Registry result" where
  "NewRegistry handlers = register_handlers handlers []"

definition Registry_Handler :: "Registry \<Rightarrow> NodeType \<Rightarrow> Handler option" where
  "Registry_Handler registry nodeType = map_of registry nodeType"

definition Registry_NodeTypes :: "Registry \<Rightarrow> NodeType list" where
  "Registry_NodeTypes registry = sort (map fst registry)"

section \<open>What policies and registries guarantee\<close>

text \<open>A resolved policy passes the checks of the executable document, its codes sorted and unrepeated.\<close>

definition sound_policy :: "ExecutionPolicy \<Rightarrow> bool" where
  "sound_policy policy \<longleftrightarrow> ep_MaxAttempts policy \<noteq> 0 \<and> ep_AttemptTimeoutMS policy \<noteq> 0
     \<and> (\<exists>b. ep_RetryBackoff policy = Some b \<and> rb_Kind b = ''fixed'' \<and> rb_DelayMS b \<noteq> 0)
     \<and> '''' \<notin> set (ep_RetryableErrorCodes policy)"

lemma validatePolicy_iff: "validatePolicy policy = Inr () \<longleftrightarrow> sound_policy policy"
  by (auto simp: validatePolicy_def sound_policy_def split: option.split)

lemma resolve_policy_sound:
  assumes "resolve_policy policy nodeType defaults kind = Inr resolved" and "kind \<noteq> CatalogControl"
  shows "sound_policy resolved \<and> sorted (ep_RetryableErrorCodes resolved) \<and> distinct (ep_RetryableErrorCodes resolved)"
proof -
  have "validatePolicy resolved = Inr ()"
      and "\<exists>cs. ep_RetryableErrorCodes resolved = remdups_adj (sort cs)"
    using assms by (auto simp: resolve_policy_def Let_def uniqueStrings_def split: sum.splits)
  then show ?thesis
    by (auto simp: validatePolicy_iff sorted_remdups_adj distinct_remdups_adj_sorted)
qed

lemma register_handlers_types:
  assumes "register_handlers handlers registry = Inr result"
    and "\<forall>t h. map_of registry t = Some h \<longrightarrow> h_NodeType h = t"
  shows "\<forall>t h. map_of result t = Some h \<longrightarrow> h_NodeType h = t"
  using assms
proof (induction handlers arbitrary: registry)
  case (Cons h rest)
  then obtain handler where h: "h = Some handler"
    by (auto split: option.splits)
  let ?next = "AList.update (h_NodeType handler) handler registry"
  have "register_handlers rest ?next = Inr result"
    using Cons.prems(1) h by (simp split: if_splits)
  then show ?case
    by (rule Cons.IH) (use Cons.prems(2) in simp)
qed simp

end
