(* ===== verification/Json_Marshal.thy ===== *)
theory Json_Marshal
  imports Canonical Document_Clone Source_Map
begin

text \<open>
  What the compiler uses of \<^verbatim>\<open>json.Marshal\<close>: the texts of strings, numbers, raw messages, arrays, maps and
  the structures of the packages \<^verbatim>\<open>ir\<close>, \<^verbatim>\<open>dsl\<close> and \<^verbatim>\<open>sourcemap\<close>. A raw message that is not JSON is the only
  error; its text is the parameter \<open>raw_error\<close>.
\<close>

section \<open>Scalars\<close>

definition go_escape :: "char \<Rightarrow> string" where
  "go_escape c = (case html_escape c of Some e \<Rightarrow> e | None \<Rightarrow> escape_char c)"

fun encode_runes :: "nat \<Rightarrow> string \<Rightarrow> string" where
  "encode_runes 0 s = []"
| "encode_runes (Suc fuel) s =
     (case s of
        [] \<Rightarrow> []
      | c # r \<Rightarrow>
          if of_char c < (128::nat) then go_escape c @ encode_runes fuel r
          else (let n = utf8_size (map of_char s) in
                if n = 0 then [CHR 0x5C] @ ''ufffd'' @ encode_runes fuel r
                else (if take n s = [CHR 0xE2, CHR 0x80, CHR 0xA8] then [CHR 0x5C] @ ''u2028''
                      else if take n s = [CHR 0xE2, CHR 0x80, CHR 0xA9] then [CHR 0x5C] @ ''u2029''
                      else take n s) @ encode_runes fuel (drop n s)))"

lemma encode_runes_code [code]:
  "encode_runes 0 s = []"
  "encode_runes (Suc fuel) s =
     (case s of
        [] \<Rightarrow> []
      | c # r \<Rightarrow>
          if c < CHR 0x80 then go_escape c @ encode_runes fuel r
          else (let n = utf8_size (map of_char s) in
                if n = 0 then [CHR 0x5C] @ ''ufffd'' @ encode_runes fuel r
                else (if take n s = [CHR 0xE2, CHR 0x80, CHR 0xA8] then [CHR 0x5C] @ ''u2028''
                      else if take n s = [CHR 0xE2, CHR 0x80, CHR 0xA9] then [CHR 0x5C] @ ''u2029''
                      else take n s) @ encode_runes fuel (drop n s)))"
  by (simp_all only: encode_runes.simps char_below)

definition marshal_string :: "string \<Rightarrow> raw_message" where
  "marshal_string s = [CHR 0x22] @ encode_runes (length s) s @ [CHR 0x22]"

definition marshal_bool :: "bool \<Rightarrow> raw_message" where
  "marshal_bool b = (if b then ''true'' else ''false'')"

definition marshal_word :: "'a::len word \<Rightarrow> raw_message" where
  "marshal_word w = show_nat (unat w)"

definition marshal_raw :: "(raw_message \<Rightarrow> string) \<Rightarrow> raw_message \<Rightarrow> raw_message result" where
  "marshal_raw raw_error raw = (case clone_raw raw of None \<Rightarrow> Inl (Errorf (raw_error raw)) | Some t \<Rightarrow> Inr t)"

section \<open>Collections\<close>

definition map_result :: "('a \<Rightarrow> 'b) \<Rightarrow> 'a result \<Rightarrow> 'b result" where
  "map_result f r = (case r of Inl e \<Rightarrow> Inl e | Inr x \<Rightarrow> Inr (f x))"

definition marshal_array :: "raw_message result list \<Rightarrow> raw_message result" where
  "marshal_array items = map_result (\<lambda>ts. ''['' @ join_texts ts @ '']'') (first_error items)"

text \<open>The fields of a structure in their order, an omitted one being \<^term>\<open>None\<close>.\<close>

definition marshal_struct :: "(string \<times> raw_message result option) list \<Rightarrow> raw_message result" where
  "marshal_struct fs = map_result (\<lambda>ts. ''{'' @ join_texts ts @ ''}'')
     (first_error (concat (map (\<lambda>(name, v). case v of
        None \<Rightarrow> [] | Some r \<Rightarrow> [map_result (\<lambda>t. marshal_string name @ '':'' @ t) r]) fs)))"

text \<open>The keys of a map are sorted.\<close>

definition marshal_map :: "('v \<Rightarrow> raw_message result) \<Rightarrow> (string, 'v) gomap \<Rightarrow> raw_message result" where
  "marshal_map f m = marshal_struct (map (\<lambda>(k, v). (k, Some (f v))) (sort_key fst m))"

definition marshal_nil_map :: "('v \<Rightarrow> raw_message result) \<Rightarrow> (string, 'v) gomap option \<Rightarrow> raw_message result" where
  "marshal_nil_map f m = (case m of None \<Rightarrow> Inr ''null'' | Some es \<Rightarrow> marshal_map f es)"

definition marshal_nil_list :: "('v \<Rightarrow> raw_message result) \<Rightarrow> 'v list option \<Rightarrow> raw_message result" where
  "marshal_nil_list f m = (case m of None \<Rightarrow> Inr ''null'' | Some vs \<Rightarrow> marshal_array (map f vs))"

definition field_text :: "string \<Rightarrow> raw_message result option" where
  "field_text s = Some (Inr (marshal_string s))"

definition omit_when :: "bool \<Rightarrow> raw_message result \<Rightarrow> raw_message result option" where
  "omit_when b r = (if b then None else Some r)"

section \<open>Author documents\<close>

fun InputSource_text :: "InputSource \<Rightarrow> string" where
  "InputSource_text SourceLiteral = ''literal''"
| "InputSource_text SourceRef = ''ref''"
| "InputSource_text (OtherSource s) = s"

definition marshal_IrInput :: "(raw_message \<Rightarrow> string) \<Rightarrow> IrInput \<Rightarrow> raw_message result" where
  "marshal_IrInput raw_error i = marshal_struct
     [(''name'', field_text (iri_Name i)), (''data_type'', field_text (DataType_text (iri_DataType i))),
      (''source'', field_text (InputSource_text (iri_Source i))),
      (''value'', case iri_Value i of None \<Rightarrow> None | Some raw \<Rightarrow> omit_when (raw = []) (marshal_raw raw_error raw)),
      (''ref_node'', omit_when (iri_RefNode i = []) (Inr (marshal_string (iri_RefNode i)))),
      (''ref_output'', omit_when (iri_RefOutput i = []) (Inr (marshal_string (iri_RefOutput i))))]"

definition marshal_IrOutput :: "IrOutput \<Rightarrow> raw_message result" where
  "marshal_IrOutput out = marshal_struct
     [(''name'', field_text (iro_Name out)), (''data_type'', field_text (DataType_text (iro_DataType out)))]"

definition marshal_IrNode :: "(raw_message \<Rightarrow> string) \<Rightarrow> IrNode \<Rightarrow> raw_message result" where
  "marshal_IrNode raw_error node = marshal_struct
     [(''id'', field_text (irn_ID node)), (''type'', field_text (irn_Type node)), (''title'', field_text (irn_Title node)),
      (''inputs'', Some (marshal_nil_list (marshal_IrInput raw_error) (irn_Inputs node))),
      (''outputs'', Some (marshal_nil_list marshal_IrOutput (irn_Outputs node)))]"

definition marshal_IrEdge :: "IrEdge \<Rightarrow> raw_message result" where
  "marshal_IrEdge edge = marshal_struct
     [(''id'', field_text (ire_ID edge)), (''source'', field_text (ire_Source edge)), (''target'', field_text (ire_Target edge)),
      (''route'', omit_when (ire_Route edge = []) (Inr (marshal_string (ire_Route edge))))]"

text \<open>A \<^verbatim>\<open>json.Number\<close> is written as it is; the empty one is \<^verbatim>\<open>0\<close>, and one that is no number is an error.\<close>

definition marshal_number :: "(raw_message \<Rightarrow> string) \<Rightarrow> string option \<Rightarrow> raw_message result" where
  "marshal_number raw_error n =
     (case n of
        None \<Rightarrow> Inr ''null''
      | Some text \<Rightarrow>
          if text = [] then Inr ''0''
          else (case parse_number text of Some (t, []) \<Rightarrow> Inr text | _ \<Rightarrow> Inl (Errorf (raw_error text))))"

definition marshal_Position :: "(raw_message \<Rightarrow> string) \<Rightarrow> Position \<Rightarrow> raw_message result" where
  "marshal_Position raw_error position = marshal_struct
     [(''x'', Some (marshal_number raw_error (pos_X position))), (''y'', Some (marshal_number raw_error (pos_Y position)))]"

definition marshal_IrDocument :: "(raw_message \<Rightarrow> string) \<Rightarrow> IrDocument \<Rightarrow> raw_message result" where
  "marshal_IrDocument raw_error document = marshal_struct
     [(''ir_version'', field_text (ird_IRVersion document)),
      (''nodes'', Some (marshal_array (map (marshal_IrNode raw_error) (ird_Nodes document)))),
      (''edges'', Some (marshal_array (map marshal_IrEdge (ird_Edges document)))),
      (''layout'', Some (marshal_map (marshal_Position raw_error) (ird_Layout document)))]"

text \<open>The nodes, edges and layout of a document that was parsed are never nil.\<close>

section \<open>Executable documents\<close>

fun DslNodeKind_text :: "DslNodeKind \<Rightarrow> string" where
  "DslNodeKind_text KindControl = ''control''"
| "DslNodeKind_text KindTask = ''task''"
| "DslNodeKind_text (OtherKind k) = k"

fun InputBindingKind_text :: "InputBindingKind \<Rightarrow> string" where
  "InputBindingKind_text BindingLiteral = ''literal''"
| "InputBindingKind_text BindingNodeOutput = ''node_output''"
| "InputBindingKind_text (OtherBinding k) = k"

fun ActivationKind_text :: "ActivationKind \<Rightarrow> string" where
  "ActivationKind_text ActivationAlways = ''always''"
| "ActivationKind_text ActivationRoute = ''route''"
| "ActivationKind_text (OtherActivation k) = k"

definition marshal_OutputReference :: "OutputReference \<Rightarrow> raw_message result" where
  "marshal_OutputReference r = marshal_struct [(''node_id'', field_text (or_NodeID r)), (''name'', field_text (or_Name r))]"

definition marshal_InputBinding :: "(raw_message \<Rightarrow> string) \<Rightarrow> InputBinding \<Rightarrow> raw_message result" where
  "marshal_InputBinding raw_error b = marshal_struct
     [(''kind'', field_text (InputBindingKind_text (ib_Kind b))), (''data_type'', field_text (DataType_text (ib_DataType b))),
      (''value'', omit_when (ib_Value b = []) (marshal_raw raw_error (ib_Value b))),
      (''output'', map_option marshal_OutputReference (ib_Output b))]"

definition marshal_ExecutionPolicy :: "ExecutionPolicy \<Rightarrow> raw_message result" where
  "marshal_ExecutionPolicy p = marshal_struct
     [(''max_attempts'', omit_when (ep_MaxAttempts p = 0) (Inr (marshal_word (ep_MaxAttempts p)))),
      (''max_recoveries'', omit_when (ep_MaxRecoveries p = 0) (Inr (marshal_word (ep_MaxRecoveries p)))),
      (''attempt_timeout_ms'', omit_when (ep_AttemptTimeoutMS p = 0) (Inr (marshal_word (ep_AttemptTimeoutMS p)))),
      (''retry_backoff'', map_option (\<lambda>b. marshal_struct [(''kind'', field_text (rb_Kind b)),
          (''delay_ms'', Some (Inr (marshal_word (rb_DelayMS b))))]) (ep_RetryBackoff p)),
      (''retryable_error_codes'', omit_when (ep_RetryableErrorCodes p = [])
          (marshal_array (map (\<lambda>s. Inr (marshal_string s)) (ep_RetryableErrorCodes p))))]"

definition marshal_Operation :: "(raw_message \<Rightarrow> string) \<Rightarrow> Operation \<Rightarrow> raw_message result" where
  "marshal_Operation raw_error operation = marshal_struct
     [(''type'', field_text (op_Type operation)), (''version'', Some (Inr (marshal_word (op_Version operation)))),
      (''config'', Some (marshal_nil_map (marshal_raw raw_error) (op_Config operation)))]"

definition marshal_Node :: "(raw_message \<Rightarrow> string) \<Rightarrow> Node \<Rightarrow> raw_message result" where
  "marshal_Node raw_error node = marshal_struct
     [(''id'', field_text (dn_ID node)), (''kind'', field_text (DslNodeKind_text (dn_Kind node))),
      (''operation'', Some (marshal_Operation raw_error (dn_Operation node))),
      (''inputs'', Some (marshal_nil_map (marshal_InputBinding raw_error) (dn_Inputs node))),
      (''outputs'', Some (marshal_nil_map (\<lambda>t. Inr (marshal_string (DataType_text t))) (dn_Outputs node))),
      (''execution_policy'', Some (marshal_ExecutionPolicy (dn_ExecutionPolicy node)))]"

definition marshal_Activation :: "Activation \<Rightarrow> raw_message result" where
  "marshal_Activation a = marshal_struct
     [(''kind'', field_text (ActivationKind_text (act_Kind a))),
      (''route'', omit_when (act_Route a = []) (Inr (marshal_string (act_Route a))))]"

definition marshal_Edge :: "Edge \<Rightarrow> raw_message result" where
  "marshal_Edge edge = marshal_struct
     [(''id'', field_text (edge_ID edge)), (''source_node_id'', field_text (edge_SourceNodeID edge)),
      (''target_node_id'', field_text (edge_TargetNodeID edge)), (''activation'', Some (marshal_Activation (edge_Activation edge)))]"

definition marshal_Document :: "(raw_message \<Rightarrow> string) \<Rightarrow> Document \<Rightarrow> raw_message result" where
  "marshal_Document raw_error document = marshal_struct
     [(''dsl_version'', field_text (doc_DSLVersion document)), (''entry_node_id'', field_text (doc_EntryNodeID document)),
      (''exit_node_id'', field_text (doc_ExitNodeID document)),
      (''nodes'', Some (marshal_array (map (marshal_Node raw_error) (doc_Nodes document)))),
      (''edges'', Some (marshal_array (map marshal_Edge (doc_Edges document))))]"

definition marshal_SourceMap :: "SourceMap \<Rightarrow> raw_message result" where
  "marshal_SourceMap m = marshal_struct
     [(''source_map_version'', field_text (sm_SourceMapVersion m)),
      (''nodes'', Some (marshal_map (\<lambda>t. Inr (marshal_string t)) (sm_Nodes m))),
      (''edges'', Some (marshal_map (\<lambda>t. Inr (marshal_string t)) (sm_Edges m))),
      (''fields'', Some (marshal_map (marshal_map (\<lambda>t. Inr (marshal_string t))) (sm_Fields m)))]"

end
