(* ===== verification/Compiler_Handlers.thy ===== *)
theory Compiler_Handlers
  imports Compiler_Model Json_Marshal Control_Graph
begin

text \<open>
  The compiler's handlers, \<^verbatim>\<open>internal/compiler/handlers.go\<close>: how each node type of the author's document
  becomes the configuration, inputs, outputs and field mappings of an execution node. A product under
  construction has its four maps; \<open>put_config\<close>, \<open>put_input\<close> and \<open>put_field\<close> store into them.
\<close>

section \<open>Products\<close>

definition put_config :: "string \<Rightarrow> raw_message \<Rightarrow> NodeProduct \<Rightarrow> NodeProduct" where
  "put_config k raw product = product\<lparr>np_Config := Some (AList.update k raw (entries (np_Config product)))\<rparr>"

definition put_input :: "PortName \<Rightarrow> InputBinding \<Rightarrow> NodeProduct \<Rightarrow> NodeProduct" where
  "put_input k b product = product\<lparr>np_Inputs := Some (AList.update k b (entries (np_Inputs product)))\<rparr>"

definition put_field :: "string \<Rightarrow> string \<Rightarrow> NodeProduct \<Rightarrow> NodeProduct" where
  "put_field k path product = product\<lparr>np_FieldMappings := Some (AList.update k path (entries (np_FieldMappings product)))\<rparr>"

definition compileOutputs :: "IrNode \<Rightarrow> (PortName, DataType) gomap" where
  "compileOutputs node = fold (\<lambda>out. AList.update (iro_Name out) (iro_DataType out)) (outputs_of node) []"

definition outputMappings :: "IrNode \<Rightarrow> (string, string) gomap" where
  "outputMappings node =
     fold (\<lambda>out. AList.update (''outputs.'' @ iro_Name out) (''outputs.'' @ iro_Name out)) (outputs_of node) []"

definition emptyProduct :: "IrNode \<Rightarrow> NodeProduct" where
  "emptyProduct node = \<lparr>np_Config = Some [], np_Inputs = Some [], np_Outputs = Some (compileOutputs node),
     np_FieldMappings = Some (outputMappings node)\<rparr>"

section \<open>Inputs\<close>

definition zero_IrInput :: IrInput where
  "zero_IrInput = \<lparr>iri_Name = '''', iri_DataType = OtherType '''', iri_Source = OtherSource '''', iri_Value = None,
     iri_RefNode = '''', iri_RefOutput = ''''\<rparr>"

definition findInput :: "IrNode \<Rightarrow> PortName \<Rightarrow> (IrInput \<times> nat) option" where
  "findInput node name = map_option (\<lambda>(index, i). (i, index)) (find (\<lambda>(index, i). iri_Name i = name) (enumerate 0 (inputs_of node)))"

definition found_input :: "IrNode \<Rightarrow> PortName \<Rightarrow> IrInput" where
  "found_input node name = (case findInput node name of None \<Rightarrow> zero_IrInput | Some (i, index) \<Rightarrow> i)"

definition literalString :: "IrInput \<Rightarrow> string option" where
  "literalString i =
     (if iri_Source i \<noteq> SourceLiteral \<or> \<not> HasValue i then None
      else case DecodeLiteral (\<lambda>_. '''') (iri_Value i) of
          Inr (JString text, t) \<Rightarrow> if text = '''' then None else Some text
        | _ \<Rightarrow> None)"

text \<open>The string that \<^verbatim>\<open>literalString\<close> returns beside its verdict: the decoded text, or the empty one.\<close>

definition literal_text :: "IrInput \<Rightarrow> string" where
  "literal_text i = (case literalString i of None \<Rightarrow> '''' | Some t \<Rightarrow> t)"

definition inputPhaseDiagnostic :: "Context \<Rightarrow> IrNode \<Rightarrow> PortName \<Rightarrow> Phase \<Rightarrow> string \<Rightarrow> string \<Rightarrow> Diagnostic" where
  "inputPhaseDiagnostic context node name phase code message =
     (let path = (case findInput node name of
          None \<Rightarrow> NodePath (irn_ID node) (ctx_nodeIndex context) @ ''/inputs/'' @ name
        | Some (i, index) \<Rightarrow> InputPath (irn_ID node) (ctx_nodeIndex context) name index)
      in ErrorDiagnostic phase code message (node_at (irn_ID node) path))"

definition inputDiagnostic :: "Context \<Rightarrow> IrNode \<Rightarrow> PortName \<Rightarrow> string \<Rightarrow> string \<Rightarrow> Diagnostic" where
  "inputDiagnostic context node name code message = inputPhaseDiagnostic context node name PhaseCompile code message"

definition compileInput :: "JsonTexts \<Rightarrow> Context \<Rightarrow> IrNode \<Rightarrow> IrInput \<Rightarrow> InputBinding \<times> Diagnostic list" where
  "compileInput texts context node i =
     (case iri_Source i of
        SourceLiteral \<Rightarrow>
          (case CanonicalizeJSON texts (input_text i) DefaultParseLimits of
             Inl e \<Rightarrow> (zero_InputBinding, [inputDiagnostic context node (iri_Name i) ''COMPILER_LITERAL_INVALID'' (error_text e)])
           | Inr canonical \<Rightarrow> (\<lparr>ib_Kind = BindingLiteral, ib_DataType = iri_DataType i, ib_Value = canonical, ib_Output = None\<rparr>, []))
      | SourceRef \<Rightarrow>
          (case map_of (ctx_executionIDs context) (iri_RefNode i) of
             None \<Rightarrow> (zero_InputBinding, [inputDiagnostic context node (iri_Name i) ''COMPILER_REF_NODE_MISSING''
                 ''validated reference has no execution node id''])
           | Some nodeID \<Rightarrow> (\<lparr>ib_Kind = BindingNodeOutput, ib_DataType = iri_DataType i, ib_Value = [],
                 ib_Output = Some \<lparr>or_NodeID = nodeID, or_Name = iri_RefOutput i\<rparr>\<rparr>, []))
      | OtherSource s \<Rightarrow> (zero_InputBinding, [inputDiagnostic context node (iri_Name i) ''COMPILER_INPUT_SOURCE_INVALID''
          ''validated input has an invalid source'']))"

definition compileNamedInput :: "JsonTexts \<Rightarrow> Context \<Rightarrow> IrNode \<Rightarrow> PortName \<Rightarrow> InputBinding \<times> Diagnostic list" where
  "compileNamedInput texts context node name =
     (case findInput node name of
        None \<Rightarrow> (zero_InputBinding, [inputDiagnostic context node name ''COMPILER_INPUT_MISSING''
            ''validated node is missing a required input''])
      | Some (i, index) \<Rightarrow> compileInput texts context node i)"

text \<open>Storing a compiled input under a name, with its field mapping, unless it has errors.\<close>

definition store_input :: "PortName \<Rightarrow> InputBinding \<times> Diagnostic list \<Rightarrow> NodeProduct \<times> Diagnostic list \<Rightarrow> NodeProduct \<times> Diagnostic list" where
  "store_input name = (\<lambda>(b, values) (product, diagnostics).
     (if HasErrors values then product
      else put_field (''inputs.'' @ name) (''inputs.'' @ name) (put_input name b product), diagnostics @ values))"

section \<open>Control nodes\<close>

definition compileStart :: "Context \<Rightarrow> IrNode \<Rightarrow> NodeProduct \<times> Diagnostic list" where
  "compileStart context node = (emptyProduct node, [])"

definition compileEnd :: "JsonTexts \<Rightarrow> Context \<Rightarrow> IrNode \<Rightarrow> NodeProduct \<times> Diagnostic list" where
  "compileEnd texts context node =
     store_input ''workflow_output'' (compileNamedInput texts context node ''workflow_output'') (emptyProduct node, [])"

text \<open>\<^verbatim>\<open>json.Unmarshal\<close> into \<^verbatim>\<open>[]map[string]json.RawMessage\<close>; the keys of each case.\<close>

fun raw_case :: "json \<Rightarrow> (string \<times> json) list option" where
  "raw_case (JObject ms) = Some (dedup_members ms)"
| "raw_case JNull = Some []"
| "raw_case _ = None"

definition raw_cases :: "raw_message \<Rightarrow> (string \<times> json) list list option" where
  "raw_cases raw =
     (case parse_text raw of
        Some (JArray vs) \<Rightarrow> those (map raw_case vs)
      | Some JNull \<Rightarrow> Some []
      | _ \<Rightarrow> None)"

definition raw_case_route :: "(string \<times> json) list \<Rightarrow> string" where
  "raw_case_route branchCase = (case map_of branchCase ''route'' of Some (JString s) \<Rightarrow> s | _ \<Rightarrow> '''')"

definition branch_config ::
  "JsonTexts \<Rightarrow> Context \<Rightarrow> IrNode \<Rightarrow> PortName \<Rightarrow> NodeProduct \<times> Diagnostic list \<Rightarrow> NodeProduct \<times> Diagnostic list" where
  "branch_config texts context node name = (\<lambda>(product, diagnostics).
     (case findInput node name of
        None \<Rightarrow> (product, diagnostics)
      | Some (i, index) \<Rightarrow>
          if iri_Source i \<noteq> SourceLiteral then (product, diagnostics)
          else (case CanonicalizeJSON texts (input_text i) DefaultParseLimits of
              Inl e \<Rightarrow> (product, diagnostics @ [inputDiagnostic context node name ''BRANCH_CONFIG_INVALID'' (error_text e)])
            | Inr canonical \<Rightarrow> (put_field (''operation.config.'' @ name) (''inputs.'' @ name) (put_config name canonical product), diagnostics))))"

definition case_fields :: "nat \<times> (string \<times> json) list \<Rightarrow> NodeProduct \<Rightarrow> NodeProduct" where
  "case_fields = (\<lambda>(index, branchCase). fold (\<lambda>(field, v).
     put_field (''operation.config.cases.'' @ show_nat index @ ''.'' @ field)
       (''inputs.cases.'' @ raw_case_route branchCase @ ''.'' @ field)) branchCase)"

definition map_cases :: "NodeProduct \<Rightarrow> NodeProduct" where
  "map_cases product =
     (case Option.bind (map_of (entries (np_Config product)) ''cases'') raw_cases of
        None \<Rightarrow> product
      | Some cases \<Rightarrow> fold case_fields (enumerate 0 cases) product)"

definition compileBranch :: "JsonTexts \<Rightarrow> Context \<Rightarrow> IrNode \<Rightarrow> NodeProduct \<times> Diagnostic list" where
  "compileBranch texts context node =
     (let valued = store_input ''value'' (compileNamedInput texts context node ''value'') (emptyProduct node, []);
          (product, diagnostics) = fold (branch_config texts context node) [''cases'', ''default_route''] valued
      in (map_cases product, diagnostics))"

section \<open>Tasks\<close>

definition code_source :: "JsonTexts \<Rightarrow> Context \<Rightarrow> IrNode \<Rightarrow> NodeProduct \<times> Diagnostic list \<Rightarrow> NodeProduct \<times> Diagnostic list" where
  "code_source texts context node = (\<lambda>(product, diagnostics).
     (case findInput node ''source_code'' of
        None \<Rightarrow> (product, diagnostics)
      | Some (i, index) \<Rightarrow>
          if iri_Source i \<noteq> SourceLiteral then (product, diagnostics)
          else (case CanonicalizeJSON texts (input_text i) DefaultParseLimits of
              Inl e \<Rightarrow> (product, diagnostics @ [inputDiagnostic context node ''source_code'' ''CODE_SOURCE_INVALID'' (error_text e)])
            | Inr canonical \<Rightarrow>
                (put_field ''operation.config.source_code'' ''inputs.source_code'' (put_config ''source_code'' canonical product),
                 diagnostics))))"

definition code_model :: "Context \<Rightarrow> IrNode \<Rightarrow> NodeProduct \<times> Diagnostic list \<Rightarrow> NodeProduct \<times> Diagnostic list" where
  "code_model context node = (\<lambda>(product, diagnostics).
     (case findInput node ''model_ref'' of
        None \<Rightarrow> (product, diagnostics)
      | Some (i, index) \<Rightarrow>
          (case (literalString i, res_models (ctx_resources context) (literal_text i)) of
             (Some reference, Some b) \<Rightarrow>
               (put_field ''operation.config.model_artifact.digest'' ''inputs.model_ref''
                 (put_field ''operation.config.model_artifact.id'' ''inputs.model_ref''
                   (put_field ''operation.config.model_artifact'' ''inputs.model_ref''
                     (put_config ''model_artifact''
                       (''{'' @ marshal_string ''digest'' @ '':'' @ marshal_string (mb_Digest b) @ '',''
                        @ marshal_string ''id'' @ '':'' @ marshal_string (mb_ArtifactID b) @ ''}'') product))),
                diagnostics)
           | _ \<Rightarrow> (product, diagnostics @ [inputPhaseDiagnostic context node ''model_ref'' PhaseResource
               ''MODEL_BINDING_REQUIRED'' ''model_ref has no authorized immutable model binding'']))))"

definition code_input :: "JsonTexts \<Rightarrow> Context \<Rightarrow> IrNode \<Rightarrow> IrInput \<Rightarrow> NodeProduct \<times> Diagnostic list \<Rightarrow> NodeProduct \<times> Diagnostic list" where
  "code_input texts context node i acc =
     (if iri_Name i = ''source_code'' \<or> iri_Name i = ''model_ref'' then acc
      else store_input (iri_Name i) (compileInput texts context node i) acc)"

definition compileCode :: "JsonTexts \<Rightarrow> Context \<Rightarrow> IrNode \<Rightarrow> NodeProduct \<times> Diagnostic list" where
  "compileCode texts context node =
     (let retry = diag_when (ep_MaxAttempts (ctx_policy context) > 1)
            (inputDiagnostic context node ''source_code'' ''CODE_RETRY_POLICY_UNSUPPORTED''
               ''Code Node business failures are not automatically retryable in DSL v1'');
          (product, diagnostics) = code_source texts context node (emptyProduct node, retry);
          profiled = (put_config ''sandbox_profile'' (marshal_string ''python-sandbox-v1'') product, diagnostics)
      in fold (code_input texts context node) (inputs_of node) (code_model context node profiled))"

definition default_statuses :: raw_message where
  "default_statuses = ''['' @ join_texts (map show_nat [200..<300]) @ '']''"

definition http_connection :: "Context \<Rightarrow> IrNode \<Rightarrow> NodeProduct \<times> Diagnostic list \<Rightarrow> NodeProduct \<times> Diagnostic list" where
  "http_connection context node = (\<lambda>(product, diagnostics).
     (let i = found_input node ''connection_ref'' in
      case (findInput node ''connection_ref'', literalString i, res_connections (ctx_resources context) (literal_text i)) of
        (Some _, Some reference, Some connection) \<Rightarrow>
          (put_field ''operation.config.connection_id'' ''inputs.connection_ref''
             (put_config ''connection_id'' (marshal_string (cb_ConnectionID connection)) product), diagnostics)
      | _ \<Rightarrow> (product, diagnostics @ [inputPhaseDiagnostic context node ''connection_ref'' PhaseResource
          ''CONNECTION_BINDING_REQUIRED'' ''connection_ref has no authorized stable connection binding''])))"

definition http_method :: "Context \<Rightarrow> IrNode \<Rightarrow> NodeProduct \<times> Diagnostic list \<Rightarrow> NodeProduct \<times> Diagnostic list" where
  "http_method context node = (\<lambda>(product, diagnostics).
     (case findInput node ''method'' of
        None \<Rightarrow> (product, diagnostics)
      | Some (i, index) \<Rightarrow>
          if iri_Source i \<noteq> SourceLiteral then (product, diagnostics)
          else (put_field ''operation.config.method'' ''inputs.method'' (put_config ''method'' (input_text i) product),
                diagnostics @ diag_when (ep_MaxAttempts (ctx_policy context) > 1 \<and> literal_text i \<noteq> ''GET'')
                  (inputDiagnostic context node ''method'' ''HTTP_RETRY_POLICY_UNSAFE''
                     ''automatic business retry requires an idempotent HTTP operation''))))"

definition http_statuses :: "JsonTexts \<Rightarrow> Context \<Rightarrow> IrNode \<Rightarrow> NodeProduct \<times> Diagnostic list \<Rightarrow> NodeProduct \<times> Diagnostic list" where
  "http_statuses texts context node = (\<lambda>(product, diagnostics).
     (let (configured, reported) =
        (case findInput node ''accepted_statuses'' of
           Some (i, index) \<Rightarrow>
             if iri_Source i = SourceLiteral then
               (case CanonicalizeJSON texts (input_text i) DefaultParseLimits of
                  Inl e \<Rightarrow> (product, diagnostics @ [inputDiagnostic context node ''accepted_statuses'' ''HTTP_STATUSES_INVALID'' (error_text e)])
                | Inr canonical \<Rightarrow> (put_config ''accepted_statuses'' canonical product, diagnostics))
             else (put_config ''accepted_statuses'' default_statuses product, diagnostics)
         | None \<Rightarrow> (put_config ''accepted_statuses'' default_statuses product, diagnostics))
      in (put_field ''operation.config.accepted_statuses'' ''inputs.accepted_statuses'' configured, reported)))"

definition optional_input :: "JsonTexts \<Rightarrow> Context \<Rightarrow> IrNode \<Rightarrow> PortName \<Rightarrow> NodeProduct \<times> Diagnostic list \<Rightarrow> NodeProduct \<times> Diagnostic list" where
  "optional_input texts context node name acc =
     (case findInput node name of
        None \<Rightarrow> acc
      | Some (i, index) \<Rightarrow> store_input name (compileInput texts context node i) acc)"

definition compileHTTP :: "JsonTexts \<Rightarrow> Context \<Rightarrow> IrNode \<Rightarrow> NodeProduct \<times> Diagnostic list" where
  "compileHTTP texts context node =
     fold (optional_input texts context node) [''relative_path'', ''query'', ''headers'', ''body'']
       (http_statuses texts context node (http_method context node (http_connection context node (emptyProduct node, []))))"

definition rpc_service :: "Context \<Rightarrow> IrNode \<Rightarrow> NodeProduct \<times> Diagnostic list \<Rightarrow> NodeProduct \<times> Diagnostic list" where
  "rpc_service context node = (\<lambda>(product, diagnostics).
     (let service = found_input node ''service_ref''; operation = found_input node ''operation'' in
      case (findInput node ''service_ref'', findInput node ''operation'', literalString service, literalString operation,
            res_services (ctx_resources context) (literal_text service, literal_text operation)) of
        (Some _, Some _, Some serviceRef, Some name, Some resolved) \<Rightarrow>
          (put_field ''operation.config.idempotent'' ''inputs.operation''
            (put_field ''operation.config.contract_revision'' ''inputs.operation''
              (put_field ''operation.config.operation'' ''inputs.operation''
                (put_field ''operation.config.service_id'' ''inputs.service_ref''
                  (put_config ''idempotent'' (marshal_bool (sob_Idempotent resolved))
                    (put_config ''contract_revision'' (marshal_string (sob_ContractRevision resolved))
                      (put_config ''operation'' (marshal_string name)
                        (put_config ''service_id'' (marshal_string (sob_ServiceID resolved)) product))))))),
           diagnostics @ diag_when (ep_MaxAttempts (ctx_policy context) > 1 \<and> \<not> sob_Idempotent resolved)
             (inputDiagnostic context node ''operation'' ''RPC_RETRY_POLICY_UNSAFE''
                ''automatic business retry requires an idempotent service operation''))
      | _ \<Rightarrow> (product, diagnostics @ [inputPhaseDiagnostic context node ''service_ref'' PhaseResource
          ''SERVICE_BINDING_REQUIRED'' ''service_ref and operation have no authorized immutable service binding''])))"

definition compileRPC :: "JsonTexts \<Rightarrow> Context \<Rightarrow> IrNode \<Rightarrow> NodeProduct \<times> Diagnostic list" where
  "compileRPC texts context node =
     optional_input texts context node ''request'' (rpc_service context node (emptyProduct node, []))"

section \<open>The built-in registry\<close>

definition builtin_handlers :: "JsonTexts \<Rightarrow> Handler list" where
  "builtin_handlers texts =
     [\<lparr>h_NodeType = ''start'', h_Kind = KindControl, h_Coordinate = (''control.start'', 1), h_Compile = compileStart\<rparr>,
      \<lparr>h_NodeType = ''end'', h_Kind = KindControl, h_Coordinate = (''control.end'', 1), h_Compile = compileEnd texts\<rparr>,
      \<lparr>h_NodeType = ''branch'', h_Kind = KindControl, h_Coordinate = (''control.branch'', 1), h_Compile = compileBranch texts\<rparr>,
      \<lparr>h_NodeType = ''code'', h_Kind = KindTask, h_Coordinate = (''task.python'', 1), h_Compile = compileCode texts\<rparr>,
      \<lparr>h_NodeType = ''http'', h_Kind = KindTask, h_Coordinate = (''task.http'', 1), h_Compile = compileHTTP texts\<rparr>,
      \<lparr>h_NodeType = ''rpc'', h_Kind = KindTask, h_Coordinate = (''task.rpc'', 1), h_Compile = compileRPC texts\<rparr>]"

definition BuiltinRegistry :: "JsonTexts \<Rightarrow> Registry result" where
  "BuiltinRegistry texts = NewRegistry (map Some (builtin_handlers texts))"

end
