(* ===== verification/Compiler_Pipeline.thy ===== *)
theory Compiler_Pipeline
  imports Compiler_Handlers
begin

text \<open>
  The compilation of an author's document into an executable one and its source map,
  \<^verbatim>\<open>internal/compiler/compiler.go\<close>: validation, analysis of the control graph, execution identities, the
  handlers node by node, the edges, the checks of the result, and the content hashes.

  \<open>CompilerEnv\<close> holds what is taken from outside the repository's logic: the hash function SHA-256 and
  the texts of decoding and encoding errors. A failed compilation is \<^term>\<open>Inl\<close> of its diagnostics.
\<close>

record CompilerEnv =
  env_sha256 :: "string \<Rightarrow> string"
  env_texts :: JsonTexts
  env_decode_error :: "raw_message \<Rightarrow> string"
  env_raw_error :: "raw_message \<Rightarrow> string"

record Compiler =
  c_version :: string
  c_registry :: Registry
  c_dslContract :: Contract
  c_compatibility :: CompatibilityChecker

definition maxCompiledArtifactBytes :: int where
  "maxCompiledArtifactBytes = 16777216"

definition Compiler_New :: "string \<Rightarrow> Registry \<Rightarrow> Contract \<Rightarrow> CompatibilityChecker \<Rightarrow> Compiler result" where
  "Compiler_New version registry contract compatibility =
     (if version = '''' then Inl (Errorf ''compiler version is required'')
      else if con_version contract = '''' then Inl (Errorf ''DSL contract is required'')
      else Inr \<lparr>c_version = version, c_registry = registry, c_dslContract = contract, c_compatibility = compatibility\<rparr>)"

definition BuiltinV1 :: "CompilerEnv \<Rightarrow> (string \<Rightarrow> py_Stmt list option) \<Rightarrow> Compiler result" where
  "BuiltinV1 env ParseFile =
     (case BuiltinRegistry (env_texts env) of
        Inl e \<Rightarrow> Inl e
      | Inr registry \<Rightarrow> Compiler_New ''compiler-v1'' registry (BuiltinV1Contract ParseFile) BuiltinV1Compatibility)"

section \<open>Execution identities\<close>

definition nul :: string where
  "nul = [CHR 0x00]"

definition deterministicSuffix :: "CompilerEnv \<Rightarrow> string \<Rightarrow> LogicalID \<Rightarrow> string" where
  "deterministicSuffix env kind logicalID =
     EncodeToString (take 12 (env_sha256 env (''evalfrog'' @ nul @ ''dsl-v1'' @ nul @ kind @ nul @ logicalID)))"

definition execution_node :: "CompilerEnv \<Rightarrow> LogicalID \<Rightarrow> NodeID" where
  "execution_node env v = ''xn_'' @ deterministicSuffix env ''node'' v"

definition execution_edge :: "CompilerEnv \<Rightarrow> LogicalID \<Rightarrow> EdgeID" where
  "execution_edge env e = ''xe_'' @ deterministicSuffix env ''edge'' e"

text \<open>One loop of \<^verbatim>\<open>buildExecutionIDs\<close>: \<open>seen\<close> maps an execution identity to the logical one that has it.\<close>

fun execution_ids ::
  "(LogicalID \<Rightarrow> string) \<Rightarrow> (LogicalID \<Rightarrow> nat \<Rightarrow> Diagnostic) \<Rightarrow> nat \<Rightarrow> LogicalID list \<Rightarrow> (string, LogicalID) gomap
    \<Rightarrow> (LogicalID, string) gomap \<Rightarrow> (LogicalID, string) gomap \<times> Diagnostic list" where
  "execution_ids mk_id collision index [] seen ids = (ids, [])"
| "execution_ids mk_id collision index (v # vs) seen ids =
     (let x = mk_id v;
          (result, diagnostics) = execution_ids mk_id collision (Suc index) vs (AList.update x v seen) (AList.update v x ids)
      in (result, (case map_of seen x of
            Some previous \<Rightarrow> diag_when (previous \<noteq> v) (collision v index)
          | None \<Rightarrow> []) @ diagnostics))"

definition compile_error :: "string \<Rightarrow> string \<Rightarrow> Location \<Rightarrow> Diagnostic" where
  "compile_error code message location = ErrorDiagnostic PhaseCompile code message location"

definition buildExecutionIDs ::
  "CompilerEnv \<Rightarrow> IrDocument \<Rightarrow> (LogicalID, NodeID) gomap \<times> (LogicalID, EdgeID) gomap \<times> Diagnostic list" where
  "buildExecutionIDs env document =
     (let (nodes, node_diagnostics) = execution_ids (execution_node env)
            (\<lambda>v index. compile_error ''EXECUTION_NODE_ID_COLLISION'' ''deterministic execution node id collided''
               (node_at v (NodePath v index))) 0 (map irn_ID (ird_Nodes document)) [] [];
          (edges, edge_diagnostics) = execution_ids (execution_edge env)
            (\<lambda>e index. compile_error ''EXECUTION_EDGE_ID_COLLISION'' ''deterministic execution edge id collided''
               (edge_at e (EdgePath e index))) 0 (map ire_ID (ird_Edges document)) [] []
      in (nodes, edges, SortDiagnostics (node_diagnostics @ edge_diagnostics)))"

section \<open>Nodes and edges\<close>

definition handlerMatchesCatalog :: "Handler \<Rightarrow> RuntimeContract \<Rightarrow> bool" where
  "handlerMatchesCatalog handler runtime =
     (h_Kind handler = (if rc_Kind runtime = CatalogTask then KindTask else KindControl)
      \<and> fst (h_Coordinate handler) = rc_OperationType runtime \<and> snd (h_Coordinate handler) = rc_OperationVersion runtime)"

definition id_at :: "('k, string) gomap \<Rightarrow> 'k \<Rightarrow> string" where
  "id_at m k = (case map_of m k of None \<Rightarrow> '''' | Some x \<Rightarrow> x)"

text \<open>
  The body of the loop over the nodes: the diagnostics it adds and, unless it was skipped, the execution
  node with its field mappings. Copying the maps of a product is the identity on their values.
\<close>

definition compile_node ::
  "Compiler \<Rightarrow> Request \<Rightarrow> NodeCatalog \<Rightarrow> (LogicalID, NodeID) gomap \<Rightarrow> nat \<times> IrNode
    \<Rightarrow> Diagnostic list \<times> (Node \<times> (string, string) gomap) option" where
  "compile_node compiler request catalog executionNodes = (\<lambda>(nodeIndex, node).
     (let location = node_at (irn_ID node) (NodePath (irn_ID node) nodeIndex) in
      case Registry_Handler (c_registry compiler) (irn_Type node) of
        None \<Rightarrow> ([compile_error ''COMPILER_HANDLER_NOT_REGISTERED'' ''node type has no compiler handler'' location], None)
      | Some handler \<Rightarrow>
          (case nc_RuntimeContract catalog (irn_Type node) of
             None \<Rightarrow> ([compile_error ''COMPILER_CATALOG_MISMATCH''
                 ''compiler handler does not match the catalog runtime contract'' location], None)
           | Some runtime \<Rightarrow>
               if \<not> handlerMatchesCatalog handler runtime then
                 ([compile_error ''COMPILER_CATALOG_MISMATCH''
                     ''compiler handler does not match the catalog runtime contract'' location], None)
               else case resolve_policy (req_Policy request) (irn_Type node) (rc_DefaultExecutionPolicy runtime) (rc_Kind runtime) of
                   Inl e \<Rightarrow> ([compile_error ''EXECUTION_POLICY_INVALID'' (error_text e) location], None)
                 | Inr policy \<Rightarrow>
                     (let context = \<lparr>ctx_executionNodeID = id_at executionNodes (irn_ID node), ctx_executionIDs = executionNodes,
                            ctx_policy = policy, ctx_resources = req_Resources request, ctx_nodeIndex = nodeIndex\<rparr>;
                          (product, values) = h_Compile handler context node
                      in if HasErrors values then (values, None)
                         else case (np_Config product, np_Inputs product, np_Outputs product, np_FieldMappings product) of
                             (Some config, Some inputs, Some outputs, Some mappings) \<Rightarrow>
                               (values, Some
                                 (\<lparr>dn_ID = id_at executionNodes (irn_ID node), dn_Kind = h_Kind handler,
                                   dn_Operation = \<lparr>op_Type = fst (h_Coordinate handler), op_Version = snd (h_Coordinate handler),
                                     op_Config = Some config\<rparr>,
                                   dn_Inputs = Some inputs, dn_Outputs = Some outputs, dn_ExecutionPolicy = policy\<rparr>, mappings))
                           | _ \<Rightarrow> (values @ [compile_error ''COMPILER_HANDLER_PRODUCT_INVALID''
                               ''compiler handler returned nil product containers'' location], None)))))"

definition compile_edge :: "graphAnalysis \<Rightarrow> (LogicalID, NodeID) gomap \<Rightarrow> (LogicalID, EdgeID) gomap \<Rightarrow> IrEdge \<Rightarrow> Edge" where
  "compile_edge graph executionNodes executionEdges edge =
     \<lparr>edge_ID = id_at executionEdges (ire_ID edge), edge_SourceNodeID = id_at executionNodes (ire_Source edge),
      edge_TargetNodeID = id_at executionNodes (ire_Target edge),
      edge_Activation =
        (if irn_Type (node_in graph (ire_Source edge)) = ''branch''
         then \<lparr>act_Kind = ActivationRoute, act_Route = ire_Route edge\<rparr>
         else \<lparr>act_Kind = ActivationAlways, act_Route = ''''\<rparr>)\<rparr>"

section \<open>Checks of the result\<close>

definition issue_location :: "SourceMap \<Rightarrow> Issue \<Rightarrow> Location" where
  "issue_location sourceMap i =
     (let node = text_at (sm_Nodes sourceMap) (issue_NodeID i) in
      \<lparr>loc_LogicalNodeID = node, loc_LogicalEdgeID = text_at (sm_Edges sourceMap) (issue_EdgeID i),
       loc_IRPath = (if node \<noteq> '''' then text_at (fields_at sourceMap (issue_NodeID i)) (issue_Field i) else '''')\<rparr>)"

definition issue_diagnostic :: "Phase \<Rightarrow> SourceMap \<Rightarrow> Issue \<Rightarrow> Diagnostic" where
  "issue_diagnostic phase sourceMap i =
     (ErrorDiagnostic phase (issue_Code i) (issue_Message i) (issue_location sourceMap i))
       \<lparr>diag_Details := Some [(''execution_node_id'', Text (issue_NodeID i)), (''execution_edge_id'', Text (issue_EdgeID i)),
          (''dsl_field'', Text (issue_Field i))]\<rparr>"

definition dslIssuesToDiagnostics :: "Issue list \<Rightarrow> SourceMap \<Rightarrow> Diagnostic list" where
  "dslIssuesToDiagnostics issues sourceMap =
     LimitDiagnostics (SortDiagnostics (map (issue_diagnostic PhaseDSL sourceMap) issues))"

definition case_field_names :: "string \<Rightarrow> raw_message \<Rightarrow> string list" where
  "case_field_names base raw =
     (case raw_cases raw of
        None \<Rightarrow> []
      | Some cases \<Rightarrow> concat (map (\<lambda>(index, branchCase).
          map (\<lambda>(field, v). base @ ''.'' @ show_nat index @ ''.'' @ field) branchCase) (enumerate 0 cases)))"

definition config_field_names :: "string \<Rightarrow> string \<times> raw_message \<Rightarrow> string list" where
  "config_field_names operation = (\<lambda>(name, raw).
     (if operation = ''task.python'' \<and> name = ''sandbox_profile'' then []
      else let base = ''operation.config.'' @ name in
        [base]
        @ (if operation = ''control.branch'' \<and> name = ''cases'' then case_field_names base raw else [])
        @ (if operation = ''task.python'' \<and> name = ''model_artifact'' then [base @ ''.id'', base @ ''.digest''] else [])))"

definition required_node_fields :: "Node \<Rightarrow> string list" where
  "required_node_fields node = uniqueStrings (sort
     (map (\<lambda>(name, b). ''inputs.'' @ name) (entries (dn_Inputs node))
      @ map (\<lambda>(name, t). ''outputs.'' @ name) (entries (dn_Outputs node))
      @ concat (map (config_field_names (op_Type (dn_Operation node))) (entries (op_Config (dn_Operation node))))))"

definition requiredSourceFields :: "Document \<Rightarrow> RequiredFields" where
  "requiredSourceFields document = fold (\<lambda>node. AList.update (dn_ID node) (required_node_fields node)) (doc_Nodes document) []"

definition ValidateSourceMap :: "Document \<Rightarrow> SourceMap \<Rightarrow> Diagnostic list" where
  "ValidateSourceMap document sourceMap =
     LimitDiagnostics (SortDiagnostics (map (issue_diagnostic PhaseSourceMap sourceMap)
       (SourceMap_Validate sourceMap document (requiredSourceFields document))))"

section \<open>Hashes\<close>

definition canonicalHash :: "CompilerEnv \<Rightarrow> raw_message result \<Rightarrow> (raw_message \<times> string) result" where
  "canonicalHash env encoded =
     (case encoded of
        Inl e \<Rightarrow> Inl e
      | Inr text \<Rightarrow>
          (case CanonicalizeJSON (env_texts env) text (DefaultParseLimits\<lparr>pl_MaxDocumentBytes := maxCompiledArtifactBytes\<rparr>) of
             Inl e \<Rightarrow> Inl e
           | Inr canonical \<Rightarrow> Inr (canonical, HashCanonical (env_sha256 env) canonical)))"

definition CanonicalDocumentHash :: "CompilerEnv \<Rightarrow> IrDocument \<Rightarrow> (raw_message \<times> string) result" where
  "CanonicalDocumentHash env document =
     (case marshal_IrDocument (env_raw_error env) document of
        Inl e \<Rightarrow> Inl e
      | Inr text \<Rightarrow>
          (case CanonicalizeJSON (env_texts env) text DefaultParseLimits of
             Inl e \<Rightarrow> Inl e
           | Inr canonical \<Rightarrow> Inr (canonical, HashCanonical (env_sha256 env) canonical)))"

definition marshal_envelope :: "string \<Rightarrow> string \<Rightarrow> string \<Rightarrow> Manifest \<Rightarrow> raw_message result" where
  "marshal_envelope irHash dslHash sourceMapHash manifest = marshal_struct
     [(''ir_hash'', field_text irHash), (''dsl_hash'', field_text dslHash), (''source_map_hash'', field_text sourceMapHash),
      (''compiler_manifest'', Some (marshal_struct
         [(''compiler_version'', field_text (man_CompilerVersion manifest)),
          (''catalog_revision'', field_text (man_CatalogRevision manifest)),
          (''policy_revision'', field_text (man_PolicyRevision manifest))]))]"

definition canonical_error :: "string \<Rightarrow> go_error \<Rightarrow> Diagnostic list" where
  "canonical_error code e = [ErrorDiagnostic PhaseCanonical code (error_text e) zero_Location]"

definition finalizeHashes :: "CompilerEnv \<Rightarrow> IrDocument \<Rightarrow> CompileResult \<Rightarrow> Diagnostic list + CompileResult" where
  "finalizeHashes env document result =
     (case CanonicalDocumentHash env document of
        Inl e \<Rightarrow> Inl (canonical_error ''IR_CANONICALIZATION_FAILED'' e)
      | Inr (canonicalIR, irHash) \<Rightarrow>
     (case canonicalHash env (marshal_Document (env_raw_error env) (cr_DSL result)) of
        Inl e \<Rightarrow> Inl (canonical_error ''DSL_CANONICALIZATION_FAILED'' e)
      | Inr (canonicalDSL, dslHash) \<Rightarrow>
     (case canonicalHash env (marshal_SourceMap (cr_SourceMap result)) of
        Inl e \<Rightarrow> Inl (canonical_error ''SOURCE_MAP_CANONICALIZATION_FAILED'' e)
      | Inr (canonicalSourceMap, sourceMapHash) \<Rightarrow>
     (case canonicalHash env (marshal_envelope irHash dslHash sourceMapHash (cr_Manifest result)) of
        Inl e \<Rightarrow> Inl (canonical_error ''DEFINITION_HASH_FAILED'' e)
      | Inr (envelope, definitionHash) \<Rightarrow>
          Inr (result\<lparr>cr_CanonicalIR := canonicalIR, cr_CanonicalDSL := canonicalDSL, cr_CanonicalSourceMap := canonicalSourceMap,
            cr_Hashes := \<lparr>hash_IR = irHash, hash_DSL = dslHash, hash_SourceMap = sourceMapHash,
              hash_Definition = definitionHash\<rparr>\<rparr>)))))"

section \<open>Compilation\<close>

definition no_hashes :: Hashes where
  "no_hashes = \<lparr>hash_IR = '''', hash_DSL = '''', hash_SourceMap = '''', hash_Definition = ''''\<rparr>"

text \<open>The result of the loops over nodes and edges: \<open>compiled\<close> are the nodes that were compiled, with their sources.\<close>

definition assemble ::
  "Compiler \<Rightarrow> Request \<Rightarrow> NodeCatalog \<Rightarrow> graphAnalysis \<Rightarrow> (LogicalID, NodeID) gomap \<Rightarrow> (LogicalID, EdgeID) gomap
    \<Rightarrow> (IrNode \<times> Node \<times> (string, string) gomap) list \<Rightarrow> CompileResult" where
  "assemble compiler request catalog graph executionNodes executionEdges compiled =
     (let edges = ird_Edges (req_IR request) in
      \<lparr>cr_DSL = \<lparr>doc_DSLVersion = VersionV1, doc_EntryNodeID = id_at executionNodes (ga_start graph),
          doc_ExitNodeID = id_at executionNodes (ga_end graph),
          doc_Nodes = sort_key dn_ID (map (\<lambda>(source, node, mappings). node) compiled),
          doc_Edges = sort_key edge_ID (map (compile_edge graph executionNodes executionEdges) edges)\<rparr>,
       cr_SourceMap = \<lparr>sm_SourceMapVersion = SourceMapVersionV1,
          sm_Nodes = fold (\<lambda>(source, node, mappings). AList.update (dn_ID node) (irn_ID source)) compiled [],
          sm_Edges = fold (\<lambda>edge. AList.update (id_at executionEdges (ire_ID edge)) (ire_ID edge)) edges [],
          sm_Fields = fold (\<lambda>(source, node, mappings). AList.update (dn_ID node) mappings) compiled []\<rparr>,
       cr_Manifest = \<lparr>man_CompilerVersion = c_version compiler, man_CatalogRevision = nc_Revision catalog,
          man_PolicyRevision = cp_revision (req_Policy request)\<rparr>,
       cr_Hashes = no_hashes, cr_CanonicalIR = [], cr_CanonicalDSL = [], cr_CanonicalSourceMap = []\<rparr>)"

definition check_result :: "CompilerEnv \<Rightarrow> Compiler \<Rightarrow> IrDocument \<Rightarrow> CompileResult \<Rightarrow> Diagnostic list + CompileResult" where
  "check_result env compiler document result =
     (let contract_issues = Validate (c_dslContract compiler) (cr_DSL result);
          compatibility_issues = CheckAll (c_compatibility compiler) (cr_DSL result);
          map_diagnostics = ValidateSourceMap (cr_DSL result) (cr_SourceMap result)
      in if contract_issues \<noteq> [] then Inl (dslIssuesToDiagnostics contract_issues (cr_SourceMap result))
         else if compatibility_issues \<noteq> [] then Inl (dslIssuesToDiagnostics compatibility_issues (cr_SourceMap result))
         else if HasErrors map_diagnostics then Inl map_diagnostics
         else finalizeHashes env document result)"

definition compile_graph ::
  "CompilerEnv \<Rightarrow> Compiler \<Rightarrow> Request \<Rightarrow> NodeCatalog \<Rightarrow> graphAnalysis \<Rightarrow> Diagnostic list + CompileResult" where
  "compile_graph env compiler request catalog graph =
     (let (executionNodes, executionEdges, id_diagnostics) = buildExecutionIDs env (req_IR request);
          turns = map (\<lambda>(nodeIndex, node). (node, compile_node compiler request catalog executionNodes (nodeIndex, node)))
            (enumerate 0 (ird_Nodes (req_IR request)));
          diagnostics = concat (map (\<lambda>(node, values, product). values) turns);
          compiled = concat (map (\<lambda>(node, values, product). case product of
            None \<Rightarrow> [] | Some (executionNode, mappings) \<Rightarrow> [(node, executionNode, mappings)]) turns)
      in if HasErrors id_diagnostics then Inl id_diagnostics
         else if HasErrors diagnostics then Inl (LimitDiagnostics (SortDiagnostics diagnostics))
         else check_result env compiler (req_IR request)
           (assemble compiler request catalog graph executionNodes executionEdges compiled))"

definition Compile :: "CompilerEnv \<Rightarrow> Compiler \<Rightarrow> Request \<Rightarrow> Diagnostic list + CompileResult" where
  "Compile env compiler request =
     (case req_Catalog request of
        None \<Rightarrow> Inl [compile_error ''CATALOG_REQUIRED'' ''compiler requires an immutable node catalog'' zero_Location]
      | Some catalog \<Rightarrow>
          if cp_revision (req_Policy request) = '''' then
            Inl [compile_error ''POLICY_REQUIRED'' ''compiler requires an immutable project policy'' zero_Location]
          else
            (let validator = \<lparr>irv_nodeContracts = Some (nc_ValidateNode catalog)\<rparr>;
                 ir_diagnostics = Ir_Validate (env_decode_error env) validator (req_IR request);
                 (graph, graph_diagnostics) = analyzeControlGraph (req_IR request);
                 binding_diagnostics = validateDataBindings (req_IR request) graph
             in if HasErrors ir_diagnostics then Inl ir_diagnostics
                else if HasErrors graph_diagnostics then Inl graph_diagnostics
                else if HasErrors binding_diagnostics then Inl binding_diagnostics
                else compile_graph env compiler request catalog graph))"

end
