(* ===== verification/Compiler_Laws.thy ===== *)
theory Compiler_Laws
  imports Compiler_Pipeline Control_Accept Doc_Activation
begin

text \<open>
  What a successful compilation guarantees: the executable document is the author's document with its
  identities renamed one to one, every reference of a node becomes a binding to the renamed source, and
  therefore what the analysis established of the author's graph holds of the executable one.
\<close>

section \<open>Execution identities\<close>

lemma execution_ids_lookup:
  "map_of (fst (execution_ids mk collision k vs seen ids)) v = (if v \<in> set vs then Some (mk v) else map_of ids v)"
proof (induction vs arbitrary: k seen ids)
  case (Cons w vs)
  have "fst (execution_ids mk collision k (w # vs) seen ids)
      = fst (execution_ids mk collision (Suc k) vs (AList.update (mk w) w seen) (AList.update w (mk w) ids))"
    by (simp add: Let_def split: prod.split)
  then show ?case
    by (simp add: Cons.IH del: execution_ids.simps)
qed simp

lemma execution_ids_inj:
  assumes "\<not> HasErrors (snd (execution_ids mk collision k vs seen ids))"
    and "\<And>v k. diag_Severity (collision v k) = SeverityError"
    and "inj_on mk S" and "\<forall>v \<in> S. map_of seen (mk v) = Some v"
  shows "inj_on mk (S \<union> set vs)"
  using assms(1,3,4)
proof (induction vs arbitrary: k seen ids S)
  case (Cons v vs)
  have fresh: "w = v" if "w \<in> S" "mk w = mk v" for w
    using Cons.prems(1,3) that assms(2) by (auto simp: Let_def split: prod.splits)
  have "inj_on mk (insert v S)"
    using Cons.prems(2) fresh by (auto simp: inj_on_def)
  moreover have "\<forall>w \<in> insert v S. map_of (AList.update (mk v) v seen) (mk w) = Some w"
    using Cons.prems(3) fresh by auto
  moreover have "\<not> HasErrors (snd (execution_ids mk collision (Suc k) vs (AList.update (mk v) v seen) (AList.update v (mk v) ids)))"
    using Cons.prems(1) by (auto simp: Let_def split: prod.splits)
  ultimately have "inj_on mk (insert v S \<union> set vs)"
    by (intro Cons.IH)
  then show ?case
    by simp
qed simp

lemma buildExecutionIDs_accepted:
  assumes "buildExecutionIDs env d = (nodes, edges, ds)" and "\<not> HasErrors ds"
  shows "map_of nodes v = (if v \<in> ir_ids d then Some (execution_node env v) else None)"
    and "map_of edges v = (if v \<in> ire_ID ` set (ird_Edges d) then Some (execution_edge env v) else None)"
    and "inj_on (execution_node env) (ir_ids d)" and "inj_on (execution_edge env) (ire_ID ` set (ird_Edges d))"
proof -
  define nc ec where "nc = (\<lambda>v k. compile_error ''EXECUTION_NODE_ID_COLLISION'' ''deterministic execution node id collided'' (node_at v (NodePath v k)))"
    and "ec = (\<lambda>e k. compile_error ''EXECUTION_EDGE_ID_COLLISION'' ''deterministic execution edge id collided'' (edge_at e (EdgePath e k)))"
  let ?ns = "execution_ids (execution_node env) nc 0 (map irn_ID (ird_Nodes d)) [] []"
  let ?es = "execution_ids (execution_edge env) ec 0 (map ire_ID (ird_Edges d)) [] []"
  have eq: "nodes = fst ?ns" "edges = fst ?es" "ds = SortDiagnostics (snd ?ns @ snd ?es)"
    using assms(1) by (auto simp: buildExecutionIDs_def Let_def nc_def ec_def split: prod.splits)
  show "map_of nodes v = (if v \<in> ir_ids d then Some (execution_node env v) else None)"
    "map_of edges v = (if v \<in> ire_ID ` set (ird_Edges d) then Some (execution_edge env v) else None)"
    by (simp_all add: eq execution_ids_lookup ir_ids_def)
  have "\<not> HasErrors (snd ?ns)" "\<not> HasErrors (snd ?es)"
    using assms(2) by (auto simp: eq HasErrors_iff SortDiagnostics_def)
  then show "inj_on (execution_node env) (ir_ids d)" "inj_on (execution_edge env) (ire_ID ` set (ird_Edges d))"
    using execution_ids_inj [where S = "{}"] by (fastforce simp: ir_ids_def nc_def ec_def compile_error_def)+
qed

section \<open>The contract of a handler\<close>

text \<open>
  What the pipeline relies on of a handler: it returns all four containers, declares the outputs of its node,
  and binds an input to an output only for a reference of the node, to the execution node of its source.
\<close>

definition binds_reference :: "Context \<Rightarrow> IrNode \<Rightarrow> InputBinding \<Rightarrow> bool" where
  "binds_reference context node b \<longleftrightarrow> (ib_Kind b = BindingNodeOutput \<longrightarrow>
     (\<exists>i \<in> set (inputs_of node). \<exists>x. iri_Source i = SourceRef \<and> map_of (ctx_executionIDs context) (iri_RefNode i) = Some x
        \<and> ib_Output b = Some \<lparr>or_NodeID = x, or_Name = iri_RefOutput i\<rparr>))"

locale node_handler =
  fixes compile :: "Context \<Rightarrow> IrNode \<Rightarrow> NodeProduct \<times> Diagnostic list"
  assumes containers: "compile context node = (product, ds) \<Longrightarrow>
      np_Config product \<noteq> None \<and> np_Inputs product \<noteq> None \<and> np_FieldMappings product \<noteq> None"
    and outputs: "compile context node = (product, ds) \<Longrightarrow> np_Outputs product = Some (compileOutputs node)"
    and references: "compile context node = (product, ds) \<Longrightarrow> (name, b) \<in> set (entries (np_Inputs product)) \<Longrightarrow>
      binds_reference context node b"

text \<open>A product under construction keeps the contract: only \<open>put_input\<close> touches the inputs.\<close>

definition sound_product :: "Context \<Rightarrow> IrNode \<Rightarrow> NodeProduct \<Rightarrow> bool" where
  "sound_product context node product \<longleftrightarrow> np_Config product \<noteq> None \<and> np_Inputs product \<noteq> None \<and> np_FieldMappings product \<noteq> None
     \<and> np_Outputs product = Some (compileOutputs node)
     \<and> (\<forall>(name, b) \<in> set (entries (np_Inputs product)). binds_reference context node b)"

lemma node_handlerI: "(\<And>context node. sound_product context node (fst (compile context node))) \<Longrightarrow> node_handler compile"
  by unfold_locales (fastforce simp: sound_product_def dest: arg_cong [where f = fst])+

lemma entries_simps [simp]: "entries (Some m) = m" "entries None = []"
  by (simp_all add: entries_def)

lemma sound_emptyProduct [simp]: "sound_product context node (emptyProduct node)"
  by (simp add: sound_product_def emptyProduct_def)

lemma sound_put:
  assumes "sound_product context node p"
  shows "sound_product context node (put_config k raw p)" and "sound_product context node (put_field k path p)"
    and "binds_reference context node b \<Longrightarrow> sound_product context node (put_input name b p)"
  using assms
  by (auto simp: sound_product_def put_config_def put_field_def put_input_def dest: subsetD [OF set_update_subset])

lemma compileInput_reference:
  assumes "compileInput texts context node i = (b, values)" and "\<not> HasErrors values" and "i \<in> set (inputs_of node)"
  shows "binds_reference context node b"
  using assms
  by (auto simp: compileInput_def binds_reference_def inputDiagnostic_def inputPhaseDiagnostic_def Let_def
      split: InputSource.splits sum.splits option.splits)

lemma findInput_in: "findInput node name = Some (i, k) \<Longrightarrow> i \<in> set (inputs_of node) \<and> iri_Name i = name"
  by (auto simp: findInput_def find_Some_iff in_set_conv_nth nth_enumerate_eq)

lemma sound_store_input:
  assumes "sound_product context node (fst acc)"
    and "\<And>b values. r = (b, values) \<Longrightarrow> \<not> HasErrors values \<Longrightarrow> binds_reference context node b"
  shows "sound_product context node (fst (store_input name r acc))"
  using assms by (cases r; cases acc) (auto simp: store_input_def intro!: sound_put)

lemma compileNamedInput_reference:
  assumes "compileNamedInput texts context node name = (b, values)" and "\<not> HasErrors values"
  shows "binds_reference context node b"
  using assms compileInput_reference
  by (auto simp: compileNamedInput_def inputDiagnostic_def inputPhaseDiagnostic_def Let_def
      split: option.splits dest!: findInput_in)

lemma sound_fold:
  assumes "sound_product context node (fst acc)"
    and "\<And>x acc. x \<in> set xs \<Longrightarrow> sound_product context node (fst acc) \<Longrightarrow> sound_product context node (fst (f x acc))"
  shows "sound_product context node (fst (fold f xs acc))"
  using assms by (induction xs arbitrary: acc) simp_all

lemma sound_optional_input:
  assumes "sound_product context node (fst acc)"
  shows "sound_product context node (fst (optional_input texts context node name acc))"
  using assms compileInput_reference
  by (auto simp: optional_input_def split: option.split intro!: sound_store_input dest!: findInput_in)

subsection \<open>The built-in handlers\<close>

lemma sound_end: "sound_product context node (fst (compileEnd texts context node))"
  unfolding compileEnd_def by (rule sound_store_input) (simp_all add: compileNamedInput_reference)

lemma sound_branch_config:
  "sound_product context node (fst acc) \<Longrightarrow> sound_product context node (fst (branch_config texts context node name acc))"
  by (auto simp: branch_config_def split: prod.split option.split sum.split intro!: sound_put)

lemma sound_case_fields: "sound_product context node p \<Longrightarrow> sound_product context node (case_fields c p)"
proof -
  have "sound_product context node p \<Longrightarrow> sound_product context node (fold (\<lambda>(field, v). put_field (f field) (g field)) fs p)" for f g fs
    by (induction fs arbitrary: p) (auto intro!: sound_put)
  then show "sound_product context node p \<Longrightarrow> sound_product context node (case_fields c p)"
    by (cases c) (simp add: case_fields_def)
qed

lemma sound_map_cases: "sound_product context node p \<Longrightarrow> sound_product context node (map_cases p)"
proof -
  have "sound_product context node p \<Longrightarrow> sound_product context node (fold case_fields cs p)" for cs
    by (induction cs arbitrary: p) (auto intro!: sound_case_fields)
  then show "sound_product context node p \<Longrightarrow> sound_product context node (map_cases p)"
    by (simp add: map_cases_def split: option.split)
qed

lemma sound_branch: "sound_product context node (fst (compileBranch texts context node))"
proof -
  define valued where "valued = store_input ''value'' (compileNamedInput texts context node ''value'') (emptyProduct node, [])"
  have "sound_product context node (fst valued)"
    unfolding valued_def by (rule sound_store_input) (simp_all add: compileNamedInput_reference)
  then have "sound_product context node (fst (fold (branch_config texts context node) [''cases'', ''default_route''] valued))"
    by (rule sound_fold) (rule sound_branch_config)
  then show ?thesis
    by (auto simp: compileBranch_def Let_def valued_def [symmetric] split: prod.split intro!: sound_map_cases)
qed

lemma sound_code: "sound_product context node (fst (compileCode texts context node))"
proof -
  have source: "sound_product context node (fst (code_source texts context node (emptyProduct node, ds)))" for ds
    by (auto simp: code_source_def split: prod.split option.split sum.split intro!: sound_put)
  have model: "sound_product context node (fst acc) \<Longrightarrow> sound_product context node (fst (code_model context node acc))" for acc
    by (auto simp: code_model_def split: prod.split option.split intro!: sound_put)
  have inputs: "sound_product context node (fst (fold (code_input texts context node) (inputs_of node) acc))"
    if "sound_product context node (fst acc)" for acc
    by (rule sound_fold [OF that]) (auto simp: code_input_def intro!: sound_store_input compileInput_reference)
  define retry where "retry = diag_when (ep_MaxAttempts (ctx_policy context) > 1)
    (inputDiagnostic context node ''source_code'' ''CODE_RETRY_POLICY_UNSUPPORTED''
       ''Code Node business failures are not automatically retryable in DSL v1'')"
  obtain p ds where p: "code_source texts context node (emptyProduct node, retry) = (p, ds)"
    by fastforce
  then have "sound_product context node (fst (put_config ''sandbox_profile'' (marshal_string ''python-sandbox-v1'') p, ds))"
    using source [of retry] by (simp add: sound_put)
  from inputs [OF model [OF this]] show ?thesis
    by (simp add: compileCode_def Let_def retry_def [symmetric] p)
qed

lemma sound_http: "sound_product context node (fst (compileHTTP texts context node))"
proof -
  have "sound_product context node (fst (http_connection context node (emptyProduct node, [])))"
    by (auto simp: http_connection_def Let_def split: prod.split option.split intro!: sound_put)
  moreover have "sound_product context node (fst (http_method context node acc))" if "sound_product context node (fst acc)" for acc
    using that by (auto simp: http_method_def split: prod.split option.split intro!: sound_put)
  moreover have "sound_product context node (fst (http_statuses texts context node acc))" if "sound_product context node (fst acc)" for acc
    using that by (auto simp: http_statuses_def Let_def split: prod.split option.split sum.split intro!: sound_put)
  ultimately show ?thesis
    unfolding compileHTTP_def by (intro sound_fold sound_optional_input) blast
qed

lemma sound_rpc: "sound_product context node (fst (compileRPC texts context node))"
  unfolding compileRPC_def
  by (rule sound_optional_input) (auto simp: rpc_service_def Let_def split: prod.split option.split intro!: sound_put)

interpretation start_handler: node_handler compileStart
  by (rule node_handlerI) (simp add: compileStart_def)

interpretation end_handler: node_handler "compileEnd texts" for texts
  by (rule node_handlerI) (rule sound_end)

interpretation branch_handler: node_handler "compileBranch texts" for texts
  by (rule node_handlerI) (rule sound_branch)

interpretation code_handler: node_handler "compileCode texts" for texts
  by (rule node_handlerI) (rule sound_code)

interpretation http_handler: node_handler "compileHTTP texts" for texts
  by (rule node_handlerI) (rule sound_http)

interpretation rpc_handler: node_handler "compileRPC texts" for texts
  by (rule node_handlerI) (rule sound_rpc)

end
