(* ===== verification/Compiler_Translation.thy ===== *)
theory Compiler_Translation
  imports Compiler_Laws
begin

text \<open>
  The translation of a document by a compiler whose registry keeps the contract: the graph of the executable
  document is a renaming of the author's graph, so that activation, choices and the order of the graph
  carry over, and with them the safety of bindings that the analysis established.
\<close>

section \<open>The image of a document\<close>

definition node_image :: "CompilerEnv \<Rightarrow> IrNode \<Rightarrow> Node \<Rightarrow> bool" where
  "node_image env n m \<longleftrightarrow> dn_ID m = execution_node env (irn_ID n) \<and> (branch_node m \<longleftrightarrow> irn_Type n = ''branch'')
     \<and> dn_Outputs m = Some (compileOutputs n)
     \<and> (\<forall>(name, b) \<in> set (entries (dn_Inputs m)). ib_Kind b = BindingNodeOutput \<longrightarrow>
          (\<exists>i \<in> set (inputs_of n). iri_Source i = SourceRef
             \<and> ib_Output b = Some \<lparr>or_NodeID = execution_node env (iri_RefNode i), or_Name = iri_RefOutput i\<rparr>))"

definition edge_image :: "CompilerEnv \<Rightarrow> IrDocument \<Rightarrow> IrEdge \<Rightarrow> Edge" where
  "edge_image env d e =
     \<lparr>edge_ID = execution_edge env (ire_ID e), edge_SourceNodeID = execution_node env (ire_Source e),
      edge_TargetNodeID = execution_node env (ire_Target e),
      edge_Activation =
        (if \<exists>n \<in> set (ird_Nodes d). irn_ID n = ire_Source e \<and> irn_Type n = ''branch''
         then \<lparr>act_Kind = ActivationRoute, act_Route = ire_Route e\<rparr>
         else \<lparr>act_Kind = ActivationAlways, act_Route = ''''\<rparr>)\<rparr>"

definition translates :: "CompilerEnv \<Rightarrow> IrDocument \<Rightarrow> Document \<Rightarrow> bool" where
  "translates env d doc \<longleftrightarrow> inj_on (execution_node env) (ir_ids d) \<and> inj_on (execution_edge env) (ire_ID ` set (ird_Edges d))
     \<and> (\<exists>n \<in> set (ird_Nodes d). irn_Type n = ''start'' \<and> doc_EntryNodeID doc = execution_node env (irn_ID n))
     \<and> (\<forall>n \<in> set (ird_Nodes d). \<exists>m \<in> set (doc_Nodes doc). node_image env n m)
     \<and> (\<forall>m \<in> set (doc_Nodes doc). \<exists>n \<in> set (ird_Nodes d). node_image env n m)
     \<and> set (doc_Edges doc) = edge_image env d ` set (ird_Edges d)"

lemma edge_image_ends [simp]:
  "edge_SourceNodeID (edge_image env d e) = execution_node env (ire_Source e)"
  "edge_TargetNodeID (edge_image env d e) = execution_node env (ire_Target e)"
  by (simp_all add: edge_image_def)

lemma edge_image_taken:
  assumes "ir_wf d" and "e \<in> set (ird_Edges d)"
  shows "edge_taken c (edge_image env d e) \<longleftrightarrow>
    (\<forall>n \<in> set (ird_Nodes d). irn_ID n = ire_Source e \<longrightarrow> irn_Type n = ''branch'' \<longrightarrow> c (execution_node env (ire_Source e)) = ire_Route e)"
  by (auto simp: edge_taken_def edge_image_def)

lemma active_in: "ir_wf d \<Longrightarrow> active d \<rho> v \<Longrightarrow> v \<in> ir_ids d"
  by (erule active.cases) (auto simp: ir_ids_def ir_wf_def)

lemma translates_active:
  assumes wf: "ir_wf d" and tr: "translates env d doc" and single: "length (nodes_of_type ''start'' d) = 1" and v: "v \<in> ir_ids d"
  shows "doc_active doc c (execution_node env v) \<longleftrightarrow> active d (\<lambda>u. c (execution_node env u)) v"
proof -
  let ?xn = "execution_node env" and ?\<rho> = "\<lambda>u. c (execution_node env u)"
  have inj: "inj_on ?xn (ir_ids d)" and edges: "set (doc_Edges doc) = edge_image env d ` set (ird_Edges d)"
    using tr by (simp_all add: translates_def)
  have backward: "\<exists>u \<in> ir_ids d. x = ?xn u \<and> active d ?\<rho> u" if "doc_active doc c x" for x
    using that
  proof induction
    case doc_active_entry
    obtain n where "n \<in> set (ird_Nodes d)" "irn_Type n = ''start''" "doc_EntryNodeID doc = ?xn (irn_ID n)"
      using tr by (auto simp: translates_def)
    then show ?case
      using active_start [of n d ?\<rho>] by (auto simp: ir_ids_def)
  next
    case (doc_active_edge e)
    then obtain e' where e': "e' \<in> set (ird_Edges d)" "e = edge_image env d e'"
      by (auto simp: edges)
    obtain u where u: "u \<in> ir_ids d" "?xn (ire_Source e') = ?xn u" "active d ?\<rho> u"
      using doc_active_edge.IH e' by auto
    then have "ire_Source e' = u"
      using inj wf e'(1) by (auto simp: inj_on_def ir_wf_def)
    then have "active d ?\<rho> (ire_Target e')"
      using u(3) e' doc_active_edge.hyps(3) edge_image_taken [OF wf e'(1), of c env]
      by (intro active_along [OF u(3) e'(1)]) auto
    then show ?case
      using e' active_in [OF wf] by auto
  qed
  have forward: "doc_active doc c (?xn u)" if "active d ?\<rho> u" for u
    using that
  proof induction
    case (active_start n)
    obtain s where "s \<in> set (ird_Nodes d)" "irn_Type s = ''start''" "doc_EntryNodeID doc = ?xn (irn_ID s)"
      using tr by (auto simp: translates_def)
    moreover have "irn_ID n = irn_ID s"
      using unique_of_type [OF single] calculation(1,2) active_start by metis
    ultimately show ?case
      using doc_active_entry [of doc c] by simp
  next
    case (active_edge e)
    then have "edge_taken c (edge_image env d e)"
      using edge_image_taken [OF wf active_edge.hyps(2)] by auto
    then show ?case
      using active_edge edges by (intro doc_active_along [OF active_edge.IH, of "edge_image env d e"]) auto
  qed
  show ?thesis
    using backward [of "?xn v"] forward inj v by (auto simp: inj_on_def)
qed

lemma translates_choice:
  assumes wf: "ir_wf d" and tr: "translates env d doc" and ok: "control_graph_ok d" and c: "doc_choice doc c"
  shows "choice d (\<lambda>u. c (execution_node env u))"
  unfolding choice_def
proof (intro ballI impI)
  fix n assume n: "n \<in> set (ird_Nodes d)" "irn_Type n = ''branch''"
  then obtain m where m: "m \<in> set (doc_Nodes doc)" "node_image env n m"
    using tr by (auto simp: translates_def)
  then obtain e where e: "e \<in> set (doc_Edges doc)" "edge_SourceNodeID e = execution_node env (irn_ID n)"
      "act_Route (edge_Activation e) = c (execution_node env (irn_ID n))"
    using c n by (fastforce simp: doc_choice_def node_image_def)
  then obtain e' where e': "e' \<in> set (ird_Edges d)" "e = edge_image env d e'"
    using tr by (auto simp: translates_def)
  have "ire_Source e' = irn_ID n"
    using e(2) e' tr wf n(1) by (auto simp: translates_def inj_on_def ir_wf_def ir_ids_def)
  moreover from this have "act_Route (edge_Activation e) = ire_Route e'"
    using n e'(2) by (auto simp: edge_image_def)
  ultimately show "c (execution_node env (irn_ID n)) \<in> set (branch_domain n)"
    using ok n e(3) e'(1) by (auto simp: control_graph_ok_def)
qed

lemma translates_order:
  assumes "translates env d doc" and "(u, v) \<in> (ir_rel d)\<^sup>+"
  shows "(execution_node env u, execution_node env v) \<in> (doc_rel doc)\<^sup>+"
  using assms(2)
proof induction
  case (base v)
  then show ?case
    using assms(1) by (force simp: ir_rel_iff doc_rel_iff translates_def)
next
  case (step v w)
  then have "(execution_node env v, execution_node env w) \<in> doc_rel doc"
    using assms(1) by (force simp: ir_rel_iff doc_rel_iff translates_def)
  then show ?case
    using step.IH by simp
qed

text \<open>Bindings that are safe in the author's document are safe in the executable one.\<close>

lemma translates_bindings:
  assumes wf: "ir_wf d" and tr: "translates env d doc"
    and graph: "\<not> HasErrors (snd (analyzeControlGraph d))"
    and safe: "\<not> HasErrors (validateDataBindings d (fst (analyzeControlGraph d)))"
  shows "bindings_safe doc"
  unfolding bindings_safe_def
proof clarify
  fix m name b out
  assume m: "m \<in> set (doc_Nodes doc)" and b: "(name, b) \<in> set (entries (dn_Inputs m))"
    "ib_Kind b = BindingNodeOutput" "ib_Output b = Some out"
  have ok: "control_graph_ok d" and single: "length (nodes_of_type ''start'' d) = 1"
    using graph analyze_errors [OF wf] by (auto simp: control_graph_ok_def)
  obtain n where n: "n \<in> set (ird_Nodes d)" "node_image env n m"
    using tr m by (auto simp: translates_def)
  then obtain i where i: "i \<in> set (inputs_of n)" "iri_Source i = SourceRef"
      "out = \<lparr>or_NodeID = execution_node env (iri_RefNode i), or_Name = iri_RefOutput i\<rparr>"
    using b by (fastforce simp: node_image_def)
  have id: "dn_ID m = execution_node env (irn_ID n)" and ref: "iri_RefNode i \<in> ir_ids d" "irn_ID n \<in> ir_ids d"
    using n i wf by (auto simp: node_image_def ir_wf_def ir_ids_def)
  note bound = accepted_bindings_safe [OF wf graph safe n(1) i(1,2)]
  show "(or_NodeID out, dn_ID m) \<in> (doc_rel doc)\<^sup>+ \<and>
      (\<forall>c. doc_choice doc c \<and> doc_active doc c (dn_ID m) \<longrightarrow> doc_active doc c (or_NodeID out))"
  proof (intro conjI allI impI)
    show "(or_NodeID out, dn_ID m) \<in> (doc_rel doc)\<^sup>+"
      using translates_order [OF tr] bound i(3) id by simp
  next
    fix c assume c: "doc_choice doc c \<and> doc_active doc c (dn_ID m)"
    then have "choice d (\<lambda>u. c (execution_node env u))" "active d (\<lambda>u. c (execution_node env u)) (irn_ID n)"
      using translates_choice [OF wf tr ok] translates_active [OF wf tr single ref(2)] id by simp_all
    then have "active d (\<lambda>u. c (execution_node env u)) (iri_RefNode i)"
      using bound by (auto simp: unsafe_binding_def)
    then show "doc_active doc c (or_NodeID out)"
      using translates_active [OF wf tr single ref(1)] i(3) by simp
  qed
qed

section \<open>The registry\<close>

text \<open>
  What a compilation relies on of a registry: its handlers keep the contract, and the execution node of a
  branch, and of nothing else, is a branch.
\<close>

locale handler_registry =
  fixes registry :: Registry
  assumes handler_contract: "Registry_Handler registry t = Some h \<Longrightarrow> node_handler (h_Compile h)"
    and handler_branch: "Registry_Handler registry t = Some h \<Longrightarrow> fst (h_Coordinate h) = ''control.branch'' \<longleftrightarrow> t = ''branch''"
begin

lemma compile_node_image:
  assumes node: "compile_node compiler request catalog executionNodes (k, n) = (values, Some (m, mappings))"
    and registry: "c_registry compiler = registry"
    and ids: "\<And>v. map_of executionNodes v = (if v \<in> ir_ids d then Some (execution_node env v) else None)"
    and n: "n \<in> set (ird_Nodes d)"
  shows "node_image env n m"
proof -
  obtain h where h: "Registry_Handler registry (irn_Type n) = Some h"
    using node registry by (cases "Registry_Handler registry (irn_Type n)") (simp_all add: compile_node_def Let_def)
  obtain runtime where rt: "nc_RuntimeContract catalog (irn_Type n) = Some runtime" "handlerMatchesCatalog h runtime"
    using node registry h by (auto simp: compile_node_def Let_def split: option.splits if_splits)
  obtain policy where policy: "resolve_policy (req_Policy request) (irn_Type n) (rc_DefaultExecutionPolicy runtime) (rc_Kind runtime) = Inr policy"
    using node registry h rt by (auto simp: compile_node_def Let_def split: sum.splits)
  define ctx where "ctx = \<lparr>ctx_executionNodeID = id_at executionNodes (irn_ID n), ctx_executionIDs = executionNodes,
    ctx_policy = policy, ctx_resources = req_Resources request, ctx_nodeIndex = k\<rparr>"
  obtain product ds where c: "h_Compile h ctx n = (product, ds)"
    by fastforce
  have m: "m = \<lparr>dn_ID = id_at executionNodes (irn_ID n), dn_Kind = h_Kind h,
      dn_Operation = \<lparr>op_Type = fst (h_Coordinate h), op_Version = snd (h_Coordinate h), op_Config = np_Config product\<rparr>,
      dn_Inputs = np_Inputs product, dn_Outputs = np_Outputs product, dn_ExecutionPolicy = policy\<rparr>"
    using node registry h rt policy c
    by (auto simp: compile_node_def Let_def ctx_def [symmetric] split: if_splits option.splits)
  note contract = handler_contract [OF h]
  have "\<exists>i \<in> set (inputs_of n). iri_Source i = SourceRef
      \<and> ib_Output b = Some \<lparr>or_NodeID = execution_node env (iri_RefNode i), or_Name = iri_RefOutput i\<rparr>"
    if "(name, b) \<in> set (entries (np_Inputs product))" "ib_Kind b = BindingNodeOutput" for name b
    using node_handler.references [OF contract c that(1)] that(2)
    by (fastforce simp: binds_reference_def ctx_def ids split: if_splits)
  moreover have "id_at executionNodes (irn_ID n) = execution_node env (irn_ID n)"
    using n by (auto simp: id_at_def ids ir_ids_def)
  ultimately show ?thesis
    using handler_branch [OF h] node_handler.outputs [OF contract c]
    by (auto simp: node_image_def m branch_node_def)
qed

lemma compile_node_none:
  assumes "compile_node compiler request catalog executionNodes (k, n) = (values, None)"
  shows "HasErrors values"
  using assms
  by (auto simp: compile_node_def Let_def compile_error_def split: option.splits if_splits sum.splits prod.splits)

end

lemma builtin_registry: "BuiltinRegistry texts = Inr (map (\<lambda>h. (h_NodeType h, h)) (builtin_handlers texts))"
proof -
  have "list_all ValidNodeType [''start'', ''end'', ''branch'', ''code'', ''http'', ''rpc'']"
    by code_simp
  then show ?thesis
    by (simp add: BuiltinRegistry_def NewRegistry_def builtin_handlers_def)
qed

interpretation builtin: handler_registry "map (\<lambda>h. (h_NodeType h, h)) (builtin_handlers texts)" for texts
proof (rule handler_registry.intro)
  fix t h assume "Registry_Handler (map (\<lambda>h. (h_NodeType h, h)) (builtin_handlers texts)) t = Some h"
  then have h: "h \<in> set (builtin_handlers texts)" "h_NodeType h = t"
    by (auto simp: Registry_Handler_def dest: map_of_SomeD)
  then show "node_handler (h_Compile h)"
    by (auto simp: builtin_handlers_def start_handler.node_handler_axioms end_handler.node_handler_axioms
        branch_handler.node_handler_axioms code_handler.node_handler_axioms http_handler.node_handler_axioms
        rpc_handler.node_handler_axioms)
  show "fst (h_Coordinate h) = ''control.branch'' \<longleftrightarrow> t = ''branch''"
    using h by (auto simp: builtin_handlers_def)
qed

section \<open>Successful compilations\<close>

text \<open>The source map is the inverse of the renaming.\<close>

definition resolves_back :: "CompilerEnv \<Rightarrow> IrDocument \<Rightarrow> SourceMap \<Rightarrow> bool" where
  "resolves_back env d m \<longleftrightarrow>
     (\<forall>n \<in> set (ird_Nodes d). \<forall>e field. sl_LogicalNodeID (Resolve m (execution_node env (irn_ID n)) e field) = irn_ID n)
     \<and> (\<forall>e \<in> set (ird_Edges d). \<forall>v field. sl_LogicalEdgeID (Resolve m v (execution_edge env (ire_ID e)) field) = ire_ID e)"

lemma fold_update_lookup:
  assumes "x \<in> set xs" and "\<And>y. y \<in> set xs \<Longrightarrow> key y = key x \<Longrightarrow> val y = val x"
  shows "map_of (fold (\<lambda>x. AList.update (key x) (val x)) xs m) (key x) = Some (val x)"
proof -
  obtain y where y: "find (\<lambda>y. key y = key x) (rev xs) = Some y"
    using assms(1) by (cases "find (\<lambda>y. key y = key x) (rev xs)") (auto simp: find_None_iff)
  then have "y \<in> set (rev xs)" "key y = key x"
    by (auto simp: find_Some_iff in_set_conv_nth simp del: set_rev)
  then show ?thesis
    using assms(2) [of y] by (simp add: map_of_fold_update y)
qed

lemma source_map_back:
  assumes inj: "inj_on (execution_node env) (ir_ids d)" "inj_on (execution_edge env) (ire_ID ` set (ird_Edges d))"
    and image: "\<And>n m mappings. (n, m, mappings) \<in> set compiled \<Longrightarrow> n \<in> set (ird_Nodes d) \<and> node_image env n m"
    and total: "\<And>n. n \<in> set (ird_Nodes d) \<Longrightarrow> \<exists>m mappings. (n, m, mappings) \<in> set compiled"
    and xes: "\<And>v. map_of xes v = (if v \<in> ire_ID ` set (ird_Edges d) then Some (execution_edge env v) else None)"
  shows "resolves_back env d \<lparr>sm_SourceMapVersion = version,
     sm_Nodes = fold (\<lambda>(source, node, mappings). AList.update (dn_ID node) (irn_ID source)) compiled [],
     sm_Edges = fold (\<lambda>edge. AList.update (id_at xes (ire_ID edge)) (ire_ID edge)) (ird_Edges d) [],
     sm_Fields = fs\<rparr>"
proof -
  let ?key = "\<lambda>(source, node, mappings). dn_ID node" and ?val = "\<lambda>(source, node, mappings). irn_ID source"
  have fold: "fold (\<lambda>(source, node, mappings). AList.update (dn_ID node) (irn_ID source)) compiled []
      = fold (\<lambda>x. AList.update (?key x) (?val x)) compiled []"
    by (simp add: case_prod_unfold)
  have node: "map_of (fold (\<lambda>x. AList.update (?key x) (?val x)) compiled []) (execution_node env (irn_ID n)) = Some (irn_ID n)"
    if n: "n \<in> set (ird_Nodes d)" for n
  proof -
    obtain m mappings where c: "(n, m, mappings) \<in> set compiled"
      using total [OF n] by blast
    have "?val y = ?val (n, m, mappings)" if y: "y \<in> set compiled" "?key y = ?key (n, m, mappings)" for y
    proof -
      obtain n' m' mappings' where y': "y = (n', m', mappings')"
        using prod_cases3 by blast
      then have "execution_node env (irn_ID n') = execution_node env (irn_ID n)"
        using image [OF c] image [of n' m' mappings'] y by (simp add: node_image_def)
      then show ?thesis
        using image [OF c] image [of n' m' mappings'] y y' inj(1) by (simp add: inj_on_def ir_ids_def)
    qed
    from fold_update_lookup [where key = ?key and val = ?val, OF c this] show ?thesis
      using image [OF c] by (simp add: node_image_def)
  qed
  have edge: "map_of (fold (\<lambda>edge. AList.update (id_at xes (ire_ID edge)) (ire_ID edge)) (ird_Edges d) [])
      (execution_edge env (ire_ID e)) = Some (ire_ID e)" if e: "e \<in> set (ird_Edges d)" for e
  proof -
    have x: "id_at xes (ire_ID y) = execution_edge env (ire_ID y)" if "y \<in> set (ird_Edges d)" for y
      using that by (simp add: id_at_def xes)
    have "ire_ID y = ire_ID e" if "y \<in> set (ird_Edges d)" "id_at xes (ire_ID y) = id_at xes (ire_ID e)" for y
      using that inj(2) e by (auto simp: x inj_on_def)
    from fold_update_lookup [where key = "\<lambda>edge. id_at xes (ire_ID edge)" and val = ire_ID, OF e this] show ?thesis
      by (simp add: x [OF e])
  qed
  show ?thesis
    by (simp add: resolves_back_def Resolve_def text_at_def fold node edge)
qed

lemma finalizeHashes_keeps:
  assumes "finalizeHashes env d result = Inr final"
  shows "cr_DSL final = cr_DSL result \<and> cr_SourceMap final = cr_SourceMap result \<and> cr_Manifest final = cr_Manifest result"
  using assms by (auto simp: finalizeHashes_def split: sum.splits prod.splits)

lemma issue_diagnostics_errors: "HasErrors (map (issue_diagnostic phase m) is) \<longleftrightarrow> is \<noteq> []"
  by (cases "is") (simp_all add: issue_diagnostic_def)

lemma check_result_accepted:
  assumes "check_result env compiler d result = Inr final"
  shows "cr_DSL final = cr_DSL result" and "cr_SourceMap final = cr_SourceMap result" and "cr_Manifest final = cr_Manifest result"
    and "Validate (c_dslContract compiler) (cr_DSL result) = []" and "CheckAll (c_compatibility compiler) (cr_DSL result) = []"
    and "complete_map (cr_SourceMap result) (cr_DSL result) (requiredSourceFields (cr_DSL result))"
    and "finalizeHashes env d result = Inr final"
  using assms
  by (auto simp: check_result_def Let_def ValidateSourceMap_def issue_diagnostics_errors SourceMap_Validate_iff
      dest!: finalizeHashes_keeps split: if_splits)

text \<open>The turns of the loop over the nodes, when none of them reports an error.\<close>

lemma compiled_in:
  "(n, m, mappings) \<in> set (concat (map (\<lambda>(node, values, product). case product of
        None \<Rightarrow> [] | Some (executionNode, mappings) \<Rightarrow> [(node, executionNode, mappings)]) turns)) \<longleftrightarrow>
     (\<exists>values. (n, values, Some (m, mappings)) \<in> set turns)"
  by (induction turns) (auto split: option.splits)

lemma Compile_accepted:
  assumes "Compile env compiler request = Inr result"
  obtains catalog where "req_Catalog request = Some catalog"
    and "\<not> HasErrors (Ir_Validate (env_decode_error env) \<lparr>irv_nodeContracts = Some (nc_ValidateNode catalog)\<rparr> (req_IR request))"
    and "\<not> HasErrors (snd (analyzeControlGraph (req_IR request)))"
    and "\<not> HasErrors (validateDataBindings (req_IR request) (fst (analyzeControlGraph (req_IR request))))"
    and "compile_graph env compiler request catalog (fst (analyzeControlGraph (req_IR request))) = Inr result"
  using assms by (auto simp: Compile_def Let_def split: option.splits if_splits prod.splits)

context handler_registry
begin

lemma compile_graph_parts:
  assumes graph: "compile_graph env compiler request catalog a = Inr result" and registry: "c_registry compiler = registry"
  obtains xns xes compiled where
    "\<And>v. map_of xns v = (if v \<in> ir_ids (req_IR request) then Some (execution_node env v) else None)"
    and "\<And>v. map_of xes v = (if v \<in> ire_ID ` set (ird_Edges (req_IR request)) then Some (execution_edge env v) else None)"
    and "inj_on (execution_node env) (ir_ids (req_IR request))"
    and "inj_on (execution_edge env) (ire_ID ` set (ird_Edges (req_IR request)))"
    and "\<And>n m mappings. (n, m, mappings) \<in> set compiled \<Longrightarrow> n \<in> set (ird_Nodes (req_IR request)) \<and> node_image env n m"
    and "\<And>n. n \<in> set (ird_Nodes (req_IR request)) \<Longrightarrow> \<exists>m mappings. (n, m, mappings) \<in> set compiled"
    and "check_result env compiler (req_IR request) (assemble compiler request catalog a xns xes compiled) = Inr result"
proof -
  let ?d = "req_IR request"
  obtain xns xes ds where ids: "buildExecutionIDs env ?d = (xns, xes, ds)"
    using prod_cases3 by blast
  define turns where "turns = map (\<lambda>(k, n). (n, compile_node compiler request catalog xns (k, n))) (enumerate 0 (ird_Nodes ?d))"
  define compiled where "compiled = concat (map (\<lambda>(node, values, product). case product of
    None \<Rightarrow> [] | Some (executionNode, mappings) \<Rightarrow> [(node, executionNode, mappings)]) turns)"
  have ok: "\<not> HasErrors ds" "\<not> HasErrors (concat (map (\<lambda>(node, values, product). values) turns))"
    and checked: "check_result env compiler ?d (assemble compiler request catalog a xns xes compiled) = Inr result"
    using graph by (auto simp: compile_graph_def ids Let_def turns_def compiled_def split: if_splits)
  note lookup = buildExecutionIDs_accepted [OF ids ok(1)]
  have in_turns: "(n, vs, product) \<in> set turns \<longleftrightarrow>
      (\<exists>k. (k, n) \<in> set (enumerate 0 (ird_Nodes ?d)) \<and> compile_node compiler request catalog xns (k, n) = (vs, product))"
    for n vs product
    by (force simp: turns_def)
  have image: "n \<in> set (ird_Nodes ?d) \<and> node_image env n m" if turn: "(n, m, mappings) \<in> set compiled" for n m mappings
  proof -
    obtain vs k where k: "(k, n) \<in> set (enumerate 0 (ird_Nodes ?d))"
        "compile_node compiler request catalog xns (k, n) = (vs, Some (m, mappings))"
      using turn unfolding compiled_def compiled_in in_turns by blast
    then have n: "n \<in> set (ird_Nodes ?d)"
      using set_zip_rightD [of k n] by (metis enumerate_eq_zip)
    then show ?thesis
      using compile_node_image [OF k(2) registry lookup(1)] by blast
  qed
  have total: "\<exists>m mappings. (n, m, mappings) \<in> set compiled" if n: "n \<in> set (ird_Nodes ?d)" for n
  proof -
    obtain k where k: "(k, n) \<in> set (enumerate 0 (ird_Nodes ?d))"
      using in_enumerate [OF n] by blast
    obtain vs product where turn: "compile_node compiler request catalog xns (k, n) = (vs, product)"
      by fastforce
    then have "(n, vs, product) \<in> set turns"
      unfolding in_turns using k by blast
    then have "\<not> HasErrors vs"
      using ok(2) unfolding HasErrors_concat by force
    then obtain m mappings where "product = Some (m, mappings)"
      using compile_node_none turn by (cases product) auto
    then show ?thesis
      using k turn unfolding compiled_def compiled_in in_turns by blast
  qed
  show ?thesis
    by (rule that [OF lookup image total checked])
qed

lemma compile_edge_image:
  assumes wf: "ir_wf d" and an: "analyzed d a" and e: "e \<in> set (ird_Edges d)"
    and xns: "\<And>v. map_of xns v = (if v \<in> ir_ids d then Some (execution_node env v) else None)"
    and xes: "\<And>v. map_of xes v = (if v \<in> ire_ID ` set (ird_Edges d) then Some (execution_edge env v) else None)"
  shows "compile_edge a xns xes e = edge_image env d e"
proof -
  have ends: "ire_Source e \<in> ir_ids d" "ire_Target e \<in> ir_ids d"
    using wf e by (auto simp: ir_wf_def)
  then obtain n where n: "n \<in> set (ird_Nodes d)" "irn_ID n = ire_Source e"
    by (auto simp: ir_ids_def)
  have "irn_Type (node_in a (ire_Source e)) = ''branch'' \<longleftrightarrow>
      (\<exists>n \<in> set (ird_Nodes d). irn_ID n = ire_Source e \<and> irn_Type n = ''branch'')"
    using analyzed_node_in [OF wf an] n by metis
  then show ?thesis
    using ends e by (simp add: compile_edge_def edge_image_def id_at_def xns xes)
qed

lemma compile_graph_correct:
  assumes graph: "compile_graph env compiler request catalog a = Inr result" and registry: "c_registry compiler = registry"
    and wf: "ir_wf (req_IR request)" and an: "analyzed (req_IR request) a"
  shows "translates env (req_IR request) (cr_DSL result) \<and> resolves_back env (req_IR request) (cr_SourceMap result)"
proof -
  let ?d = "req_IR request"
  obtain xns xes compiled where
    xns: "\<And>v. map_of xns v = (if v \<in> ir_ids ?d then Some (execution_node env v) else None)"
    and xes: "\<And>v. map_of xes v = (if v \<in> ire_ID ` set (ird_Edges ?d) then Some (execution_edge env v) else None)"
    and inj: "inj_on (execution_node env) (ir_ids ?d)" "inj_on (execution_edge env) (ire_ID ` set (ird_Edges ?d))"
    and image: "\<And>n m mappings. (n, m, mappings) \<in> set compiled \<Longrightarrow> n \<in> set (ird_Nodes ?d) \<and> node_image env n m"
    and total: "\<And>n. n \<in> set (ird_Nodes ?d) \<Longrightarrow> \<exists>m mappings. (n, m, mappings) \<in> set compiled"
    and checked: "check_result env compiler ?d (assemble compiler request catalog a xns xes compiled) = Inr result"
    using compile_graph_parts [OF graph registry] by blast
  note kept = check_result_accepted(1,2) [OF checked]
  have nodes: "set (doc_Nodes (cr_DSL result)) = (\<lambda>(n, m, mappings). m) ` set compiled"
    by (simp add: kept assemble_def Let_def)
  have "compile_edge a xns xes ` set (ird_Edges ?d) = edge_image env ?d ` set (ird_Edges ?d)"
    using compile_edge_image [OF wf an _ xns xes] by (intro image_cong) simp_all
  then have edges: "set (doc_Edges (cr_DSL result)) = edge_image env ?d ` set (ird_Edges ?d)"
    by (simp add: kept assemble_def Let_def)
  obtain s where s: "s \<in> set (ird_Nodes ?d)" "irn_Type s = ''start''" "ga_start a = irn_ID s"
    using an by (auto simp: analyzed_def)
  then have "doc_EntryNodeID (cr_DSL result) = execution_node env (irn_ID s)"
    by (auto simp: kept assemble_def Let_def ir_ids_def id_at_def xns)
  moreover have "\<exists>m \<in> set (doc_Nodes (cr_DSL result)). node_image env n m" if "n \<in> set (ird_Nodes ?d)" for n
    using total [OF that] image unfolding nodes by (metis (no_types, lifting) case_prod_conv image_eqI)
  moreover have "\<exists>n \<in> set (ird_Nodes ?d). node_image env n m" if "m \<in> set (doc_Nodes (cr_DSL result))" for m
    using that image unfolding nodes by auto
  ultimately have "translates env ?d (cr_DSL result)"
    using s(1,2) edges inj unfolding translates_def by blast
  moreover have "resolves_back env ?d (cr_SourceMap result)"
    using source_map_back [OF inj image total xes] by (simp add: kept assemble_def Let_def)
  ultimately show ?thesis ..
qed

text \<open>Everything a client of the compiler may rely on.\<close>

lemma Compile_correct:
  assumes compiled: "Compile env compiler request = Inr result" and registry: "c_registry compiler = registry"
  shows "translates env (req_IR request) (cr_DSL result)" and "bindings_safe (cr_DSL result)"
    and "resolves_back env (req_IR request) (cr_SourceMap result)"
    and "Validate (c_dslContract compiler) (cr_DSL result) = []" and "CheckAll (c_compatibility compiler) (cr_DSL result) = []"
    and "complete_map (cr_SourceMap result) (cr_DSL result) (requiredSourceFields (cr_DSL result))"
proof -
  let ?d = "req_IR request" and ?a = "fst (analyzeControlGraph (req_IR request))"
  obtain catalog where
    valid: "\<not> HasErrors (Ir_Validate (env_decode_error env) \<lparr>irv_nodeContracts = Some (nc_ValidateNode catalog)\<rparr> ?d)"
    and graph: "\<not> HasErrors (snd (analyzeControlGraph ?d))" and safe: "\<not> HasErrors (validateDataBindings ?d ?a)"
    and result: "compile_graph env compiler request catalog ?a = Inr result"
    using Compile_accepted [OF compiled] by blast
  note wf = Ir_Validate_wf [OF valid]
  show tr: "translates env ?d (cr_DSL result)"
    and "resolves_back env ?d (cr_SourceMap result)"
    using compile_graph_correct [OF result registry wf analyze_analyzed [OF wf graph]] by simp_all
  show "bindings_safe (cr_DSL result)"
    by (rule translates_bindings [OF wf tr graph safe])
  obtain assembled where "check_result env compiler ?d assembled = Inr result"
    using result by (auto simp: compile_graph_def Let_def split: if_splits prod.splits)
  note checked = check_result_accepted [OF this]
  show "Validate (c_dslContract compiler) (cr_DSL result) = []" "CheckAll (c_compatibility compiler) (cr_DSL result) = []"
    "complete_map (cr_SourceMap result) (cr_DSL result) (requiredSourceFields (cr_DSL result))"
    using checked by simp_all
qed

end

text \<open>A compilation that fails says why.\<close>

lemma check_result_errors: "check_result env compiler d result = Inl ds \<Longrightarrow> HasErrors ds"
  by (auto simp: check_result_def Let_def dslIssuesToDiagnostics_def issue_diagnostics_errors finalizeHashes_def
      canonical_error_def split: if_splits sum.splits prod.splits)

lemma Compile_errors:
  assumes "Compile env compiler request = Inl ds"
  shows "HasErrors ds"
proof -
  have "HasErrors ds" if "compile_graph env compiler request catalog a = Inl ds" for catalog a
    using that by (auto simp: compile_graph_def Let_def check_result_errors split: if_splits prod.splits)
  then show ?thesis
    using assms by (auto simp: Compile_def Let_def compile_error_def split: option.splits if_splits prod.splits)
qed

end
