(* ===== verification/Compiler_Properties.thy ===== *)
theory Compiler_Properties
  imports Control_Accept Compiler_Translation
begin

text \<open>
  The properties of the compiler's static analysis: which control graphs it accepts, that its bit sets are
  the transitive closure, that its decision diagrams are Boolean functions, and that its check of data
  bindings is exact. The instances are a small workflow with a branch.
\<close>

section \<open>A workflow with a branch\<close>

definition plain_input :: "PortName \<Rightarrow> DataType \<Rightarrow> string \<Rightarrow> IrInput" where
  "plain_input name t text = \<lparr>iri_Name = name, iri_DataType = t, iri_Source = SourceLiteral, iri_Value = Some text,
     iri_RefNode = '''', iri_RefOutput = ''''\<rparr>"

definition ref_input :: "PortName \<Rightarrow> LogicalID \<Rightarrow> PortName \<Rightarrow> IrInput" where
  "ref_input name v out = \<lparr>iri_Name = name, iri_DataType = TypeObject, iri_Source = SourceRef, iri_Value = None,
     iri_RefNode = v, iri_RefOutput = out\<rparr>"

definition plain_node :: "LogicalID \<Rightarrow> NodeType \<Rightarrow> IrInput list \<Rightarrow> PortName list \<Rightarrow> IrNode" where
  "plain_node v t inputs outputs = \<lparr>irn_ID = v, irn_Type = t, irn_Title = v, irn_Inputs = Some inputs,
     irn_Outputs = Some (map (\<lambda>out. \<lparr>iro_Name = out, iro_DataType = TypeObject\<rparr>) outputs)\<rparr>"

definition plain_edge :: "LogicalID \<Rightarrow> LogicalID \<Rightarrow> RouteName \<Rightarrow> IrEdge" where
  "plain_edge u v route = \<lparr>ire_ID = u @ v, ire_Source = u, ire_Target = v, ire_Route = route\<rparr>"

text \<open>A branch skips the node \<open>x\<close> on the route \<open>no\<close>; the output of the workflow refers to the given output.\<close>

definition branch_workflow :: "LogicalID \<Rightarrow> PortName \<Rightarrow> IrDocument" where
  "branch_workflow v out = \<lparr>ird_IRVersion = ''1'',
     ird_Nodes = [plain_node ''s'' ''start'' [] [''in''],
       plain_node ''b'' ''branch'' [plain_input ''cases'' TypeArray (''[{'' @ quoted ''route'' @ '':'' @ quoted ''yes'' @ ''}]''),
         plain_input ''default_route'' TypeString (quoted ''no'')] [],
       plain_node ''x'' ''code'' [] [''r''], plain_node ''e'' ''end'' [ref_input ''workflow_output'' v out] []],
     ird_Edges = [plain_edge ''s'' ''b'' '''', plain_edge ''b'' ''x'' ''yes'', plain_edge ''b'' ''e'' ''no'', plain_edge ''x'' ''e'' ''''],
     ird_Layout = map (\<lambda>v. (v, \<lparr>pos_X = Some ''0'', pos_Y = Some ''0''\<rparr>)) [''s'', ''b'', ''x'', ''e'']\<rparr>"

lemma branch_workflow_valid:
  "\<not> HasErrors (Ir_Validate id NewStructuralValidator (branch_workflow ''x'' ''r''))"
  "\<not> HasErrors (Ir_Validate id NewStructuralValidator (branch_workflow ''s'' ''in''))"
  by code_simp+

lemma branch_workflow_analyzed:
  "\<not> HasErrors (snd (analyzeControlGraph (branch_workflow ''x'' ''r'')))"
  "\<not> HasErrors (snd (analyzeControlGraph (branch_workflow ''s'' ''in'')))"
  by code_simp+

lemma branch_workflow_bindings:
  "map diag_Code (validateDataBindings (branch_workflow ''x'' ''r'') (fst (analyzeControlGraph (branch_workflow ''x'' ''r'')))) = [''UNSAFE_DATA_BINDING'']"
  "validateDataBindings (branch_workflow ''s'' ''in'') (fst (analyzeControlGraph (branch_workflow ''s'' ''in''))) = []"
  by code_simp+

section \<open>Properties\<close>

text \<open>
  C14: The check of data bindings is exact. For a document that strict validation and the graph analysis
  accept, it reports, unless it gives up because the decision graph is too large, exactly the references
  whose source is not upstream of the reader, and those for which some choice of branch routes activates
  the reader and leaves the source inactive, each once, in the order and up to the limit of the reports.
\<close>

theorem bindings_exact:
  assumes "\<not> HasErrors (Ir_Validate decode_error v d)" and "\<not> HasErrors (snd (analyzeControlGraph d))"
  shows "validateDataBindings d (fst (analyzeControlGraph d)) = complexity_exceeded too_many
    \<or> validateDataBindings d (fst (analyzeControlGraph d))
        = LimitDiagnostics (SortDiagnostics (concat (map (binding_report d) (document_bindings d))))"
  using validateDataBindings_report Ir_Validate_wf [OF assms(1)] analyze_analyzed [OF _ assms(2)] by blast

theorem bindings_exact_witness:
  "map diag_Code (LimitDiagnostics (SortDiagnostics (concat (map (binding_report (branch_workflow ''x'' ''r''))
     (document_bindings (branch_workflow ''x'' ''r'')))))) = [''UNSAFE_DATA_BINDING'']"
proof -
  have "map diag_Code (complexity_exceeded too_many) = [''CONTROL_GRAPH_COMPLEXITY_EXCEEDED'']"
    by (simp add: complexity_exceeded_def graphInternalDiagnostic_def graph_error_def ErrorDiagnostic_def)
  then show ?thesis
    using bindings_exact [OF branch_workflow_valid(1) branch_workflow_analyzed(1)] branch_workflow_bindings(1) by auto
qed

text \<open>
  C15: Data flow of an accepted document is safe: whichever routes the branches take, a node that becomes
  active has, for every reference of its inputs, the referenced node active and upstream of it.
\<close>

theorem bindings_safe:
  assumes valid: "\<not> HasErrors (Ir_Validate decode_error v d)" and graph: "\<not> HasErrors (snd (analyzeControlGraph d))"
    and ok: "\<not> HasErrors (validateDataBindings d (fst (analyzeControlGraph d)))"
    and \<rho>: "choice d \<rho>" "active d \<rho> (irn_ID n)" and n: "n \<in> set (ird_Nodes d)" "i \<in> set (inputs_of n)" "iri_Source i = SourceRef"
  shows "active d \<rho> (iri_RefNode i) \<and> (iri_RefNode i, irn_ID n) \<in> (ir_rel d)\<^sup>+"
  using accepted_bindings_safe [OF Ir_Validate_wf [OF valid] graph ok n] \<rho> by (auto simp: unsafe_binding_def)

theorem bindings_safe_witness:
  "active (branch_workflow ''s'' ''in'') (\<lambda>_. ''no'') ''s'' \<and> (''s'', ''e'') \<in> (ir_rel (branch_workflow ''s'' ''in''))\<^sup>+"
proof -
  let ?d = "branch_workflow ''s'' ''in''" and ?\<rho> = "\<lambda>_ :: LogicalID. ''no''"
  have "''no'' \<in> set (branch_domain (ird_Nodes ?d ! 1))"
    by code_simp
  then have "choice ?d ?\<rho>"
    by (simp add: choice_def branch_workflow_def plain_node_def)
  moreover have "active ?d ?\<rho> ''s''"
    using active_start [of "plain_node ''s'' ''start'' [] [''in'']" ?d ?\<rho>] by (simp add: branch_workflow_def plain_node_def)
  then have "active ?d ?\<rho> ''b''"
    by (rule active_along [where e = "plain_edge ''s'' ''b'' ''''"]) (simp_all add: branch_workflow_def plain_edge_def plain_node_def)
  then have "active ?d ?\<rho> ''e''"
    by (rule active_along [where e = "plain_edge ''b'' ''e'' ''no''"]) (simp_all add: branch_workflow_def plain_edge_def plain_node_def)
  ultimately show ?thesis
    using bindings_safe [OF branch_workflow_valid(2) branch_workflow_analyzed(2), of ?\<rho>
        "plain_node ''e'' ''end'' [ref_input ''workflow_output'' ''s'' ''in''] []" "ref_input ''workflow_output'' ''s'' ''in''"]
      branch_workflow_bindings(2)
    by (simp add: branch_workflow_def plain_node_def inputs_of_def ref_input_def)
qed

text \<open>
  C16: The graph analysis accepts exactly the documents with one Start and one End, without a cycle, whose
  other nodes all have predecessors and successors and lie between Start and End, and whose branches have
  an edge for every route they declare and no other.
\<close>

theorem graph_accepts:
  assumes "\<not> HasErrors (Ir_Validate decode_error v d)"
  shows "\<not> HasErrors (snd (analyzeControlGraph d)) \<longleftrightarrow> control_graph_ok d"
  using analyze_errors [OF Ir_Validate_wf [OF assms]] by blast

theorem graph_accepts_witness: "control_graph_ok (branch_workflow ''x'' ''r'')"
  using graph_accepts [OF branch_workflow_valid(1)] branch_workflow_analyzed(1) by blast

text \<open>
  C17: The bit sets of descendants are the transitive closure of the edges: a node is upstream of another
  exactly when a path of at least one edge leads from it to the other.
\<close>

theorem upstream_closure:
  assumes "\<not> HasErrors (Ir_Validate decode_error v d)" and "\<not> HasErrors (snd (analyzeControlGraph d))"
    and "s \<in> ir_ids d" and "t \<in> ir_ids d"
  shows "isControlUpstream (fst (analyzeControlGraph d)) s t \<longleftrightarrow>
    (s, t) \<in> {(ire_Source e, ire_Target e) | e. e \<in> set (ird_Edges d)}\<^sup>+"
proof -
  have "ir_rel d = {(ire_Source e, ire_Target e) | e. e \<in> set (ird_Edges d)}"
    by (auto simp: ir_pairs_def)
  then show ?thesis
    using analyze_analyzed [OF Ir_Validate_wf [OF assms(1)] assms(2)] assms(3,4) by (simp add: analyzed_def)
qed

theorem upstream_closure_witness:
  "isControlUpstream (fst (analyzeControlGraph (branch_workflow ''x'' ''r''))) ''s'' ''b''"
proof -
  let ?d = "branch_workflow ''x'' ''r''"
  have "''s'' \<in> ir_ids ?d" "''b'' \<in> ir_ids ?d"
    by (simp_all add: ir_ids_def branch_workflow_def plain_node_def)
  moreover have "(''s'', ''b'') \<in> {(ire_Source e, ire_Target e) | e. e \<in> set (ird_Edges ?d)}\<^sup>+"
    by (rule r_into_trancl) (rule CollectI, rule exI [of _ "plain_edge ''s'' ''b'' ''''"], simp add: branch_workflow_def plain_edge_def)
  ultimately show ?thesis
    using upstream_closure [OF branch_workflow_valid(1) branch_workflow_analyzed(1)] by blast
qed

text \<open>
  C18: Decision diagrams are Boolean functions: on diagrams of a well-formed manager, conjunction,
  disjunction and negation give a diagram of the corresponding function in a well-formed manager, which is
  the false diagram exactly when no choice satisfies it, or they report that the manager is full.
\<close>

theorem decision_algebra:
  assumes "wf_manager m" and "denotes m l f" and "denotes m r g"
  shows "(case decision_and m l r of Inl e \<Rightarrow> e = too_many | Inr (d, m') \<Rightarrow> wf_manager m' \<and> denotes m' d (\<lambda>\<sigma>. f \<sigma> \<and> g \<sigma>)
      \<and> (d = decisionFalse \<longleftrightarrow> (\<forall>\<sigma>. admissible (dm_domains m') \<sigma> \<longrightarrow> \<not> (f \<sigma> \<and> g \<sigma>))))
    \<and> (case decision_or m l r of Inl e \<Rightarrow> e = too_many | Inr (d, m') \<Rightarrow> wf_manager m' \<and> denotes m' d (\<lambda>\<sigma>. f \<sigma> \<or> g \<sigma>)
      \<and> (d = decisionFalse \<longleftrightarrow> (\<forall>\<sigma>. admissible (dm_domains m') \<sigma> \<longrightarrow> \<not> (f \<sigma> \<or> g \<sigma>))))
    \<and> (case decision_not m l of Inl e \<Rightarrow> e = too_many | Inr (d, m') \<Rightarrow> wf_manager m' \<and> denotes m' d (\<lambda>\<sigma>. \<not> f \<sigma>)
      \<and> (d = decisionFalse \<longleftrightarrow> (\<forall>\<sigma>. admissible (dm_domains m') \<sigma> \<longrightarrow> f \<sigma>)))"
  using and_denotes [OF assms] or_denotes [OF assms] not_denotes [OF assms(1,2)] false_iff
  by (force simp: yields_def split: sum.splits)

theorem decision_algebra_witness:
  "case decision_and (newDecisionManager []) decisionTrue decisionTrue of Inl e \<Rightarrow> e = too_many | Inr (d, m') \<Rightarrow> d \<noteq> decisionFalse"
proof -
  have wf: "wf_manager (newDecisionManager [])"
    by (rule wf_new) simp
  have true: "denotes (newDecisionManager []) decisionTrue (\<lambda>_. True)"
    using denotes_terminal(2) [OF wf] by (simp add: decisionTrue_def)
  have "\<exists>\<sigma>. admissible (dm_domains m') \<sigma>" if "wf_manager m'" for m'
    using admissible_zero [OF that] by blast
  then show ?thesis
    using decision_algebra [OF wf true true] by (auto split: sum.splits)
qed

text \<open>
  A report has at most a hundred diagnostics, and sorting and cutting it off never turns a rejected
  document into an accepted one.
\<close>

lemma report_limit:
  "length (LimitDiagnostics (SortDiagnostics ds)) \<le> 100 \<and> HasErrors (LimitDiagnostics (SortDiagnostics ds)) = HasErrors ds"
  using HasErrors_limit [of ds] by (simp add: LimitDiagnostics_def MaxDiagnostics_def SortDiagnostics_def)

section \<open>Compilations\<close>

text \<open>C19: The compiler of the built-in registry always exists, and a compilation with it, of any authored
  document and for any node catalog, policy and resource bindings, either fails with a diagnostic that is an
  error, or returns a document that passes the validator and the compatibility check of the runtime, whose
  graph is the author's graph under an injective renaming of the nodes and edges with the routes of the
  branches kept, in which no choice of routes activates the reader of an output without its source, together
  with a source map that leads every execution identifier back to the identifier of the author and is complete
  for the fields of every node.\<close>

theorem compile_outcome:
  "case BuiltinV1 env ParseFile of Inl e \<Rightarrow> False
   | Inr compiler \<Rightarrow> (case Compile env compiler request of
       Inl ds \<Rightarrow> HasErrors ds
     | Inr result \<Rightarrow> Validate (c_dslContract compiler) (cr_DSL result) = []
         \<and> CheckAll (c_compatibility compiler) (cr_DSL result) = []
         \<and> translates env (req_IR request) (cr_DSL result) \<and> bindings_safe (cr_DSL result)
         \<and> resolves_back env (req_IR request) (cr_SourceMap result)
         \<and> complete_map (cr_SourceMap result) (cr_DSL result) (requiredSourceFields (cr_DSL result)))"
proof -
  obtain compiler where compiler: "BuiltinV1 env ParseFile = Inr compiler"
    and registry: "c_registry compiler = map (\<lambda>h. (h_NodeType h, h)) (builtin_handlers (env_texts env))"
    by (auto simp: BuiltinV1_def builtin_registry Compiler_New_def BuiltinV1Contract_def VersionV1_def)
  show ?thesis
    using builtin.Compile_correct [OF _ registry, of env request] Compile_errors [of env compiler request]
    by (auto simp: compiler split: sum.split)
qed

end
