(* ===== verification/Catalog.thy ===== *)
theory Catalog
  imports Compiler_Handlers
begin

text \<open>
  The node catalog, \<^verbatim>\<open>internal/catalog\<close>: the published descriptions of node types (\<^verbatim>\<open>model.go\<close>), the
  construction of a catalog with the checks of its contracts and its methods (\<^verbatim>\<open>catalog.go\<close>), and the
  validation of an author's node against a description (\<^verbatim>\<open>validation.go\<close>).

  The regular expressions of literal constraints go through \<^verbatim>\<open>regexp.Compile\<close>, a field of the record \<open>CatalogLib\<close>
  beside the \<^verbatim>\<open>%q\<close> verb and the Python parser. A slice that may be nil but is only ranged over is a list. A
  literal is decoded into \<^verbatim>\<open>any\<close>, so that an object keeps the last of the members of a name; marshalling a decoded
  value and decoding it again gives the value back, so its type is that of the value.
\<close>

section \<open>Descriptions\<close>

record CatalogLib =
  lib_quote :: "string \<Rightarrow> string"
  lib_regexp_Compile :: "string \<Rightarrow> string + (string \<Rightarrow> bool)"
  lib_ParseFile :: "string \<Rightarrow> py_Stmt list option"

datatype OutputMode = OutputFixed | OutputAuthorDeclared | OtherOutputMode string

record ArrayItemConstraint =
  aic_DataType :: DataType
  aic_Minimum :: "int option"
  aic_Maximum :: "int option"

record BranchCaseConstraints =
  bcc_FirstMatchWins :: bool
  bcc_PathSyntax :: string
  bcc_Operators :: "(DataType, string list) gomap"

record LiteralConstraints =
  lc_StringEnum :: "string list"
  lc_StringPattern :: string
  lc_MinLength :: int
  lc_MaxLength :: int
  lc_ArrayItems :: "ArrayItemConstraint option"
  lc_BranchCases :: "BranchCaseConstraints option"

record InputDescription =
  ind_Name :: PortName
  ind_Description :: string
  ind_Required :: bool
  ind_DataTypes :: "DataType list"
  ind_Sources :: "InputSource list"
  ind_Constraints :: "LiteralConstraints option"

record AdditionalInputDescription =
  aid_Description :: string
  aid_DataTypes :: "DataType list"
  aid_Sources :: "InputSource list"
  aid_ReservedNames :: "PortName list"

record PortDescription =
  pd_Name :: PortName
  pd_Description :: string
  pd_DataType :: DataType

record OutputDescription =
  od_Mode :: OutputMode
  od_Fields :: "PortDescription list"
  od_AllowedDataTypes :: "DataType list"
  od_MinFields :: int
  od_MaxFields :: int

record NodeDescription =
  nd_Type :: NodeType
  nd_Kind :: CatalogKind
  nd_Description :: string
  nd_Inputs :: "InputDescription list"
  nd_AdditionalInputs :: "AdditionalInputDescription option"
  nd_Outputs :: OutputDescription
  nd_Examples :: "IrNode list"

definition no_constraints :: LiteralConstraints where
  "no_constraints = \<lparr>lc_StringEnum = [], lc_StringPattern = '''', lc_MinLength = 0, lc_MaxLength = 0,
     lc_ArrayItems = None, lc_BranchCases = None\<rparr>"

section \<open>Validation of a node against its description\<close>

text \<open>\<^verbatim>\<open>utf8.RuneCountInString\<close>: an invalid byte counts as one rune.\<close>

fun rune_count :: "nat \<Rightarrow> string \<Rightarrow> int" where
  "rune_count fuel [] = 0"
| "rune_count 0 (c # s) = 0"
| "rune_count (Suc fuel) (c # s) =
     1 + rune_count fuel (if c < CHR 0x80 then s else drop (utf8_size (map of_char (c # s)) - 1) s)"

definition RuneCountInString :: "string \<Rightarrow> int" where
  "RuneCountInString s = rune_count (length s) s"

definition decoded_literal :: "IrInput \<Rightarrow> (json \<times> DataType) option" where
  "decoded_literal i = (case DecodeLiteral (\<lambda>_. '''') (iri_Value i) of Inl e \<Rightarrow> None | Inr (v, t) \<Rightarrow> Some (to_any v, t))"

fun value_type :: "json \<Rightarrow> DataType option" where
  "value_type JNull = None"
| "value_type (JString s) = Some TypeString"
| "value_type (JBool b) = Some TypeBoolean"
| "value_type (JArray vs) = Some TypeArray"
| "value_type (JObject ms) = Some TypeObject"
| "value_type (JNumber n) = Some (if mathematicallyIntegral n then TypeInteger else TypeNumber)"

definition nodeInputDiagnostic :: "IrNode \<Rightarrow> IrInput \<Rightarrow> nat \<Rightarrow> string \<Rightarrow> string \<Rightarrow> Diagnostic" where
  "nodeInputDiagnostic node i index code message =
     ErrorDiagnostic PhaseCatalog code message (node_at (irn_ID node) (InputPath (irn_ID node) 0 (iri_Name i) index))"

definition nodeOutputDiagnostic :: "IrNode \<Rightarrow> IrOutput \<Rightarrow> nat \<Rightarrow> string \<Rightarrow> string \<Rightarrow> Diagnostic" where
  "nodeOutputDiagnostic node out index code message =
     ErrorDiagnostic PhaseCatalog code message (node_at (irn_ID node) (OutputPath (irn_ID node) 0 (iro_Name out) index))"

definition constraint_violation :: "IrNode \<Rightarrow> IrInput \<Rightarrow> nat \<Rightarrow> string \<Rightarrow> Diagnostic" where
  "constraint_violation node i index message = nodeInputDiagnostic node i index ''NODE_INPUT_CONSTRAINT_VIOLATION'' message"

definition string_constraints :: "CatalogLib \<Rightarrow> IrNode \<Rightarrow> IrInput \<Rightarrow> nat \<Rightarrow> LiteralConstraints \<Rightarrow> string \<Rightarrow> Diagnostic list" where
  "string_constraints lib node i index constraints typed =
     diag_when (lc_MinLength constraints > 0 \<and> RuneCountInString typed < lc_MinLength constraints)
       (constraint_violation node i index ''literal string is shorter than allowed'')
     @ diag_when (lc_MaxLength constraints > 0 \<and> RuneCountInString typed > lc_MaxLength constraints)
         (constraint_violation node i index ''literal string is longer than allowed'')
     @ diag_when (lc_StringEnum constraints \<noteq> [] \<and> typed \<notin> set (lc_StringEnum constraints))
         (constraint_violation node i index ''literal string is not an allowed value'')
     @ diag_when (lc_StringPattern constraints \<noteq> ''''
           \<and> (case lib_regexp_Compile lib (lc_StringPattern constraints) of Inl e \<Rightarrow> True | Inr MatchString \<Rightarrow> \<not> MatchString typed))
         (constraint_violation node i index ''literal string does not match the required pattern'')"

text \<open>\<^verbatim>\<open>json.Number.Int64\<close> reads a literal without fraction and exponent in the range of 64 bits, like \<open>to_int\<close>.\<close>

definition item_constraints :: "IrNode \<Rightarrow> IrInput \<Rightarrow> nat \<Rightarrow> ArrayItemConstraint \<Rightarrow> json \<Rightarrow> Diagnostic list" where
  "item_constraints node i index items item =
     (case value_type item of
        None \<Rightarrow> [constraint_violation node i index ''array item has an invalid data_type'']
      | Some actual \<Rightarrow>
          if \<not> compatible actual (aic_DataType items) then
            [constraint_violation node i index ''array item has an invalid data_type'']
          else diag_when (actual = TypeInteger
              \<and> (case to_int item of
                   None \<Rightarrow> True
                 | Some n \<Rightarrow> (case aic_Minimum items of None \<Rightarrow> False | Some m \<Rightarrow> n < m)
                     \<or> (case aic_Maximum items of None \<Rightarrow> False | Some m \<Rightarrow> n > m)))
            (constraint_violation node i index ''array integer item is outside the allowed range''))"

definition validateLiteralConstraints ::
  "CatalogLib \<Rightarrow> IrNode \<Rightarrow> IrInput \<Rightarrow> nat \<Rightarrow> LiteralConstraints \<Rightarrow> Diagnostic list" where
  "validateLiteralConstraints lib node i index constraints =
     (case decoded_literal i of
        Some (JString typed, t) \<Rightarrow> string_constraints lib node i index constraints typed
      | Some (JArray items, t) \<Rightarrow>
          (case lc_ArrayItems constraints of
             None \<Rightarrow> [] | Some rule \<Rightarrow> concat (map (item_constraints node i index rule) items))
      | _ \<Rightarrow> [])"

definition catalog_validateOutputs :: "CatalogLib \<Rightarrow> IrNode \<Rightarrow> OutputDescription \<Rightarrow> Diagnostic list" where
  "catalog_validateOutputs lib node description =
     (case od_Mode description of
        OutputFixed \<Rightarrow>
          (let expected = fold (\<lambda>f. AList.update (pd_Name f) (pd_DataType f)) (od_Fields description) [] in
           concat (map (\<lambda>(index, out).
               case map_of expected (iro_Name out) of
                 None \<Rightarrow> [nodeOutputDiagnostic node out index ''NODE_OUTPUT_UNSUPPORTED'' ''output is not allowed by the node description'']
               | Some expectedType \<Rightarrow> diag_when (DataType_Valid (iro_DataType out) \<and> iro_DataType out \<noteq> expectedType)
                   (nodeOutputDiagnostic node out index ''NODE_OUTPUT_TYPE_MISMATCH'' ''fixed output has the wrong data_type''))
             (enumerate 0 (outputs_of node)))
           @ concat (map (\<lambda>(name, t). diag_when (name \<notin> iro_Name ` set (outputs_of node))
               (ErrorDiagnostic PhaseCatalog ''NODE_OUTPUT_REQUIRED'' (''fixed output '' @ lib_quote lib name @ '' is missing'')
                  (node_at (irn_ID node) (NodePath (irn_ID node) 0 @ ''/outputs/'' @ name)))) expected))
      | OutputAuthorDeclared \<Rightarrow>
          diag_when (int (length (outputs_of node)) < od_MinFields description
              \<or> (od_MaxFields description > 0 \<and> int (length (outputs_of node)) > od_MaxFields description))
            (ErrorDiagnostic PhaseCatalog ''NODE_OUTPUT_COUNT_INVALID'' ''author-declared output count is outside the node contract''
               (node_at (irn_ID node) (NodePath (irn_ID node) 0 @ ''/outputs'')))
          @ concat (map (\<lambda>(index, out).
              diag_when (DataType_Valid (iro_DataType out) \<and> iro_DataType out \<notin> set (od_AllowedDataTypes description))
                (nodeOutputDiagnostic node out index ''NODE_OUTPUT_TYPE_NOT_ALLOWED'' ''author-declared output data_type is not allowed''))
              (enumerate 0 (outputs_of node)))
      | OtherOutputMode mode \<Rightarrow>
          [ErrorDiagnostic PhaseCatalog ''CATALOG_OUTPUT_MODE_INVALID'' ''node description has an invalid output mode''
             (node_at (irn_ID node) (NodePath (irn_ID node) 0 @ ''/outputs''))])"

definition additional_input :: "IrNode \<Rightarrow> AdditionalInputDescription option \<Rightarrow> nat \<Rightarrow> IrInput \<Rightarrow> Diagnostic list" where
  "additional_input node additional index i =
     (case additional of
        None \<Rightarrow> [nodeInputDiagnostic node i index ''NODE_INPUT_UNSUPPORTED'' ''input is not allowed by the node description'']
      | Some rule \<Rightarrow>
          if iri_Name i \<in> set (aid_ReservedNames rule) then
            [nodeInputDiagnostic node i index ''NODE_INPUT_UNSUPPORTED'' ''input is not allowed by the node description'']
          else
            diag_when (DataType_Valid (iri_DataType i) \<and> iri_DataType i \<notin> set (aid_DataTypes rule))
              (nodeInputDiagnostic node i index ''NODE_INPUT_TYPE_NOT_ALLOWED'' ''additional input data_type is not allowed'')
            @ diag_when (InputSource_Valid (iri_Source i) \<and> iri_Source i \<notin> set (aid_Sources rule))
                (nodeInputDiagnostic node i index ''NODE_INPUT_SOURCE_NOT_ALLOWED'' ''additional input source is not allowed''))"

definition described_input :: "CatalogLib \<Rightarrow> IrNode \<Rightarrow> InputDescription \<Rightarrow> nat \<Rightarrow> IrInput \<Rightarrow> Diagnostic list" where
  "described_input lib node rule index i =
     diag_when (DataType_Valid (iri_DataType i) \<and> iri_DataType i \<notin> set (ind_DataTypes rule))
       (nodeInputDiagnostic node i index ''NODE_INPUT_TYPE_NOT_ALLOWED'' ''input data_type is not allowed by the node description'')
     @ diag_when (InputSource_Valid (iri_Source i) \<and> iri_Source i \<notin> set (ind_Sources rule))
         (nodeInputDiagnostic node i index ''NODE_INPUT_SOURCE_NOT_ALLOWED'' ''input source is not allowed by the node description'')
     @ (case ind_Constraints rule of
          None \<Rightarrow> []
        | Some constraints \<Rightarrow> if iri_Source i = SourceLiteral \<and> HasValue i
            then validateLiteralConstraints lib node i index constraints else [])"

definition validateDescription :: "CatalogLib \<Rightarrow> IrNode \<Rightarrow> NodeDescription \<Rightarrow> Diagnostic list" where
  "validateDescription lib node description =
     (let declared = fold (\<lambda>v. AList.update (ind_Name v) v) (nd_Inputs description) [] in
      concat (map (\<lambda>(index, i).
          case map_of declared (iri_Name i) of
            None \<Rightarrow> additional_input node (nd_AdditionalInputs description) index i
          | Some rule \<Rightarrow> described_input lib node rule index i) (enumerate 0 (inputs_of node)))
      @ concat (map (\<lambda>rule. diag_when (ind_Required rule \<and> ind_Name rule \<notin> iri_Name ` set (inputs_of node))
          (ErrorDiagnostic PhaseCatalog ''NODE_INPUT_REQUIRED'' (''required input '' @ lib_quote lib (ind_Name rule) @ '' is missing'')
             (node_at (irn_ID node) (NodePath (irn_ID node) 0 @ ''/inputs/'' @ ind_Name rule)))) (nd_Inputs description))
      @ catalog_validateOutputs lib node (nd_Outputs description))"

text \<open>The first blank literal of that name, if there is one.\<close>

definition blank_literal :: "PortName \<Rightarrow> IrInput \<Rightarrow> bool" where
  "blank_literal name i = (iri_Name i = name \<and> iri_Source i = SourceLiteral \<and> HasValue i
     \<and> (case decoded_literal i of Some (JString text, t) \<Rightarrow> trim_space_left text = '''' | _ \<Rightarrow> False))"

definition nonEmptyLiteral :: "IrNode \<Rightarrow> PortName \<Rightarrow> Diagnostic list" where
  "nonEmptyLiteral node name =
     (case find (\<lambda>(index, i). blank_literal name i) (enumerate 0 (inputs_of node)) of
        None \<Rightarrow> []
      | Some (index, i) \<Rightarrow> [constraint_violation node i index ''literal string must not be blank''])"

section \<open>Catalogs\<close>

record catalog_contract =
  ct_revision :: "32 word"
  ct_description :: NodeDescription
  ct_runtime :: RuntimeContract
  ct_validate :: "(IrNode \<Rightarrow> Diagnostic list) option"

record Catalog =
  cat_revision :: string
  cat_contracts :: "(NodeType, catalog_contract) gomap"

text \<open>Checks in the order of the source; the first that fails is the error.\<close>

definition require :: "bool \<Rightarrow> string \<Rightarrow> unit result" where
  "require b message = (if b then Inr () else Inl (Errorf message))"

fun first_failure :: "unit result list \<Rightarrow> unit result" where
  "first_failure [] = Inr ()"
| "first_failure (r # rs) = (case r of Inl e \<Rightarrow> Inl e | Inr _ \<Rightarrow> first_failure rs)"

fun CatalogKind_text :: "CatalogKind \<Rightarrow> string" where
  "CatalogKind_text CatalogControl = ''control''"
| "CatalogKind_text CatalogTask = ''task''"
| "CatalogKind_text (OtherCatalogKind k) = k"

fun OutputMode_text :: "OutputMode \<Rightarrow> string" where
  "OutputMode_text OutputFixed = ''fixed''"
| "OutputMode_text OutputAuthorDeclared = ''author_declared''"
| "OutputMode_text (OtherOutputMode m) = m"

definition validateTypeAndSourceSet ::
  "CatalogLib \<Rightarrow> NodeType \<Rightarrow> PortName \<Rightarrow> DataType list \<Rightarrow> InputSource list \<Rightarrow> unit result" where
  "validateTypeAndSourceSet lib nodeType inputName dataTypes sources =
     (let q = lib_quote lib; subject = ''node '' @ q nodeType @ '' input '' @ q inputName in
      first_failure
        (require (dataTypes \<noteq> [] \<and> sources \<noteq> []) (subject @ '' must declare data types and sources'')
         # map (\<lambda>t. require (DataType_Valid t) (subject @ '' has invalid data type '' @ q (DataType_text t))) dataTypes
         @ map (\<lambda>s. require (InputSource_Valid s) (subject @ '' has invalid source '' @ q (InputSource_text s))) sources))"

definition pattern_check :: "CatalogLib \<Rightarrow> NodeType \<Rightarrow> InputDescription \<Rightarrow> unit result" where
  "pattern_check lib nodeType i =
     (case ind_Constraints i of
        None \<Rightarrow> Inr ()
      | Some constraints \<Rightarrow>
          if lc_StringPattern constraints = '''' then Inr ()
          else (case lib_regexp_Compile lib (lc_StringPattern constraints) of
              Inr _ \<Rightarrow> Inr ()
            | Inl e \<Rightarrow> Inl (Errorf (''node '' @ lib_quote lib nodeType @ '' input '' @ lib_quote lib (ind_Name i)
                @ '' has invalid pattern: '' @ e))))"

fun input_checks :: "CatalogLib \<Rightarrow> NodeType \<Rightarrow> PortName list \<Rightarrow> InputDescription list \<Rightarrow> unit result list" where
  "input_checks lib nodeType seen [] = []"
| "input_checks lib nodeType seen (i # rest) =
     (let q = lib_quote lib in
      require (ValidPortName (ind_Name i)) (''node '' @ q nodeType @ '' has invalid input name '' @ q (ind_Name i))
      # require (ind_Name i \<notin> set seen) (''node '' @ q nodeType @ '' describes input '' @ q (ind_Name i) @ '' twice'')
      # validateTypeAndSourceSet lib nodeType (ind_Name i) (ind_DataTypes i) (ind_Sources i)
      # pattern_check lib nodeType i
      # input_checks lib nodeType (ind_Name i # seen) rest)"

fun fixed_output_checks :: "CatalogLib \<Rightarrow> NodeType \<Rightarrow> PortName list \<Rightarrow> PortDescription list \<Rightarrow> unit result list" where
  "fixed_output_checks lib nodeType seen [] = []"
| "fixed_output_checks lib nodeType seen (out # rest) =
     (let q = lib_quote lib in
      require (ValidPortName (pd_Name out) \<and> DataType_Valid (pd_DataType out))
        (''node '' @ q nodeType @ '' has invalid fixed output '' @ q (pd_Name out))
      # require (pd_Name out \<notin> set seen) (''node '' @ q nodeType @ '' describes output '' @ q (pd_Name out) @ '' twice'')
      # fixed_output_checks lib nodeType (pd_Name out # seen) rest)"

definition output_checks :: "CatalogLib \<Rightarrow> NodeType \<Rightarrow> OutputDescription \<Rightarrow> unit result list" where
  "output_checks lib nodeType outputs =
     (let subject = ''node '' @ lib_quote lib nodeType in
      case od_Mode outputs of
        OutputFixed \<Rightarrow> fixed_output_checks lib nodeType [] (od_Fields outputs)
      | OutputAuthorDeclared \<Rightarrow>
          require (od_AllowedDataTypes outputs \<noteq> [] \<and> od_MinFields outputs \<le> od_MaxFields outputs)
            (subject @ '' has invalid author-declared output policy'')
          # map (\<lambda>t. require (DataType_Valid t) (subject @ '' has invalid output data type '' @ lib_quote lib (DataType_text t)))
              (od_AllowedDataTypes outputs)
      | OtherOutputMode m \<Rightarrow> [require False (subject @ '' has invalid output mode '' @ lib_quote lib m)])"

definition runtime_check :: "CatalogLib \<Rightarrow> NodeType \<Rightarrow> RuntimeContract \<Rightarrow> unit result" where
  "runtime_check lib nodeType runtime =
     (let policy = rc_DefaultExecutionPolicy runtime in
      if rc_Kind runtime = CatalogControl then
        require (epd_MaxAttempts policy = 0 \<and> epd_MaxRecoveries policy = 0 \<and> epd_AttemptTimeoutMS policy = 0
            \<and> epd_RetryBackoffMS policy = 0 \<and> epd_RetryableErrorCodes policy = [])
          (''control node '' @ lib_quote lib nodeType @ '' cannot have an execution policy'')
      else
        require (epd_MaxAttempts policy \<noteq> 0 \<and> epd_AttemptTimeoutMS policy \<noteq> 0 \<and> epd_RetryBackoffMS policy \<noteq> 0)
          (''task node '' @ lib_quote lib nodeType @ '' has an incomplete default execution policy''))"

definition validateContractDefinition :: "CatalogLib \<Rightarrow> catalog_contract \<Rightarrow> unit result" where
  "validateContractDefinition lib v =
     (let description = ct_description v; nodeType = nd_Type description; runtime = ct_runtime v;
          subject = ''node '' @ lib_quote lib nodeType
      in first_failure
        ([require (nd_Kind description = CatalogControl \<or> nd_Kind description = CatalogTask)
            (subject @ '' has invalid kind '' @ lib_quote lib (CatalogKind_text (nd_Kind description))),
          require (trim_space_left (nd_Description description) \<noteq> '''' \<and> nd_Examples description \<noteq> [])
            (subject @ '' must publish a description and example''),
          require (rc_Kind runtime = nd_Kind description \<and> rc_OperationType runtime \<noteq> '''' \<and> rc_OperationVersion runtime \<noteq> 0)
            (subject @ '' has invalid runtime contract''),
          runtime_check lib nodeType runtime]
         @ input_checks lib nodeType [] (nd_Inputs description)
         @ (case nd_AdditionalInputs description of
              None \<Rightarrow> []
            | Some additional \<Rightarrow>
                [validateTypeAndSourceSet lib nodeType ''additional_inputs'' (aid_DataTypes additional) (aid_Sources additional)])
         @ output_checks lib nodeType (nd_Outputs description)
         @ map (\<lambda>example. require (irn_Type example = nodeType)
              (subject @ '' publishes an example for type '' @ lib_quote lib (irn_Type example))) (nd_Examples description)))"

fun register_contracts ::
  "CatalogLib \<Rightarrow> catalog_contract list \<Rightarrow> (NodeType, catalog_contract) gomap \<Rightarrow> (NodeType, catalog_contract) gomap result" where
  "register_contracts lib [] registered = Inr registered"
| "register_contracts lib (v # rest) registered =
     (let nodeType = nd_Type (ct_description v) in
      if ct_revision v = 0 then Inl (Errorf (''node '' @ lib_quote lib nodeType @ '' has no internal contract revision''))
      else if \<not> ValidNodeType nodeType then Inl (Errorf (''node type '' @ lib_quote lib nodeType @ '' is invalid''))
      else case validateContractDefinition lib v of
          Inl e \<Rightarrow> Inl e
        | Inr _ \<Rightarrow>
            if map_of registered nodeType \<noteq> None then Inl (Errorf (''node type '' @ lib_quote lib nodeType @ '' is registered twice''))
            else register_contracts lib rest (AList.update nodeType v registered))"

definition newCatalog :: "CatalogLib \<Rightarrow> string \<Rightarrow> catalog_contract list \<Rightarrow> Catalog result" where
  "newCatalog lib revision contracts =
     (if revision = '''' then Inl (Errorf ''catalog revision is required'')
      else case register_contracts lib contracts [] of
          Inl e \<Rightarrow> Inl e
        | Inr registered \<Rightarrow> Inr \<lparr>cat_revision = revision, cat_contracts = registered\<rparr>)"

text \<open>The methods; the copies that protect the catalog's slices are the identity on values.\<close>

definition ContractRevision :: "Catalog \<Rightarrow> NodeType \<Rightarrow> (32 word) option" where
  "ContractRevision c nodeType = map_option ct_revision (map_of (cat_contracts c) nodeType)"

definition Catalog_RuntimeContract :: "Catalog \<Rightarrow> NodeType \<Rightarrow> RuntimeContract option" where
  "Catalog_RuntimeContract c nodeType = map_option ct_runtime (map_of (cat_contracts c) nodeType)"

definition Describe :: "Catalog \<Rightarrow> NodeType \<Rightarrow> NodeDescription option" where
  "Describe c nodeType = map_option ct_description (map_of (cat_contracts c) nodeType)"

definition Descriptions :: "Catalog \<Rightarrow> NodeDescription list" where
  "Descriptions c = sort_key nd_Type (map (\<lambda>(t, v). ct_description v) (cat_contracts c))"

definition Catalog_ValidateNode :: "CatalogLib \<Rightarrow> Catalog \<Rightarrow> IrNode \<Rightarrow> Diagnostic list" where
  "Catalog_ValidateNode lib c node =
     (case map_of (cat_contracts c) (irn_Type node) of
        None \<Rightarrow> [ErrorDiagnostic PhaseCatalog ''NODE_TYPE_UNSUPPORTED''
            (''node type '' @ lib_quote lib (irn_Type node) @ '' is not present in catalog '' @ cat_revision c)
            (node_at (irn_ID node) (NodePath (irn_ID node) 0 @ ''/type''))]
      | Some v \<Rightarrow> SortDiagnostics (validateDescription lib node (ct_description v)
          @ (case ct_validate v of None \<Rightarrow> [] | Some validate \<Rightarrow> validate node)))"

text \<open>A catalog as the interface \<^verbatim>\<open>compiler.NodeCatalog\<close>.\<close>

definition node_catalog :: "CatalogLib \<Rightarrow> Catalog \<Rightarrow> NodeCatalog" where
  "node_catalog lib c = \<lparr>nc_Revision = cat_revision c, nc_ValidateNode = Catalog_ValidateNode lib c,
     nc_RuntimeContract = Catalog_RuntimeContract c\<rparr>"

end
