(* ===== verification/Catalog_Builtins.thy ===== *)
theory Catalog_Builtins
  imports Catalog
begin

text \<open>
  The built-in catalog, \<^verbatim>\<open>internal/catalog/builtins.go\<close>: the contracts of the six node types with their
  examples, and the checks that descriptions cannot express: branch cases, Python sources and relative paths.
  The titles of the examples are Chinese texts, written as their UTF-8 bytes.
\<close>

section \<open>Branches\<close>

definition branchOperatorMatrix :: "(DataType, string list) gomap" where
  "branchOperatorMatrix =
     [(TypeString, [''eq'', ''neq'', ''contains'', ''not_contains'', ''starts_with'', ''ends_with'']),
      (TypeInteger, [''eq'', ''neq'', ''gt'', ''gte'', ''lt'', ''lte'']),
      (TypeNumber, [''eq'', ''neq'', ''gt'', ''gte'', ''lt'', ''lte'']),
      (TypeBoolean, [''eq'', ''neq'']),
      (TypeArray, [''eq'', ''neq'', ''contains'', ''not_contains'']),
      (TypeObject, [''eq'', ''neq'', ''has_key'', ''not_has_key''])]"

definition flattenOperators :: "(DataType, string list) gomap \<Rightarrow> string list" where
  "flattenOperators matrix =
     fold (\<lambda>t result. fold (\<lambda>operator result. if operator \<in> set result then result else result @ [operator])
       (slice_at matrix t) result) all_types []"

definition branchOperators :: "string list" where
  "branchOperators = flattenOperators branchOperatorMatrix"

definition nestedDataType :: "json \<Rightarrow> DataType option" where
  "nestedDataType v = value_type v"

definition validBranchComparison :: "DataType \<Rightarrow> string \<Rightarrow> json \<Rightarrow> bool" where
  "validBranchComparison valueType operator comparison =
     (let comparisonType = nestedDataType comparison in
      case valueType of
        TypeString \<Rightarrow> comparisonType = Some TypeString
      | TypeInteger \<Rightarrow> comparisonType = Some TypeInteger \<or> comparisonType = Some TypeNumber
      | TypeNumber \<Rightarrow> comparisonType = Some TypeInteger \<or> comparisonType = Some TypeNumber
      | TypeBoolean \<Rightarrow> comparisonType = Some TypeBoolean
      | TypeArray \<Rightarrow> operator = ''contains'' \<or> operator = ''not_contains'' \<or> comparisonType = Some TypeArray
      | TypeObject \<Rightarrow> (if operator = ''has_key'' \<or> operator = ''not_has_key'' then comparisonType = Some TypeString
                       else comparisonType = Some TypeObject)
      | OtherType t \<Rightarrow> False)"

definition validPathComparison :: "string \<Rightarrow> json \<Rightarrow> bool" where
  "validPathComparison operator comparison =
     (let comparisonType = nestedDataType comparison in
      if operator \<in> {''starts_with'', ''ends_with'', ''has_key'', ''not_has_key''} then comparisonType = Some TypeString
      else if operator \<in> {''gt'', ''gte'', ''lt'', ''lte''} then
        comparisonType = Some TypeInteger \<or> comparisonType = Some TypeNumber
      else if operator \<in> {''contains'', ''not_contains''} then True
      else if operator \<in> {''eq'', ''neq''} then comparisonType \<noteq> None
      else False)"

definition catalog_validBranchPath :: "string \<Rightarrow> bool" where
  "catalog_validBranchPath path = (path \<noteq> '''' \<and> list_all ValidPortName (split_on (CHR ''.'') path))"

definition branchCaseDiagnostic :: "IrNode \<Rightarrow> IrInput \<Rightarrow> nat \<Rightarrow> nat \<Rightarrow> string \<Rightarrow> Diagnostic" where
  "branchCaseDiagnostic node i inputIndex caseIndex message =
     (let diagnostic = nodeInputDiagnostic node i inputIndex ''BRANCH_CASES_INVALID'' message in
      diagnostic\<lparr>diag_Locations :=
        map (\<lambda>(k, l). if k = 0 then l\<lparr>loc_IRPath := loc_IRPath l @ ''/'' @ show_nat caseIndex\<rparr> else l)
          (enumerate 0 (diag_Locations diagnostic))\<rparr>)"

definition branchCaseTypeDiagnostic :: "IrNode \<Rightarrow> IrInput \<Rightarrow> nat \<Rightarrow> nat \<Rightarrow> string \<Rightarrow> Diagnostic" where
  "branchCaseTypeDiagnostic node i inputIndex caseIndex message =
     (branchCaseDiagnostic node i inputIndex caseIndex message)\<lparr>diag_Code := ''BRANCH_OPERATOR_TYPE_MISMATCH''\<rparr>"

text \<open>A type assertion to \<^verbatim>\<open>string\<close> on a value of a map that may be missing.\<close>

fun as_text :: "json option \<Rightarrow> string option" where
  "as_text (Some (JString s)) = Some s"
| "as_text _ = None"

definition operator_text :: "string option \<Rightarrow> string" where
  "operator_text operator = (case operator of None \<Rightarrow> '''' | Some t \<Rightarrow> t)"

text \<open>
  The first fault of a case: a message, and whether it is one of types. The source ranges over a map for the
  unsupported fields, whose order it does not fix; the model takes that of the members.
\<close>

definition comparison_fault :: "DataType \<Rightarrow> (string \<times> json) list \<Rightarrow> string \<Rightarrow> json \<Rightarrow> (bool \<times> string) option" where
  "comparison_fault valueType item operator expected =
     (case map_of item ''path'' of
        Some path \<Rightarrow>
          if (case as_text (Some path) of None \<Rightarrow> True | Some t \<Rightarrow> \<not> catalog_validBranchPath t) then
            Some (False, ''case path is invalid'')
          else if DataType_Valid valueType \<and> valueType \<noteq> TypeObject then
            Some (True, ''case path is only valid when branch value is an object'')
          else if \<not> validPathComparison operator expected then
            Some (True, ''comparison value is incompatible with the path operator'')
          else None
      | None \<Rightarrow>
          if \<not> DataType_Valid valueType then None
          else if operator \<notin> set (slice_at branchOperatorMatrix valueType) then
            Some (True, ''operator is incompatible with the branch value data_type'')
          else if \<not> validBranchComparison valueType operator expected then
            Some (True, ''comparison value is incompatible with the branch value data_type and operator'')
          else None)"

definition case_fault :: "CatalogLib \<Rightarrow> DataType \<Rightarrow> json \<Rightarrow> (bool \<times> string) option" where
  "case_fault lib valueType rawCase =
     (case rawCase of
        JObject item \<Rightarrow>
          (let route = as_text (map_of item ''route''); operator = as_text (map_of item ''operator'') in
           if (case route of None \<Rightarrow> True | Some r \<Rightarrow> \<not> ValidRouteName r) then Some (False, ''case route is invalid'')
           else if (case operator of None \<Rightarrow> True | Some p \<Rightarrow> p \<notin> set branchOperators) then
             Some (False, ''case operator is unsupported'')
           else case map_of item ''value'' of
               None \<Rightarrow> Some (False, ''case comparison value is required'')
             | Some expected \<Rightarrow>
                 (case find (\<lambda>(key, v). key \<notin> {''route'', ''path'', ''operator'', ''value''}) item of
                    Some (key, v) \<Rightarrow> Some (False, ''case field '' @ lib_quote lib key @ '' is unsupported'')
                  | None \<Rightarrow> comparison_fault valueType item (operator_text operator) expected))
      | _ \<Rightarrow> Some (False, ''case must be an object''))"

definition case_diagnostic ::
  "CatalogLib \<Rightarrow> IrNode \<Rightarrow> DataType \<Rightarrow> IrInput \<Rightarrow> nat \<Rightarrow> nat \<times> json \<Rightarrow> Diagnostic list" where
  "case_diagnostic lib node valueType i inputIndex = (\<lambda>(caseIndex, rawCase).
     (case case_fault lib valueType rawCase of
        None \<Rightarrow> []
      | Some (typed, message) \<Rightarrow>
          [if typed then branchCaseTypeDiagnostic node i inputIndex caseIndex message
           else branchCaseDiagnostic node i inputIndex caseIndex message]))"

text \<open>The loop over the inputs ends with the first diagnostic, and with a list of cases that does not decode.\<close>

definition invalid_default :: "IrInput \<Rightarrow> bool" where
  "invalid_default i = (iri_Name i = ''default_route'' \<and> iri_Source i = SourceLiteral \<and> HasValue i
     \<and> (case decoded_literal i of None \<Rightarrow> False
        | Some (v, t) \<Rightarrow> (case as_text (Some v) of None \<Rightarrow> True | Some route \<Rightarrow> \<not> ValidRouteName route)))"

fun branch_input_checks :: "CatalogLib \<Rightarrow> IrNode \<Rightarrow> DataType \<Rightarrow> (nat \<times> IrInput) list \<Rightarrow> Diagnostic list" where
  "branch_input_checks lib node valueType [] = []"
| "branch_input_checks lib node valueType ((inputIndex, i) # rest) =
     (if invalid_default i then
        [nodeInputDiagnostic node i inputIndex ''BRANCH_ROUTE_INVALID'' ''default_route must be a valid route identifier'']
      else if iri_Name i \<noteq> ''cases'' \<or> iri_Source i \<noteq> SourceLiteral \<or> \<not> HasValue i then
        branch_input_checks lib node valueType rest
      else (case decoded_literal i of
          None \<Rightarrow> []
        | Some (JArray (c # cs), t) \<Rightarrow>
            (case concat (map (case_diagnostic lib node valueType i inputIndex) (enumerate 0 (c # cs))) of
               [] \<Rightarrow> branch_input_checks lib node valueType rest
             | diagnostic # _ \<Rightarrow> [diagnostic])
        | Some _ \<Rightarrow> [nodeInputDiagnostic node i inputIndex ''BRANCH_CASES_INVALID'' ''cases must contain at least one case'']))"

definition validateBranch :: "CatalogLib \<Rightarrow> IrNode \<Rightarrow> Diagnostic list" where
  "validateBranch lib node =
     branch_input_checks lib node (iri_DataType (found_input node ''value'')) (enumerate 0 (inputs_of node))"

section \<open>Code and HTTP\<close>

definition source_diagnostic :: "IrNode \<Rightarrow> SourceError \<Rightarrow> Diagnostic" where
  "source_diagnostic node e =
     (ErrorDiagnostic PhaseCatalog (se_Code e) (se_Message e)
        (node_at (irn_ID node) (''/nodes/'' @ irn_ID node @ ''/inputs/source_code'')))
      \<lparr>diag_Details := (if se_Line e > 0
         then Some [(''source_line'', Count (se_Line e)), (''source_column'', Count (se_Column e))] else None)\<rparr>"

fun code_source_checks :: "CatalogLib \<Rightarrow> IrNode \<Rightarrow> IrInput list \<Rightarrow> Diagnostic list" where
  "code_source_checks lib node [] = []"
| "code_source_checks lib node (i # rest) =
     (if iri_Name i \<noteq> ''source_code'' \<or> iri_Source i \<noteq> SourceLiteral then code_source_checks lib node rest
      else case Option.bind (Option.bind (iri_Value i) parse_text) to_string of
          None \<Rightarrow> []
        | Some source \<Rightarrow>
            if source = '''' then []
            else (case ValidateSource (lib_ParseFile lib) source of None \<Rightarrow> [] | Some e \<Rightarrow> [source_diagnostic node e])
              @ code_source_checks lib node rest)"

definition validateCode :: "CatalogLib \<Rightarrow> IrNode \<Rightarrow> Diagnostic list" where
  "validateCode lib node = nonEmptyLiteral node ''source_code'' @ code_source_checks lib node (inputs_of node)"

text \<open>
  \<^verbatim>\<open>url.Parse\<close> on a text that starts with one slash: the fragment is cut off at the first \<^verbatim>\<open>#\<close>; a control byte
  before it is an error; the query is cut off at the first question mark, a lone one at the end leaving it empty;
  the rest is a path, whose escapes have two hexadecimal digits. There is no scheme and no host.
\<close>

fun valid_escapes :: "string \<Rightarrow> bool" where
  "valid_escapes [] = True"
| "valid_escapes (c # s) =
     (if c = CHR ''%'' then (case s of a # b # r \<Rightarrow> hex_digit a \<noteq> None \<and> hex_digit b \<noteq> None \<and> valid_escapes r | _ \<Rightarrow> False)
      else valid_escapes s)"

definition url_keeps_path :: "string \<Rightarrow> bool" where
  "url_keeps_path path =
     (let u = takeWhile (\<lambda>c. c \<noteq> CHR ''#'') path; fragment = drop (length u + 1) path;
          rest = takeWhile (\<lambda>c. c \<noteq> CHR ''?'') u; query = drop (length rest + 1) u
      in list_all (\<lambda>c. CHR '' '' \<le> c \<and> c \<noteq> CHR 0x7F) u \<and> valid_escapes rest \<and> query = '''' \<and> fragment = '''')"

definition validRelativePath :: "string \<Rightarrow> bool" where
  "validRelativePath path = (has_prefix path ''/'' \<and> \<not> has_prefix path ''//'' \<and> url_keeps_path path)"

definition path_diagnostic :: "IrNode \<Rightarrow> IrInput \<Rightarrow> nat \<Rightarrow> Diagnostic" where
  "path_diagnostic node i index = nodeInputDiagnostic node i index ''HTTP_INVALID_RELATIVE_PATH''
     ''relative_path must stay within the authorized connection origin''"

text \<open>\<^term>\<open>None\<close> when the loop over the inputs runs to its end, otherwise what the function returns.\<close>

fun http_path_checks :: "IrNode \<Rightarrow> (nat \<times> IrInput) list \<Rightarrow> Diagnostic list option" where
  "http_path_checks node [] = None"
| "http_path_checks node ((index, i) # rest) =
     (if iri_Name i \<noteq> ''relative_path'' \<or> iri_Source i \<noteq> SourceLiteral \<or> \<not> HasValue i then http_path_checks node rest
      else case decoded_literal i of
          None \<Rightarrow> Some []
        | Some (v, t) \<Rightarrow>
            (case as_text (Some v) of
               None \<Rightarrow> Some [path_diagnostic node i index]
             | Some path \<Rightarrow> if validRelativePath path then http_path_checks node rest else Some [path_diagnostic node i index]))"

definition validateHTTP :: "IrNode \<Rightarrow> Diagnostic list" where
  "validateHTTP node =
     (case http_path_checks node (enumerate 0 (inputs_of node)) of
        Some diagnostics \<Rightarrow> diagnostics
      | None \<Rightarrow> nonEmptyLiteral node ''connection_ref'')"

definition validateRPC :: "IrNode \<Rightarrow> Diagnostic list" where
  "validateRPC node = nonEmptyLiteral node ''service_ref'' @ nonEmptyLiteral node ''operation''"

section \<open>Contracts\<close>

definition bothSources :: "InputSource list" where
  "bothSources = [SourceLiteral, SourceRef]"

definition literalOnly :: "InputSource list" where
  "literalOnly = [SourceLiteral]"

definition controlRuntime :: "string \<Rightarrow> RuntimeContract" where
  "controlRuntime operationType = \<lparr>rc_Kind = CatalogControl, rc_OperationType = operationType, rc_OperationVersion = 1,
     rc_DefaultExecutionPolicy = \<lparr>epd_MaxAttempts = 0, epd_MaxRecoveries = 0, epd_AttemptTimeoutMS = 0,
       epd_RetryBackoffMS = 0, epd_RetryableErrorCodes = []\<rparr>\<rparr>"

definition taskRuntime :: "string \<Rightarrow> RuntimeContract" where
  "taskRuntime operationType = \<lparr>rc_Kind = CatalogTask, rc_OperationType = operationType, rc_OperationVersion = 1,
     rc_DefaultExecutionPolicy = \<lparr>epd_MaxAttempts = 1, epd_MaxRecoveries = 3, epd_AttemptTimeoutMS = 30000,
       epd_RetryBackoffMS = 1000, epd_RetryableErrorCodes = []\<rparr>\<rparr>"

definition fixedOutputs :: "PortDescription list \<Rightarrow> OutputDescription" where
  "fixedOutputs ports = \<lparr>od_Mode = OutputFixed, od_Fields = ports, od_AllowedDataTypes = [], od_MinFields = 0, od_MaxFields = 0\<rparr>"

text \<open>An input of a description, a constraint of lengths, and an input of an example with a literal.\<close>

definition described ::
  "PortName \<Rightarrow> string \<Rightarrow> bool \<Rightarrow> DataType list \<Rightarrow> InputSource list \<Rightarrow> LiteralConstraints option \<Rightarrow> InputDescription" where
  "described name description required types sources constraints = \<lparr>ind_Name = name, ind_Description = description,
     ind_Required = required, ind_DataTypes = types, ind_Sources = sources, ind_Constraints = constraints\<rparr>"

definition lengths :: "int \<Rightarrow> int \<Rightarrow> LiteralConstraints option" where
  "lengths low high = Some (no_constraints\<lparr>lc_MinLength := low, lc_MaxLength := high\<rparr>)"

definition literal_input :: "PortName \<Rightarrow> DataType \<Rightarrow> raw_message \<Rightarrow> IrInput" where
  "literal_input name t raw = \<lparr>iri_Name = name, iri_DataType = t, iri_Source = SourceLiteral, iri_Value = Some raw,
     iri_RefNode = '''', iri_RefOutput = ''''\<rparr>"

definition startContract :: catalog_contract where
  "startContract = \<lparr>ct_revision = 1,
     ct_description = \<lparr>nd_Type = ''start'', nd_Kind = CatalogControl,
       nd_Description = ''Starts a workflow and exposes the JSON object run input.'',
       nd_Inputs = [], nd_AdditionalInputs = None,
       nd_Outputs = fixedOutputs [\<lparr>pd_Name = ''workflow_input'', pd_Description = ''Workflow run input.'', pd_DataType = TypeObject\<rparr>],
       nd_Examples = [\<lparr>irn_ID = ''start'', irn_Type = ''start'',
         irn_Title = [CHR 0xE5, CHR 0xBC, CHR 0x80, CHR 0xE5, CHR 0xA7, CHR 0x8B], irn_Inputs = Some [],
         irn_Outputs = Some [\<lparr>iro_Name = ''workflow_input'', iro_DataType = TypeObject\<rparr>]\<rparr>]\<rparr>,
     ct_runtime = controlRuntime ''control.start'', ct_validate = None\<rparr>"

definition endContract :: catalog_contract where
  "endContract = \<lparr>ct_revision = 1,
     ct_description = \<lparr>nd_Type = ''end'', nd_Kind = CatalogControl,
       nd_Description = ''Finishes a workflow with one JSON object workflow output.'',
       nd_Inputs = [described ''workflow_output'' ''Workflow run output.'' True [TypeObject] bothSources None],
       nd_AdditionalInputs = None, nd_Outputs = fixedOutputs [],
       nd_Examples = [\<lparr>irn_ID = ''end'', irn_Type = ''end'',
         irn_Title = [CHR 0xE7, CHR 0xBB, CHR 0x93, CHR 0xE6, CHR 0x9D, CHR 0x9F],
         irn_Inputs = Some [literal_input ''workflow_output'' TypeObject ''{}''], irn_Outputs = Some []\<rparr>]\<rparr>,
     ct_runtime = controlRuntime ''control.end'', ct_validate = None\<rparr>"

definition branchContract :: "CatalogLib \<Rightarrow> catalog_contract" where
  "branchContract lib = \<lparr>ct_revision = 1,
     ct_description = \<lparr>nd_Type = ''branch'', nd_Kind = CatalogControl,
       nd_Description = ''Selects exactly one named route using ordered deterministic cases and a default route.'',
       nd_Inputs = [
         described ''value'' ''Value evaluated by branch cases.'' True all_types bothSources None,
         described ''cases'' ''Ordered route cases.'' True [TypeArray] literalOnly
           (Some (no_constraints\<lparr>lc_BranchCases := Some \<lparr>bcc_FirstMatchWins = True, bcc_PathSyntax = ''a.b.c'',
              bcc_Operators = branchOperatorMatrix\<rparr>\<rparr>)),
         described ''default_route'' ''Route selected when no case matches.'' True [TypeString] literalOnly (lengths 1 64)],
       nd_AdditionalInputs = None, nd_Outputs = fixedOutputs [],
       nd_Examples = [\<lparr>irn_ID = ''check_score'', irn_Type = ''branch'',
         irn_Title = [CHR 0xE5, CHR 0x88, CHR 0xA4, CHR 0xE6, CHR 0x96, CHR 0xAD, CHR 0xE5, CHR 0x88, CHR 0x86, CHR 0xE6, CHR 0x95, CHR 0xB0],
         irn_Inputs = Some [
           literal_input ''value'' TypeInteger ''85'',
           literal_input ''cases'' TypeArray
             (''[{'' @ quoted ''operator'' @ '':'' @ quoted ''gte'' @ '','' @ quoted ''route'' @ '':'' @ quoted ''approved''
              @ '','' @ quoted ''value'' @ '':80}]''),
           literal_input ''default_route'' TypeString (marshal_string ''rejected'')],
         irn_Outputs = Some []\<rparr>]\<rparr>,
     ct_runtime = controlRuntime ''control.branch'', ct_validate = Some (validateBranch lib)\<rparr>"

definition example_source :: string where
  "example_source = ''def main(inputs):'' @ [CHR 0x0A] @ ''    return {'result': inputs['order']}''"

definition codeContract :: "CatalogLib \<Rightarrow> catalog_contract" where
  "codeContract lib = \<lparr>ct_revision = 1,
     ct_description = \<lparr>nd_Type = ''code'', nd_Kind = CatalogTask,
       nd_Description = ''Runs a fixed Python main(inputs) function in a network-denied sandbox.'',
       nd_Inputs = [
         described ''source_code'' ''Python source defining main(inputs).'' True [TypeString] literalOnly (lengths 1 262144),
         described ''model_ref'' ''Optional approved model artifact reference.'' False [TypeString] literalOnly (lengths 1 256)],
       nd_AdditionalInputs = Some \<lparr>aid_Description = ''Named JSON data packed into the inputs object.'',
         aid_DataTypes = all_types, aid_Sources = bothSources, aid_ReservedNames = [''source_code'', ''model_ref'']\<rparr>,
       nd_Outputs = \<lparr>od_Mode = OutputAuthorDeclared, od_Fields = [], od_AllowedDataTypes = all_types, od_MinFields = 0,
         od_MaxFields = MaxPortsPerNode\<rparr>,
       nd_Examples = [\<lparr>irn_ID = ''normalize_order'', irn_Type = ''code'',
         irn_Title = [CHR 0xE8, CHR 0xA7, CHR 0x84, CHR 0xE8, CHR 0x8C, CHR 0x83, CHR 0xE5, CHR 0x8C, CHR 0x96, CHR 0xE8, CHR 0xAE, CHR 0xA2, CHR 0xE5, CHR 0x8D, CHR 0x95],
         irn_Inputs = Some [
           literal_input ''source_code'' TypeString (marshal_string example_source),
           literal_input ''order'' TypeObject (''{'' @ quoted ''id'' @ '':'' @ quoted ''O-1'' @ ''}'')],
         irn_Outputs = Some [\<lparr>iro_Name = ''result'', iro_DataType = TypeObject\<rparr>]\<rparr>]\<rparr>,
     ct_runtime = taskRuntime ''task.python'', ct_validate = Some (validateCode lib)\<rparr>"

definition relative_path_pattern :: string where
  "relative_path_pattern = ''^/[^?#]*$''"

definition httpContract :: catalog_contract where
  "httpContract = \<lparr>ct_revision = 1,
     ct_description = \<lparr>nd_Type = ''http'', nd_Kind = CatalogTask,
       nd_Description = ''Calls an authorized project HTTP connection using a relative JSON API path.'',
       nd_Inputs = [
         described ''connection_ref'' ''Authorized project connection reference.'' True [TypeString] literalOnly (lengths 1 256),
         described ''method'' ''HTTP method.'' True [TypeString] literalOnly
           (Some (no_constraints\<lparr>lc_StringEnum := [''GET'', ''POST'', ''PUT'', ''PATCH'', ''DELETE'']\<rparr>)),
         described ''relative_path'' ''Path relative to the authorized connection origin.'' True [TypeString] bothSources
           (Some (no_constraints\<lparr>lc_StringPattern := relative_path_pattern, lc_MaxLength := 4096\<rparr>)),
         described ''query'' ''Query parameters encoded by the executor.'' False [TypeObject] bothSources None,
         described ''headers'' ''Non-protected request headers.'' False [TypeObject] bothSources None,
         described ''body'' ''Optional JSON request body.'' False all_types bothSources None,
         described ''accepted_statuses'' ''Accepted HTTP statuses; defaults to 2xx.'' False [TypeArray] literalOnly
           (Some (no_constraints\<lparr>lc_ArrayItems := Some \<lparr>aic_DataType = TypeInteger, aic_Minimum = Some 100,
              aic_Maximum = Some 599\<rparr>\<rparr>))],
       nd_AdditionalInputs = None,
       nd_Outputs = fixedOutputs [\<lparr>pd_Name = ''response'', pd_Description = ''Status, headers, and parsed JSON body.'', pd_DataType = TypeObject\<rparr>],
       nd_Examples = [\<lparr>irn_ID = ''create_order'', irn_Type = ''http'',
         irn_Title = [CHR 0xE5, CHR 0x88, CHR 0x9B, CHR 0xE5, CHR 0xBB, CHR 0xBA, CHR 0xE8, CHR 0xAE, CHR 0xA2, CHR 0xE5, CHR 0x8D, CHR 0x95],
         irn_Inputs = Some [
           literal_input ''connection_ref'' TypeString (marshal_string ''customer_api''),
           literal_input ''method'' TypeString (marshal_string ''POST''),
           literal_input ''relative_path'' TypeString (marshal_string ''/v1/orders''),
           literal_input ''body'' TypeObject (''{'' @ quoted ''id'' @ '':'' @ quoted ''O-1'' @ ''}'')],
         irn_Outputs = Some [\<lparr>iro_Name = ''response'', iro_DataType = TypeObject\<rparr>]\<rparr>]\<rparr>,
     ct_runtime = taskRuntime ''task.http'', ct_validate = Some validateHTTP\<rparr>"

definition rpcContract :: catalog_contract where
  "rpcContract = \<lparr>ct_revision = 1,
     ct_description = \<lparr>nd_Type = ''rpc'', nd_Kind = CatalogTask,
       nd_Description = ''Calls one authorized operation registered in the project service catalog.'',
       nd_Inputs = [
         described ''service_ref'' ''Authorized service reference.'' True [TypeString] literalOnly (lengths 1 256),
         described ''operation'' ''Registered service operation.'' True [TypeString] literalOnly (lengths 1 256),
         described ''request'' ''Operation request object.'' True [TypeObject] bothSources None],
       nd_AdditionalInputs = None,
       nd_Outputs = fixedOutputs [\<lparr>pd_Name = ''response'', pd_Description = ''Validated operation response.'', pd_DataType = TypeObject\<rparr>],
       nd_Examples = [\<lparr>irn_ID = ''create_invoice'', irn_Type = ''rpc'',
         irn_Title = [CHR 0xE5, CHR 0x88, CHR 0x9B, CHR 0xE5, CHR 0xBB, CHR 0xBA, CHR 0xE5, CHR 0x8F, CHR 0x91, CHR 0xE7, CHR 0xA5, CHR 0xA8],
         irn_Inputs = Some [
           literal_input ''service_ref'' TypeString (marshal_string ''invoice_service''),
           literal_input ''operation'' TypeString (marshal_string ''CreateInvoice''),
           literal_input ''request'' TypeObject ''{}''],
         irn_Outputs = Some [\<lparr>iro_Name = ''response'', iro_DataType = TypeObject\<rparr>]\<rparr>]\<rparr>,
     ct_runtime = taskRuntime ''task.rpc'', ct_validate = Some validateRPC\<rparr>"

definition builtin_contracts :: "CatalogLib \<Rightarrow> catalog_contract list" where
  "builtin_contracts lib = [startContract, endContract, branchContract lib, codeContract lib, httpContract, rpcContract]"

text \<open>A catalog that cannot be built is a panic.\<close>

definition Catalog_BuiltinV1 :: "CatalogLib \<Rightarrow> Catalog result" where
  "Catalog_BuiltinV1 lib =
     (case newCatalog lib ''catalog-v1'' (builtin_contracts lib) of
        Inl e \<Rightarrow> Inl (Panic (error_text e))
      | Inr c \<Rightarrow> Inr c)"

end
