(* ===== verification/Catalog_Properties.thy ===== *)
theory Catalog_Properties
  imports Catalog_Builtins Compiler_Translation
begin

text \<open>
  The built-in catalog beside the compiler and the validator of executable documents. The three of them describe
  the same node types, and two of them check the cases of a branch, each with its own code: the catalog exists and
  agrees with the registry of handlers and with the contract, its examples pass its own checks, and catalog and
  contract accept the same branch cases.
\<close>

section \<open>The catalog exists\<close>

lemma described_names:
  "list_all ValidPortName [''workflow_input'', ''workflow_output'', ''value'', ''cases'', ''default_route'', ''source_code'',
     ''model_ref'', ''connection_ref'', ''method'', ''relative_path'', ''query'', ''headers'', ''body'', ''accepted_statuses'',
     ''response'', ''service_ref'', ''operation'', ''request'']"
  "list_all ValidNodeType [''start'', ''end'', ''branch'', ''code'', ''http'', ''rpc'']"
  by code_simp+

lemmas valid_names [simp] = described_names [unfolded list.pred_inject(2) list.pred_inject(1) simp_thms]

lemmas contract_checks = validateContractDefinition_def Let_def runtime_check_def require_def output_checks_def
  validateTypeAndSourceSet_def pattern_check_def fixedOutputs_def described_def lengths_def no_constraints_def
  controlRuntime_def taskRuntime_def all_types_def bothSources_def literalOnly_def MaxPortsPerNode_def

lemma contracts_sound:
  "validateContractDefinition lib startContract = Inr ()" "validateContractDefinition lib endContract = Inr ()"
  "validateContractDefinition lib (branchContract lib) = Inr ()" "validateContractDefinition lib (codeContract lib) = Inr ()"
  "validateContractDefinition lib rpcContract = Inr ()"
  by (simp_all add: contract_checks startContract_def endContract_def branchContract_def codeContract_def rpcContract_def)

lemma http_sound:
  "lib_regexp_Compile lib relative_path_pattern = Inr re \<Longrightarrow> validateContractDefinition lib httpContract = Inr ()"
  by (simp add: contract_checks httpContract_def)

definition builtin_catalog :: "CatalogLib \<Rightarrow> Catalog" where
  "builtin_catalog lib = \<lparr>cat_revision = ''catalog-v1'',
     cat_contracts = map (\<lambda>v. (nd_Type (ct_description v), v)) (builtin_contracts lib)\<rparr>"

lemma contract_types [simp]:
  "nd_Type (ct_description startContract) = ''start''" "nd_Type (ct_description endContract) = ''end''"
  "nd_Type (ct_description (branchContract lib)) = ''branch''" "nd_Type (ct_description (codeContract lib)) = ''code''"
  "nd_Type (ct_description httpContract) = ''http''" "nd_Type (ct_description rpcContract) = ''rpc''"
  by (simp_all add: startContract_def endContract_def branchContract_def codeContract_def httpContract_def rpcContract_def)

lemma contract_revisions [simp]:
  "ct_revision startContract = 1" "ct_revision endContract = 1" "ct_revision (branchContract lib) = 1"
  "ct_revision (codeContract lib) = 1" "ct_revision httpContract = 1" "ct_revision rpcContract = 1"
  by (simp_all add: startContract_def endContract_def branchContract_def codeContract_def httpContract_def rpcContract_def)

lemma builtin_catalog_new:
  assumes "lib_regexp_Compile lib relative_path_pattern = Inr re"
  shows "Catalog_BuiltinV1 lib = Inr (builtin_catalog lib)"
  using http_sound [OF assms]
  by (simp add: Catalog_BuiltinV1_def newCatalog_def builtin_contracts_def builtin_catalog_def contracts_sound)

lemma described_types: "map nd_Type (Descriptions (builtin_catalog lib)) = [''branch'', ''code'', ''end'', ''http'', ''rpc'', ''start'']"
  by code_simp

lemma handled_types:
  "Registry_NodeTypes (map (\<lambda>h. (h_NodeType h, h)) (builtin_handlers texts)) = [''branch'', ''code'', ''end'', ''http'', ''rpc'', ''start'']"
  by code_simp

lemma handlers_match:
  assumes "map_of (map (\<lambda>h. (h_NodeType h, h)) (builtin_handlers texts)) t = Some h"
  shows "\<exists>r spec. Catalog_RuntimeContract (builtin_catalog lib) t = Some r \<and> handlerMatchesCatalog h r
     \<and> map_of (con_specs (BuiltinV1Contract ParseFile)) (h_Coordinate h) = Some spec \<and> os_Kind spec = h_Kind h"
  using assms unfolding Catalog_RuntimeContract_def builtin_catalog_def builtin_contracts_def
  by (auto simp: builtin_handlers_def handlerMatchesCatalog_def BuiltinV1Contract_def builtin_specs_def
    startContract_def endContract_def branchContract_def codeContract_def httpContract_def rpcContract_def
    controlRuntime_def taskRuntime_def split: if_splits)

lemma simple_examples:
  "map (Catalog_ValidateNode lib (builtin_catalog lib)) (nd_Examples (ct_description startContract)) = [[]]"
  "map (Catalog_ValidateNode lib (builtin_catalog lib)) (nd_Examples (ct_description endContract)) = [[]]"
  "map (Catalog_ValidateNode lib (builtin_catalog lib)) (nd_Examples (ct_description (branchContract lib))) = [[]]"
  "map (Catalog_ValidateNode lib (builtin_catalog lib)) (nd_Examples (ct_description rpcContract)) = [[]]"
  by code_simp+

lemma http_example:
  assumes "lib_regexp_Compile lib relative_path_pattern = Inr re" and "re ''/v1/orders''"
  shows "map (Catalog_ValidateNode lib (builtin_catalog lib)) (nd_Examples (ct_description httpContract)) = [[]]"
proof -
  have "map (Catalog_ValidateNode lib (builtin_catalog lib)) (nd_Examples (ct_description httpContract))
      = [SortDiagnostics (diag_when (case lib_regexp_Compile lib relative_path_pattern of
           Inl e \<Rightarrow> True | Inr MatchString \<Rightarrow> \<not> MatchString ''/v1/orders'')
         (constraint_violation (hd (nd_Examples (ct_description httpContract)))
           (literal_input ''relative_path'' TypeString (marshal_string ''/v1/orders'')) 2
           ''literal string does not match the required pattern''))]"
    by (code_simp, simp)
  then show ?thesis
    using assms by (simp add: SortDiagnostics_def diag_when_def)
qed

lemma code_example:
  assumes "lib_ParseFile lib example_source = Some [PyFunctionDef f]" and "main_entries [PyFunctionDef f] = [f]" and "validMainSignature f"
  shows "map (Catalog_ValidateNode lib (builtin_catalog lib)) (nd_Examples (ct_description (codeContract lib))) = [[]]"
proof -
  have "trim_space_left example_source \<noteq> ''''" "importStatement example_source = []"
    by code_simp+
  then have valid: "ValidateSource (lib_ParseFile lib) example_source = None"
    using assms by (simp add: ValidateSource_def)
  define node where "node = hd (nd_Examples (ct_description (codeContract lib)))"
  have inputs: "inputs_of node = [literal_input ''source_code'' TypeString (marshal_string example_source),
      literal_input ''order'' TypeObject (''{'' @ quoted ''id'' @ '':'' @ quoted ''O-1'' @ ''}'')]"
    by (simp add: node_def codeContract_def inputs_of_def)
  have "validateDescription lib node (ct_description (codeContract lib)) = []" "nonEmptyLiteral node ''source_code'' = []"
    unfolding node_def by code_simp+
  moreover have "parse_text (marshal_string example_source) = Some (JString example_source)" "example_source \<noteq> ''''"
    by code_simp+
  then have "code_source_checks lib node (inputs_of node) = []"
    unfolding inputs by (simp add: valid literal_input_def to_string_def)
  moreover have "irn_Type node = ''code''" "ct_validate (codeContract lib) = Some (validateCode lib)"
    by (simp_all add: node_def codeContract_def)
  ultimately have "Catalog_ValidateNode lib (builtin_catalog lib) node = []"
    by (simp add: Catalog_ValidateNode_def builtin_catalog_def builtin_contracts_def validateCode_def SortDiagnostics_def)
  then show ?thesis
    by (simp add: node_def codeContract_def)
qed

section \<open>One rule for branch cases\<close>

lemma port_patterns: "ValidPortName = portPattern" "ValidRouteName = portPattern"
proof -
  have chars: "is_letter = (\<lambda>c. is_lower c \<or> is_upper c)" "word_char = (\<lambda>c. is_alnum c \<or> c = CHR ''_'')"
    by (auto simp: fun_eq_iff is_letter_def word_char_def is_lower_def is_upper_def is_alnum_def is_decimal_def)
  have "portPattern s = matches_id (\<lambda>c. is_lower c \<or> is_upper c) (\<lambda>c. is_alnum c \<or> c = CHR ''_'') 63 s" for s
    unfolding portPattern_def matches_id_def chars by (cases s) auto
  then show "ValidPortName = portPattern" "ValidRouteName = portPattern"
    by (simp_all add: fun_eq_iff ValidPortName_def ValidRouteName_def)
qed

lemma value_type_dsl: "value_type v = dsl_json_type v"
  by (cases v) (auto simp: mathematicallyIntegral_def split: option.splits)

lemma operator_matrix: "slice_at branchOperatorMatrix t = dslBranchOperators t"
  by (cases t) (simp_all add: branchOperatorMatrix_def slice_at_def)

lemma branch_operators:
  "set branchOperators = {''eq'', ''neq'', ''contains'', ''not_contains'', ''starts_with'', ''ends_with'', ''gt'', ''gte'',
     ''lt'', ''lte'', ''has_key'', ''not_has_key''}"
proof -
  have flat: "branchOperators = [''eq'', ''neq'', ''contains'', ''not_contains'', ''starts_with'', ''ends_with'', ''gt'', ''gte'',
     ''lt'', ''lte'', ''has_key'', ''not_has_key'']"
    by code_simp
  show ?thesis
    unfolding flat list.set by (rule refl)
qed

lemma comparison_rules:
  "validBranchComparison t op w \<and> op \<in> set (slice_at branchOperatorMatrix t) \<longleftrightarrow> validDSLBranchComparison t op (Some w)"
  "validPathComparison op w \<longleftrightarrow> validDSLPathComparison op (Some w)"
  by (auto simp: validBranchComparison_def validDSLBranchComparison_def operator_matrix nestedDataType_def value_type_dsl
    comparison_type_def Let_def validPathComparison_def validDSLPathComparison_def split: DataType.splits)

lemma comparison_operators:
  "validDSLBranchComparison t op w \<Longrightarrow> op \<in> set branchOperators" "validDSLPathComparison op w \<Longrightarrow> op \<in> set branchOperators"
  "op \<in> set branchOperators \<Longrightarrow> op \<noteq> ''''"
proof -
  assume "validDSLBranchComparison t op w"
  then have "op \<in> set (dslBranchOperators t)"
    by (simp add: validDSLBranchComparison_def)
  then show "op \<in> set branchOperators"
    unfolding branch_operators by (cases t) auto
next
  assume "validDSLPathComparison op w"
  then show "op \<in> set branchOperators"
    unfolding validDSLPathComparison_def branch_operators Let_def by (auto split: if_splits)
next
  assume "op \<in> set branchOperators"
  then show "op \<noteq> ''''"
    unfolding branch_operators by auto
qed

lemma text_member:
  "P '''' = False \<Longrightarrow> (case as_text (map_of item k) of None \<Rightarrow> False | Some r \<Rightarrow> P r)
     = (case member_string item k of None \<Rightarrow> False | Some t \<Rightarrow> P t)"
proof (cases "map_of item k")
  case (Some v)
  assume "P '''' = False"
  with Some show ?thesis
    by (cases v) (simp_all add: member_string_def to_string_def)
qed (simp add: member_string_def)

text \<open>What each of the two asks of a case.\<close>

definition sound_case :: "DataType \<Rightarrow> (string \<times> json) list \<Rightarrow> bool" where
  "sound_case t item \<longleftrightarrow> (\<exists>r op w. map_of item ''route'' = Some (JString r) \<and> portPattern r
     \<and> map_of item ''operator'' = Some (JString op) \<and> map_of item ''value'' = Some w
     \<and> (\<forall>(k, v) \<in> set item. k \<in> {''route'', ''path'', ''operator'', ''value''})
     \<and> (case map_of item ''path'' of
          None \<Rightarrow> validDSLBranchComparison t op (Some w)
        | Some v \<Rightarrow> (\<exists>p. v = JString p \<and> validBranchPath p) \<and> t = TypeObject \<and> validDSLPathComparison op (Some w)))"

lemma as_text_Some: "as_text v = Some s \<longleftrightarrow> v = Some (JString s)"
  by (cases v rule: as_text.cases) auto

lemma comparison_fault_None:
  assumes "DataType_Valid t"
  shows "comparison_fault t item op w = None \<longleftrightarrow> (case map_of item ''path'' of
          None \<Rightarrow> validDSLBranchComparison t op (Some w)
        | Some v \<Rightarrow> (\<exists>p. v = JString p \<and> validBranchPath p) \<and> t = TypeObject \<and> validDSLPathComparison op (Some w))"
proof (cases "map_of item ''path''")
  case None
  then show ?thesis
    using assms comparison_rules(1) [of t op w] by (auto simp: comparison_fault_def)
next
  case (Some v)
  have "catalog_validBranchPath = validBranchPath"
    by (simp add: fun_eq_iff catalog_validBranchPath_def validBranchPath_def port_patterns)
  moreover have "(\<exists>p. v = JString p \<and> validBranchPath p) \<longleftrightarrow> (case as_text (Some v) of None \<Rightarrow> False | Some p \<Rightarrow> validBranchPath p)"
    by (cases v) auto
  ultimately show ?thesis
    using Some assms comparison_rules(2) [of op w] by (simp add: comparison_fault_def split: option.splits)
qed

lemma case_fault_None:
  assumes "DataType_Valid t"
  shows "case_fault lib t (JObject item) = None \<longleftrightarrow> sound_case t item"
proof
  assume none: "case_fault lib t (JObject item) = None"
  obtain r where r: "map_of item ''route'' = Some (JString r)" "portPattern r"
    using none by (auto simp: case_fault_def Let_def port_patterns as_text_Some split: option.splits if_splits)
  obtain op where op: "map_of item ''operator'' = Some (JString op)" "op \<in> set branchOperators"
    using none by (auto simp: case_fault_def Let_def as_text_Some split: option.splits if_splits)
  obtain w where w: "map_of item ''value'' = Some w"
    using none by (auto simp: case_fault_def Let_def split: option.splits if_splits)
  have "find (\<lambda>(key, v). key \<notin> {''route'', ''path'', ''operator'', ''value''}) item = None" and "comparison_fault t item op w = None"
    using none r op w by (auto simp: case_fault_def port_patterns operator_text_def split: option.splits)
  then show "sound_case t item"
    using r op w comparison_fault_None [OF assms, of item op w] by (auto simp: sound_case_def find_None_iff)
next
  assume "sound_case t item"
  then obtain r op w where r: "map_of item ''route'' = Some (JString r)" "portPattern r"
      and op: "map_of item ''operator'' = Some (JString op)" and w: "map_of item ''value'' = Some w"
      and "\<forall>(k, v) \<in> set item. k \<in> {''route'', ''path'', ''operator'', ''value''}"
      and comparison: "case map_of item ''path'' of
          None \<Rightarrow> validDSLBranchComparison t op (Some w)
        | Some v \<Rightarrow> (\<exists>p. v = JString p \<and> validBranchPath p) \<and> t = TypeObject \<and> validDSLPathComparison op (Some w)"
    unfolding sound_case_def by blast
  then have "find (\<lambda>(key, v). key \<notin> {''route'', ''path'', ''operator'', ''value''}) item = None"
    by (auto simp: find_None_iff)
  moreover have "op \<in> set branchOperators"
    using comparison comparison_operators by (auto split: option.splits)
  ultimately show "case_fault lib t (JObject item) = None"
    using r op w comparison comparison_fault_None [OF assms, of item op w]
    by (simp add: case_fault_def port_patterns operator_text_def)
qed

lemma validate_case_sound:
  assumes "map_of (entries (dn_Inputs node)) ''value'' = Some b"
  shows "validate_case node i item = [] \<longleftrightarrow> sound_case (ib_DataType b) item"
proof -
  let ?ok = "\<lambda>name P. case as_text (map_of item name) of None \<Rightarrow> False | Some r \<Rightarrow> P r"
  let ?op = "case member_string item ''operator'' of None \<Rightarrow> '''' | Some t \<Rightarrow> t"
  have "validate_case node i item = [] \<longleftrightarrow> ?ok ''route'' portPattern \<and> ?ok ''operator'' (\<lambda>s. s \<noteq> '''')
      \<and> map_of item ''value'' \<noteq> None \<and> (map_of item ''path'' \<noteq> None \<longrightarrow> ?ok ''path'' validBranchPath)
      \<and> (if map_of item ''path'' \<noteq> None then ib_DataType b = TypeObject \<and> validDSLPathComparison ?op (map_of item ''value'')
         else validDSLBranchComparison (ib_DataType b) ?op (map_of item ''value''))
      \<and> (\<forall>(k, v) \<in> set item. k \<in> {''route'', ''path'', ''operator'', ''value''})"
    unfolding validate_case_Nil Let_def
    using text_member [of portPattern item "''route''"] text_member [of "\<lambda>s. s \<noteq> ''''" item "''operator''"]
      text_member [of validBranchPath item "''path''"] assms
    by (simp add: portPattern_def validBranchPath_def)
  moreover have "\<not> validDSLBranchComparison t '''' w" "\<not> validDSLPathComparison '''' w" for t w
    using comparison_operators by blast+
  ultimately show ?thesis
    by (auto simp: sound_case_def as_text_Some member_string_def to_string_def split: option.splits if_splits)
qed

section \<open>Properties\<close>

text \<open>C22: The built-in catalog exists and fits the other components. With a regular-expression library that compiles
  the one pattern the catalog uses, building the catalog does not panic; it describes exactly the node types that the
  compiler's registry handles; for each of them the handler matches the runtime contract of the catalog, and the
  contract of executable documents knows its operation, of the same kind; and every example the catalog publishes
  passes the catalog's own validation, given that the pattern means what its syntax says and that the Python parser
  reads the example's source as one function main(inputs).\<close>

theorem builtin_catalog_agrees:
  assumes "lib_regexp_Compile lib relative_path_pattern = Inr re"
    and "\<And>t. re t \<longleftrightarrow> take 1 t = ''/'' \<and> CHR ''?'' \<notin> set t \<and> CHR ''#'' \<notin> set t"
    and "lib_ParseFile lib example_source = Some [PyFunctionDef f]" and "pf_Name f = ''main''" and "validMainSignature f"
  shows "\<exists>c registry. Catalog_BuiltinV1 lib = Inr c \<and> BuiltinRegistry texts = Inr registry
    \<and> map nd_Type (Descriptions c) = Registry_NodeTypes registry
    \<and> (\<forall>t h. Registry_Handler registry t = Some h \<longrightarrow>
         (\<exists>r spec. Catalog_RuntimeContract c t = Some r \<and> handlerMatchesCatalog h r
            \<and> map_of (con_specs (BuiltinV1Contract ParseFile)) (h_Coordinate h) = Some spec \<and> os_Kind spec = h_Kind h))
    \<and> (\<forall>d \<in> set (Descriptions c). \<forall>n \<in> set (nd_Examples d). Catalog_ValidateNode lib c n = [])"
proof (intro exI conjI)
  show "Catalog_BuiltinV1 lib = Inr (builtin_catalog lib)"
    by (rule builtin_catalog_new [OF assms(1)])
  show registry: "BuiltinRegistry texts = Inr (map (\<lambda>h. (h_NodeType h, h)) (builtin_handlers texts))"
    by (rule builtin_registry)
  show "map nd_Type (Descriptions (builtin_catalog lib)) = Registry_NodeTypes (map (\<lambda>h. (h_NodeType h, h)) (builtin_handlers texts))"
    by (simp add: described_types handled_types)
  show "\<forall>t h. Registry_Handler (map (\<lambda>h. (h_NodeType h, h)) (builtin_handlers texts)) t = Some h \<longrightarrow>
         (\<exists>r spec. Catalog_RuntimeContract (builtin_catalog lib) t = Some r \<and> handlerMatchesCatalog h r
            \<and> map_of (con_specs (BuiltinV1Contract ParseFile)) (h_Coordinate h) = Some spec \<and> os_Kind spec = h_Kind h)"
    using handlers_match unfolding Registry_Handler_def by blast
  have "re ''/v1/orders''"
    by (simp add: assms(2))
  then have "\<forall>v \<in> set (builtin_contracts lib).
      map (Catalog_ValidateNode lib (builtin_catalog lib)) (nd_Examples (ct_description v)) = [[]]"
    using simple_examples [of lib] http_example [OF assms(1)] code_example [OF assms(3) _ assms(5)] assms(4)
    by (simp add: builtin_contracts_def)
  then have "\<forall>v \<in> set (builtin_contracts lib). \<forall>n \<in> set (nd_Examples (ct_description v)).
      Catalog_ValidateNode lib (builtin_catalog lib) n = []"
    by (metis imageI list.set_map empty_iff list.set(1) list.set(2) insert_iff)
  then show "\<forall>d \<in> set (Descriptions (builtin_catalog lib)). \<forall>n \<in> set (nd_Examples d).
      Catalog_ValidateNode lib (builtin_catalog lib) n = []"
    by (simp add: Descriptions_def builtin_catalog_def)
qed

definition sample_main :: py_FunctionDef where
  "sample_main = \<lparr>pf_Name = ''main'', pf_Args = Some \<lparr>pa_PosOnly = [], pa_Args = [''inputs''], pa_Vararg = None,
     pa_KwOnly = [], pa_Kwarg = None, pa_Defaults = []\<rparr>\<rparr>"

definition sample_lib :: CatalogLib where
  "sample_lib = \<lparr>lib_quote = quoted,
     lib_regexp_Compile = (\<lambda>p. if p = relative_path_pattern
       then Inr (\<lambda>t. take 1 t = ''/'' \<and> CHR ''?'' \<notin> set t \<and> CHR ''#'' \<notin> set t) else Inl ''unsupported pattern''),
     lib_ParseFile = (\<lambda>source. if source = example_source then Some [PyFunctionDef sample_main] else None)\<rparr>"

theorem builtin_catalog_agrees_witness:
  "\<exists>c registry. Catalog_BuiltinV1 sample_lib = Inr c \<and> BuiltinRegistry \<lparr>jt_syntax = id, jt_quote = quoted\<rparr> = Inr registry
    \<and> map nd_Type (Descriptions c) = Registry_NodeTypes registry
    \<and> (\<forall>d \<in> set (Descriptions c). \<forall>n \<in> set (nd_Examples d). Catalog_ValidateNode sample_lib c n = [])"
proof -
  have "lib_regexp_Compile sample_lib relative_path_pattern
      = Inr (\<lambda>t. take 1 t = ''/'' \<and> CHR ''?'' \<notin> set t \<and> CHR ''#'' \<notin> set t)"
    "lib_ParseFile sample_lib example_source = Some [PyFunctionDef sample_main]" "pf_Name sample_main = ''main''"
    "validMainSignature sample_main"
    by (simp_all add: sample_lib_def sample_main_def validMainSignature_def)
  from builtin_catalog_agrees [OF this(1) refl this(2-4), of "\<lparr>jt_syntax = id, jt_quote = quoted\<rparr>" "\<lambda>_. None"]
  show ?thesis
    by blast
qed

text \<open>C21: Catalog and contract have one rule for branch cases. For a branch whose value has a data type, the catalog's
  check of an authored case finds no fault in exactly the cases in which the contract of executable documents, with code
  of its own, reports no issue: the same routes, operators, comparison values, paths and field names.\<close>

theorem branch_case_rules:
  assumes "map_of (entries (dn_Inputs node)) ''value'' = Some b" and "DataType_Valid (ib_DataType b)"
  shows "case_fault lib (ib_DataType b) (JObject item) = None \<longleftrightarrow> validate_case node i item = []"
  using case_fault_None [OF assms(2)] validate_case_sound [OF assms(1)] by simp

definition sample_branch :: Node where
  "sample_branch = \<lparr>dn_ID = ''b'', dn_Kind = KindControl,
     dn_Operation = \<lparr>op_Type = ''control.branch'', op_Version = 1, op_Config = Some []\<rparr>,
     dn_Inputs = Some [(''value'', \<lparr>ib_Kind = BindingLiteral, ib_DataType = TypeInteger, ib_Value = ''85'', ib_Output = None\<rparr>)],
     dn_Outputs = Some [], dn_ExecutionPolicy = zero_policy\<rparr>"

theorem branch_case_rules_witness:
  "validate_case sample_branch 0 [(''route'', JString ''ok''), (''operator'', JString ''gte''), (''value'', JNumber ''80'')] = []
   \<and> validate_case sample_branch 0 [(''route'', JString ''ok''), (''operator'', JString ''contains''), (''value'', JNumber ''80'')] \<noteq> []"
proof -
  have rules: "case_fault sample_lib TypeInteger (JObject item) = None \<longleftrightarrow> validate_case sample_branch 0 item = []" for item
    using branch_case_rules [of sample_branch "\<lparr>ib_Kind = BindingLiteral, ib_DataType = TypeInteger, ib_Value = ''85'', ib_Output = None\<rparr>"
      sample_lib item 0] by (simp add: sample_branch_def entries_def)
  have "case_fault sample_lib TypeInteger (JObject [(''route'', JString ''ok''), (''operator'', JString ''gte''), (''value'', JNumber ''80'')]) = None"
    "case_fault sample_lib TypeInteger (JObject [(''route'', JString ''ok''), (''operator'', JString ''contains''), (''value'', JNumber ''80'')]) \<noteq> None"
    by code_simp+
  then show ?thesis
    unfolding rules by (rule conjI)
qed

end
