(* ===== verification/Branch_Accept.thy ===== *)
theory Branch_Accept
  imports Engine_Flow
begin

text \<open>
  What validation of a branch promises to its evaluation. The validator reads the cases of a branch as maps of
  raw values, the engine decodes them into structs; on the cases it accepts, both see the same operator,
  comparison value and path. A comparison that the validator accepts for the declared type of the branch value
  is then always defined, so that only the look-up of a path can fail a branch whose value has its declared type.
\<close>

section \<open>Two readings of a case\<close>

lemma branch_members_append:
  "branch_members (ms @ ns) c = Option.bind (branch_members ms c) (branch_members ns)"
  by (induction ms arbitrary: c) (auto split: option.splits)

lemma branch_member_cases:
  assumes "branch_member (k, v) c = Some c'" and "k \<in> {''route'', ''path'', ''operator'', ''value''}"
  obtains (route) s where "k = ''route''" "c' = c\<lparr>bc_Route := s\<rparr>"
    | (path) s where "k = ''path''" "unmarshal_string v (bc_Path c) = Some s" "c' = c\<lparr>bc_Path := s\<rparr>"
    | (operator) s where "k = ''operator''" "unmarshal_string v (bc_Operator c) = Some s" "c' = c\<lparr>bc_Operator := s\<rparr>"
    | (compared) "k = ''value''" "c' = c\<lparr>bc_Value := Some v\<rparr>"
  using assms by (auto simp: branch_member_def field_names)

lemma branch_members_fields:
  assumes "branch_members ms c = Some c'" and "fst ` set ms \<subseteq> {''route'', ''path'', ''operator'', ''value''}"
  shows "map_of (rev ms) ''operator'' = Some (JString t) \<Longrightarrow> bc_Operator c' = t"
    and "map_of (rev ms) ''value'' = Some v \<Longrightarrow> bc_Value c' = Some v"
    and "map_of (rev ms) ''path'' = None \<Longrightarrow> bc_Path c' = bc_Path c"
    and "map_of (rev ms) ''path'' = Some (JString p) \<Longrightarrow> bc_Path c' = p"
proof -
  have "(\<forall>t. map_of (rev ms) ''operator'' = Some (JString t) \<longrightarrow> bc_Operator c' = t)
      \<and> (\<forall>v. map_of (rev ms) ''value'' = Some v \<longrightarrow> bc_Value c' = Some v)
      \<and> (map_of (rev ms) ''path'' = None \<longrightarrow> bc_Path c' = bc_Path c)
      \<and> (\<forall>p. map_of (rev ms) ''path'' = Some (JString p) \<longrightarrow> bc_Path c' = p)"
    using assms
  proof (induction ms arbitrary: c' rule: rev_induct)
    case (snoc m ms)
    obtain k w where m: "m = (k, w)"
      by (cases m)
    obtain d where d: "branch_members ms c = Some d" "branch_member (k, w) d = Some c'"
      using snoc.prems(1) by (auto simp: branch_members_append m split: bind_splits option.splits)
    have IH: "\<And>t. map_of (rev ms) ''operator'' = Some (JString t) \<Longrightarrow> bc_Operator d = t"
        "\<And>v. map_of (rev ms) ''value'' = Some v \<Longrightarrow> bc_Value d = Some v"
        "map_of (rev ms) ''path'' = None \<Longrightarrow> bc_Path d = bc_Path c"
        "\<And>p. map_of (rev ms) ''path'' = Some (JString p) \<Longrightarrow> bc_Path d = p"
      using snoc.IH [OF d(1)] snoc.prems(2) by auto
    have "k \<in> {''route'', ''path'', ''operator'', ''value''}"
      using snoc.prems(2) by (auto simp: m)
    with d(2) show ?case
    proof (cases rule: branch_member_cases)
      case (path s)
      then show ?thesis
        using IH by (cases w) (auto simp: m)
    next
      case (operator s)
      then show ?thesis
        using IH by (cases w) (auto simp: m)
    qed (use IH in \<open>auto simp: m\<close>)
  qed simp
  then show "map_of (rev ms) ''operator'' = Some (JString t) \<Longrightarrow> bc_Operator c' = t"
    and "map_of (rev ms) ''value'' = Some v \<Longrightarrow> bc_Value c' = Some v"
    and "map_of (rev ms) ''path'' = None \<Longrightarrow> bc_Path c' = bc_Path c"
    and "map_of (rev ms) ''path'' = Some (JString p) \<Longrightarrow> bc_Path c' = p"
    by blast+
qed

text \<open>What acceptance of a case without a path says of it.\<close>

definition value_binding :: "Node \<Rightarrow> InputBinding" where
  "value_binding node = (case map_of (entries (dn_Inputs node)) ''value'' of None \<Rightarrow> zero_InputBinding | Some b \<Rightarrow> b)"

lemma validate_case_parts:
  assumes "validate_case node i branch_case = []"
  obtains op w where "map_of branch_case ''operator'' = Some (JString op)" "map_of branch_case ''value'' = Some w"
    "map_of branch_case ''path'' = None \<Longrightarrow> validDSLBranchComparison (ib_DataType (value_binding node)) op (Some w)"
    "map_of branch_case ''path'' \<noteq> None \<Longrightarrow> \<exists>p. map_of branch_case ''path'' = Some (JString p) \<and> p \<noteq> ''''"
proof -
  have op: "case member_string branch_case ''operator'' of None \<Rightarrow> False | Some t \<Rightarrow> t \<noteq> ''''"
    using assms unfolding validate_case_Nil by blast
  then obtain v t where v: "map_of branch_case ''operator'' = Some v" "unmarshal_string v '''' = Some t" "t \<noteq> ''''"
    by (auto simp: member_string_def to_string_def split: option.splits bind_splits)
  have v': "v = JString t"
    using v(2,3) by (cases v) auto
  have shown: "(case member_string branch_case ''operator'' of None \<Rightarrow> '''' | Some t \<Rightarrow> t) = t"
    by (simp add: member_string_def v(1) v' to_string_def)
  obtain w where w: "map_of branch_case ''value'' = Some w"
    using assms unfolding validate_case_Nil by blast
  have typed: "validDSLBranchComparison (ib_DataType (value_binding node)) t (Some w)" if "map_of branch_case ''path'' = None"
    using assms that unfolding validate_case_Nil Let_def shown w value_binding_def by simp
  have path: "\<exists>p. map_of branch_case ''path'' = Some (JString p) \<and> p \<noteq> ''''" if "map_of branch_case ''path'' \<noteq> None"
  proof -
    have "case member_string branch_case ''path'' of None \<Rightarrow> False | Some p \<Rightarrow> validBranchPath p"
      using assms that unfolding validate_case_Nil by blast
    then obtain u p where "map_of branch_case ''path'' = Some u" "unmarshal_string u '''' = Some p" "p \<noteq> ''''"
      by (auto simp: member_string_def to_string_def validBranchPath_def split: option.splits bind_splits)
    then show ?thesis
      by (cases u) auto
  qed
  show ?thesis
    by (rule that [OF _ w typed path]) (simp_all add: v(1) v')
qed

text \<open>The case the engine decodes from an accepted case.\<close>

lemma accepted_case:
  assumes "to_raw_map u = Some m" and "validate_case node i m = []" and "unmarshal_case u = Some c"
  shows "\<exists>w. bc_Value c = Some w \<and>
    (bc_Path c = '''' \<longrightarrow> validDSLBranchComparison (ib_DataType (value_binding node)) (bc_Operator c) (Some w))"
proof -
  obtain op w where parts: "map_of m ''operator'' = Some (JString op)" "map_of m ''value'' = Some w"
    "map_of m ''path'' = None \<Longrightarrow> validDSLBranchComparison (ib_DataType (value_binding node)) op (Some w)"
    "map_of m ''path'' \<noteq> None \<Longrightarrow> \<exists>p. map_of m ''path'' = Some (JString p) \<and> p \<noteq> ''''"
    using validate_case_parts [OF assms(2)] by metis
  then obtain ms where u: "u = JObject ms" "m = dedup_members ms"
    using assms(1) by (cases u) auto
  have keys: "fst ` set ms \<subseteq> {''route'', ''path'', ''operator'', ''value''}"
  proof
    fix k assume "k \<in> fst ` set ms"
    then have "map_of m k \<noteq> None"
      by (auto simp: u map_of_dedup_members map_of_eq_None_iff)
    then have "k \<in> fst ` set m"
      unfolding map_of_eq_None_iff by simp
    then show "k \<in> {''route'', ''path'', ''operator'', ''value''}"
      by (rule subsetD [OF validate_case_route(2) [OF assms(2)]])
  qed
  have c: "branch_members ms zero_branchCase = Some c"
    using assms(3) by (simp add: u)
  note fields = branch_members_fields [OF c keys]
  have read: "bc_Operator c = op" "bc_Value c = Some w"
    using fields(1) [of op] fields(2) [of w] parts(1,2) by (simp_all add: u map_of_dedup_members)
  have nopath: "map_of m ''path'' = None" if empty: "bc_Path c = ''''"
  proof (rule ccontr)
    assume "map_of m ''path'' \<noteq> None"
    then obtain p where "map_of m ''path'' = Some (JString p)" "p \<noteq> ''''"
      using parts(4) by blast
    then show False
      using fields(4) [of p] empty by (simp add: u map_of_dedup_members)
  qed
  show ?thesis
    using parts(3) [OF nopath] by (intro exI [of _ w]) (simp add: read)
qed

section \<open>Comparisons the validator accepts are defined\<close>

lemma json_type_to_any [simp]: "dsl_json_type (to_any v) = dsl_json_type v"
  by (cases v) auto

lemma json_type_rational:
  "decoded v \<Longrightarrow> dsl_json_type v = Some t \<Longrightarrow> t = TypeInteger \<or> t = TypeNumber \<Longrightarrow> \<exists>q. rational v = Some q"
  by (cases v) auto

lemma array_contains_defined: "list_all decoded items \<Longrightarrow> decoded e \<Longrightarrow> \<exists>b. array_contains items e = Inr b"
  by (induction items) (auto simp: equalJSON_meaning)

lemma json_type_shapes:
  "dsl_json_type v = Some TypeString \<Longrightarrow> \<exists>x. v = JString x"
  "dsl_json_type v = Some TypeArray \<Longrightarrow> \<exists>x. v = JArray x"
  "dsl_json_type v = Some TypeObject \<Longrightarrow> \<exists>x. v = JObject x"
  by (cases v; simp split: option.splits if_splits)+

lemma equality_defined:
  assumes "decoded a" and "decoded e" and "comparableKinds a e" and "op = ''eq'' \<or> op = ''neq''"
  shows "\<exists>b. compareBranch a op e = Inr b"
  using assms by (auto simp: compareBranch_def equalJSON_meaning)

lemma comparable_types:
  assumes "decoded a" and "decoded e" and "dsl_json_type a = Some s" and "dsl_json_type e = Some t"
    and "s = t \<or> {s, t} \<subseteq> {TypeInteger, TypeNumber}"
  shows "comparableKinds a e"
proof (cases "s \<in> {TypeInteger, TypeNumber}")
  case True
  then obtain p q where "rational a = Some p" "rational e = Some q"
    using assms json_type_rational [OF assms(1,3)] json_type_rational [OF assms(2,4)] by auto
  then show ?thesis
    by (simp add: comparableKinds_def)
next
  case False
  then show ?thesis
    using assms by (cases a; cases e) (auto simp: comparableKinds_def split: option.splits if_splits)
qed

lemma compare_defined:
  assumes a: "decoded a" "dsl_json_type a = Some s" "compatible s t" and e: "decoded e"
    and valid: "validDSLBranchComparison t op (Some e)"
  shows "\<exists>b. compareBranch a op e = Inr b"
proof -
  have op: "op \<in> set (dslBranchOperators t)"
    using valid by (simp add: validDSLBranchComparison_def)
  have s: "s = t \<or> (s = TypeInteger \<and> t = TypeNumber)"
    using a(3) by (auto simp: compatible_def)
  show ?thesis
  proof (cases "t = TypeInteger \<or> t = TypeNumber")
    case True
    have et: "dsl_json_type e = Some TypeInteger \<or> dsl_json_type e = Some TypeNumber"
      using valid True by (auto simp: validDSLBranchComparison_def comparison_type_def)
    obtain p q where pq: "rational a = Some p" "rational e = Some q"
      using True s et json_type_rational [OF a(1,2)] json_type_rational [OF e] by blast
    then have kinds: "comparableKinds a e"
      by (simp add: comparableKinds_def)
    show ?thesis
    proof (cases "op = ''eq'' \<or> op = ''neq''")
      case equal: True
      show ?thesis
        by (rule equality_defined [OF a(1) e kinds equal])
    next
      case other: False
      have "op \<in> {''gt'', ''gte'', ''lt'', ''lte''}"
        using op True other by auto
      then show ?thesis
        unfolding compareBranch_def using other pq by auto
    qed
  next
    case False
    then have st: "s = t"
      using s by simp
    show ?thesis
    proof (cases "op = ''eq'' \<or> op = ''neq''")
      case True
      have "dsl_json_type e = Some t"
        using valid True False by (cases t) (auto simp: validDSLBranchComparison_def comparison_type_def)
      then show ?thesis
        using comparable_types [OF a(1) e a(2)] st equality_defined [OF a(1) e _ True] by blast
    next
      case other: False
      show ?thesis
      proof (cases t)
        case TypeString
        then have "dsl_json_type e = Some TypeString"
          using valid by (simp add: validDSLBranchComparison_def comparison_type_def)
        then obtain x y where "a = JString x" "e = JString y"
          using a(2) st TypeString json_type_shapes(1) by blast
        then show ?thesis
          using op other TypeString by (auto simp: compareBranch_def branch_contains_def)
      next
        case TypeArray
        then obtain items where items: "a = JArray items"
          using a(2) st json_type_shapes(2) by blast
        moreover obtain b where "array_contains items e = Inr b"
          using array_contains_defined [of items e] a(1) e items by auto
        moreover have "op = ''contains'' \<or> op = ''not_contains''"
          using op other TypeArray by auto
        ultimately show ?thesis
          by (auto simp: compareBranch_def branch_contains_def)
      next
        case TypeObject
        then have "dsl_json_type e = Some TypeString"
          using op other valid by (auto simp: validDSLBranchComparison_def comparison_type_def)
        then obtain x y where "a = JObject x" "e = JString y"
          using a(2) st TypeObject json_type_shapes(1,3) by blast
        moreover have "op = ''has_key'' \<or> op = ''not_has_key''"
          using op other TypeObject by auto
        ultimately show ?thesis
          by (elim disjE) (simp_all add: compareBranch_def del: not_None_eq)
      qed (use op other False in auto)
    qed
  qed
qed

section \<open>Evaluation of an accepted branch\<close>

text \<open>The validator reads a comparison value as it is written, the engine decodes it.\<close>

lemma comparison_to_any [simp]: "validDSLBranchComparison t op (Some (to_any w)) = validDSLBranchComparison t op (Some w)"
  by (simp add: validDSLBranchComparison_def comparison_type_def)

lemma unmarshal_case_list_nth:
  "unmarshal_case_list vs = Some cs \<Longrightarrow> length cs = length vs \<and> (\<forall>k < length vs. unmarshal_case (vs ! k) = Some (cs ! k))"
  by (induction vs arbitrary: cs) (auto simp: nth_Cons split: option.splits nat.splits)

text \<open>Every case the engine decodes has a comparison value, of an accepted type unless the case has a path.\<close>

lemma accepted_cases:
  assumes "validateBranchConfig node = []" and "unmarshal_cases (config_raw node ''cases'') = Some cs" and "c \<in> set cs"
  shows "\<exists>w. bc_Value c = Some w \<and>
    (bc_Path c = '''' \<longrightarrow> validDSLBranchComparison (ib_DataType (value_binding node)) (bc_Operator c) (Some w))"
proof -
  obtain r rs where r: "decode_config node ''cases'' (to_slice to_raw_map) = Some (r # rs)" "validate_cases node 0 (r # rs) = []"
    using assms(1) by (auto simp: validateBranchConfig_def split: option.splits list.splits)
  then obtain raw w where raw: "config_raw node ''cases'' = raw" "parse_text raw = Some w" "to_slice to_raw_map w = Some (r # rs)"
    by (auto simp: decode_config_def config_raw_def split: option.splits bind_splits)
  then obtain vs where vs: "w = JArray vs" "map to_raw_map vs = map Some (r # rs)"
    by (cases w) (auto simp: those_Some)
  then have list: "unmarshal_case_list vs = Some cs"
    using assms(2) raw by (simp add: unmarshal_cases_def)
  obtain k where k: "k < length vs" "c = cs ! k"
    using assms(3) unmarshal_case_list_nth [OF list] by (auto simp: in_set_conv_nth)
  have "unmarshal_case (vs ! k) = Some c"
    using unmarshal_case_list_nth [OF list] k by simp
  moreover have "to_raw_map (vs ! k) = Some ((r # rs) ! k)"
    using arg_cong [where f = "\<lambda>xs. xs ! k", OF vs(2)] arg_cong [where f = length, OF vs(2)] k(1)
    by (simp add: nth_map del: list.map)
  moreover have "(r # rs) ! k \<in> set (r # rs)"
    using arg_cong [where f = length, OF vs(2)] k(1) by (intro nth_mem) simp
  ultimately show ?thesis
    using accepted_case validate_cases_Nil [OF r(2)] by metis
qed

text \<open>
  A value of its declared type, with numbers that fit, gets through every case without a path: the first error,
  if there is one, is that of a case with a path.
\<close>

lemma evaluate_cases_paths:
  assumes v: "decoded v" "dsl_json_type v = Some s" "compatible s t"
    and cs: "\<And>c. c \<in> set cs \<Longrightarrow> \<exists>w. bc_Value c = Some w \<and> decoded (to_any w)
      \<and> (bc_Path c = '''' \<longrightarrow> validDSLBranchComparison t (bc_Operator c) (Some w))"
    and fails: "evaluate_cases node v fallback i cs = Inl e"
  shows "\<exists>c \<in> set cs. bc_Path c \<noteq> ''''"
  using cs fails
proof (induction cs arbitrary: i)
  case (Cons c cs)
  show ?case
  proof (cases "bc_Path c = ''''")
    case True
    obtain w where w: "bc_Value c = Some w" "decoded (to_any w)" "validDSLBranchComparison t (bc_Operator c) (Some w)"
      using Cons.prems(1) [of c] True by auto
    obtain b where b: "compareBranch v (bc_Operator c) (to_any w) = Inr b"
      using compare_defined [OF v w(2)] w(3) by auto
    have "evaluate_cases node v fallback (i + 1) cs = Inl e"
      using Cons.prems(2) True w(1) b by (auto split: if_splits)
    then show ?thesis
      using Cons.IH Cons.prems(1) by auto
  qed simp
qed simp

lemma evaluateBranch_paths:
  assumes "validateBranchConfig node = []" and cases: "unmarshal_cases (config_raw node ''cases'') = Some cs"
    and raw: "decodeJSON raw = Some v" "decoded v" "dsl_json_type v = Some s" "compatible s (ib_DataType (value_binding node))"
    and numbers: "\<forall>c \<in> set cs. \<forall>w. bc_Value c = Some w \<longrightarrow> rational_literals w"
    and fails: "evaluateBranch node raw = Inl e"
  shows "\<exists>c \<in> set cs. bc_Path c \<noteq> ''''"
proof -
  have "case decode_config node ''default_route'' to_string of None \<Rightarrow> False | Some t \<Rightarrow> portPattern t"
    using assms(1) by (auto simp: validateBranchConfig_def issue_when_def split: option.splits if_splits)
  then obtain fallback where
      "Option.bind (parse_text (config_raw node ''default_route'')) (\<lambda>v. unmarshal_string v '''') = Some fallback"
    by (auto simp: decode_config_def config_raw_def to_string_def [abs_def] split: option.splits)
  then have "evaluate_cases node v fallback 0 cs = Inl e"
    using fails cases raw(1) by (simp add: evaluateBranch_def)
  moreover have "\<exists>w. bc_Value c = Some w \<and> decoded (to_any w)
      \<and> (bc_Path c = '''' \<longrightarrow> validDSLBranchComparison (ib_DataType (value_binding node)) (bc_Operator c) (Some w))"
    if "c \<in> set cs" for c
    using accepted_cases [OF assms(1) cases that] numbers that decoded_to_any by blast
  ultimately show ?thesis
    using evaluate_cases_paths [OF raw(2,3,4)] by metis
qed

end
