(* ===== verification/Compiled_Runs.thy ===== *)
theory Compiled_Runs
  imports Engine_Flow Compiler_Translation
begin

text \<open>
  From the compiler to the engine: the engine runs a copy of the compiled document that went through
  \<^verbatim>\<open>encoding/json\<close>. The copy of a valid document keeps its graph and its references, and with them the
  safety of its bindings.
\<close>

section \<open>Identifiers survive a copy\<close>

definition ascii :: "string \<Rightarrow> bool" where
  "ascii s = list_all (\<lambda>c. c < CHR 0x80) s"

lemma sanitize_ascii: "ascii s \<Longrightarrow> length s \<le> fuel \<Longrightarrow> sanitize_bytes fuel s = s"
proof (induction fuel arbitrary: s)
  case (Suc fuel)
  then show ?case
    by (cases s) (simp_all add: ascii_def char_below)
qed simp

lemma clone_ascii: "ascii s \<Longrightarrow> clone_string s = s"
  by (simp add: clone_string_def sanitize_ascii)

lemma char_less_trans: "c \<le> d \<Longrightarrow> d < CHR 0x80 \<Longrightarrow> c < CHR 0x80"
  by (rule order.strict_trans1)

lemma pattern_ascii:
  "nodeIDPattern s \<Longrightarrow> ascii s" "edgeIDPattern s \<Longrightarrow> ascii s" "portPattern s \<Longrightarrow> ascii s"
proof -
  have hex: "lower_hex c \<Longrightarrow> c < CHR 0x80" for c
    by (auto simp: lower_hex_def less_eq_char_def less_char_def)
  have id: "execution_id pre s \<Longrightarrow> ascii pre \<Longrightarrow> ascii s" for pre
  proof -
    assume "execution_id pre s" "ascii pre"
    then have "list_all (\<lambda>c. c < CHR 0x80) (take 3 s @ drop 3 s)"
      unfolding list_all_append using hex by (auto simp: execution_id_def ascii_def list_all_iff)
    then show ?thesis
      by (simp add: ascii_def)
  qed
  show "nodeIDPattern s \<Longrightarrow> ascii s" "edgeIDPattern s \<Longrightarrow> ascii s"
    using id by (simp_all add: nodeIDPattern_def edgeIDPattern_def ascii_def)
  have "is_letter c \<Longrightarrow> c < CHR 0x80" "word_char c \<Longrightarrow> c < CHR 0x80" for c
    by (auto simp: is_letter_def word_char_def less_eq_char_def less_char_def)
  then show "portPattern s \<Longrightarrow> ascii s"
    by (auto simp: portPattern_def ascii_def list_all_iff split: list.splits)
qed

section \<open>The copy of a valid document\<close>

lemma doc_id_ascii: "wf_document d \<Longrightarrow> v \<in> doc_ids d \<Longrightarrow> ascii v"
  using pattern_ascii(1) by (auto simp: wf_document_def doc_nodes_ok_def doc_ids_def)

lemma clone_edge_same:
  assumes wf: "wf_document d" and e: "e \<in> set (doc_Edges d)"
  shows "clone_edge e = e"
proof -
  obtain n where n: "node_of d (edge_SourceNodeID e) = Some n" "activation_issues n e = []"
      and ids: "edgeIDPattern (edge_ID e)" "edge_TargetNodeID e \<in> doc_ids d"
    using wf e unfolding wf_document_def doc_edges_ok_def by blast
  have "edge_SourceNodeID e \<in> doc_ids d"
    using n(1) node_of_ids [of d] by (metis option.distinct(1))
  then have "clone_string (edge_SourceNodeID e) = edge_SourceNodeID e" "clone_string (edge_TargetNodeID e) = edge_TargetNodeID e"
      "clone_string (edge_ID e) = edge_ID e"
    using ids pattern_ascii(2) doc_id_ascii [OF wf] by (simp_all add: clone_ascii)
  moreover have "clone_activation_kind (act_Kind (edge_Activation e)) = act_Kind (edge_Activation e)"
      "clone_string (act_Route (edge_Activation e)) = act_Route (edge_Activation e)"
    using n(2) pattern_ascii(3) by (auto simp: activation_issues_def Let_def clone_ascii ascii_def split: if_splits)
  ultimately show ?thesis
    by (simp add: clone_edge_def)
qed

lemma clone_entries_from:
  "clone_entries f es acc = Some r \<Longrightarrow> (k', w) \<in> set r \<Longrightarrow> (k', w) \<in> set acc \<or> (\<exists>(k, v) \<in> set es. f v = Some w)"
proof (induction es arbitrary: acc)
  case (Cons a es)
  obtain k v where a: "a = (k, v)"
    by (cases a)
  obtain u where u: "f v = Some u" "clone_entries f es (AList.update (clone_string k) u acc) = Some r"
    using Cons.prems(1) by (auto simp: a split: option.splits)
  then show ?case
    using Cons.IH [OF u(2) Cons.prems(2)] set_update_subset [of "clone_string k" u acc] by (auto simp: a)
qed simp

lemma clone_gomap_from:
  "clone_gomap f m = Some m' \<Longrightarrow> (k', w) \<in> set (entries m') \<Longrightarrow> \<exists>(k, v) \<in> set (entries m). f v = Some w"
  using clone_entries_from [of f _ "[]" _ k' w]
  by (fastforce simp: clone_gomap_def entries_def split: option.splits)

lemma clone_node_parts:
  assumes "clone_node n = Some m"
  shows "dn_ID m = clone_string (dn_ID n)" and "op_Type (dn_Operation m) = clone_string (op_Type (dn_Operation n))"
    and "clone_gomap clone_binding (dn_Inputs n) = Some (dn_Inputs m)"
  using assms by (auto simp: clone_node_def split: option.splits)

lemma builtin_type_ascii:
  assumes "validateNode (BuiltinV1Contract ParseFile) n = []"
  shows "ascii (op_Type (dn_Operation n))"
proof -
  have "op_Type (dn_Operation n) \<in> {''control.start'', ''control.end'', ''control.branch'', ''task.python'', ''task.http'', ''task.rpc''}"
    using validateNode_spec [OF assms]
    by (auto simp: BuiltinV1Contract_def builtin_specs_def Operation_Coordinate_def split: if_splits)
  moreover have "list_all ascii [''control.start'', ''control.end'', ''control.branch'', ''task.python'', ''task.http'', ''task.rpc'']"
    by code_simp
  ultimately show ?thesis
    by auto
qed

text \<open>The graph, the branches and the references of a copy.\<close>

lemma clone_graph:
  assumes valid: "Validate (BuiltinV1Contract ParseFile) d = []" and clone: "cloneDocument d = Inr d'"
  shows "doc_Edges d' = doc_Edges d" and "doc_EntryNodeID d' = doc_EntryNodeID d"
    and "\<forall>m \<in> set (doc_Nodes d'). \<exists>n \<in> set (doc_Nodes d). clone_node n = Some m \<and> dn_ID m = dn_ID n \<and> (branch_node m \<longleftrightarrow> branch_node n)"
    and "\<forall>n \<in> set (doc_Nodes d). \<exists>m \<in> set (doc_Nodes d'). dn_ID m = dn_ID n \<and> (branch_node m \<longleftrightarrow> branch_node n)"
proof -
  have wf: "wf_document d" and nodes: "\<forall>n \<in> set (doc_Nodes d). validateNode (BuiltinV1Contract ParseFile) n = []"
    using valid by (simp_all add: Validate_empty)
  obtain ms where ms: "map clone_node (doc_Nodes d) = map Some ms" and d': "doc_Nodes d' = ms"
      "doc_Edges d' = map clone_edge (doc_Edges d)" "doc_EntryNodeID d' = clone_string (doc_EntryNodeID d)"
    using clone by (auto simp: cloneDocument_def those_Some split: option.splits)
  show "doc_Edges d' = doc_Edges d"
    using clone_edge_same [OF wf] by (simp add: d' map_idI)
  have "doc_EntryNodeID d \<in> doc_ids d"
    using wf node_of_ids [of d] unfolding wf_document_def doc_nodes_ok_def by (metis option.distinct(1))
  then show "doc_EntryNodeID d' = doc_EntryNodeID d"
    by (simp add: d' clone_ascii doc_id_ascii [OF wf])
  have same: "dn_ID m = dn_ID n \<and> (branch_node m \<longleftrightarrow> branch_node n)" if "n \<in> set (doc_Nodes d)" "clone_node n = Some m" for n m
    using clone_node_parts(1,2) [OF that(2)] builtin_type_ascii [of ParseFile n] nodes that(1) doc_id_ascii [OF wf, of "dn_ID n"]
    by (simp add: branch_node_def clone_ascii doc_ids_def)
  have images: "clone_node ` set (doc_Nodes d) = Some ` set ms"
    using arg_cong [where f = set, OF ms] by simp
  show "\<forall>m \<in> set (doc_Nodes d'). \<exists>n \<in> set (doc_Nodes d). clone_node n = Some m \<and> dn_ID m = dn_ID n \<and> (branch_node m \<longleftrightarrow> branch_node n)"
  proof
    fix m assume "m \<in> set (doc_Nodes d')"
    then have "Some m \<in> clone_node ` set (doc_Nodes d)"
      by (simp add: d' images)
    then obtain n where "n \<in> set (doc_Nodes d)" "clone_node n = Some m"
      by (metis imageE)
    then show "\<exists>n \<in> set (doc_Nodes d). clone_node n = Some m \<and> dn_ID m = dn_ID n \<and> (branch_node m \<longleftrightarrow> branch_node n)"
      using same by blast
  qed
  show "\<forall>n \<in> set (doc_Nodes d). \<exists>m \<in> set (doc_Nodes d'). dn_ID m = dn_ID n \<and> (branch_node m \<longleftrightarrow> branch_node n)"
  proof
    fix n assume n: "n \<in> set (doc_Nodes d)"
    then have "clone_node n \<in> Some ` set ms"
      using images by blast
    then show "\<exists>m \<in> set (doc_Nodes d'). dn_ID m = dn_ID n \<and> (branch_node m \<longleftrightarrow> branch_node n)"
      using same [OF n] by (auto simp: d')
  qed
qed

lemma clone_bindings_safe:
  assumes valid: "Validate (BuiltinV1Contract ParseFile) d = []" and clone: "cloneDocument d = Inr d'" and safe: "bindings_safe d"
  shows "bindings_safe d'"
  unfolding bindings_safe_def
proof (intro ballI, clarify)
  note graph = clone_graph [OF valid clone]
  have rel: "doc_rel d' = doc_rel d"
    using graph(1) by (simp add: doc_pairs_def)
  have active: "doc_active d' c v \<longleftrightarrow> doc_active d c v" for c v
  proof
    show "doc_active d' c v \<Longrightarrow> doc_active d c v"
      by (induction rule: doc_active.induct) (auto simp: graph(1,2) intro: doc_active.intros)
    show "doc_active d c v \<Longrightarrow> doc_active d' c v"
      by (induction rule: doc_active.induct) (use graph(1,2) doc_active.intros [of d' c] in auto)
  qed
  have choice: "doc_choice d c" if "doc_choice d' c" for c
    using that graph(1,4) unfolding doc_choice_def by metis
  have wf: "wf_document d"
    using valid by (simp add: Validate_empty)
  fix m name b out
  assume m: "m \<in> set (doc_Nodes d')" "(name, b) \<in> set (entries (dn_Inputs m))" "ib_Kind b = BindingNodeOutput" "ib_Output b = Some out"
  obtain n where n: "n \<in> set (doc_Nodes d)" "clone_node n = Some m" "dn_ID m = dn_ID n"
    using graph(3) m(1) by blast
  obtain name' b' where b': "(name', b') \<in> set (entries (dn_Inputs n))" "clone_binding b' = Some b"
    using clone_gomap_from [OF clone_node_parts(3) [OF n(2)] m(2)] by blast
  then obtain out' where out': "ib_Kind b' = BindingNodeOutput" "ib_Output b' = Some out'" "or_NodeID out = clone_string (or_NodeID out')"
    using m(3,4) by (cases "ib_Kind b'") (auto simp: clone_binding_def)
  have "or_NodeID out' \<in> doc_ids d"
    using wf n(1) b'(1) out'(1,2) node_of_ids [of d] unfolding wf_document_def doc_refs_ok_def by fastforce
  then have "or_NodeID out = or_NodeID out'"
    using out'(3) by (simp add: clone_ascii doc_id_ascii [OF wf])
  then show "(or_NodeID out, dn_ID m) \<in> (doc_rel d')\<^sup>+
      \<and> (\<forall>c. doc_choice d' c \<and> doc_active d' c (dn_ID m) \<longrightarrow> doc_active d' c (or_NodeID out))"
    using safe n(1,3) b'(1) out'(1,2) choice unfolding bindings_safe_def rel active by fastforce
qed

section \<open>Runs of compiled documents\<close>

lemma compiled_inputs_found:
  assumes compiler: "BuiltinV1 env ParseFile = Inr compiler" and compiled: "Compile env compiler request = Inr result"
    and reach: "reachable_engine ParseFile s cmd e" and doc: "snap_DSL s = cr_DSL result" and "small_budgets (cr_DSL result)"
  shows "inputs_found e"
proof (rule reachable_inputs_found [OF reach])
  have registry: "c_registry compiler = map (\<lambda>h. (h_NodeType h, h)) (builtin_handlers (env_texts env))"
      and contract: "c_dslContract compiler = BuiltinV1Contract ParseFile"
    using compiler by (auto simp: BuiltinV1_def builtin_registry Compiler_New_def split: if_splits)
  note correct = builtin.Compile_correct [OF compiled registry]
  show "bindings_safe d" if "cloneDocument (snap_DSL s) = Inr d" for d
    using clone_bindings_safe [OF correct(4) [unfolded contract] _ correct(2)] that doc by simp
qed (simp add: assms)

end
