(* ===== verification/Compiler_Sample.thy ===== *)
theory Compiler_Sample
  imports Compiler_Translation Engine_Sample
begin

text \<open>
  A concrete compilation for the instances of the properties: the smallest workflow, whose end returns the
  input of its start. The hash function of the instance is the reversed text, and one byte for a JSON object;
  nothing in the model relies on more than that it is a function. Every stage is evaluated on its own.
\<close>

section \<open>The request\<close>

definition tiny_env :: CompilerEnv where
  "tiny_env = \<lparr>env_sha256 = (\<lambda>text. if take 1 text = ''{'' then ''h'' else rev text),
     env_texts = \<lparr>jt_syntax = id, jt_quote = quoted\<rparr>, env_decode_error = id, env_raw_error = id\<rparr>"

definition control_contract :: "string \<Rightarrow> RuntimeContract" where
  "control_contract t = \<lparr>rc_Kind = CatalogControl, rc_OperationType = t, rc_OperationVersion = 1,
     rc_DefaultExecutionPolicy = \<lparr>epd_MaxAttempts = 0, epd_MaxRecoveries = 0, epd_AttemptTimeoutMS = 0,
       epd_RetryBackoffMS = 0, epd_RetryableErrorCodes = []\<rparr>\<rparr>"

definition tiny_catalog :: NodeCatalog where
  "tiny_catalog = \<lparr>nc_Revision = ''catalog-v1'', nc_ValidateNode = (\<lambda>n. []),
     nc_RuntimeContract = map_of [(''start'', control_contract ''control.start''), (''end'', control_contract ''control.end'')]\<rparr>"

definition tiny_ir :: IrDocument where
  "tiny_ir = \<lparr>ird_IRVersion = ''1'',
     ird_Nodes = [
       \<lparr>irn_ID = ''s'', irn_Type = ''start'', irn_Title = ''s'', irn_Inputs = Some [],
         irn_Outputs = Some [\<lparr>iro_Name = ''workflow_input'', iro_DataType = TypeObject\<rparr>]\<rparr>,
       \<lparr>irn_ID = ''e'', irn_Type = ''end'', irn_Title = ''e'',
         irn_Inputs = Some [\<lparr>iri_Name = ''workflow_output'', iri_DataType = TypeObject, iri_Source = SourceRef,
           iri_Value = None, iri_RefNode = ''s'', iri_RefOutput = ''workflow_input''\<rparr>], irn_Outputs = Some []\<rparr>],
     ird_Edges = [\<lparr>ire_ID = ''se'', ire_Source = ''s'', ire_Target = ''e'', ire_Route = ''''\<rparr>],
     ird_Layout = map (\<lambda>v. (v, \<lparr>pos_X = Some ''0'', pos_Y = Some ''0''\<rparr>)) [''s'', ''e'']\<rparr>"

definition tiny_request :: Request where
  "tiny_request = \<lparr>req_IR = tiny_ir, req_Catalog = Some tiny_catalog,
     req_Policy = \<lparr>cp_revision = ''policy-v1'', cp_overrides = []\<rparr>,
     req_Resources = \<lparr>res_connections = Map.empty, res_services = Map.empty, res_models = Map.empty\<rparr>\<rparr>"

definition tiny_compiler :: Compiler where
  "tiny_compiler = \<lparr>c_version = ''compiler-v1'',
     c_registry = map (\<lambda>h. (h_NodeType h, h)) (builtin_handlers (env_texts tiny_env)),
     c_dslContract = BuiltinV1Contract sample_parser, c_compatibility = BuiltinV1Compatibility\<rparr>"

lemma tiny_builtin: "BuiltinV1 tiny_env sample_parser = Inr tiny_compiler"
  by (simp add: BuiltinV1_def builtin_registry Compiler_New_def tiny_compiler_def BuiltinV1Contract_def VersionV1_def)

section \<open>The compiled document\<close>

definition tiny_start :: NodeID where "tiny_start = ''xn_730065646f6e0031762d6c73''"
definition tiny_end :: NodeID where "tiny_end = ''xn_650065646f6e0031762d6c73''"

definition tiny_end_node :: Node where
  "tiny_end_node = \<lparr>dn_ID = tiny_end, dn_Kind = KindControl,
     dn_Operation = \<lparr>op_Type = ''control.end'', op_Version = 1, op_Config = Some []\<rparr>,
     dn_Inputs = Some [(''workflow_output'', sample_reference tiny_start ''workflow_input'')],
     dn_Outputs = Some [], dn_ExecutionPolicy = zero_policy\<rparr>"

definition tiny_start_node :: Node where
  "tiny_start_node = \<lparr>dn_ID = tiny_start, dn_Kind = KindControl,
     dn_Operation = \<lparr>op_Type = ''control.start'', op_Version = 1, op_Config = Some []\<rparr>,
     dn_Inputs = Some [], dn_Outputs = Some [(''workflow_input'', TypeObject)], dn_ExecutionPolicy = zero_policy\<rparr>"

definition tiny_edge :: Edge where
  "tiny_edge = \<lparr>edge_ID = ''xe_657300656764650031762d6c'', edge_SourceNodeID = tiny_start, edge_TargetNodeID = tiny_end,
     edge_Activation = \<lparr>act_Kind = ActivationAlways, act_Route = ''''\<rparr>\<rparr>"

definition tiny_document :: Document where
  "tiny_document = \<lparr>doc_DSLVersion = ''1'', doc_EntryNodeID = tiny_start, doc_ExitNodeID = tiny_end,
     doc_Nodes = [tiny_end_node, tiny_start_node], doc_Edges = [tiny_edge]\<rparr>"

definition tiny_map :: SourceMap where
  "tiny_map = \<lparr>sm_SourceMapVersion = ''1'', sm_Nodes = [(tiny_start, ''s''), (tiny_end, ''e'')],
     sm_Edges = [(''xe_657300656764650031762d6c'', ''se'')],
     sm_Fields = [(tiny_start, [(''outputs.workflow_input'', ''outputs.workflow_input'')]),
       (tiny_end, [(''inputs.workflow_output'', ''inputs.workflow_output'')])]\<rparr>"

definition tiny_manifest :: Manifest where
  "tiny_manifest = \<lparr>man_CompilerVersion = ''compiler-v1'', man_CatalogRevision = ''catalog-v1'', man_PolicyRevision = ''policy-v1''\<rparr>"

section \<open>The stages\<close>

lemma tiny_accepted:
  "\<not> HasErrors (Ir_Validate (env_decode_error tiny_env) \<lparr>irv_nodeContracts = Some (nc_ValidateNode tiny_catalog)\<rparr> tiny_ir)"
  by code_simp

lemma tiny_graph: "\<not> HasErrors (snd (analyzeControlGraph tiny_ir))"
  by code_simp

lemma tiny_bindings: "\<not> HasErrors (validateDataBindings tiny_ir (fst (analyzeControlGraph tiny_ir)))"
  by code_simp

lemma tiny_ends: "ga_start (fst (analyzeControlGraph tiny_ir)) = ''s''" "ga_end (fst (analyzeControlGraph tiny_ir)) = ''e''"
  by code_simp+

lemma tiny_source: "irn_Type (node_in (fst (analyzeControlGraph tiny_ir)) ''s'') = ''start''"
  by code_simp

lemma tiny_ids:
  "buildExecutionIDs tiny_env tiny_ir = ([(''s'', tiny_start), (''e'', tiny_end)], [(''se'', ''xe_657300656764650031762d6c'')], [])"
  by code_simp

lemma tiny_nodes:
  "compile_node tiny_compiler tiny_request tiny_catalog [(''s'', tiny_start), (''e'', tiny_end)] (0, ird_Nodes tiny_ir ! 0)
     = ([], Some (tiny_start_node, [(''outputs.workflow_input'', ''outputs.workflow_input'')]))"
  "compile_node tiny_compiler tiny_request tiny_catalog [(''s'', tiny_start), (''e'', tiny_end)] (1, ird_Nodes tiny_ir ! 1)
     = ([], Some (tiny_end_node, [(''inputs.workflow_output'', ''inputs.workflow_output'')]))"
  by code_simp+

lemma tiny_checks:
  "Validate (BuiltinV1Contract sample_parser) tiny_document = []" "CheckAll BuiltinV1Compatibility tiny_document = []"
  "ValidateSourceMap tiny_document tiny_map = []"
  by code_simp+

section \<open>The hashes\<close>

lemma tiny_ir_hash: "map_sum (\<lambda>e. ()) snd (CanonicalDocumentHash tiny_env tiny_ir) = Inr ''68''"
  by code_simp

lemma tiny_dsl_hash:
  "map_sum (\<lambda>e. ()) snd (canonicalHash tiny_env (marshal_Document (env_raw_error tiny_env) tiny_document)) = Inr ''68''"
  by code_simp

lemma tiny_map_hash: "map_sum (\<lambda>e. ()) snd (canonicalHash tiny_env (marshal_SourceMap tiny_map)) = Inr ''68''"
  by code_simp

lemma tiny_definition_hash:
  "map_sum (\<lambda>e. ()) snd (canonicalHash tiny_env (marshal_envelope ''68'' ''68'' ''68'' tiny_manifest)) = Inr ''68''"
  by code_simp

lemma map_sum_snd: "map_sum f snd r = Inr h \<Longrightarrow> \<exists>c. r = Inr (c, h)"
  by (cases r) auto

section \<open>The compilation\<close>

lemma tiny_finalized:
  assumes "cr_DSL result = tiny_document" and "cr_SourceMap result = tiny_map" and "cr_Manifest result = tiny_manifest"
  shows "\<exists>final. finalizeHashes tiny_env tiny_ir result = Inr final"
  using map_sum_snd [OF tiny_ir_hash] map_sum_snd [OF tiny_dsl_hash] map_sum_snd [OF tiny_map_hash] map_sum_snd [OF tiny_definition_hash]
  by (auto simp: finalizeHashes_def assms)

definition tiny_assembled :: CompileResult where
  "tiny_assembled = \<lparr>cr_DSL = tiny_document, cr_SourceMap = tiny_map, cr_Manifest = tiny_manifest, cr_Hashes = no_hashes,
     cr_CanonicalIR = [], cr_CanonicalDSL = [], cr_CanonicalSourceMap = []\<rparr>"

lemma tiny_assemble:
  "assemble tiny_compiler tiny_request tiny_catalog (fst (analyzeControlGraph tiny_ir)) [(''s'', tiny_start), (''e'', tiny_end)]
     [(''se'', ''xe_657300656764650031762d6c'')]
     [(ird_Nodes tiny_ir ! 0, tiny_start_node, [(''outputs.workflow_input'', ''outputs.workflow_input'')]),
      (ird_Nodes tiny_ir ! 1, tiny_end_node, [(''inputs.workflow_output'', ''inputs.workflow_output'')])] = tiny_assembled"
  (is "assemble _ _ _ ?graph ?nodes ?edges _ = _")
proof -
  have listed: "ird_Edges tiny_ir = [\<lparr>ire_ID = ''se'', ire_Source = ''s'', ire_Target = ''e'', ire_Route = ''''\<rparr>]"
      "irn_ID (ird_Nodes tiny_ir ! 0) = ''s''" "irn_ID (ird_Nodes tiny_ir ! 1) = ''e''"
    by (simp_all add: tiny_ir_def)
  have edges: "map (compile_edge ?graph ?nodes ?edges) (ird_Edges tiny_ir) = [tiny_edge]"
    using tiny_source by (simp add: listed compile_edge_def id_at_def tiny_edge_def)
  have "\<not> tiny_start \<le> tiny_end" "tiny_start \<noteq> tiny_end"
    by code_simp+
  then have nodes: "sort_key dn_ID [tiny_start_node, tiny_end_node] = [tiny_end_node, tiny_start_node]"
      and ids: "dn_ID tiny_start_node = tiny_start" "dn_ID tiny_end_node = tiny_end" "tiny_start \<noteq> tiny_end"
    by (simp_all add: tiny_start_node_def tiny_end_node_def)
  have parts: "req_IR tiny_request = tiny_ir" "c_version tiny_compiler = ''compiler-v1''" "nc_Revision tiny_catalog = ''catalog-v1''"
      "cp_revision (req_Policy tiny_request) = ''policy-v1''"
    by (simp_all add: tiny_request_def tiny_compiler_def tiny_catalog_def)
  show ?thesis
    unfolding assemble_def Let_def tiny_assembled_def tiny_document_def tiny_map_def tiny_manifest_def parts tiny_ends edges
    using nodes ids listed by (simp add: id_at_def VersionV1_def SourceMapVersionV1_def)
qed

lemma tiny_compiled: "\<exists>result. Compile tiny_env tiny_compiler tiny_request = Inr result \<and> cr_DSL result = tiny_document"
proof -
  let ?graph = "fst (analyzeControlGraph tiny_ir)"
  have request: "req_IR tiny_request = tiny_ir" "req_Catalog tiny_request = Some tiny_catalog" "cp_revision (req_Policy tiny_request) \<noteq> ''''"
    by (simp_all add: tiny_request_def)
  have turns: "map f (enumerate 0 (ird_Nodes tiny_ir)) = [f (0, ird_Nodes tiny_ir ! 0), f (1, ird_Nodes tiny_ir ! 1)]"
      for f :: "nat \<times> IrNode \<Rightarrow> IrNode \<times> Diagnostic list \<times> (Node \<times> (string, string) gomap) option"
    by (simp add: tiny_ir_def)
  obtain final where final: "finalizeHashes tiny_env tiny_ir tiny_assembled = Inr final"
    using tiny_finalized [of tiny_assembled] by (auto simp: tiny_assembled_def)
  have "compile_graph tiny_env tiny_compiler tiny_request tiny_catalog ?graph = check_result tiny_env tiny_compiler tiny_ir tiny_assembled"
    unfolding compile_graph_def Let_def request tiny_ids turns prod.case tiny_nodes
    using tiny_assemble by (simp add: HasErrors_def)
  also have "\<dots> = Inr final"
    using tiny_checks final by (simp add: check_result_def Let_def tiny_assembled_def tiny_compiler_def)
  finally have "Compile tiny_env tiny_compiler tiny_request = Inr final"
    using tiny_accepted tiny_graph tiny_bindings request by (simp add: Compile_def Let_def case_prod_unfold)
  moreover have "cr_DSL final = tiny_document"
    using finalizeHashes_keeps [OF final] by (simp add: tiny_assembled_def)
  ultimately show ?thesis
    by blast
qed

section \<open>A run of the compiled document\<close>

definition tiny_snapshot :: Snapshot where
  "tiny_snapshot = \<lparr>snap_ID = ''s1'', snap_DefinitionHash = ''68'', snap_DSL = tiny_document\<rparr>"

definition tiny_command :: CreateRunCommand where
  "tiny_command = sample_command\<lparr>cmd_Definition := (cmd_Definition sample_command)\<lparr>dr_DefinitionHash := ''68''\<rparr>\<rparr>"

lemma tiny_small: "small_budgets tiny_document"
  by (simp add: small_budgets_def tiny_document_def tiny_start_node_def tiny_end_node_def zero_policy_def)

lemma tiny_new: "map_sum (\<lambda>e. ()) (\<lambda>e. run_state (eng_run e)) (NewBuiltinV1 sample_parser tiny_snapshot tiny_command) = Inr RunSucceeded"
  by code_simp

lemma tiny_run: "\<exists>e. reachable_engine sample_parser tiny_snapshot tiny_command e \<and> run_state (eng_run e) = RunSucceeded"
proof (cases "NewBuiltinV1 sample_parser tiny_snapshot tiny_command")
  case (Inr e)
  then show ?thesis
    using tiny_new by (auto simp: reachable_engine_def)
qed (use tiny_new in simp)

end
