(* ===== verification/Spec2Isabelle.thy ===== *)
theory Spec2Isabelle
  imports Runtime_Properties Engine_Properties Dsl_Properties Scheduling_Properties Compiler_Properties Catalog_Properties
    Branch_Accept Compiled_Runs Compiler_Sample
begin

text \<open>
  \<^bold>\<open>EvalFrog: a verification library of the workflow runtime.\<close>

  EvalFrog takes a workflow that an author drew (the IR document), compiles it into an executable document (the
  DSL), runs it with an engine that activates nodes along the edges, and hands the tasks of all running workflows to
  workers through a scheduler that is fair between projects. The library models the Go packages that decide
  something, under \<^verbatim>\<open>src/internal\<close>; the packages around them move bytes.

  \<^bold>\<open>How the parts interact.\<close> An author's document is inspected and validated (\<^verbatim>\<open>ir\<close>) against a catalog of node
  types (\<^verbatim>\<open>catalog\<close>). The compiler (\<^verbatim>\<open>compiler\<close>) analyses its control graph, decides with decision diagrams
  whether a binding can miss its source for some choice of branch routes, translates every node with the handler of its
  type, and checks the result with the contract of executable documents (\<^verbatim>\<open>dsl\<close>) and a source map back to the
  author's names (\<^verbatim>\<open>sourcemap\<close>). The engine (\<^verbatim>\<open>runtime/engine\<close>) keeps a run, its node runs and their attempts
  (\<^verbatim>\<open>runtime\<close>), evaluates branches, accepts completions of attempts, retries, recovers, cancels and times out, and can
  be stored and restored. The scheduler (\<^verbatim>\<open>scheduling\<close>) turns queued attempts of many projects into admissions.

  \<^bold>\<open>Theories, in the order of their imports.\<close>

  \<^item> \<^verbatim>\<open>Prelude\<close>: errors as values (\<open>go_error\<close>, \<open>result\<close>), Go maps as association lists (\<open>gomap\<close>), decimal texts, and the
    lemmas on association lists that all components use. \<^verbatim>\<open>Json\<close>: the grammar of \<^verbatim>\<open>encoding/json\<close> with its limits,
    exact rationals of number literals and UTF-8. \<^verbatim>\<open>Json_Marshal\<close>: encoding of strings, structs and maps.

  \<^item> \<^verbatim>\<open>Runtime_Model\<close>, \<^verbatim>\<open>Runtime_Laws\<close>, \<^verbatim>\<open>Runtime_Records\<close>, \<^verbatim>\<open>Runtime_Properties\<close>: \<^verbatim>\<open>runtime/model.go\<close>,
    \<^verbatim>\<open>transitions.go\<close>, \<^verbatim>\<open>errors.go\<close>, \<^verbatim>\<open>records.go\<close>. A run, a node run and an attempt are records, each method a function
    that returns the updated record or an error; versions are 64-bit words. The locale \<open>versioned_machine\<close> states once what a
    versioned aggregate promises and is interpreted for runs, node runs and attempts. Shown: life-cycle invariants of all
    reachable states, finality of terminal states and of the first termination intent, idempotent completion, versions that
    detect every change up to their wrap-around, and persistence round trips.

  \<^item> \<^verbatim>\<open>Dsl_Model\<close>, \<^verbatim>\<open>Branch\<close>, \<^verbatim>\<open>Sandbox_Source\<close>, \<^verbatim>\<open>Dsl_Validator\<close>, \<^verbatim>\<open>Graph_Search\<close>, \<^verbatim>\<open>Dsl_Graph\<close>,
    \<^verbatim>\<open>Dsl_Properties\<close>: \<^verbatim>\<open>dsl/*.go\<close>, \<^verbatim>\<open>runtime/engine/branch.go\<close>, \<^verbatim>\<open>sandbox/source.go\<close>. \<^verbatim>\<open>Graph_Search\<close> holds the
    locales \<open>stack_search\<close> and \<open>topological_sweep\<close>, the contracts of a work-list search and of Kahn's algorithm; the loops
    of the validator and those of the compiler are their interpretations. Shown: the validator accepts exactly the
    well-formed documents; its loops end and compute closures; branches take their first match and compare meanings.

  \<^item> \<^verbatim>\<open>Ir_Model\<close>, \<^verbatim>\<open>Canonical\<close>, \<^verbatim>\<open>Source_Map\<close>: \<^verbatim>\<open>ir/*.go\<close>, \<^verbatim>\<open>sourcemap/*.go\<close>. Author documents, diagnostics and
    their validator; inspection of a JSON text, its canonical form and hash; the source map, its resolution and validation.

  \<^item> \<^verbatim>\<open>Decision_Diagram\<close>, \<^verbatim>\<open>Decision_Laws\<close>, \<^verbatim>\<open>Control_Graph\<close>, \<^verbatim>\<open>Control_Laws\<close>, \<^verbatim>\<open>Activation_Laws\<close>,
    \<^verbatim>\<open>Control_Accept\<close>, \<^verbatim>\<open>Doc_Activation\<close>: \<^verbatim>\<open>compiler/activation.go\<close>, \<^verbatim>\<open>controlgraph.go\<close>. The diagrams denote Boolean
    functions of the routes of the branches; activation of a node under a choice of routes is an inductive predicate,
    once for author documents and once for executable documents; the analysis is shown to decide it.

  \<^item> \<^verbatim>\<open>Compiler_Model\<close>, \<^verbatim>\<open>Compiler_Handlers\<close>, \<^verbatim>\<open>Compiler_Pipeline\<close>, \<^verbatim>\<open>Compiler_Laws\<close>, \<^verbatim>\<open>Compiler_Translation\<close>,
    \<^verbatim>\<open>Compiler_Properties\<close>, \<^verbatim>\<open>Compiler_Sample\<close>: \<^verbatim>\<open>compiler/model.go\<close>, \<^verbatim>\<open>policy.go\<close>, \<^verbatim>\<open>registry.go\<close>, \<^verbatim>\<open>resources.go\<close>,
    \<^verbatim>\<open>handlers.go\<close>, \<^verbatim>\<open>compiler.go\<close>. The locales \<open>node_handler\<close> and \<open>handler_registry\<close> state what the pipeline needs of
    a handler and of a registry; the six handlers and the built-in registry are their interpretations. Shown: a compilation
    fails with an error or returns the author's graph under an injective renaming, valid for the engine, with safe bindings
    and a complete source map. \<^verbatim>\<open>Compiler_Sample\<close> evaluates one compilation from request to hashes.

  \<^item> \<^verbatim>\<open>Catalog\<close>, \<^verbatim>\<open>Catalog_Builtins\<close>, \<^verbatim>\<open>Catalog_Properties\<close>: \<^verbatim>\<open>catalog/*.go\<close>. Descriptions of node types, building a catalog,
    validating a node, and the six contracts. Shown: the built-in catalog agrees with the registry and the contract,
    accepts its own examples, and has the contract's rule for branch cases.

  \<^item> \<^verbatim>\<open>Document_Clone\<close>, \<^verbatim>\<open>Engine\<close>, \<^verbatim>\<open>Engine_Steps\<close>, \<^verbatim>\<open>Engine_Invariant\<close>, \<^verbatim>\<open>Engine_Operations\<close>, \<^verbatim>\<open>Engine_New\<close>,
    \<^verbatim>\<open>Engine_Versions\<close>, \<^verbatim>\<open>Engine_State\<close>, \<^verbatim>\<open>Engine_Outcome\<close>, \<^verbatim>\<open>Engine_Liveness\<close>, \<^verbatim>\<open>Engine_Winddown\<close>, \<^verbatim>\<open>Engine_Flow\<close>,
    \<^verbatim>\<open>Engine_Sample\<close>, \<^verbatim>\<open>Engine_Properties\<close>: \<^verbatim>\<open>runtime/engine/engine.go\<close>, \<^verbatim>\<open>state.go\<close>. The engine is a record, every method a
    function on it; \<open>advance\<close> is the inductive relation of the elementary steps that all methods are made of, and
    \<open>reachable_engine\<close> the engines that a history of method calls can reach. Shown by rule induction: the engine
    invariant, budgets, finality, fail-fast, success exactly at the end node, the flow of activation along one choice of
    routes, cancellation that always gets through, and restart from the persisted state.

  \<^item> \<^verbatim>\<open>Branch_Accept\<close>, \<^verbatim>\<open>Compiled_Runs\<close>: what the validator promises to the evaluation of branches, and what the compiler
    promises to every run of a compiled document. Their properties are in this theory.

  \<^item> \<^verbatim>\<open>Scheduling_Model\<close>, \<^verbatim>\<open>Planner\<close>, \<^verbatim>\<open>Planner_Laws\<close>, \<^verbatim>\<open>Scheduler_Service\<close>, \<^verbatim>\<open>Scheduler_Laws\<close>,
    \<^verbatim>\<open>Scheduling_Properties\<close>: \<^verbatim>\<open>scheduling/model.go\<close>, \<^verbatim>\<open>planner.go\<close>, \<^verbatim>\<open>scheduler.go\<close>. The planner refines progressive
    filling between the heads of the queues and stays within the windows; a candidate without room holds up what stands
    behind it in its project; a rebalance fails closed; an admission dispatches each reservation or asks the store to take
    it back, and drops the error when the store refuses.

  \<^bold>\<open>Bounds and fuel.\<close> The JSON parser recurses on a fuel of the length of the text; \<open>parse_value_fuel\<close> shows that more
  does not change its result, and the nesting limit of the library is part of the grammar. Scanning of UTF-8 and of escapes
  has the length of the text as its fuel, and each step consumes a byte. Operations on decision diagrams have the number of
  variables and two as fuel; in well-formed managers the error of running out is never returned, and the limit on the number
  of diagram nodes is an error of the code. The search loops end by measures on what is left to visit. The engine's loops
  are folds over the nodes and attempts it has, or recursions with measures; none needs fuel.

  \<^bold>\<open>Parameters.\<close> Code outside the repository is an argument of the definitions that use it: SHA-256, the texts of errors of
  \<^verbatim>\<open>encoding/json\<close> and the \<^verbatim>\<open>%q\<close> verb, regular expressions of the catalog, the Python parser (\<open>ParseFile\<close>), and the
  coordination store and authority of the scheduler, whose order of lanes is an argument as well. Times are integers of
  nanoseconds; identifiers come from the caller as in the code.

  \<^bold>\<open>Not modelled.\<close> \<^verbatim>\<open>ir.ParseDraft\<close> decodes a document by reflection; the model starts from decoded documents. Definitions,
  projections, events, attempts and recovery are transactions over SQL stores; the adapters (\<^verbatim>\<open>adapters\<close>) are SQL, Lua and
  network code; workers execute HTTP, RPC and containers; platform, command line and \<^verbatim>\<open>cmd\<close> are start-up and configuration.
  Contexts, cancellation of calls and data races are left out: every operation runs to its end, which in the engine and the
  scheduler is what their callers guarantee by a transaction or a lease. The lanes of a rebalance, which the code visits in
  parallel, are visited one after another in an arbitrary order. Sorts are stable where \<^verbatim>\<open>sort.Slice\<close> leaves the order of
  equal elements open. When the engine clones a document, the nesting limit of \<^verbatim>\<open>encoding/json\<close> applies to each embedded
  value by itself, so that a few depths just below the limit are accepted which the code refuses.
\<close>

section \<open>From the author's document to the end of a run\<close>

text \<open>C1: No run of a compiled document fails for a missing input. Whatever document the compiler of the built-in
  registry accepts and whatever the workers, cancellations, deadlines, retries and recoveries of a run do, no node run
  of an engine for the compiled document ever has a failure of the input-binding phase: the compiler's analysis of the
  author's graph and the engine's activation of the executable graph agree on which outputs are there.\<close>

theorem compiled_inputs_available:
  assumes "BuiltinV1 env ParseFile = Inr compiler" and "Compile env compiler request = Inr result"
    and "snap_DSL s = cr_DSL result" and "small_budgets (cr_DSL result)" and "reachable_engine ParseFile s cmd e"
  shows "\<forall>v n f. map_of (eng_nodes e) v = Some n \<and> node_failure n = Some f \<longrightarrow> fail_Phase f \<noteq> ''input_binding''"
  using compiled_inputs_found [OF assms(1,2,5,3,4)] unfolding inputs_found_def by blast

theorem compiled_inputs_available_witness:
  "\<exists>result e. BuiltinV1 tiny_env sample_parser = Inr tiny_compiler \<and> Compile tiny_env tiny_compiler tiny_request = Inr result
     \<and> snap_DSL tiny_snapshot = cr_DSL result \<and> small_budgets (cr_DSL result)
     \<and> reachable_engine sample_parser tiny_snapshot tiny_command e \<and> run_state (eng_run e) = RunSucceeded
     \<and> (\<forall>v n f. map_of (eng_nodes e) v = Some n \<and> node_failure n = Some f \<longrightarrow> fail_Phase f \<noteq> ''input_binding'')"
proof -
  obtain result where result: "Compile tiny_env tiny_compiler tiny_request = Inr result" "cr_DSL result = tiny_document"
    using tiny_compiled by blast
  obtain e where e: "reachable_engine sample_parser tiny_snapshot tiny_command e" "run_state (eng_run e) = RunSucceeded"
    using tiny_run by blast
  have s: "snap_DSL tiny_snapshot = cr_DSL result" "small_budgets (cr_DSL result)"
    using result(2) tiny_small by (simp_all add: tiny_snapshot_def)
  show ?thesis
    using compiled_inputs_available [OF tiny_builtin result(1) s e(1)] tiny_builtin result(1) s e by blast
qed

section \<open>From the validator to the engine\<close>

text \<open>C20: The validator's promise to the engine on branches. Take a branch node that the built-in contract accepts, whose
  cases decode, and a value of the data type declared for it, all numbers being in the range of exact rationals. Evaluating
  the branch in the engine then selects one of the routes the node declares, never the empty one; the only way it can
  fail is a case with a path, which the value may not have: no comparison of a case without a path is ever refused.\<close>

theorem accepted_branch_defined:
  assumes "validateNode (BuiltinV1Contract ParseFile) node = []" and "op_Type (dn_Operation node) = ''control.branch''"
    and "map_of (entries (dn_Inputs node)) ''value'' = Some b"
    and "unmarshal_cases (config_raw node ''cases'') = Some cs"
    and "\<forall>c \<in> set cs. \<forall>w. bc_Value c = Some w \<longrightarrow> rational_literals w"
    and "decode_first raw = Some v" and "rational_literals v"
    and "dsl_json_type v = Some t" and "compatible t (ib_DataType b)"
  shows "case evaluateBranch node raw of
      Inr route \<Rightarrow> route \<in> set (declared_routes node) \<and> route \<noteq> ''''
    | Inl e \<Rightarrow> (\<exists>c \<in> set cs. bc_Path c \<noteq> '''')"
proof -
  have valid: "validateBranchConfig node = []"
    by (rule builtin_control(1) [OF assms(1,2)])
  have v: "decodeJSON raw = Some (to_any v)" "decoded (to_any v)" "dsl_json_type (to_any v) = Some t"
      "compatible t (ib_DataType (value_binding node))"
    using assms(3,6-9) decoded_to_any by (simp_all add: decodeJSON_def value_binding_def)
  show ?thesis
    using evaluateBranch_paths [OF valid assms(4) v assms(5)] evaluateBranch_declared evaluateBranch_nonempty [OF _ valid]
    by (auto split: sum.splits)
qed

definition score_branch :: Node where
  "score_branch = \<lparr>dn_ID = ''xn_000000000000000000000001'', dn_Kind = KindControl,
     dn_Operation = \<lparr>op_Type = ''control.branch'', op_Version = 1,
       op_Config = Some [
         (''cases'', ''[{'' @ quoted ''route'' @ '':'' @ quoted ''ok'' @ '','' @ quoted ''operator'' @ '':'' @ quoted ''gte''
            @ '','' @ quoted ''value'' @ '':80}]''),
         (''default_route'', quoted ''no'')]\<rparr>,
     dn_Inputs = Some [(''value'', \<lparr>ib_Kind = BindingLiteral, ib_DataType = TypeNumber, ib_Value = ''85'', ib_Output = None\<rparr>)],
     dn_Outputs = Some [], dn_ExecutionPolicy = zero_policy\<rparr>"

theorem accepted_branch_defined_witness:
  "case evaluateBranch score_branch ''8.5e1'' of
      Inr route \<Rightarrow> route \<in> set (declared_routes score_branch) \<and> route \<noteq> '''' | Inl e \<Rightarrow> False"
proof -
  have "validateNode (BuiltinV1Contract sample_parser) score_branch = []" "op_Type (dn_Operation score_branch) = ''control.branch''"
    "map_of (entries (dn_Inputs score_branch)) ''value''
       = Some \<lparr>ib_Kind = BindingLiteral, ib_DataType = TypeNumber, ib_Value = ''85'', ib_Output = None\<rparr>"
    "unmarshal_cases (config_raw score_branch ''cases'')
       = Some [\<lparr>bc_Route = ''ok'', bc_Path = '''', bc_Operator = ''gte'', bc_Value = Some (JNumber ''80'')\<rparr>]"
    "decode_first ''8.5e1'' = Some (JNumber ''8.5e1'')" "rational_literals (JNumber ''8.5e1'')" "rational_literals (JNumber ''80'')"
    "dsl_json_type (JNumber ''8.5e1'') = Some TypeInteger"
    by code_simp+
  note facts = this
  show ?thesis
    using accepted_branch_defined [OF facts(1-4) _ facts(5,6,8)] facts(7) by (simp add: compatible_def split: sum.splits)
qed

end
